(* ===== verification/Ubus_Prelude.thy ===== *)
theory Ubus_Prelude
  imports Main "HOL-Library.Word" "HOL-Library.Char_ord" "HOL-Library.List_Lexorder"
begin

text \<open>
  Shared vocabulary of the development: names for the C integer types, the theorem
  collections the component theories fill, and generic lemmas on lists, words and finite
  maps that several components use.

  \<^item> \<open>lcp\<close> is the length of the longest common prefix of two strings. The sorted pattern
    and access-control trees are scanned by it.
  \<^item> \<open>msum\<close> adds up a measure over the values of a finite map. Reference counts are
    compared with it.
\<close>

type_synonym u8 = "8 word"
type_synonym u16 = "16 word"
type_synonym u32 = "32 word"
type_synonym addr = nat

named_theorems ubus_frame "fields of the state that an operation leaves alone"
named_theorems ubus_wire "laws of the byte encodings"

subsection \<open>Longest common prefix\<close>

fun lcp :: "'a list \<Rightarrow> 'a list \<Rightarrow> nat" where
  "lcp (x # xs) (y # ys) = (if x = y then Suc (lcp xs ys) else 0)"
| "lcp _ _ = 0"

lemma lcp_commute: "lcp xs ys = lcp ys xs"
  by (induction xs ys rule: lcp.induct) auto

lemma lcp_le_left: "lcp xs ys \<le> length xs"
  by (induction xs ys rule: lcp.induct) auto

lemma lcp_le_right: "lcp xs ys \<le> length ys"
  by (induction xs ys rule: lcp.induct) auto

lemma lcp_Nil [simp]: "lcp xs [] = 0" "lcp [] xs = 0"
  by (cases xs; simp)+

lemma lcp_take: "take (lcp xs ys) xs = take (lcp xs ys) ys"
  by (induction xs ys rule: lcp.induct) auto

text \<open>A key whose whole length is matched is a prefix, and the other way round.\<close>

lemma lcp_full_prefix: "lcp xs ys = length ys \<longleftrightarrow> (\<exists>zs. xs = ys @ zs)"
  by (induction xs ys rule: lcp.induct) auto

text \<open>A prefix sorts before the string it is a prefix of.\<close>

lemma prefix_less_eq: "(ys :: 'a :: linorder list) \<le> ys @ zs"
  by (induction ys) auto

text \<open>Below a string, the common prefix with it only grows along the order.\<close>

lemma lcp_mono:
  fixes a b c :: "'a :: linorder list"
  shows "a \<le> b \<Longrightarrow> b \<le> c \<Longrightarrow> lcp c a \<le> lcp c b"
proof (induction c a arbitrary: b rule: lcp.induct)
  case (1 x xs y ys)
  show ?case
  proof (cases b)
    case Nil
    with "1.prems" show ?thesis by simp
  next
    case (Cons z zs)
    with 1 show ?thesis by auto
  qed
qed auto

subsection \<open>Lists\<close>

lemma count_list_remove1_same [simp]:
  "x \<in> set xs \<Longrightarrow> count_list (remove1 x xs) x = count_list xs x - 1"
  by (induction xs) auto

lemma count_list_eq_0: "x \<notin> set xs \<Longrightarrow> count_list xs x = 0"
  by (simp add: count_list_0_iff)

lemma sorted_filter_fst:
  "sorted (map fst xs) \<Longrightarrow> sorted (map fst (filter P xs))"
  by (induction xs) auto

lemma distinct_filter_fst:
  "distinct (map fst xs) \<Longrightarrow> distinct (map fst (filter P xs))"
  by (induction xs) auto

subsection \<open>Sums over the values of a finite map\<close>

definition msum :: "('v \<Rightarrow> nat) \<Rightarrow> ('k \<rightharpoonup> 'v) \<Rightarrow> nat" where
  "msum f m = (\<Sum>k\<in>dom m. f (the (m k)))"

lemma msum_insert:
  assumes "finite (dom m)" and "m k = None"
  shows "msum f (m(k \<mapsto> v)) = msum f m + f v"
proof -
  have "(\<Sum>j\<in>dom m. f (the ((m(k \<mapsto> v)) j))) = (\<Sum>j\<in>dom m. f (the (m j)))"
    using assms(2) by (intro sum.cong) auto
  with assms show ?thesis
    by (simp add: msum_def sum.insert domIff)
qed

lemma msum_delete:
  assumes "finite (dom m)" and "m k = Some v"
  shows "msum f (m(k := None)) + f v = msum f m"
proof -
  have "m = (m(k := None))(k \<mapsto> v)"
    using assms(2) by auto
  then have "msum f m = msum f ((m(k := None))(k \<mapsto> v))"
    by simp
  also have "\<dots> = msum f (m(k := None)) + f v"
    using assms(1) by (intro msum_insert) auto
  finally show ?thesis by simp
qed

lemma msum_update:
  assumes "finite (dom m)" and "m k = Some v"
  shows "msum f (m(k \<mapsto> v')) + f v = msum f m + f v'"
proof -
  have "msum f (m(k \<mapsto> v')) = msum f ((m(k := None))(k \<mapsto> v'))"
    by simp
  also have "\<dots> = msum f (m(k := None)) + f v'"
    using assms(1) by (intro msum_insert) auto
  finally show ?thesis
    using msum_delete [OF assms, of f] by simp
qed

lemma msum_update_same:
  assumes "finite (dom m)" and "m k = Some v" and "f v' = f v"
  shows "msum f (m(k \<mapsto> v')) = msum f m"
  using msum_update [OF assms(1,2), of f v'] assms(3) by simp

lemma msum_0: "(\<And>k v. m k = Some v \<Longrightarrow> f v = 0) \<Longrightarrow> msum f m = 0"
  by (auto simp: msum_def intro!: sum.neutral)

lemma msum_ge:
  assumes "finite (dom m)" and "m k = Some v"
  shows "f v \<le> msum f m"
  using msum_delete [OF assms, of f] by simp

lemma finite_dom_upd [simp]: "finite (dom m) \<Longrightarrow> finite (dom (m(k := v)))"
  by (cases v) (simp_all add: dom_fun_upd)

end
