(* ===== verification/Ubus_Msg.thy ===== *)
theory Ubus_Msg
  imports Ubus_Prelude
begin

text \<open>
  The wire vocabulary of ubus (src/ubusmsg.h, src/ubus_common.h): the message types, the
  attribute and status enumerations, the eight-byte message header with its big-endian
  encoding, the values messages carry, and the string comparison that the pattern and
  access-control scans share.

  Blobs (the type-length-value format of libubox) are not part of this repository. A blob
  is either \<open>Built\<close>, the attributes a \<open>blob_put_*\<close> sequence wrote, or \<open>Raw\<close>, bytes received
  from a peer. How attributes become bytes and bytes become attributes is left to the
  environment (theory \<open>Ubus_Env\<close>).
\<close>

unbundle bit_operations_syntax

section \<open>Enumerations\<close>

datatype ubus_msg_type =
    UBUS_MSG_HELLO | UBUS_MSG_STATUS | UBUS_MSG_DATA | UBUS_MSG_PING
  | UBUS_MSG_LOOKUP | UBUS_MSG_INVOKE | UBUS_MSG_ADD_OBJECT | UBUS_MSG_REMOVE_OBJECT
  | UBUS_MSG_SUBSCRIBE | UBUS_MSG_UNSUBSCRIBE | UBUS_MSG_NOTIFY | UBUS_MSG_MONITOR

fun ubus_msg_code :: "ubus_msg_type \<Rightarrow> u8" where
  "ubus_msg_code UBUS_MSG_HELLO = 0"
| "ubus_msg_code UBUS_MSG_STATUS = 1"
| "ubus_msg_code UBUS_MSG_DATA = 2"
| "ubus_msg_code UBUS_MSG_PING = 3"
| "ubus_msg_code UBUS_MSG_LOOKUP = 4"
| "ubus_msg_code UBUS_MSG_INVOKE = 5"
| "ubus_msg_code UBUS_MSG_ADD_OBJECT = 6"
| "ubus_msg_code UBUS_MSG_REMOVE_OBJECT = 7"
| "ubus_msg_code UBUS_MSG_SUBSCRIBE = 8"
| "ubus_msg_code UBUS_MSG_UNSUBSCRIBE = 9"
| "ubus_msg_code UBUS_MSG_NOTIFY = 10"
| "ubus_msg_code UBUS_MSG_MONITOR = 11"

definition UBUS_MSG_LAST :: u8 where
  "UBUS_MSG_LAST = 12"

definition ubus_msg_types :: "ubus_msg_type list" where
  "ubus_msg_types =
    [UBUS_MSG_HELLO, UBUS_MSG_STATUS, UBUS_MSG_DATA, UBUS_MSG_PING, UBUS_MSG_LOOKUP,
     UBUS_MSG_INVOKE, UBUS_MSG_ADD_OBJECT, UBUS_MSG_REMOVE_OBJECT, UBUS_MSG_SUBSCRIBE,
     UBUS_MSG_UNSUBSCRIBE, UBUS_MSG_NOTIFY, UBUS_MSG_MONITOR]"

definition ubus_msg_of_code :: "u8 \<Rightarrow> ubus_msg_type option" where
  "ubus_msg_of_code c = find (\<lambda>t. ubus_msg_code t = c) ubus_msg_types"

datatype ubus_msg_attr =
    UBUS_ATTR_UNSPEC | UBUS_ATTR_STATUS | UBUS_ATTR_OBJPATH | UBUS_ATTR_OBJID
  | UBUS_ATTR_METHOD | UBUS_ATTR_OBJTYPE | UBUS_ATTR_SIGNATURE | UBUS_ATTR_DATA
  | UBUS_ATTR_TARGET | UBUS_ATTR_ACTIVE | UBUS_ATTR_NO_REPLY | UBUS_ATTR_SUBSCRIBERS
  | UBUS_ATTR_USER | UBUS_ATTR_GROUP

fun ubus_attr_code :: "ubus_msg_attr \<Rightarrow> nat" where
  "ubus_attr_code UBUS_ATTR_UNSPEC = 0"
| "ubus_attr_code UBUS_ATTR_STATUS = 1"
| "ubus_attr_code UBUS_ATTR_OBJPATH = 2"
| "ubus_attr_code UBUS_ATTR_OBJID = 3"
| "ubus_attr_code UBUS_ATTR_METHOD = 4"
| "ubus_attr_code UBUS_ATTR_OBJTYPE = 5"
| "ubus_attr_code UBUS_ATTR_SIGNATURE = 6"
| "ubus_attr_code UBUS_ATTR_DATA = 7"
| "ubus_attr_code UBUS_ATTR_TARGET = 8"
| "ubus_attr_code UBUS_ATTR_ACTIVE = 9"
| "ubus_attr_code UBUS_ATTR_NO_REPLY = 10"
| "ubus_attr_code UBUS_ATTR_SUBSCRIBERS = 11"
| "ubus_attr_code UBUS_ATTR_USER = 12"
| "ubus_attr_code UBUS_ATTR_GROUP = 13"

datatype ubus_monitor_attr =
    UBUS_MONITOR_CLIENT | UBUS_MONITOR_PEER | UBUS_MONITOR_SEND | UBUS_MONITOR_SEQ
  | UBUS_MONITOR_TYPE | UBUS_MONITOR_DATA

fun ubus_monitor_attr_code :: "ubus_monitor_attr \<Rightarrow> nat" where
  "ubus_monitor_attr_code UBUS_MONITOR_CLIENT = 0"
| "ubus_monitor_attr_code UBUS_MONITOR_PEER = 1"
| "ubus_monitor_attr_code UBUS_MONITOR_SEND = 2"
| "ubus_monitor_attr_code UBUS_MONITOR_SEQ = 3"
| "ubus_monitor_attr_code UBUS_MONITOR_TYPE = 4"
| "ubus_monitor_attr_code UBUS_MONITOR_DATA = 5"

datatype ubus_msg_status =
    UBUS_STATUS_OK | UBUS_STATUS_INVALID_COMMAND | UBUS_STATUS_INVALID_ARGUMENT
  | UBUS_STATUS_METHOD_NOT_FOUND | UBUS_STATUS_NOT_FOUND | UBUS_STATUS_NO_DATA
  | UBUS_STATUS_PERMISSION_DENIED | UBUS_STATUS_TIMEOUT | UBUS_STATUS_NOT_SUPPORTED
  | UBUS_STATUS_UNKNOWN_ERROR | UBUS_STATUS_CONNECTION_FAILED | UBUS_STATUS_NO_MEMORY
  | UBUS_STATUS_PARSE_ERROR | UBUS_STATUS_SYSTEM_ERROR

fun ubus_status_code :: "ubus_msg_status \<Rightarrow> u32" where
  "ubus_status_code UBUS_STATUS_OK = 0"
| "ubus_status_code UBUS_STATUS_INVALID_COMMAND = 1"
| "ubus_status_code UBUS_STATUS_INVALID_ARGUMENT = 2"
| "ubus_status_code UBUS_STATUS_METHOD_NOT_FOUND = 3"
| "ubus_status_code UBUS_STATUS_NOT_FOUND = 4"
| "ubus_status_code UBUS_STATUS_NO_DATA = 5"
| "ubus_status_code UBUS_STATUS_PERMISSION_DENIED = 6"
| "ubus_status_code UBUS_STATUS_TIMEOUT = 7"
| "ubus_status_code UBUS_STATUS_NOT_SUPPORTED = 8"
| "ubus_status_code UBUS_STATUS_UNKNOWN_ERROR = 9"
| "ubus_status_code UBUS_STATUS_CONNECTION_FAILED = 10"
| "ubus_status_code UBUS_STATUS_NO_MEMORY = 11"
| "ubus_status_code UBUS_STATUS_PARSE_ERROR = 12"
| "ubus_status_code UBUS_STATUS_SYSTEM_ERROR = 13"

definition UBUS_CLIENT_ID_CHANNEL :: u32 where "UBUS_CLIENT_ID_CHANNEL = 1"
definition UBUS_SYSTEM_OBJECT_EVENT :: u32 where "UBUS_SYSTEM_OBJECT_EVENT = 1"
definition UBUS_SYSTEM_OBJECT_ACL :: u32 where "UBUS_SYSTEM_OBJECT_ACL = 2"
definition UBUS_SYSTEM_OBJECT_MONITOR :: u32 where "UBUS_SYSTEM_OBJECT_MONITOR = 3"
definition UBUS_SYSTEM_OBJECT_MAX :: u32 where "UBUS_SYSTEM_OBJECT_MAX = 1024"

text \<open>The limit that src/CMakeLists.txt passes to both the daemon and the library.\<close>

definition UBUS_MAX_MSGLEN :: nat where
  "UBUS_MAX_MSGLEN = 1048576"

lemmas ubus_const_defs =
  UBUS_MSG_LAST_def UBUS_CLIENT_ID_CHANNEL_def UBUS_SYSTEM_OBJECT_EVENT_def
  UBUS_SYSTEM_OBJECT_ACL_def UBUS_SYSTEM_OBJECT_MONITOR_def UBUS_SYSTEM_OBJECT_MAX_def
  UBUS_MAX_MSGLEN_def

section \<open>The message header and its encoding\<close>

record ubus_msghdr =
  hdr_version :: u8
  hdr_type :: u8
  hdr_seq :: u16
  hdr_peer :: u32

definition be16_bytes :: "u16 \<Rightarrow> u8 list" where
  "be16_bytes w = [ucast (drop_bit 8 w), ucast w]"

definition be32_bytes :: "u32 \<Rightarrow> u8 list" where
  "be32_bytes w = [ucast (drop_bit 24 w), ucast (drop_bit 16 w), ucast (drop_bit 8 w), ucast w]"

definition be16_of :: "u8 \<Rightarrow> u8 \<Rightarrow> u16" where
  "be16_of a b = push_bit 8 (ucast a) OR ucast b"

definition be32_of :: "u8 \<Rightarrow> u8 \<Rightarrow> u8 \<Rightarrow> u8 \<Rightarrow> u32" where
  "be32_of a b c d =
     push_bit 24 (ucast a) OR push_bit 16 (ucast b) OR push_bit 8 (ucast c) OR ucast d"

text \<open>The header as \<open>ubus_msg_writev\<close> puts it in the first vector element, and as the
  receivers read it back. \<open>HDR_SIZE\<close> is the size of the packed struct.\<close>

definition HDR_SIZE :: nat where "HDR_SIZE = 8"

definition hdr_bytes :: "ubus_msghdr \<Rightarrow> u8 list" where
  "hdr_bytes h = [hdr_version h, hdr_type h] @ be16_bytes (hdr_seq h) @ be32_bytes (hdr_peer h)"

fun hdr_of_bytes :: "u8 list \<Rightarrow> ubus_msghdr option" where
  "hdr_of_bytes [v, t, s1, s0, p3, p2, p1, p0] =
     Some \<lparr>hdr_version = v, hdr_type = t, hdr_seq = be16_of s1 s0, hdr_peer = be32_of p3 p2 p1 p0\<rparr>"
| "hdr_of_bytes _ = None"

section \<open>Values carried by messages\<close>

datatype blob_attr =
    Blob_int8 u8
  | Blob_int32 u32
  | Blob_string string
  | Blob_nest "(nat \<times> blob_attr) list"
  | Blobmsg_table "(string \<times> blob_attr) list"
  | Blobmsg_array "blob_attr list"
  | Blob_bytes "u8 list"

datatype blob =
    Built "(nat \<times> blob_attr) list"
  | Raw "u8 list"

datatype blob_type = BLOB_ATTR_NESTED | BLOB_ATTR_STRING | BLOB_ATTR_INT8 | BLOB_ATTR_INT32

text \<open>The table of parsed attributes, \<open>struct blob_attr **attr\<close> in the handlers.\<close>

type_synonym attr_table = "ubus_msg_attr \<Rightarrow> blob_attr option"

section \<open>String matching (src/ubus_common.h)\<close>

text \<open>
  \<open>ubus_strmatch_len\<close> returns the number of equal leading characters and whether the scan
  reached the terminators of both strings together. A C string is the list of its
  characters before the terminator, so running out of list is reading the terminator.
\<close>

fun ubus_strmatch_len :: "string \<Rightarrow> string \<Rightarrow> nat \<times> bool" where
  "ubus_strmatch_len [] [] = (0, True)"
| "ubus_strmatch_len (x # xs) (y # ys) =
     (if x = y then (let (n, full) = ubus_strmatch_len xs ys in (Suc n, full)) else (0, False))"
| "ubus_strmatch_len _ _ = (0, False)"

section \<open>Facts\<close>

lemma ubus_msg_code_inject [simp]: "ubus_msg_code s = ubus_msg_code t \<longleftrightarrow> s = t"
  by (cases s; cases t) simp_all

lemma ubus_attr_code_inject [simp]: "ubus_attr_code s = ubus_attr_code t \<longleftrightarrow> s = t"
  by (cases s; cases t) simp_all

lemma ubus_status_code_inject [simp]: "ubus_status_code s = ubus_status_code t \<longleftrightarrow> s = t"
  by (cases s; cases t) simp_all

lemma ubus_msg_of_code_code [simp]: "ubus_msg_of_code (ubus_msg_code t) = Some t"
  by (cases t) (simp_all add: ubus_msg_of_code_def ubus_msg_types_def)

lemma ubus_msg_of_code_Some: "ubus_msg_of_code c = Some t \<Longrightarrow> c = ubus_msg_code t"
  by (auto simp: ubus_msg_of_code_def find_Some_iff)

lemma ubus_msg_code_less_last: "ubus_msg_code t < UBUS_MSG_LAST"
  by (cases t) (simp_all add: UBUS_MSG_LAST_def)

lemma strmatch_len_eq: "ubus_strmatch_len s t = (lcp s t, s = t)"
  by (induction s t rule: ubus_strmatch_len.induct) auto

lemma be16_roundtrip [simp, ubus_wire]:
  "be16_of (ucast (drop_bit 8 w)) (ucast w) = w"
  unfolding be16_of_def
  by (rule bit_eqI) (auto simp: bit_simps less_diff_conv2 dest: bit_imp_le_length)

lemma be32_roundtrip [simp, ubus_wire]:
  "be32_of (ucast (drop_bit 24 w)) (ucast (drop_bit 16 w)) (ucast (drop_bit 8 w)) (ucast w) = w"
  unfolding be32_of_def
  apply (rule bit_eqI)
  apply (auto simp: bit_simps less_diff_conv2 dest: bit_imp_le_length)
   apply (rule ccontr, simp add: not_less)+
  done

lemma length_hdr_bytes [simp]: "length (hdr_bytes h) = HDR_SIZE"
  by (simp add: hdr_bytes_def be16_bytes_def be32_bytes_def HDR_SIZE_def)

lemma HDR_SIZE_pos [simp]: "0 < HDR_SIZE"
  by (simp add: HDR_SIZE_def)

lemma hdr_roundtrip [simp]: "hdr_of_bytes (hdr_bytes h) = Some h"
  by (simp add: hdr_bytes_def be16_bytes_def be32_bytes_def)

lemma hdr_bytes_inject [simp]: "hdr_bytes h = hdr_bytes h' \<longleftrightarrow> h = h'"
  by (metis hdr_roundtrip option.inject)

end
