(* ===== verification/Ubus_Env.thy ===== *)
theory Ubus_Env
  imports Ubus_Msg
begin

text \<open>
  The environment of the program: the functions of libubox and of the operating system that
  the sources call and that are not part of the repository. They are fields of one record,
  an argument of every definition that reaches them.

  \<^item> \<open>blob_encode\<close>, \<open>blob_parse\<close>, \<open>blob_get_u32\<close>, \<open>blob_get_u8\<close>, \<open>blob_str\<close>, \<open>blobmsg_parse\<close>,
    \<open>blobmsg_check_attr\<close>, \<open>blob_hdr_raw_len\<close> and \<open>blob_hdr_pad_len\<close> are the blob and blobmsg
    functions (\<open>blob_put_*\<close> followed by a read of the head, \<open>blob_parse_untrusted\<close>,
    \<open>blob_get_u32\<close>, \<open>blob_get_int8\<close>, \<open>blob_data\<close> of a string attribute, \<open>blobmsg_parse\<close>,
    \<open>blobmsg_check_attr\<close>, and \<open>blob_raw_len\<close>/\<open>blob_pad_len\<close> of a four-byte attribute header).
  \<^item> \<open>avl_pos\<close> says where \<open>avl_insert\<close> links a new key among the keys of a string tree. A string
    tree is the list of its nodes in the order \<open>avl_for_each_element\<close> visits them; an id tree,
    which is never traversed, is a finite map.
  \<^item> \<open>vlist_stale ks as\<close> is the order in which \<open>vlist_flush\<close> drops the nodes of a versioned list
    with keys \<open>ks\<close> of which \<open>as\<close> were added since \<open>vlist_update\<close>.
  \<^item> \<open>calloc_ok i\<close> says whether the \<open>i\<close>-th allocation succeeds, \<open>sendmsg_res i n\<close> what the
    \<open>i\<close>-th \<open>sendmsg\<close> of \<open>n\<close> bytes returns once it is no longer interrupted.
  \<^item> \<open>getpwuid\<close>, \<open>getgrgid\<close>, \<open>getpwnam\<close> and \<open>getgrnam\<close> are the account databases.

  \<open>lib_ok\<close> collects what the sources rely on: a tree stays sorted, \<open>sendmsg\<close> never reports
  more bytes than it was given, \<open>vlist_flush\<close> drops exactly the nodes that were not added again, overwriting a 32-bit attribute in place keeps the length of the
  blob, and padding rounds a length up by at most three bytes.
\<close>

datatype send_res = Sent nat | Send_again | Send_fail

datatype blobmsg_type =
    BLOBMSG_TYPE_ARRAY | BLOBMSG_TYPE_TABLE | BLOBMSG_TYPE_STRING | BLOBMSG_TYPE_INT32

record env =
  blob_encode :: "(nat \<times> blob_attr) list \<Rightarrow> u8 list"
  blob_parse :: "(ubus_msg_attr \<Rightarrow> blob_type option) \<Rightarrow> blob \<Rightarrow> attr_table"
  blob_get_u32 :: "blob_attr \<Rightarrow> u32"
  blob_get_u8 :: "blob_attr \<Rightarrow> u8"
  blob_str :: "blob_attr \<Rightarrow> string"
  blobmsg_parse :: "(string \<times> blobmsg_type) list \<Rightarrow> blob_attr \<Rightarrow> blob_attr option list"
  blobmsg_check_attr :: "string \<times> blob_attr \<Rightarrow> bool"
  blob_hdr_raw_len :: "u8 list \<Rightarrow> nat"
  blob_hdr_pad_len :: "u8 list \<Rightarrow> nat"
  avl_pos :: "string \<Rightarrow> string list \<Rightarrow> nat"
  vlist_stale :: "string list \<Rightarrow> string list \<Rightarrow> string list"
  calloc_ok :: "nat \<Rightarrow> bool"
  sendmsg_res :: "nat \<Rightarrow> nat \<Rightarrow> send_res"
  getpwuid :: "int \<Rightarrow> string option"
  getgrgid :: "int \<Rightarrow> string option"
  getpwnam :: "string \<Rightarrow> int option"
  getgrnam :: "string \<Rightarrow> int option"

text \<open>The bytes of a blob.\<close>

definition blob_image :: "env \<Rightarrow> blob \<Rightarrow> u8 list" where
  "blob_image E d = (case d of Built as \<Rightarrow> blob_encode E as | Raw bs \<Rightarrow> bs)"

definition blob_raw_len :: "env \<Rightarrow> blob \<Rightarrow> nat" where
  "blob_raw_len E d = length (blob_image E d)"

text \<open>\<open>avl_insert\<close> on a string tree, given the place the library chooses.\<close>

definition avl_link :: "env \<Rightarrow> string \<Rightarrow> 'v \<Rightarrow> (string \<times> 'v) list \<Rightarrow> (string \<times> 'v) list" where
  "avl_link E k v t = (let p = avl_pos E k (map fst t) in take p t @ (k, v) # drop p t)"

definition avl_law :: "env \<Rightarrow> bool" where
  "avl_law E \<longleftrightarrow>
     (\<forall>k ks. avl_pos E k ks \<le> length ks \<and>
       (sorted ks \<longrightarrow> sorted (take (avl_pos E k ks) ks @ k # drop (avl_pos E k ks) ks)))"

definition sendmsg_law :: "env \<Rightarrow> bool" where
  "sendmsg_law E \<longleftrightarrow> (\<forall>i n m. sendmsg_res E i n = Sent m \<longrightarrow> m \<le> n)"

definition blob_law :: "env \<Rightarrow> bool" where
  "blob_law E \<longleftrightarrow>
     (\<forall>i v w as. length (blob_encode E ((i, Blob_int32 v) # as)) =
                 length (blob_encode E ((i, Blob_int32 w) # as))) \<and>
     (\<forall>h. blob_hdr_raw_len E h \<le> blob_hdr_pad_len E h \<and>
          blob_hdr_pad_len E h \<le> blob_hdr_raw_len E h + 3)"

definition vlist_law :: "env \<Rightarrow> bool" where
  "vlist_law E \<longleftrightarrow> (\<forall>ks as. set (vlist_stale E ks as) = set ks - set as)"

definition lib_ok :: "env \<Rightarrow> bool" where
  "lib_ok E \<longleftrightarrow> avl_law E \<and> sendmsg_law E \<and> blob_law E \<and> vlist_law E"

subsection \<open>Consequences for the trees\<close>

lemma set_avl_link [simp]: "set (avl_link E k v t) = insert (k, v) (set t)"
proof -
  let ?p = "avl_pos E k (map fst t)"
  have "set (take ?p t) \<union> set (drop ?p t) = set t"
    by (metis append_take_drop_id set_append)
  then show ?thesis
    by (auto simp: avl_link_def Let_def)
qed

lemma sorted_avl_link:
  assumes "avl_law E" and "sorted (map fst t)"
  shows "sorted (map fst (avl_link E k v t))"
proof -
  let ?p = "avl_pos E k (map fst t)"
  have "sorted (take ?p (map fst t) @ k # drop ?p (map fst t))"
    using assms by (simp add: avl_law_def)
  then show ?thesis
    by (simp add: avl_link_def Let_def take_map drop_map)
qed

lemma distinct_avl_link:
  assumes "distinct (map f t)" and "f (k, v) \<notin> f ` set t"
  shows "distinct (map f (avl_link E k v t))"
proof -
  let ?p = "avl_pos E k (map fst t)"
  have "distinct (map f (take ?p t @ drop ?p t))"
    using assms(1) by simp
  moreover have "set (take ?p t) \<subseteq> set t" "set (drop ?p t) \<subseteq> set t"
    by (auto dest: in_set_takeD in_set_dropD)
  ultimately show ?thesis
    using assms(2) by (auto simp: avl_link_def Let_def simp del: append_take_drop_id)
qed

subsection \<open>A reference environment\<close>

text \<open>
  One concrete environment in which the laws hold: attributes are encoded as a four-byte
  header and their value, keys are linked before the first greater key, every allocation
  succeeds and every \<open>sendmsg\<close> writes everything.
\<close>

fun ref_attr_bytes :: "nat \<times> blob_attr \<Rightarrow> u8 list" where
  "ref_attr_bytes (i, Blob_int32 v) = [of_nat i, 0, 0, 8] @ be32_bytes v"
| "ref_attr_bytes (i, Blob_int8 v) = [of_nat i, 0, 0, 5, v, 0, 0, 0]"
| "ref_attr_bytes (i, Blob_string s) =
     [of_nat i, 0, 0, of_nat (5 + length s)] @ map (of_nat \<circ> of_char) s @ [0]"
| "ref_attr_bytes (i, Blob_bytes bs) = [of_nat i, 0, 0, of_nat (4 + length bs)] @ bs"
| "ref_attr_bytes (i, _) = [of_nat i, 0, 0, 4]"

definition ref_encode :: "(nat \<times> blob_attr) list \<Rightarrow> u8 list" where
  "ref_encode as =
     (let body = concat (map ref_attr_bytes as) in be32_bytes (of_nat (4 + length body)) @ body)"

definition ref_lookup :: "(ubus_msg_attr \<Rightarrow> blob_type option) \<Rightarrow> blob \<Rightarrow> attr_table" where
  "ref_lookup p d a =
     (case d of Built as \<Rightarrow> map_of as (ubus_attr_code a) | Raw bs \<Rightarrow> None)"

definition ref_env :: env where
  "ref_env = \<lparr>
     blob_encode = ref_encode,
     blob_parse = ref_lookup,
     blob_get_u32 = (\<lambda>a. case a of Blob_int32 v \<Rightarrow> v | _ \<Rightarrow> 0),
     blob_get_u8 = (\<lambda>a. case a of Blob_int8 v \<Rightarrow> v | _ \<Rightarrow> 0),
     blob_str = (\<lambda>a. case a of Blob_string s \<Rightarrow> s | _ \<Rightarrow> []),
     blobmsg_parse = (\<lambda>p a. case a of Blobmsg_table fs \<Rightarrow> map (\<lambda>(n, t). map_of fs n) p
                                    | _ \<Rightarrow> map (\<lambda>_. None) p),
     blobmsg_check_attr = (\<lambda>_. True),
     blob_hdr_raw_len = (\<lambda>h. case h of [a, b, c, d] \<Rightarrow> unat (be32_of (a AND 0) b c d) | _ \<Rightarrow> 0),
     blob_hdr_pad_len = (\<lambda>h. case h of [a, b, c, d] \<Rightarrow> unat (be32_of (a AND 0) b c d) | _ \<Rightarrow> 0),
     avl_pos = (\<lambda>k ks. length (takeWhile (\<lambda>k'. k' \<le> k) ks)),
     vlist_stale = (\<lambda>ks as. filter (\<lambda>k. k \<notin> set as) ks),
     calloc_ok = (\<lambda>_. True),
     sendmsg_res = (\<lambda>_ n. Sent n),
     getpwuid = (\<lambda>u. Some ''root''),
     getgrgid = (\<lambda>g. Some ''root''),
     getpwnam = (\<lambda>_. Some 0),
     getgrnam = (\<lambda>_. Some 0)\<rparr>"

lemma length_be32_bytes [simp]: "length (be32_bytes w) = 4"
  by (simp add: be32_bytes_def)

lemma sorted_takeWhile_insert:
  fixes k :: "'a :: linorder"
  assumes "sorted ks"
  shows "sorted (takeWhile (\<lambda>k'. k' \<le> k) ks @ k # dropWhile (\<lambda>k'. k' \<le> k) ks)"
  using assms
proof (induction ks)
  case (Cons x xs)
  then show ?case
    by (cases "x \<le> k") (auto dest: set_takeWhileD set_dropWhileD)
qed simp

lemma takeWhile_length_take: "take (length (takeWhile P xs)) xs = takeWhile P xs"
  by (induction xs) auto

lemma takeWhile_length_drop: "drop (length (takeWhile P xs)) xs = dropWhile P xs"
  by (induction xs) auto

lemma ref_env_ok: "lib_ok ref_env"
proof -
  have "avl_law ref_env"
    by (simp add: avl_law_def ref_env_def length_takeWhile_le takeWhile_length_take
        takeWhile_length_drop sorted_takeWhile_insert)
  moreover have "sendmsg_law ref_env"
    by (simp add: sendmsg_law_def ref_env_def)
  moreover have "blob_law ref_env"
    by (simp add: blob_law_def ref_env_def ref_encode_def Let_def)
  moreover have "vlist_law ref_env"
    by (auto simp: vlist_law_def ref_env_def)
  ultimately show ?thesis
    by (simp add: lib_ok_def)
qed

end
