(* ===== verification/Ubusd_Msg.thy ===== *)
theory Ubusd_Msg
  imports Ubus_Env
begin

text \<open>
  The transport layer of the daemon (src/ubusd.c and the structs of src/ubusd.h): reference
  counted message buffers, the per-client transmit queue, \<open>ubus_msg_send\<close>, and the copies
  that \<open>ubusd_monitor_message\<close> (src/ubusd_monitor.c) sends to the monitors.

  Message buffers live in an explicit heap \<open>bufs\<close>, so that two queues can share one buffer and
  a freed buffer can be told from a live one. Clients are addressed by their id. Dereferencing
  a client or a buffer that is not there sets \<open>fault\<close>; it is never cleared. Five fields only
  record what happens: \<open>wire\<close>, the bytes written to each client's socket, \<open>sent_fds\<close>, the
  descriptors passed with them, \<open>closed_fds\<close>, the descriptors closed, \<open>sent\<close>, the messages handed
  to \<open>ubus_msg_send\<close> (receiver, header, data, descriptor), and \<open>mon_sent\<close>, the copies handed to
  it for the monitors. \<open>rnd\<close> holds the results of the coming \<open>read_random\<close> calls.
\<close>

section \<open>State\<close>

definition USES_EXTERNAL_BUFFER :: u32 where
  "USES_EXTERNAL_BUFFER = - 1"

record ubus_msg_buf =
  ub_refcount :: u32
  ub_hdr :: ubus_msghdr
  ub_data :: blob
  ub_fd :: int
  ub_len :: nat

record ubus_client_cmd =
  cmd_msg :: addr
  cmd_lookup_path :: "string option"

record ubus_client =
  cl_fd :: int
  cl_eof :: bool
  cl_write_ev :: bool
  cl_uid :: int
  cl_gid :: int
  cl_extra_gid :: "int list"
  cl_user :: "string option"
  cl_group :: "string option"
  cl_objects :: "u32 list"
  cl_cmd_queue :: "ubus_client_cmd list"
  cl_tx_queue :: "addr list"
  cl_txq_ofs :: nat
  cl_txq_len :: int
  cl_pending_msg :: "addr option"
  cl_retmsg :: addr
  cl_pending_msg_offset :: nat
  cl_pending_msg_fd :: int
  cl_hdrbuf :: "u8 list"

record ubus_monitor =
  mon_cl :: u32
  mon_seq :: u16

record net =
  clients :: "u32 \<rightharpoonup> ubus_client"
  bufs :: "addr \<rightharpoonup> ubus_msg_buf"
  next_addr :: addr
  monitors :: "ubus_monitor list"
  fault :: bool
  n_calloc :: nat
  n_sendmsg :: nat
  rnd :: "u32 option list"
  wire :: "u32 \<Rightarrow> u8 list"
  sent_fds :: "(u32 \<times> int) list"
  closed_fds :: "int list"
  sent :: "(u32 \<times> ubus_msghdr \<times> blob \<times> int) list"
  mon_sent :: "(u32 \<times> ubus_msghdr \<times> blob) list"

definition set_fault :: "net \<Rightarrow> net" where
  "set_fault n = n\<lparr>fault := True\<rparr>"

definition upd_client :: "u32 \<Rightarrow> (ubus_client \<Rightarrow> ubus_client) \<Rightarrow> net \<Rightarrow> net" where
  "upd_client cl f n =
     (case clients n cl of
        None \<Rightarrow> set_fault n
      | Some c \<Rightarrow> n\<lparr>clients := (clients n)(cl \<mapsto> f c)\<rparr>)"

definition upd_buf :: "addr \<Rightarrow> (ubus_msg_buf \<Rightarrow> ubus_msg_buf) \<Rightarrow> net \<Rightarrow> net" where
  "upd_buf ub f n =
     (case bufs n ub of
        None \<Rightarrow> set_fault n
      | Some b \<Rightarrow> n\<lparr>bufs := (bufs n)(ub \<mapsto> f b)\<rparr>)"

definition close_fd :: "int \<Rightarrow> net \<Rightarrow> net" where
  "close_fd fd n = n\<lparr>closed_fds := closed_fds n @ [fd]\<rparr>"

definition calloc :: "env \<Rightarrow> net \<Rightarrow> bool \<times> net" where
  "calloc E n = (calloc_ok E (n_calloc n), n\<lparr>n_calloc := Suc (n_calloc n)\<rparr>)"

definition zero_hdr :: ubus_msghdr where
  "zero_hdr = \<lparr>hdr_version = 0, hdr_type = 0, hdr_seq = 0, hdr_peer = 0\<rparr>"

definition log_sent :: "u32 \<Rightarrow> ubus_msg_buf \<Rightarrow> net \<Rightarrow> net" where
  "log_sent cl b n = n\<lparr>sent := sent n @ [(cl, ub_hdr b, ub_data b, ub_fd b)]\<rparr>"

definition log_mon :: "u32 \<Rightarrow> addr \<Rightarrow> net \<Rightarrow> net" where
  "log_mon cl ub n =
     (case bufs n ub of
        None \<Rightarrow> n
      | Some b \<Rightarrow> n\<lparr>mon_sent := mon_sent n @ [(cl, ub_hdr b, ub_data b)]\<rparr>)"

section \<open>Message buffers\<close>

definition ubus_msg_new :: "env \<Rightarrow> blob \<Rightarrow> nat \<Rightarrow> bool \<Rightarrow> net \<Rightarrow> addr option \<times> net" where
  "ubus_msg_new E data len shared n =
     (let (ok, n) = calloc E n in
      if \<not> ok then (None, n)
      else
        let ub = next_addr n;
            buf = \<lparr>ub_refcount = (if shared then USES_EXTERNAL_BUFFER else 1),
                   ub_hdr = zero_hdr, ub_data = data, ub_fd = - 1, ub_len = len\<rparr>
        in (Some ub, n\<lparr>bufs := (bufs n)(ub \<mapsto> buf), next_addr := Suc ub\<rparr>))"

definition ubus_msg_ref :: "env \<Rightarrow> addr \<Rightarrow> net \<Rightarrow> addr option \<times> net" where
  "ubus_msg_ref E ub n =
     (case bufs n ub of
        None \<Rightarrow> (None, set_fault n)
      | Some b \<Rightarrow>
          if ub_refcount b = USES_EXTERNAL_BUFFER then
            (case ubus_msg_new E (ub_data b) (ub_len b) False n of
               (None, n) \<Rightarrow> (None, n)
             | (Some new_ub, n) \<Rightarrow>
                 (Some new_ub,
                  upd_buf ub (\<lambda>b. b\<lparr>ub_fd := - 1\<rparr>)
                    (upd_buf new_ub (\<lambda>nb. nb\<lparr>ub_hdr := ub_hdr b, ub_fd := ub_fd b\<rparr>) n)))
          else (Some ub, upd_buf ub (\<lambda>b. b\<lparr>ub_refcount := ub_refcount b + 1\<rparr>) n))"

definition ubus_msg_free :: "addr \<Rightarrow> net \<Rightarrow> net" where
  "ubus_msg_free ub n =
     (case bufs n ub of
        None \<Rightarrow> set_fault n
      | Some b \<Rightarrow>
          if ub_refcount b = 1 \<or> ub_refcount b = USES_EXTERNAL_BUFFER then
            (let n = (if 0 \<le> ub_fd b then close_fd (ub_fd b) n else n)
             in n\<lparr>bufs := (bufs n)(ub := None)\<rparr>)
          else upd_buf ub (\<lambda>b. b\<lparr>ub_refcount := ub_refcount b - 1\<rparr>) n)"

text \<open>
  The vector handed to \<open>sendmsg\<close>: from \<open>offset\<close> on, the encoded header and the data, or the
  rest of the data when the header is already out.
\<close>

definition writev_iov :: "env \<Rightarrow> ubus_msg_buf \<Rightarrow> nat \<Rightarrow> u8 list" where
  "writev_iov E b offset =
     (let data = take (ub_len b) (blob_image E (ub_data b)) in
      if offset < HDR_SIZE then drop offset (hdr_bytes (ub_hdr b)) @ data
      else drop (offset - HDR_SIZE) data)"

definition ubus_msg_writev :: "env \<Rightarrow> u32 \<Rightarrow> addr \<Rightarrow> nat \<Rightarrow> net \<Rightarrow> send_res \<times> net" where
  "ubus_msg_writev E cl ub offset n =
     (case bufs n ub of
        None \<Rightarrow> (Send_fail, set_fault n)
      | Some b \<Rightarrow>
          let iov = writev_iov E b offset;
              r = sendmsg_res E (n_sendmsg n) (length iov);
              n = n\<lparr>n_sendmsg := Suc (n_sendmsg n)\<rparr>
          in (case r of
                Sent m \<Rightarrow>
                  (r, n\<lparr>wire := (wire n)(cl := wire n cl @ take m iov),
                        sent_fds := (if 0 \<le> ub_fd b \<and> offset = 0 then sent_fds n @ [(cl, ub_fd b)]
                                     else sent_fds n)\<rparr>)
              | _ \<Rightarrow> (r, n)))"

text \<open>The limit test adds a signed queue length to unsigned sizes, so it is computed in the
  unsigned type.\<close>

definition txq_over_limit :: "int \<Rightarrow> nat \<Rightarrow> bool" where
  "txq_over_limit txq_len len \<longleftrightarrow>
     (word_of_int txq_len + of_nat HDR_SIZE + of_nat len :: 64 word) > of_nat UBUS_MAX_MSGLEN"

definition ubus_msg_enqueue :: "env \<Rightarrow> u32 \<Rightarrow> addr \<Rightarrow> net \<Rightarrow> bool \<times> net" where
  "ubus_msg_enqueue E cl ub n =
     (case (clients n cl, bufs n ub) of
        (Some c, Some b) \<Rightarrow>
          if txq_over_limit (cl_txq_len c) (ub_len b) then (False, n)
          else
            (case calloc E n of
               (False, n) \<Rightarrow> (False, n)
             | (True, n) \<Rightarrow>
                 (case ubus_msg_ref E ub n of
                    (None, n) \<Rightarrow> (False, n)
                  | (Some m, n) \<Rightarrow>
                      (True, upd_client cl
                         (\<lambda>c. c\<lparr>cl_tx_queue := cl_tx_queue c @ [m],
                                cl_txq_len := cl_txq_len c + int (ub_len b + HDR_SIZE)\<rparr>) n)))
      | _ \<Rightarrow> (False, set_fault n))"

definition send_written :: "send_res \<Rightarrow> nat" where
  "send_written r = (case r of Sent m \<Rightarrow> m | _ \<Rightarrow> 0)"

text \<open>
  \<open>ubus_msg_send\<close> copies a message to the monitors before it transmits it, and the copies go
  through \<open>ubus_msg_send\<close> again. A copy has type \<open>UBUS_MSG_MONITOR\<close> and is not copied, so the
  recursion has depth one. \<open>ubus_msg_write\<close> is the part of \<open>ubus_msg_send\<close> below the monitor
  call, and \<open>ubus_msg_xmit\<close> is \<open>ubus_msg_send\<close> for a message of type \<open>UBUS_MSG_MONITOR\<close>: the
  test for a dying client and then \<open>ubus_msg_write\<close>.
\<close>

definition ubus_msg_write :: "env \<Rightarrow> u32 \<Rightarrow> addr \<Rightarrow> net \<Rightarrow> net" where
  "ubus_msg_write E cl ub n =
     (case (clients n cl, bufs n ub) of
        (Some c, Some b) \<Rightarrow>
          if cl_tx_queue c \<noteq> [] then snd (ubus_msg_enqueue E cl ub n)
          else
            (case ubus_msg_writev E cl ub 0 n of
               (r, n) \<Rightarrow>
                 let written = send_written r in
                 if ub_len b + HDR_SIZE \<le> written then n
                 else
                   (case ubus_msg_enqueue E cl ub
                           (upd_client cl (\<lambda>c. c\<lparr>cl_txq_ofs := written, cl_txq_len := - int written,
                                                 cl_write_ev := True\<rparr>) n) of
                      (True, n) \<Rightarrow> n
                    | (False, n) \<Rightarrow>
                        if 0 < written then upd_client cl (\<lambda>c. c\<lparr>cl_eof := True\<rparr>) n else n))
      | _ \<Rightarrow> set_fault n)"

definition ubus_msg_xmit :: "env \<Rightarrow> u32 \<Rightarrow> addr \<Rightarrow> net \<Rightarrow> net" where
  "ubus_msg_xmit E cl ub n =
     (case clients n cl of
        None \<Rightarrow> set_fault n
      | Some c \<Rightarrow> if cl_eof c then n else ubus_msg_write E cl ub n)"

definition mon_attrs :: "env \<Rightarrow> u32 \<Rightarrow> ubus_msg_buf \<Rightarrow> bool \<Rightarrow> (nat \<times> blob_attr) list" where
  "mon_attrs E cl b send =
     [(ubus_monitor_attr_code UBUS_MONITOR_CLIENT, Blob_int32 cl),
      (ubus_monitor_attr_code UBUS_MONITOR_PEER, Blob_int32 (hdr_peer (ub_hdr b))),
      (ubus_monitor_attr_code UBUS_MONITOR_SEQ, Blob_int32 (ucast (hdr_seq (ub_hdr b)))),
      (ubus_monitor_attr_code UBUS_MONITOR_TYPE, Blob_int32 (ucast (hdr_type (ub_hdr b)))),
      (ubus_monitor_attr_code UBUS_MONITOR_SEND, Blob_int8 (if send then 1 else 0)),
      (ubus_monitor_attr_code UBUS_MONITOR_DATA,
       Blob_bytes (drop 4 (blob_image E (ub_data b))))]"

fun monitor_loop :: "env \<Rightarrow> addr \<Rightarrow> ubus_monitor list \<Rightarrow> net \<Rightarrow> ubus_monitor list \<times> net" where
  "monitor_loop E ub [] n = ([], n)"
| "monitor_loop E ub (m # ms) n =
     (let seq = mon_seq m + 1;
          n = upd_buf ub (\<lambda>b. b\<lparr>ub_hdr := (ub_hdr b)\<lparr>hdr_seq := seq\<rparr>\<rparr>) n;
          n = ubus_msg_xmit E (mon_cl m) ub (log_mon (mon_cl m) ub n);
          (ms', n) = monitor_loop E ub ms n
      in (m\<lparr>mon_seq := seq\<rparr> # ms', n))"

definition ubusd_monitor_message :: "env \<Rightarrow> u32 \<Rightarrow> addr \<Rightarrow> bool \<Rightarrow> net \<Rightarrow> net" where
  "ubusd_monitor_message E cl ub send n =
     (if monitors n = [] then n
      else
        (case bufs n ub of
           None \<Rightarrow> set_fault n
         | Some b \<Rightarrow>
             let data = Built (mon_attrs E cl b send) in
             (case ubus_msg_new E data (blob_raw_len E data) True n of
                (None, n) \<Rightarrow> n
              | (Some mub, n) \<Rightarrow>
                  let n = upd_buf mub
                        (\<lambda>b. b\<lparr>ub_hdr := (ub_hdr b)\<lparr>hdr_type := ubus_msg_code UBUS_MSG_MONITOR\<rparr>\<rparr>) n;
                      (ms, n) = monitor_loop E mub (monitors n) n
                  in ubus_msg_free mub (n\<lparr>monitors := ms\<rparr>))))"

definition ubus_msg_send :: "env \<Rightarrow> u32 \<Rightarrow> addr \<Rightarrow> net \<Rightarrow> net" where
  "ubus_msg_send E cl ub n =
     (case (clients n cl, bufs n ub) of
        (Some c, Some b) \<Rightarrow>
          let n = log_sent cl b n in
          if cl_eof c then n
          else
            let n = (if hdr_type (ub_hdr b) \<noteq> ubus_msg_code UBUS_MSG_MONITOR
                     then ubusd_monitor_message E cl ub True n else n)
            in ubus_msg_write E cl ub n
      | _ \<Rightarrow> set_fault n)"

definition ubus_msg_list_free :: "u32 \<Rightarrow> addr \<Rightarrow> net \<Rightarrow> net" where
  "ubus_msg_list_free cl m n =
     ubus_msg_free m (upd_client cl (\<lambda>c. c\<lparr>cl_tx_queue := remove1 m (cl_tx_queue c)\<rparr>) n)"

end
