(* ===== verification/Ubusd_Msg_Inv.thy ===== *)
theory Ubusd_Msg_Inv
  imports Ubusd_Msg
begin

text \<open>
  Memory safety of the transport layer. \<open>core\<close> is the part of the transport state that sending
  does not touch: everything of the clients but their transmit queues. \<open>net_wf H\<close> says that no
  invalid pointer has been followed and that the reference count of every buffer is the number
  of queue entries that point to it plus the number \<open>H\<close> of references the running handler holds;
  a buffer on an external data area belongs to exactly one owner and is in no queue. The lemmas
  show that each operation of src/ubusd.c keeps the invariant.
\<close>

section \<open>What the transport layer leaves alone\<close>

definition cl_core :: "ubus_client \<Rightarrow> ubus_client" where
  "cl_core c = c\<lparr>cl_eof := False, cl_write_ev := False, cl_tx_queue := [],
                 cl_txq_ofs := 0, cl_txq_len := 0\<rparr>"

definition core :: "net \<Rightarrow> (u32 \<Rightarrow> ubus_client option) \<times> u32 list \<times> u32 option list" where
  "core n = (\<lambda>i. map_option cl_core (clients n i), map mon_cl (monitors n), rnd n)"

lemma cl_core_fields:
  assumes "cl_core c' = cl_core c"
  shows "cl_objects c' = cl_objects c" "cl_uid c' = cl_uid c" "cl_gid c' = cl_gid c"
    "cl_extra_gid c' = cl_extra_gid c" "cl_user c' = cl_user c" "cl_group c' = cl_group c"
    "cl_cmd_queue c' = cl_cmd_queue c" "cl_pending_msg c' = cl_pending_msg c"
    "cl_retmsg c' = cl_retmsg c" "cl_fd c' = cl_fd c"
    "cl_pending_msg_offset c' = cl_pending_msg_offset c"
    "cl_pending_msg_fd c' = cl_pending_msg_fd c" "cl_hdrbuf c' = cl_hdrbuf c"
  using assms by (cases c; cases c'; simp add: cl_core_def)+

lemma core_client:
  assumes "core n' = core n" and "clients n i = Some c"
  obtains c' where "clients n' i = Some c'" and "cl_core c' = cl_core c"
proof -
  have "map_option cl_core (clients n' i) = Some (cl_core c)"
    using assms by (simp add: core_def fun_eq_iff)
  then show ?thesis
    using that by auto
qed

lemma core_client_map: "core n' = core n \<Longrightarrow> map_option cl_core (clients n' i) = map_option cl_core (clients n i)"
  by (simp add: core_def fun_eq_iff)

lemma core_client_None: "core n' = core n \<Longrightarrow> clients n' i = None \<longleftrightarrow> clients n i = None"
  using core_client_map [of n' n i] by (cases "clients n' i"; cases "clients n i"; simp)

lemma core_dom: "core n' = core n \<Longrightarrow> dom (clients n') = dom (clients n)"
  using core_client_None [of n' n] by (simp add: set_eq_iff domIff)

lemma core_simps [simp]:
  "core (n\<lparr>bufs := x1\<rparr>) = core n" "core (n\<lparr>next_addr := x2\<rparr>) = core n"
  "core (n\<lparr>fault := x3\<rparr>) = core n" "core (n\<lparr>n_calloc := x4\<rparr>) = core n"
  "core (n\<lparr>n_sendmsg := x5\<rparr>) = core n" "core (n\<lparr>wire := x6\<rparr>) = core n"
  "core (n\<lparr>sent_fds := x7\<rparr>) = core n" "core (n\<lparr>closed_fds := x8\<rparr>) = core n"
  "core (n\<lparr>sent := x9\<rparr>) = core n" "core (n\<lparr>mon_sent := x10\<rparr>) = core n"
  by (simp_all add: core_def)

lemma core_log [simp]: "core (log_sent cl b n) = core n" "core (log_mon cl ub n) = core n"
  by (simp_all add: log_sent_def log_mon_def split: option.splits)

lemma log_fields [simp]:
  "clients (log_sent cl b n) = clients n" "bufs (log_sent cl b n) = bufs n"
  "next_addr (log_sent cl b n) = next_addr n" "monitors (log_sent cl b n) = monitors n"
  "fault (log_sent cl b n) = fault n"
  "clients (log_mon cl ub n) = clients n" "bufs (log_mon cl ub n) = bufs n"
  "next_addr (log_mon cl ub n) = next_addr n" "monitors (log_mon cl ub n) = monitors n"
  "fault (log_mon cl ub n) = fault n"
  by (simp_all add: log_sent_def log_mon_def split: option.splits)

lemma core_set_fault [simp]: "core (set_fault n) = core n"
  by (simp add: set_fault_def)

lemma core_upd_client:
  "(\<And>c. clients n cl = Some c \<Longrightarrow> cl_core (f c) = cl_core c) \<Longrightarrow> core (upd_client cl f n) = core n"
  by (auto simp: core_def upd_client_def set_fault_def fun_eq_iff split: option.splits)

lemma core_upd_buf [simp]: "core (upd_buf ub f n) = core n"
  by (simp add: upd_buf_def split: option.splits)

lemma core_close_fd [simp]: "core (close_fd fd n) = core n"
  by (simp add: close_fd_def)

lemma core_calloc: "calloc E n = (r, n') \<Longrightarrow> core n' = core n"
  by (auto simp: calloc_def)

lemma core_msg_new: "ubus_msg_new E d l s n = (r, n') \<Longrightarrow> core n' = core n"
  by (auto simp: ubus_msg_new_def calloc_def Let_def split: if_splits)

lemma core_msg_ref: "ubus_msg_ref E ub n = (r, n') \<Longrightarrow> core n' = core n"
  by (auto simp: ubus_msg_ref_def split: option.splits if_splits prod.splits dest!: core_msg_new)

lemma core_msg_free [simp]: "core (ubus_msg_free ub n) = core n"
  by (simp add: ubus_msg_free_def Let_def split: option.splits)

lemma core_writev: "ubus_msg_writev E cl ub ofs n = (r, n') \<Longrightarrow> core n' = core n"
  by (auto simp: ubus_msg_writev_def Let_def split: option.splits send_res.splits)

lemma core_push_tx:
  "core (upd_client cl (\<lambda>c. c\<lparr>cl_tx_queue := g c, cl_txq_len := h c\<rparr>) n) = core n"
  "core (upd_client cl (\<lambda>c. c\<lparr>cl_tx_queue := g c\<rparr>) n) = core n"
  "core (upd_client cl (\<lambda>c. c\<lparr>cl_txq_ofs := w, cl_txq_len := k, cl_write_ev := e\<rparr>) n) = core n"
  "core (upd_client cl (\<lambda>c. c\<lparr>cl_eof := e\<rparr>) n) = core n"
  by (rule core_upd_client, simp add: cl_core_def)+

lemma core_enqueue: "ubus_msg_enqueue E cl ub n = (r, n') \<Longrightarrow> core n' = core n"
  by (auto simp: ubus_msg_enqueue_def core_push_tx dest!: core_calloc core_msg_ref
      split: option.splits if_splits prod.splits bool.splits)

lemma core_write [simp]: "core (ubus_msg_write E cl ub n) = core n"
proof -
  have e: "core (snd (ubus_msg_enqueue E cl ub n')) = core n'" for n'
    by (rule core_enqueue) (rule prod.collapse [symmetric])
  show ?thesis
    by (auto simp: ubus_msg_write_def Let_def core_push_tx e dest!: core_writev core_enqueue
        split: option.splits prod.splits bool.splits)
qed

lemma core_xmit [simp]: "core (ubus_msg_xmit E cl ub n) = core n"
  by (simp add: ubus_msg_xmit_def split: option.splits)

lemma core_monitor_loop:
  "core (snd (monitor_loop E ub ms n)) = core n \<and>
   map mon_cl (fst (monitor_loop E ub ms n)) = map mon_cl ms"
  by (induction E ub ms n rule: monitor_loop.induct) (auto simp: Let_def split: prod.splits)

lemma core_monitor_message [simp]: "core (ubusd_monitor_message E cl ub send n) = core n"
proof -
  have m: "monitor_loop E ub' (monitors n') n' = (ms, n'') \<Longrightarrow>
      core (n''\<lparr>monitors := ms\<rparr>) = core n'" for ub' n' ms n''
    using core_monitor_loop [of E ub' "monitors n'" n'] by (simp add: core_def)
  show ?thesis
  proof (cases "monitors n = [] \<or> bufs n ub = None")
    case True
    then show ?thesis
      by (auto simp: ubusd_monitor_message_def split: option.splits)
  next
    case False
    then obtain b where b: "bufs n ub = Some b" by auto
    with False m show ?thesis
      by (auto simp: ubusd_monitor_message_def Let_def dest!: core_msg_new
          split: option.splits prod.splits)
  qed
qed

lemma core_send [simp]: "core (ubus_msg_send E cl ub n) = core n"
  by (simp add: ubus_msg_send_def Let_def split: option.splits)

lemma core_list_free [simp]: "core (ubus_msg_list_free cl m n) = core n"
  by (simp add: ubus_msg_list_free_def core_push_tx)

section \<open>Reference counts\<close>

definition client_refs :: "ubus_client \<Rightarrow> addr \<Rightarrow> nat" where
  "client_refs c a =
     count_list (cl_tx_queue c) a + count_list (map cmd_msg (cl_cmd_queue c)) a +
     (if cl_pending_msg c = Some a then 1 else 0)"

definition refs :: "(u32 \<rightharpoonup> ubus_client) \<Rightarrow> addr \<Rightarrow> nat" where
  "refs C a = msum (\<lambda>c. client_refs c a) C"

definition ret_refs :: "(u32 \<rightharpoonup> ubus_client) \<Rightarrow> addr \<Rightarrow> nat" where
  "ret_refs C a = msum (\<lambda>c. if cl_retmsg c = a then 1 else 0) C"

definition buf_ok :: "(addr \<Rightarrow> nat) \<Rightarrow> net \<Rightarrow> addr \<Rightarrow> bool" where
  "buf_ok H n a \<longleftrightarrow>
     (case bufs n a of
        None \<Rightarrow> refs (clients n) a = 0 \<and> ret_refs (clients n) a = 0 \<and> H a = 0
      | Some b \<Rightarrow>
          a < next_addr n \<and>
          (if ub_refcount b = USES_EXTERNAL_BUFFER
           then refs (clients n) a = 0 \<and> ret_refs (clients n) a + H a = 1
           else ret_refs (clients n) a = 0 \<and> unat (ub_refcount b) = refs (clients n) a + H a \<and>
                0 < refs (clients n) a + H a))"

definition net_wf :: "(addr \<Rightarrow> nat) \<Rightarrow> net \<Rightarrow> bool" where
  "net_wf H n \<longleftrightarrow>
     \<not> fault n \<and> finite (dom (clients n)) \<and> (\<forall>a. buf_ok H n a) \<and>
     mon_cl ` set (monitors n) \<subseteq> dom (clients n)"

lemma refs_update:
  "finite (dom C) \<Longrightarrow> C i = Some c \<Longrightarrow>
   refs (C(i \<mapsto> c')) a + client_refs c a = refs C a + client_refs c' a"
  unfolding refs_def by (rule msum_update)

lemma refs_same:
  "finite (dom C) \<Longrightarrow> C i = Some c \<Longrightarrow> client_refs c' a = client_refs c a \<Longrightarrow>
   refs (C(i \<mapsto> c')) a = refs C a"
  using refs_update [of C i c c' a] by simp

lemma ret_refs_same:
  "finite (dom C) \<Longrightarrow> C i = Some c \<Longrightarrow> cl_retmsg c' = cl_retmsg c \<Longrightarrow>
   ret_refs (C(i \<mapsto> c')) a = ret_refs C a"
  unfolding ret_refs_def by (rule msum_update_same) simp_all

lemma net_wfD:
  assumes "net_wf H n"
  shows "\<not> fault n" "finite (dom (clients n))" "buf_ok H n a"
    "m \<in> set (monitors n) \<Longrightarrow> \<exists>c. clients n (mon_cl m) = Some c"
  using assms by (auto simp: net_wf_def)

lemma net_wf_next_addr:
  assumes "net_wf H n" and "next_addr n \<le> a"
  shows "bufs n a = None" "refs (clients n) a = 0" "ret_refs (clients n) a = 0" "H a = 0"
proof -
  show *: "bufs n a = None"
  proof (rule ccontr)
    assume "bufs n a \<noteq> None"
    then obtain b where "bufs n a = Some b" by auto
    with net_wfD(3) [OF assms(1), of a] assms(2) show False
      by (auto simp: buf_ok_def)
  qed
  show "refs (clients n) a = 0" "ret_refs (clients n) a = 0" "H a = 0"
    using net_wfD(3) [OF assms(1), of a] * by (auto simp: buf_ok_def)
qed

text \<open>A buffer with a reference is live.\<close>

lemma net_wf_live:
  assumes "net_wf H n" and "0 < H a \<or> 0 < refs (clients n) a \<or> 0 < ret_refs (clients n) a"
  obtains b where "bufs n a = Some b"
  using net_wfD(3) [OF assms(1), of a] assms(2)
  by (cases "bufs n a") (auto simp: buf_ok_def)

lemma client_refs_le:
  "finite (dom C) \<Longrightarrow> C i = Some c \<Longrightarrow> client_refs c a \<le> refs C a"
  unfolding refs_def by (rule msum_ge)

lemma retmsg_ret_refs:
  assumes "finite (dom C)" and "C i = Some c"
  shows "0 < ret_refs C (cl_retmsg c)"
  using msum_ge [OF assms, of "\<lambda>d. if cl_retmsg d = cl_retmsg c then 1 else 0"]
  by (simp add: ret_refs_def)

lemma buf_ok_cong:
  assumes "buf_ok H n a" and "map_option ub_refcount (bufs n' a) = map_option ub_refcount (bufs n a)"
    and "refs (clients n') a = refs (clients n) a"
    and "ret_refs (clients n') a = ret_refs (clients n) a" and "next_addr n \<le> next_addr n'"
    and "H' a = H a"
  shows "buf_ok H' n' a"
  using assms by (cases "bufs n' a"; cases "bufs n a") (auto simp: buf_ok_def)

lemma net_wf_upd_client:
  assumes "net_wf H n" and "clients n cl = Some c"
    and "\<And>a. client_refs (f c) a = client_refs c a" and "cl_retmsg (f c) = cl_retmsg c"
  shows "net_wf H (upd_client cl f n)"
proof -
  have "buf_ok H (upd_client cl f n) a" for a
    using net_wfD(3) [OF assms(1), of a] net_wfD(2) [OF assms(1)] assms(2-4)
    by (elim buf_ok_cong) (simp_all add: upd_client_def refs_same ret_refs_same)
  with assms show ?thesis
    by (auto simp: net_wf_def upd_client_def)
qed

lemma net_wf_upd_buf:
  assumes "net_wf H n" and "bufs n ub = Some b" and "ub_refcount (f b) = ub_refcount b"
  shows "net_wf H (upd_buf ub f n)"
proof -
  have "buf_ok H (upd_buf ub f n) a" for a
    using net_wfD(3) [OF assms(1), of a] assms(2,3)
    by (elim buf_ok_cong) (simp_all add: upd_buf_def)
  with assms show ?thesis
    by (auto simp: net_wf_def upd_buf_def)
qed

lemma net_wf_cong:
  assumes "net_wf H n" and "clients n' = clients n" "bufs n' = bufs n" "next_addr n' = next_addr n"
    "monitors n' = monitors n" "fault n' = fault n"
  shows "net_wf H n'"
proof -
  have "buf_ok H n' a" for a
    by (rule buf_ok_cong [OF net_wfD(3) [OF assms(1)]]) (simp_all add: assms)
  with assms show ?thesis
    by (simp add: net_wf_def)
qed

lemma net_wf_log [simp]:
  "net_wf H (log_sent cl b n) = net_wf H n" "net_wf H (log_mon cl ub n) = net_wf H n"
  by (auto elim!: net_wf_cong)

lemma net_wf_calloc: "net_wf H n \<Longrightarrow> calloc E n = (r, n') \<Longrightarrow> net_wf H n'"
  by (auto simp: calloc_def elim!: net_wf_cong)

lemma net_wf_writev:
  "net_wf H n \<Longrightarrow> bufs n ub = Some b \<Longrightarrow> ubus_msg_writev E cl ub ofs n = (r, n') \<Longrightarrow> net_wf H n'"
  by (auto simp: ubus_msg_writev_def Let_def elim!: net_wf_cong split: send_res.splits)

lemma ubus_msg_new_Some:
  assumes "ubus_msg_new E d l s n = (Some ub, n')"
  shows "ub = next_addr n"
    and "n' = n\<lparr>n_calloc := Suc (n_calloc n),
                bufs := (bufs n)(ub \<mapsto> \<lparr>ub_refcount = (if s then USES_EXTERNAL_BUFFER else 1),
                  ub_hdr = zero_hdr, ub_data = d, ub_fd = - 1, ub_len = l\<rparr>),
                next_addr := Suc ub\<rparr>"
  using assms by (auto simp: ubus_msg_new_def calloc_def Let_def split: if_splits)

lemma not_external [simp]: "(1 :: u32) \<noteq> USES_EXTERNAL_BUFFER"
  by (simp add: USES_EXTERNAL_BUFFER_def)

lemma net_wf_msg_new:
  assumes "net_wf H n" and "ubus_msg_new E d l s n = (Some ub, n')"
  shows "net_wf (H(ub := 1)) n'" and "H ub = 0" and "bufs n ub = None"
proof -
  note new = ubus_msg_new_Some [OF assms(2)]
  note fresh = net_wf_next_addr [OF assms(1), of ub]
  from new fresh show "H ub = 0" "bufs n ub = None" by simp_all
  have "buf_ok (H(ub := 1)) n' a" for a
  proof (cases "a = ub")
    case True
    with new fresh show ?thesis by (simp add: buf_ok_def)
  next
    case False
    with new show ?thesis
      by (intro buf_ok_cong [OF net_wfD(3) [OF assms(1)]]) simp_all
  qed
  with net_wfD [OF assms(1)] new(2) show "net_wf (H(ub := 1)) n'"
    by (auto simp: net_wf_def)
qed

lemma net_wf_msg_new_None:
  "net_wf H n \<Longrightarrow> ubus_msg_new E d l s n = (None, n') \<Longrightarrow> net_wf H n'"
  by (auto simp: ubus_msg_new_def calloc_def Let_def split: if_splits elim!: net_wf_cong)

text \<open>
  A reference moves between the handler and a client record: what the client gains, the
  handler gives up. Buffers on an external data area never enter a queue.
\<close>

lemma net_wf_move:
  assumes wf: "net_wf H n" and c: "clients n cl = Some c"
    and balance: "\<And>a. client_refs (f c) a + H' a = client_refs c a + H a"
    and ext: "\<And>a b. bufs n a = Some b \<Longrightarrow> ub_refcount b = USES_EXTERNAL_BUFFER \<Longrightarrow>
                client_refs (f c) a = client_refs c a"
    and ret: "cl_retmsg (f c) = cl_retmsg c"
  shows "net_wf H' (upd_client cl f n)"
proof -
  have fin: "finite (dom (clients n))" by (rule net_wfD(2) [OF wf])
  have "buf_ok H' (upd_client cl f n) a" for a
  proof -
    have r: "refs ((clients n)(cl \<mapsto> f c)) a + client_refs c a =
        refs (clients n) a + client_refs (f c) a"
      by (rule refs_update [OF fin c])
    have le: "client_refs c a \<le> refs (clients n) a"
      by (rule client_refs_le [OF fin c])
    have rr: "ret_refs ((clients n)(cl \<mapsto> f c)) a = ret_refs (clients n) a"
      by (rule ret_refs_same [OF fin c ret])
    show ?thesis
      using net_wfD(3) [OF wf, of a] balance [of a] ext [of a] r rr le c
      by (cases "bufs n a") (auto simp: buf_ok_def upd_client_def)
  qed
  with wf c show ?thesis
    by (auto simp: net_wf_def upd_client_def)
qed

lemma net_wf_free:
  assumes wf: "net_wf H n" and held: "0 < H ub"
  shows "net_wf (H(ub := H ub - 1)) (ubus_msg_free ub n)"
proof -
  obtain b where b: "bufs n ub = Some b"
    using net_wf_live [OF wf] held by blast
  have ok: "buf_ok H n ub" by (rule net_wfD(3) [OF wf])
  have other: "a \<noteq> ub \<Longrightarrow> buf_ok (H(ub := H ub - 1)) (ubus_msg_free ub n) a" for a
    using b by (intro buf_ok_cong [OF net_wfD(3) [OF wf]])
      (simp_all add: ubus_msg_free_def Let_def close_fd_def upd_buf_def)
  have "buf_ok (H(ub := H ub - 1)) (ubus_msg_free ub n) ub"
  proof (cases "ub_refcount b = 1 \<or> ub_refcount b = USES_EXTERNAL_BUFFER")
    case True
    with ok b held show ?thesis
      by (auto simp: buf_ok_def ubus_msg_free_def Let_def close_fd_def)
  next
    case False
    then have ge: "unat (ub_refcount b) \<noteq> 1"
      by unat_arith
    from False ok b have pos: "0 < unat (ub_refcount b)"
      by (auto simp: buf_ok_def)
    from pos have nz: "ub_refcount b \<noteq> 0" by auto
    then have "unat (ub_refcount b - 1) = unat (ub_refcount b) - 1"
      by (simp add: unat_minus_one)
    moreover have "ub_refcount b - 1 \<noteq> USES_EXTERNAL_BUFFER"
      using nz by (auto simp: USES_EXTERNAL_BUFFER_def)
    ultimately show ?thesis
      using False ok b held pos ge
      by (auto simp: buf_ok_def ubus_msg_free_def upd_buf_def)
  qed
  with other have "buf_ok (H(ub := H ub - 1)) (ubus_msg_free ub n) a" for a
    by (cases "a = ub") auto
  with wf b show ?thesis
    by (auto simp: net_wf_def ubus_msg_free_def Let_def close_fd_def upd_buf_def)
qed

lemma net_wf_ref:
  assumes wf: "net_wf H n" and b: "bufs n ub = Some b"
    and cnt: "ub_refcount b = 1 \<or> ub_refcount b = USES_EXTERNAL_BUFFER"
    and r: "ubus_msg_ref E ub n = (Some m, n')"
  shows "net_wf (H(m := H m + 1)) n'"
    and "\<exists>mb. bufs n' m = Some mb \<and> ub_refcount mb \<noteq> USES_EXTERNAL_BUFFER"
proof -
  have "net_wf (H(m := H m + 1)) n' \<and>
      (\<exists>mb. bufs n' m = Some mb \<and> ub_refcount mb \<noteq> USES_EXTERNAL_BUFFER)"
  proof (cases "ub_refcount b = USES_EXTERNAL_BUFFER")
    case True
    with r b obtain n1 where new: "ubus_msg_new E (ub_data b) (ub_len b) False n = (Some m, n1)"
      and n': "n' = upd_buf ub (\<lambda>b. b\<lparr>ub_fd := - 1\<rparr>)
                 (upd_buf m (\<lambda>nb. nb\<lparr>ub_hdr := ub_hdr b, ub_fd := ub_fd b\<rparr>) n1)"
      by (auto simp: ubus_msg_ref_def split: prod.splits option.splits)
    note w = net_wf_msg_new [OF wf new]
    note n1 = ubus_msg_new_Some [OF new]
    have "m \<noteq> ub" using w(3) b by auto
    have "net_wf (H(m := 1)) (upd_buf m (\<lambda>nb. nb\<lparr>ub_hdr := ub_hdr b, ub_fd := ub_fd b\<rparr>) n1)"
      by (rule net_wf_upd_buf [OF w(1)]) (simp_all add: n1)
    then have "net_wf (H(m := 1)) n'"
      unfolding n' using \<open>m \<noteq> ub\<close> b n1
      by (rule_tac b = b in net_wf_upd_buf) (simp_all add: upd_buf_def)
    moreover have "H m = 0" by (rule w(2))
    ultimately show ?thesis
      using \<open>m \<noteq> ub\<close> n1 b n' by (simp add: upd_buf_def)
  next
    case False
    with r b cnt have m: "m = ub" and one: "ub_refcount b = 1"
      and n': "n' = upd_buf ub (\<lambda>b. b\<lparr>ub_refcount := ub_refcount b + 1\<rparr>) n"
      by (auto simp: ubus_msg_ref_def)
    have "buf_ok (H(ub := H ub + 1)) n' a" for a
    proof (cases "a = ub")
      case True
      have "(2 :: u32) \<noteq> USES_EXTERNAL_BUFFER"
        by (simp add: USES_EXTERNAL_BUFFER_def)
      moreover have "refs (clients n) ub + H ub = 1"
        using net_wfD(3) [OF wf, of ub] b one by (auto simp: buf_ok_def)
      ultimately show ?thesis
        using True net_wfD(3) [OF wf, of ub] b one n' by (auto simp: buf_ok_def upd_buf_def)
    next
      case False
      with b n' show ?thesis
        by (intro buf_ok_cong [OF net_wfD(3) [OF wf]]) (simp_all add: upd_buf_def)
    qed
    with wf b n' m one show ?thesis
      by (auto simp: net_wf_def upd_buf_def USES_EXTERNAL_BUFFER_def)
  qed
  then show "net_wf (H(m := H m + 1)) n'"
    and "\<exists>mb. bufs n' m = Some mb \<and> ub_refcount mb \<noteq> USES_EXTERNAL_BUFFER"
    by simp_all
qed

lemma net_wf_ref_None:
  "net_wf H n \<Longrightarrow> bufs n ub = Some b \<Longrightarrow> ubus_msg_ref E ub n = (None, n') \<Longrightarrow> net_wf H n'"
  by (auto simp: ubus_msg_ref_def split: if_splits prod.splits option.splits
      dest: net_wf_msg_new_None)

subsection \<open>Which buffers an operation changes\<close>

definition ext_view :: "net \<Rightarrow> addr \<Rightarrow> (blob \<times> nat \<times> ubus_msghdr) option" where
  "ext_view n a =
     (case bufs n a of
        None \<Rightarrow> None
      | Some b \<Rightarrow>
          if ub_refcount b = USES_EXTERNAL_BUFFER
          then Some (ub_data b, ub_len b, (ub_hdr b)\<lparr>hdr_seq := 0\<rparr>) else None)"

definition no_fd :: "net \<Rightarrow> addr \<Rightarrow> bool" where
  "no_fd n a \<longleftrightarrow> (\<exists>b. bufs n a = Some b \<and> ub_fd b = - 1)"

definition bufs_frame :: "addr \<Rightarrow> net \<Rightarrow> net \<Rightarrow> bool" where
  "bufs_frame ub n n' \<longleftrightarrow>
     next_addr n \<le> next_addr n' \<and>
     (\<forall>a. a \<noteq> ub \<and> a < next_addr n \<longrightarrow> bufs n' a = bufs n a) \<and>
     (ub < next_addr n \<and> ext_view n ub \<noteq> None \<longrightarrow> ext_view n' ub = ext_view n ub) \<and>
     (ub < next_addr n \<and> no_fd n ub \<longrightarrow> no_fd n' ub)"

lemma bufs_frame_same: "bufs n' = bufs n \<Longrightarrow> next_addr n' = next_addr n \<Longrightarrow> bufs_frame ub n n'"
  by (simp add: bufs_frame_def ext_view_def no_fd_def)

lemma bufs_frame_refl [simp, intro]: "bufs_frame ub n n"
  by (simp add: bufs_frame_same)

lemma bufs_frame_trans:
  "bufs_frame ub n n' \<Longrightarrow> bufs_frame ub n' n'' \<Longrightarrow> bufs_frame ub n n''"
  by (auto simp: bufs_frame_def)

lemma bufs_frame_other:
  "bufs_frame ub n n' \<Longrightarrow> a \<noteq> ub \<Longrightarrow> a < next_addr n \<Longrightarrow> bufs n' a = bufs n a"
  by (simp add: bufs_frame_def)

lemma bufs_upd_client [simp]:
  "bufs (upd_client cl f n) = bufs n" "next_addr (upd_client cl f n) = next_addr n"
  by (simp_all add: upd_client_def set_fault_def split: option.splits)

lemma bufs_calloc: "calloc E n = (r, n') \<Longrightarrow> bufs n' = bufs n \<and> next_addr n' = next_addr n \<and> clients n' = clients n"
  by (auto simp: calloc_def)

lemma bufs_writev:
  "ubus_msg_writev E cl ub ofs n = (r, n') \<Longrightarrow>
   bufs n' = bufs n \<and> next_addr n' = next_addr n \<and> clients n' = clients n"
  by (auto simp: ubus_msg_writev_def Let_def set_fault_def split: option.splits send_res.splits)

lemma monitors_upd [simp]:
  "monitors (upd_client cl f n) = monitors n" "monitors (upd_buf ub g n) = monitors n"
  "monitors (set_fault n) = monitors n" "monitors (close_fd fd n) = monitors n"
  by (simp_all add: upd_client_def upd_buf_def set_fault_def close_fd_def split: option.splits)

lemma monitors_calloc: "calloc E n = (r, n') \<Longrightarrow> monitors n' = monitors n"
  by (auto simp: calloc_def)

lemma monitors_msg_new: "ubus_msg_new E d l s n = (r, n') \<Longrightarrow> monitors n' = monitors n"
  by (auto simp: ubus_msg_new_def calloc_def Let_def split: if_splits)

lemma monitors_ref: "ubus_msg_ref E ub n = (r, n') \<Longrightarrow> monitors n' = monitors n"
  by (auto simp: ubus_msg_ref_def dest!: monitors_msg_new
      split: option.splits if_splits prod.splits)

lemma monitors_writev: "ubus_msg_writev E cl ub ofs n = (r, n') \<Longrightarrow> monitors n' = monitors n"
  by (auto simp: ubus_msg_writev_def Let_def split: option.splits send_res.splits)

lemma monitors_enqueue: "ubus_msg_enqueue E cl ub n = (r, n') \<Longrightarrow> monitors n' = monitors n"
  by (auto simp: ubus_msg_enqueue_def dest!: monitors_calloc monitors_ref
      split: option.splits if_splits prod.splits bool.splits)

lemma monitors_write [simp]: "monitors (ubus_msg_write E cl ub n) = monitors n"
proof -
  have "monitors (snd (ubus_msg_enqueue E cl ub n')) = monitors n'" for n'
    by (rule monitors_enqueue) (rule prod.collapse [symmetric])
  then show ?thesis
    by (auto simp: ubus_msg_write_def Let_def dest!: monitors_writev monitors_enqueue
        split: option.splits prod.splits bool.splits)
qed

lemma monitors_xmit [simp]: "monitors (ubus_msg_xmit E cl ub n) = monitors n"
  by (simp add: ubus_msg_xmit_def split: option.splits)

lemma monitors_free [simp]: "monitors (ubus_msg_free ub n) = monitors n"
  by (simp add: ubus_msg_free_def Let_def split: option.splits)

lemma bufs_frame_upd_client: "bufs_frame ub n (upd_client cl f n)"
  by (simp add: bufs_frame_same)

lemma bufs_frame_upd_buf:
  "(\<And>b. ub_refcount (f b) = ub_refcount b \<and> ub_data (f b) = ub_data b \<and> ub_len (f b) = ub_len b \<and>
         (ub_hdr (f b))\<lparr>hdr_seq := 0\<rparr> = (ub_hdr b)\<lparr>hdr_seq := 0\<rparr> \<and> ub_fd (f b) = ub_fd b) \<Longrightarrow>
   bufs_frame ub n (upd_buf ub f n)"
  by (auto simp: bufs_frame_def ext_view_def no_fd_def upd_buf_def set_fault_def split: option.splits)

lemma bufs_frame_ref:
  assumes "ubus_msg_ref E ub n = (r, n')"
  shows "bufs_frame ub n n'" and "clients n' = clients n"
proof -
  have "bufs_frame ub n n' \<and> clients n' = clients n"
  proof (cases "bufs n ub")
    case None
    with assms show ?thesis
      by (auto simp: ubus_msg_ref_def bufs_frame_def ext_view_def no_fd_def set_fault_def)
  next
    case (Some b)
    with assms show ?thesis
      by (auto simp: ubus_msg_ref_def bufs_frame_def ext_view_def no_fd_def upd_buf_def set_fault_def ubus_msg_new_def
          calloc_def Let_def split: if_splits option.splits prod.splits)
  qed
  then show "bufs_frame ub n n'" and "clients n' = clients n" by simp_all
qed

lemma bufs_frame_set_fault: "bufs_frame ub n (set_fault n)"
  by (simp add: bufs_frame_same set_fault_def)

lemma bufs_frame_enqueue:
  assumes "ubus_msg_enqueue E cl ub n = (r, n')"
  shows "bufs_frame ub n n'"
proof -
  have c: "bufs_frame ub n n1" if "calloc E n = (r, n1)" for r n1
    using bufs_calloc [OF that] by (simp add: bufs_frame_same)
  have cr: "bufs_frame ub n n2" if "calloc E n = (r, n1)" "ubus_msg_ref E ub n1 = (r', n2)"
    for r n1 r' n2
    using c [OF that(1)] bufs_frame_ref(1) [OF that(2)] by (rule bufs_frame_trans)
  show ?thesis
    using assms
    by (auto simp: ubus_msg_enqueue_def bufs_frame_set_fault
        split: option.splits if_splits prod.splits bool.splits
        intro: c cr bufs_frame_trans [OF cr bufs_frame_upd_client])
qed

lemma bufs_frame_write: "bufs_frame ub n (ubus_msg_write E cl ub n)"
proof -
  have e: "bufs_frame ub n' (snd (ubus_msg_enqueue E cl ub n'))" for n'
    by (rule bufs_frame_enqueue) (rule prod.collapse [symmetric])
  have w: "bufs_frame ub n n'" if "ubus_msg_writev E cl ub 0 n = (r, n')" for r n'
    using bufs_writev [OF that] by (simp add: bufs_frame_same)
  have we: "bufs_frame ub n n2"
    if "ubus_msg_writev E cl ub 0 n = (r, n1)"
      and "ubus_msg_enqueue E cl ub (upd_client cl g n1) = (r', n2)" for r n1 g r' n2
    using w [OF that(1)] bufs_frame_upd_client bufs_frame_enqueue [OF that(2)]
    by (meson bufs_frame_trans)
  show ?thesis
    by (auto simp: ubus_msg_write_def Let_def e bufs_frame_set_fault w
        intro: we bufs_frame_trans [OF we bufs_frame_upd_client]
        split: option.splits prod.splits bool.splits)
qed

lemma bufs_frame_xmit: "bufs_frame ub n (ubus_msg_xmit E cl ub n)"
  by (auto simp: ubus_msg_xmit_def bufs_frame_write bufs_frame_set_fault
      split: option.splits)

section \<open>Sending keeps the invariant\<close>

text \<open>A message that may be sent: live, and either on an external data area or held once.\<close>

definition sendable :: "net \<Rightarrow> addr \<Rightarrow> bool" where
  "sendable n ub \<longleftrightarrow>
     (\<exists>b. bufs n ub = Some b \<and> (ub_refcount b = 1 \<or> ub_refcount b = USES_EXTERNAL_BUFFER))"

lemma sendable_cong: "bufs n' ub = bufs n ub \<Longrightarrow> sendable n' ub = sendable n ub"
  by (simp add: sendable_def)

lemma count_list_snoc [simp]: "count_list (xs @ [x]) a = count_list xs a + (if x = a then 1 else 0)"
  by (induction xs) auto

lemma net_wf_enqueue:
  assumes wf: "net_wf H n" and c: "clients n cl = Some c" and s: "sendable n ub"
    and e: "ubus_msg_enqueue E cl ub n = (r, n')"
  shows "net_wf H n'"
proof -
  obtain b where b: "bufs n ub = Some b"
    and cnt: "ub_refcount b = 1 \<or> ub_refcount b = USES_EXTERNAL_BUFFER"
    using s by (auto simp: sendable_def)
  show ?thesis
  proof (cases "txq_over_limit (cl_txq_len c) (ub_len b)")
    case True
    with e c b wf show ?thesis by (simp add: ubus_msg_enqueue_def)
  next
    case False
    obtain ok n1 where al: "calloc E n = (ok, n1)" by fastforce
    note n1 = bufs_calloc [OF al]
    have wf1: "net_wf H n1" by (rule net_wf_calloc [OF wf al])
    obtain m n2 where rf: "ubus_msg_ref E ub n1 = (m, n2)" by fastforce
    note n2 = bufs_frame_ref [OF rf]
    show ?thesis
    proof (cases "ok \<and> m \<noteq> None")
      case True
      then obtain m' where m': "m = Some m'" by auto
      note ref = net_wf_ref [OF wf1 _ cnt, of ub E m' n2]
      have wf2: "net_wf (H(m' := H m' + 1)) n2" using ref(1) n1 b rf m' by simp
      obtain mb where mb: "bufs n2 m' = Some mb" "ub_refcount mb \<noteq> USES_EXTERNAL_BUFFER"
        using ref(2) n1 b rf m' by auto
      have c2: "clients n2 cl = Some c" using n1 n2 c by simp
      have "net_wf H (upd_client cl (\<lambda>c. c\<lparr>cl_tx_queue := cl_tx_queue c @ [m'],
          cl_txq_len := cl_txq_len c + int (ub_len b + HDR_SIZE)\<rparr>) n2)"
        by (rule net_wf_move [OF wf2 c2]) (use mb in \<open>auto simp: client_refs_def\<close>)
      with e c b False al rf True m' show ?thesis
        by (simp add: ubus_msg_enqueue_def)
    next
      case no: False
      show ?thesis
      proof (cases ok)
        case True
        with no have "m = None" by simp
        then have "net_wf H n2"
          using net_wf_ref_None [OF wf1 _, of ub b E n2] n1 b rf by simp
        with e c b False al rf True \<open>m = None\<close> show ?thesis
          by (simp add: ubus_msg_enqueue_def)
      next
        case ok: False
        with e c b False al wf1 show ?thesis
          by (simp add: ubus_msg_enqueue_def)
      qed
    qed
  qed
qed

lemma net_wf_write:
  assumes wf: "net_wf H n" and c: "clients n cl = Some c" and s: "sendable n ub"
  shows "net_wf H (ubus_msg_write E cl ub n)"
proof -
  obtain b where b: "bufs n ub = Some b" using s by (auto simp: sendable_def)
  obtain r n1 where w: "ubus_msg_writev E cl ub 0 n = (r, n1)" by fastforce
  note n1 = bufs_writev [OF w]
  have wf1: "net_wf H n1" by (rule net_wf_writev [OF wf b w])
  let ?n2 = "upd_client cl (\<lambda>c. c\<lparr>cl_txq_ofs := send_written r,
      cl_txq_len := - int (send_written r), cl_write_ev := True\<rparr>) n1"
  have c1: "clients n1 cl = Some c" using n1 c by simp
  have wf2: "net_wf H ?n2"
    by (rule net_wf_upd_client [OF wf1 c1]) (simp_all add: client_refs_def)
  have c2: "\<exists>c2. clients ?n2 cl = Some c2" using c1 by (simp add: upd_client_def)
  have s2: "sendable ?n2 ub" using s n1 by (simp add: sendable_def)
  obtain q n3 where e: "ubus_msg_enqueue E cl ub ?n2 = (q, n3)" by fastforce
  have wf3: "net_wf H n3" using net_wf_enqueue [OF wf2 _ s2 e] c2 by blast
  have "core n3 = core ?n2" by (rule core_enqueue [OF e])
  then obtain c3 where c3: "clients n3 cl = Some c3"
    using c2 core_client by (metis option.exhaust core_client_None option.distinct(1))
  have wf4: "net_wf H (upd_client cl (\<lambda>c. c\<lparr>cl_eof := True\<rparr>) n3)"
    by (rule net_wf_upd_client [OF wf3 c3]) (simp_all add: client_refs_def)
  have "net_wf H (snd (ubus_msg_enqueue E cl ub n))"
    by (rule net_wf_enqueue [OF wf c s]) (rule prod.collapse [symmetric])
  with wf1 wf3 wf4 c b w e show ?thesis
    by (simp add: ubus_msg_write_def Let_def split: bool.splits)
qed

lemma net_wf_xmit:
  assumes "net_wf H n" and "clients n cl = Some c" and "sendable n ub"
  shows "net_wf H (ubus_msg_xmit E cl ub n)"
  using assms net_wf_write [OF assms] by (simp add: ubus_msg_xmit_def)

lemma ext_sendable: "ext_view n ub \<noteq> None \<Longrightarrow> sendable n ub"
  by (auto simp: ext_view_def no_fd_def sendable_def split: option.splits if_splits)

lemma net_wf_ub_less: "net_wf H n \<Longrightarrow> bufs n ub = Some b \<Longrightarrow> ub < next_addr n"
  using net_wf_next_addr(1) [of H n ub] by (cases "next_addr n \<le> ub") auto

lemma ext_view_live: "ext_view n ub \<noteq> None \<Longrightarrow> \<exists>b. bufs n ub = Some b"
  by (auto simp: ext_view_def no_fd_def split: option.splits)

lemma net_wf_monitor_loop:
  assumes "net_wf H n" and "ext_view n ub \<noteq> None"
    and "\<forall>m\<in>set ms. mon_cl m \<in> dom (clients n)"
  shows "net_wf H (snd (monitor_loop E ub ms n)) \<and>
    bufs_frame ub n (snd (monitor_loop E ub ms n)) \<and>
    monitors (snd (monitor_loop E ub ms n)) = monitors n"
  using assms
proof (induction E ub ms n rule: monitor_loop.induct)
  case (2 E ub m ms n)
  let ?n1 = "upd_buf ub (\<lambda>b. b\<lparr>ub_hdr := (ub_hdr b)\<lparr>hdr_seq := mon_seq m + 1\<rparr>\<rparr>) n"
  let ?n1' = "log_mon (mon_cl m) ub ?n1"
  let ?n2 = "ubus_msg_xmit E (mon_cl m) ub ?n1'"
  obtain b where b: "bufs n ub = Some b" using ext_view_live [OF "2.prems"(2)] by auto
  have less: "ub < next_addr n" by (rule net_wf_ub_less [OF "2.prems"(1) b])
  have wf1: "net_wf H ?n1" by (rule net_wf_upd_buf [OF "2.prems"(1) b]) simp
  have f1: "bufs_frame ub n ?n1" by (rule bufs_frame_upd_buf) simp
  have e1: "ext_view ?n1 ub \<noteq> None"
    using f1 less "2.prems"(2) by (simp add: bufs_frame_def)
  obtain c where c: "clients ?n1 (mon_cl m) = Some c"
    using "2.prems"(3) b by (auto simp: upd_buf_def)
  have wf1': "net_wf H ?n1'" and c': "clients ?n1' (mon_cl m) = Some c"
    and s1: "sendable ?n1' ub"
    using wf1 c ext_sendable [OF e1] by (simp_all add: sendable_def)
  have wf2: "net_wf H ?n2" by (rule net_wf_xmit [OF wf1' c' s1])
  have f2: "bufs_frame ub ?n1 ?n2"
    using bufs_frame_xmit [of ub ?n1' E "mon_cl m"] by (simp add: bufs_frame_def ext_view_def no_fd_def)
  have less1: "ub < next_addr ?n1" using f1 less by (simp add: bufs_frame_def)
  have e2: "ext_view ?n2 ub \<noteq> None" using f2 e1 less1 by (simp add: bufs_frame_def)
  have "core ?n2 = core n" by simp
  then have d2: "dom (clients ?n2) = dom (clients n)" by (rule core_dom)
  have m2: "monitors ?n2 = monitors n"
    by (simp add: monitors_xmit)
  from "2.IH" [OF refl refl refl wf2 e2] "2.prems"(3) d2 m2 f1 f2 show ?case
    by (auto simp: Let_def split: prod.splits dest: bufs_frame_trans)
qed simp_all

lemma net_wf_set_monitors:
  "net_wf H n \<Longrightarrow> map mon_cl ms = map mon_cl (monitors n) \<Longrightarrow> net_wf H (n\<lparr>monitors := ms\<rparr>)"
proof -
  assume wf: "net_wf H n" and ms: "map mon_cl ms = map mon_cl (monitors n)"
  have "buf_ok H (n\<lparr>monitors := ms\<rparr>) a" for a
    by (rule buf_ok_cong [OF net_wfD(3) [OF wf]]) simp_all
  moreover have "mon_cl ` set ms = mon_cl ` set (monitors n)"
    using ms by (metis set_map)
  ultimately show ?thesis
    using wf by (auto simp: net_wf_def)
qed

lemma bufs_frame_free: "a \<noteq> ub \<Longrightarrow> bufs (ubus_msg_free ub n) a = bufs n a"
  by (simp add: ubus_msg_free_def Let_def close_fd_def upd_buf_def set_fault_def
      split: option.splits)

lemma next_addr_free [simp]: "next_addr (ubus_msg_free ub n) = next_addr n"
  by (simp add: ubus_msg_free_def Let_def close_fd_def upd_buf_def set_fault_def
      split: option.splits)

text \<open>
  A monitor copy is built in a buffer of its own, which is gone when the copies are out: the
  message itself and every other buffer are as before.
\<close>

lemma net_wf_monitor_message:
  assumes wf: "net_wf H n" and b: "bufs n ub = Some b"
  shows "net_wf H (ubusd_monitor_message E cl ub send n)"
    and "a < next_addr n \<Longrightarrow> bufs (ubusd_monitor_message E cl ub send n) a = bufs n a"
    and "next_addr n \<le> next_addr (ubusd_monitor_message E cl ub send n)"
proof -
  let ?d = "Built (mon_attrs E cl b send)"
  let ?n' = "ubusd_monitor_message E cl ub send n"
  have "net_wf H ?n' \<and> (\<forall>a < next_addr n. bufs ?n' a = bufs n a) \<and> next_addr n \<le> next_addr ?n'"
  proof (cases "monitors n = []")
    case True
    with wf show ?thesis by (simp add: ubusd_monitor_message_def)
  next
    case False
    obtain r n1 where new: "ubus_msg_new E ?d (blob_raw_len E ?d) True n = (r, n1)" by fastforce
    show ?thesis
    proof (cases r)
      case None
      with new False b net_wf_msg_new_None [OF wf] show ?thesis
        by (auto simp: ubusd_monitor_message_def ubus_msg_new_def calloc_def Let_def
            split: if_splits)
    next
      case (Some mub)
      note new = new [unfolded Some]
      note w = net_wf_msg_new [OF wf new]
      note n1 = ubus_msg_new_Some [OF new]
      let ?n2 = "upd_buf mub
          (\<lambda>b. b\<lparr>ub_hdr := (ub_hdr b)\<lparr>hdr_type := ubus_msg_code UBUS_MSG_MONITOR\<rparr>\<rparr>) n1"
      have wf2: "net_wf (H(mub := 1)) ?n2"
        by (rule net_wf_upd_buf [OF w(1)]) (simp_all add: n1)
      have e2: "ext_view ?n2 mub \<noteq> None"
        by (simp add: n1 ext_view_def no_fd_def upd_buf_def)
      have "\<forall>m\<in>set (monitors ?n2). mon_cl m \<in> dom (clients ?n2)"
        using wf2 by (auto simp: net_wf_def)
      note loop = net_wf_monitor_loop [OF wf2 e2 this, of E]
      obtain ms n3 where l: "monitor_loop E mub (monitors ?n2) ?n2 = (ms, n3)" by fastforce
      have wf3: "net_wf (H(mub := 1)) n3" and f3: "bufs_frame mub ?n2 n3"
        and m3: "monitors n3 = monitors ?n2"
        using loop l by simp_all
      have "map mon_cl ms = map mon_cl (monitors n3)"
        using core_monitor_loop [of E mub "monitors ?n2" ?n2] l m3 by simp
      then have "net_wf (H(mub := 1)) (n3\<lparr>monitors := ms\<rparr>)"
        by (rule net_wf_set_monitors [OF wf3])
      then have "net_wf ((H(mub := 1))(mub := (H(mub := 1)) mub - 1))
          (ubus_msg_free mub (n3\<lparr>monitors := ms\<rparr>))"
        by (rule net_wf_free) simp
      moreover have "(H(mub := 1))(mub := (H(mub := 1)) mub - 1) = H"
        using w(2) by (simp add: fun_eq_iff)
      ultimately have "net_wf H ?n'"
        using new False b l by (simp add: ubusd_monitor_message_def Let_def)
      moreover have "?n' = ubus_msg_free mub (n3\<lparr>monitors := ms\<rparr>)"
        using new False b l by (simp add: ubusd_monitor_message_def Let_def)
      moreover have "next_addr ?n2 = Suc (next_addr n)"
        by (simp add: n1 upd_buf_def)
      moreover have "a < next_addr n \<Longrightarrow> bufs ?n2 a = bufs n a \<and> a \<noteq> mub" for a
        by (simp add: n1 upd_buf_def)
      ultimately show ?thesis
        using f3 by (auto simp: bufs_frame_free bufs_frame_def)
    qed
  qed
  then show "net_wf H ?n'" "a < next_addr n \<Longrightarrow> bufs ?n' a = bufs n a"
    "next_addr n \<le> next_addr ?n'" by simp_all
qed

lemma net_wf_send:
  assumes wf: "net_wf H n" and c: "clients n cl = Some c" and s: "sendable n ub"
  shows "net_wf H (ubus_msg_send E cl ub n)" and "bufs_frame ub n (ubus_msg_send E cl ub n)"
proof -
  obtain b where b: "bufs n ub = Some b" using s by (auto simp: sendable_def)
  let ?n0 = "log_sent cl b n"
  let ?n1 = "ubusd_monitor_message E cl ub True ?n0"
  have wf0: "net_wf H ?n0" and b0: "bufs ?n0 ub = Some b" and c0: "clients ?n0 cl = Some c"
    and s0: "sendable ?n0 ub" and f0: "bufs_frame ub n ?n0"
    using wf b c s by (simp_all add: sendable_def bufs_frame_same)
  have less: "ub < next_addr ?n0" by (rule net_wf_ub_less [OF wf0 b0])
  note mm = net_wf_monitor_message [OF wf0 b0, where E = E and cl = cl and send = True]
  have s1: "sendable ?n1 ub" using s0 mm(2) [OF less] by (simp add: sendable_def)
  have "core ?n1 = core ?n0" by (rule core_monitor_message)
  then obtain c1 where c1: "clients ?n1 cl = Some c1"
    by (rule core_client [OF _ c0])
  have f1: "bufs_frame ub ?n0 ?n1"
    using mm(2,3) less by (simp add: bufs_frame_def ext_view_def no_fd_def)
  have "net_wf H (ubus_msg_write E cl ub ?n1)" by (rule net_wf_write [OF mm(1) c1 s1])
  moreover have "net_wf H (ubus_msg_write E cl ub ?n0)" by (rule net_wf_write [OF wf0 c0 s0])
  ultimately show "net_wf H (ubus_msg_send E cl ub n)"
    using c b wf0 by (simp add: ubus_msg_send_def Let_def)
  have "bufs_frame ub n (ubus_msg_write E cl ub ?n1)"
    by (rule bufs_frame_trans [OF f0 bufs_frame_trans [OF f1 bufs_frame_write]])
  moreover have "bufs_frame ub n (ubus_msg_write E cl ub ?n0)"
    by (rule bufs_frame_trans [OF f0 bufs_frame_write])
  ultimately show "bufs_frame ub n (ubus_msg_send E cl ub n)"
    using c b f0 by (simp add: ubus_msg_send_def Let_def)
qed

text \<open>Sending one message and dropping the reference to it, the way most handlers do.\<close>

lemma net_wf_send_free:
  assumes wf: "net_wf (H(ub := 1)) n" and H: "H ub = 0" and c: "clients n cl = Some c"
    and s: "sendable n ub"
  shows "net_wf H (ubus_msg_free ub (ubus_msg_send E cl ub n))"
proof -
  have "net_wf (H(ub := 1)) (ubus_msg_send E cl ub n)"
    by (rule net_wf_send(1) [OF wf c s])
  then have "net_wf ((H(ub := 1))(ub := (H(ub := 1)) ub - 1))
      (ubus_msg_free ub (ubus_msg_send E cl ub n))"
    by (rule net_wf_free) simp
  then show ?thesis using H by (simp add: fun_upd_idem)
qed

section \<open>What is handed over\<close>

lemma sent_upd [simp]:
  "sent (upd_client cl f n) = sent n" "sent (upd_buf ub g n) = sent n"
  "sent (set_fault n) = sent n" "sent (close_fd fd n) = sent n" "sent (log_mon cl ub n) = sent n"
  by (simp_all add: upd_client_def upd_buf_def set_fault_def close_fd_def log_mon_def
      split: option.splits)

lemma sent_calloc: "calloc E n = (r, n') \<Longrightarrow> sent n' = sent n"
  by (auto simp: calloc_def)

lemma sent_msg_new: "ubus_msg_new E d l s n = (r, n') \<Longrightarrow> sent n' = sent n"
  by (auto simp: ubus_msg_new_def calloc_def Let_def split: if_splits)

lemma sent_ref: "ubus_msg_ref E ub n = (r, n') \<Longrightarrow> sent n' = sent n"
  by (auto simp: ubus_msg_ref_def dest!: sent_msg_new split: option.splits if_splits prod.splits)

lemma sent_writev: "ubus_msg_writev E cl ub ofs n = (r, n') \<Longrightarrow> sent n' = sent n"
  by (auto simp: ubus_msg_writev_def Let_def split: option.splits send_res.splits)

lemma sent_enqueue: "ubus_msg_enqueue E cl ub n = (r, n') \<Longrightarrow> sent n' = sent n"
  by (auto simp: ubus_msg_enqueue_def dest!: sent_calloc sent_ref
      split: option.splits if_splits prod.splits bool.splits)

lemma sent_write [simp]: "sent (ubus_msg_write E cl ub n) = sent n"
proof -
  have "sent (snd (ubus_msg_enqueue E cl ub n')) = sent n'" for n'
    by (rule sent_enqueue) (rule prod.collapse [symmetric])
  then show ?thesis
    by (auto simp: ubus_msg_write_def Let_def dest!: sent_writev sent_enqueue
        split: option.splits prod.splits bool.splits)
qed

lemma sent_xmit [simp]: "sent (ubus_msg_xmit E cl ub n) = sent n"
  by (simp add: ubus_msg_xmit_def split: option.splits)

lemma sent_free [simp]: "sent (ubus_msg_free ub n) = sent n"
  by (simp add: ubus_msg_free_def Let_def split: option.splits)

lemma sent_monitor_loop: "sent (snd (monitor_loop E ub ms n)) = sent n"
  by (induction E ub ms n rule: monitor_loop.induct) (auto simp: Let_def split: prod.splits)

lemma sent_monitor_message [simp]: "sent (ubusd_monitor_message E cl ub send n) = sent n"
proof -
  have m: "monitor_loop E ub' ms n' = (ms', n'') \<Longrightarrow> sent n'' = sent n'" for ub' ms n' ms' n''
    using sent_monitor_loop [of E ub' ms n'] by simp
  show ?thesis
    by (auto simp: ubusd_monitor_message_def Let_def dest!: sent_msg_new m
        split: option.splits prod.splits)
qed

lemma sent_send:
  "clients n cl = Some c \<Longrightarrow> bufs n ub = Some b \<Longrightarrow>
   sent (ubus_msg_send E cl ub n) = sent n @ [(cl, ub_hdr b, ub_data b, ub_fd b)]"
  by (simp add: ubus_msg_send_def Let_def log_sent_def)

end
