(* ===== verification/Ubusd_Id.thy ===== *)
theory Ubusd_Id
  imports Ubusd_Msg_Inv
begin

text \<open>
  Identifiers (src/ubusd_id.c, src/ubusd_id.h). An id tree is a finite map from ids to nodes.
  \<open>ubus_alloc_id\<close> takes a fixed id when one is asked for and otherwise draws random ids until one
  lies outside the reserved range and is free; \<open>rnd\<close> holds the results of the coming
  \<open>read_random\<close> calls, \<open>None\<close> and the end of the list standing for a failed or short read.
\<close>

definition ubus_cmp_id :: "u32 \<Rightarrow> u32 \<Rightarrow> int" where
  "ubus_cmp_id id1 id2 = (if id1 < id2 then - 1 else if id2 < id1 then 1 else 0)"

definition ubus_find_id :: "(u32 \<rightharpoonup> 'v) \<Rightarrow> u32 \<Rightarrow> 'v option" where
  "ubus_find_id tree i = tree i"

definition ubus_free_id :: "(u32 \<rightharpoonup> 'v) \<Rightarrow> u32 \<Rightarrow> (u32 \<rightharpoonup> 'v)" where
  "ubus_free_id tree i = tree(i := None)"

definition read_random :: "u32 option list \<Rightarrow> u32 option \<times> u32 option list" where
  "read_random r = (case r of [] \<Rightarrow> (None, []) | x # r' \<Rightarrow> (x, r'))"

text \<open>The two nested loops of \<open>ubus_alloc_id\<close>: draw until the value is not reserved, and until
  it can be inserted.\<close>

fun alloc_random :: "(u32 \<rightharpoonup> 'v) \<Rightarrow> u32 option list \<Rightarrow> u32 option \<times> u32 option list" where
  "alloc_random tree [] = (None, snd (read_random []))"
| "alloc_random tree (x # r) =
     (case fst (read_random (x # r)) of
        None \<Rightarrow> (None, r)
      | Some i \<Rightarrow>
          if i < UBUS_SYSTEM_OBJECT_MAX then alloc_random tree r
          else if tree i \<noteq> None then alloc_random tree r
          else (Some i, r))"

definition ubus_alloc_id :: "(u32 \<rightharpoonup> 'v) \<Rightarrow> u32 \<Rightarrow> net \<Rightarrow> u32 option \<times> net" where
  "ubus_alloc_id tree val n =
     (if val \<noteq> 0 then (if tree val \<noteq> None then (None, n) else (Some val, n))
      else let (i, r) = alloc_random tree (rnd n) in (i, n\<lparr>rnd := r\<rparr>))"

subsection \<open>Facts\<close>

lemma read_random_Cons [simp]: "read_random (x # r) = (x, r)"
  by (simp add: read_random_def)

lemma alloc_random_Some:
  "alloc_random tree r = (Some i, r') \<Longrightarrow> tree i = None \<and> UBUS_SYSTEM_OBJECT_MAX \<le> i"
  by (induction tree r arbitrary: r' rule: alloc_random.induct)
    (auto simp: not_less split: option.splits if_splits)

text \<open>What is drawn is the first usable value, provided no read fails before it.\<close>

lemma alloc_random_first:
  assumes "\<forall>x\<in>set xs. \<exists>j. x = Some j \<and> (j < UBUS_SYSTEM_OBJECT_MAX \<or> tree j \<noteq> None)"
    and "UBUS_SYSTEM_OBJECT_MAX \<le> i" and "tree i = None"
  shows "alloc_random tree (xs @ Some i # r) = (Some i, r)"
  using assms by (induction xs) (auto simp: not_less)

lemma ubus_alloc_id_Some:
  "ubus_alloc_id tree val n = (Some i, n') \<Longrightarrow>
   tree i = None \<and> (val = 0 \<longrightarrow> UBUS_SYSTEM_OBJECT_MAX \<le> i) \<and> (val \<noteq> 0 \<longrightarrow> i = val)"
  by (auto simp: ubus_alloc_id_def dest: alloc_random_Some split: if_splits prod.splits)

lemma ubus_alloc_id_net:
  "ubus_alloc_id tree val n = (r, n') \<Longrightarrow> \<exists>x. n' = n\<lparr>rnd := x\<rparr>"
  by (auto simp: ubus_alloc_id_def split: if_splits prod.splits intro: exI [of _ "rnd n"])

lemma net_wf_rnd [simp]: "net_wf H (n\<lparr>rnd := x\<rparr>) = net_wf H n"
  by (auto elim!: net_wf_cong)

lemma ubus_cmp_id_order:
  "ubus_cmp_id a b = 0 \<longleftrightarrow> a = b" "ubus_cmp_id a b < 0 \<longleftrightarrow> a < b" "ubus_cmp_id b a = - ubus_cmp_id a b"
  by (auto simp: ubus_cmp_id_def)

end
