(* ===== verification/Ubus_Scan.thy ===== *)
theory Ubus_Scan
  imports Ubus_Msg
begin

text \<open>
  The scan that the daemon repeats over its sorted string trees: access control entries
  (\<open>ubusd_acl_check\<close> and \<open>ubusd_reply_add\<close> in src/ubusd_acl.c) and event patterns
  (\<open>ubusd_send_event\<close> in src/ubusd_event.c). Each loop keeps the length of the common prefix of
  the name and the last key, skips keys that do not match, and stops as soon as that length
  drops. The sources justify the early stop with a comment: as the tree is sorted, matching
  keys can only be found while the length grows.

  The locale states what such a loop is, and its lemma that on a sorted tree the loop visits
  exactly the matching nodes, in order. The component theories interpret it on their loops.
\<close>

definition key_matches :: "string \<Rightarrow> bool \<Rightarrow> string \<Rightarrow> bool" where
  "key_matches name partial key \<longleftrightarrow> name = key \<or> partial \<and> (\<exists>rest. name = key @ rest)"

fun run_until :: "('v \<Rightarrow> 's \<Rightarrow> 's \<times> bool) \<Rightarrow> 'v list \<Rightarrow> 's \<Rightarrow> 's" where
  "run_until step [] s = s"
| "run_until step (v # vs) s =
     (let (s', stop) = step v s in if stop then s' else run_until step vs s')"

lemma key_matches_le: "key_matches name partial key \<Longrightarrow> key \<le> name"
  by (auto simp: key_matches_def prefix_less_eq)

lemma key_matches_lcp:
  "key_matches name partial key \<longleftrightarrow> name = key \<or> partial \<and> lcp name key = length key"
  by (simp add: key_matches_def lcp_full_prefix)

locale scan_loop =
  fixes name :: string
    and partial :: "'v \<Rightarrow> bool"
    and skip :: "'v \<Rightarrow> bool"
    and step :: "'v \<Rightarrow> 's \<Rightarrow> 's \<times> bool"
    and loop :: "nat \<Rightarrow> (string \<times> 'v) list \<Rightarrow> 's \<Rightarrow> 's"
  assumes loop_Nil: "loop m [] s = s"
    and loop_Cons: "loop m ((key, v) # t) s =
      (if skip v then loop m t s
       else
         let (cur, full) = ubus_strmatch_len name key in
         if cur < m then s
         else if \<not> full \<and> (\<not> partial v \<or> cur \<noteq> length key) then loop cur t s
         else let (s', stop) = step v s in if stop then s' else loop cur t s')"
begin

definition hits :: "(string \<times> 'v) list \<Rightarrow> 'v list" where
  "hits t = map snd (filter (\<lambda>(k, v). \<not> skip v \<and> key_matches name (partial v) k) t)"

text \<open>Once the keys have passed the name, nothing below matches.\<close>

lemma hits_past:
  "sorted (map fst t) \<Longrightarrow> (\<And>k v. (k, v) \<in> set t \<Longrightarrow> name < k) \<Longrightarrow> hits t = []"
  by (force simp: hits_def filter_empty_conv dest: key_matches_le)

lemma loop_hits:
  assumes "sorted (map fst t)"
    and "\<And>k v. (k, v) \<in> set t \<Longrightarrow> k \<le> name \<Longrightarrow> m \<le> lcp name k"
  shows "loop m t s = run_until step (hits t) s"
  using assms
proof (induction t arbitrary: m s)
  case Nil
  show ?case by (simp add: loop_Nil hits_def)
next
  case (Cons kv t)
  obtain key v where kv: "kv = (key, v)" by fastforce
  have sorted: "sorted (map fst t)" and above: "\<And>k w. (k, w) \<in> set t \<Longrightarrow> key \<le> k"
    using Cons.prems(1) kv by force+
  have grow: "\<And>k w. (k, w) \<in> set t \<Longrightarrow> k \<le> name \<Longrightarrow> lcp name key \<le> lcp name k"
    using above by (blast intro: lcp_mono)
  have keep: "\<And>k w. (k, w) \<in> set t \<Longrightarrow> k \<le> name \<Longrightarrow> m \<le> lcp name k"
    using Cons.prems(2) by (meson list.set_intros(2))
  show ?case
  proof (cases "skip v")
    case True
    with Cons.IH [OF sorted keep] kv show ?thesis
      by (simp add: loop_Cons hits_def)
  next
    case False
    show ?thesis
    proof (cases "lcp name key < m")
      case True
      have "\<not> key \<le> name"
        using Cons.prems(2) [of key v] kv True by (meson list.set_intros(1) not_le)
      then have past: "name < key" by simp
      then have "hits t = []"
        using above by (intro hits_past [OF sorted]) (meson less_le_trans)
      moreover have "\<not> key_matches name (partial v) key"
        using past key_matches_le leD by blast
      ultimately have "hits (kv # t) = []" using kv by (simp add: hits_def)
      with False True kv show ?thesis
        by (simp add: loop_Cons strmatch_len_eq)
    next
      case on: False
      note IH = Cons.IH [OF sorted grow]
      show ?thesis
      proof (cases "key_matches name (partial v) key")
        case True
        then have "hits (kv # t) = v # hits t" using False kv by (simp add: hits_def)
        with True False on kv IH show ?thesis
          by (auto simp: loop_Cons strmatch_len_eq key_matches_lcp split: prod.splits)
      next
        case no: False
        then have "hits (kv # t) = hits t" using False kv by (simp add: hits_def)
        with no False on kv IH show ?thesis
          by (auto simp: loop_Cons strmatch_len_eq key_matches_lcp)
      qed
    qed
  qed
qed

lemma loop_start: "sorted (map fst t) \<Longrightarrow> loop 0 t s = run_until step (hits t) s"
  by (rule loop_hits) simp_all

end

end
