(* ===== verification/Ubusd_State.thy ===== *)
theory Ubusd_State
  imports Ubusd_Id Ubus_Scan
begin

text \<open>
  The state of the daemon above the transport layer (the structs of src/ubusd_obj.h,
  src/ubusd_event.c and src/ubusd_acl.c, and the global variables of the daemon).

  Objects, object types and clients are addressed by their ids, subscriptions, event sources
  and access control entries by heap addresses. A list of C nodes is the list of the addresses
  linked in it, in list order. \<open>next_node\<close> is the address the next node gets. The path tree, the pattern tree and the access control tree are
  lists of (key, node) in tree order.
\<close>

record ubus_object_type =
  ty_refcount :: int
  ty_methods :: "(string \<times> blob_attr) list"

record ubus_subscription =
  sub_subscriber :: u32
  sub_target :: u32

datatype recv_msg = Event_recv | Acl_recv | Monitor_recv

record ubus_object =
  obj_type :: "u32 option"
  obj_path :: "string option"
  obj_client :: "u32 option"
  obj_recv_msg :: "recv_msg option"
  obj_events :: "addr list"
  obj_subscribers :: "addr list"
  obj_target_list :: "addr list"
  obj_event_seen :: u32
  obj_invoke_seq :: u16

record event_source =
  ev_addr :: addr
  ev_obj :: u32
  ev_partial :: bool

datatype ubusd_acl_type =
  UBUS_ACL_PUBLISH | UBUS_ACL_SUBSCRIBE | UBUS_ACL_ACCESS | UBUS_ACL_LISTEN | UBUS_ACL_SEND

record ubusd_acl_obj =
  ao_addr :: addr
  ao_partial :: bool
  ao_user :: "string option"
  ao_group :: "string option"
  ao_uid :: int
  ao_gid :: int
  ao_methods :: "blob_attr option"
  ao_tags :: "blob_attr option"
  ao_priv :: "blob_attr option"
  ao_subscribe :: bool
  ao_publish :: bool
  ao_listen :: bool
  ao_send :: bool

record ubusd_acl_file =
  af_user :: "string option"
  af_group :: "string option"
  af_uid :: int
  af_gid :: int
  af_blob :: blob_attr
  af_acl :: "addr list"
  af_ok :: bool

record daemon =
  net :: net
  client_tree :: "u32 set"
  objects :: "u32 \<rightharpoonup> ubus_object"
  obj_types :: "u32 \<rightharpoonup> ubus_object_type"
  path :: "(string \<times> u32) list"
  subs :: "addr \<rightharpoonup> ubus_subscription"
  patterns :: "(string \<times> event_source) list"
  event_seq :: u16
  obj_event_seq :: u32
  ubusd_acls :: "(string \<times> ubusd_acl_obj) list"
  ubusd_acl_files :: "(string \<times> ubusd_acl_file) list"
  ubusd_acl_seq :: u32
  next_node :: addr

section \<open>Access to the state\<close>

definition on_net :: "(net \<Rightarrow> net) \<Rightarrow> daemon \<Rightarrow> daemon" where
  "on_net f d = d\<lparr>net := f (net d)\<rparr>"

definition dfault :: "daemon \<Rightarrow> daemon" where
  "dfault = on_net set_fault"

definition upd_obj :: "u32 \<Rightarrow> (ubus_object \<Rightarrow> ubus_object) \<Rightarrow> daemon \<Rightarrow> daemon" where
  "upd_obj oid f d =
     (case objects d oid of
        None \<Rightarrow> dfault d
      | Some ob \<Rightarrow> d\<lparr>objects := (objects d)(oid \<mapsto> f ob)\<rparr>)"

definition upd_type :: "u32 \<Rightarrow> (ubus_object_type \<Rightarrow> ubus_object_type) \<Rightarrow> daemon \<Rightarrow> daemon" where
  "upd_type tid f d =
     (case obj_types d tid of
        None \<Rightarrow> dfault d
      | Some t \<Rightarrow> d\<lparr>obj_types := (obj_types d)(tid \<mapsto> f t)\<rparr>)"

text \<open>Allocation of a node: a fresh address, unless the allocator fails.\<close>

definition calloc_node :: "env \<Rightarrow> daemon \<Rightarrow> addr option \<times> daemon" where
  "calloc_node E d =
     (case calloc E (net d) of
        (False, n) \<Rightarrow> (None, d\<lparr>net := n\<rparr>)
      | (True, n) \<Rightarrow> (Some (next_node d), d\<lparr>net := n, next_node := Suc (next_node d)\<rparr>))"

definition ubusd_find_object :: "u32 \<Rightarrow> daemon \<Rightarrow> ubus_object option" where
  "ubusd_find_object objid d = ubus_find_id (objects d) objid"

lemma on_net_simps [simp]:
  "net (on_net f d) = f (net d)" "client_tree (on_net f d) = client_tree d"
  "objects (on_net f d) = objects d" "obj_types (on_net f d) = obj_types d"
  "path (on_net f d) = path d" "subs (on_net f d) = subs d" "patterns (on_net f d) = patterns d"
  "event_seq (on_net f d) = event_seq d" "obj_event_seq (on_net f d) = obj_event_seq d"
  "ubusd_acls (on_net f d) = ubusd_acls d" "ubusd_acl_files (on_net f d) = ubusd_acl_files d"
  "ubusd_acl_seq (on_net f d) = ubusd_acl_seq d" "next_node (on_net f d) = next_node d"
  by (simp_all add: on_net_def)

end
