(* ===== verification/Ubusd_Acl.thy ===== *)
theory Ubusd_Acl
  imports Ubusd_State
begin

text \<open>
  Access control (src/ubusd_acl.c): matching a client's credentials, the check that every
  handler makes, and the access control tree built from the files of the configuration
  directory. The replies to \<open>query\<close> and the reload event are in theory \<open>Ubusd_Acl_Query\<close>, as
  they send messages.
\<close>

section \<open>The check\<close>

definition ubusd_acl_match_cred :: "ubus_client \<Rightarrow> ubusd_acl_obj \<Rightarrow> int" where
  "ubusd_acl_match_cred c a =
     (if ao_uid a \<noteq> - 1 \<and> cl_uid c = ao_uid a then 0
      else if ao_gid a \<noteq> - 1 \<and>
              (cl_gid c = ao_gid a \<or> list_ex (\<lambda>g. g = ao_gid a) (cl_extra_gid c)) then 0
      else - 1)"

definition acl_method_listed :: "string option \<Rightarrow> blob_attr option \<Rightarrow> bool" where
  "acl_method_listed method methods =
     (case methods of
        Some (Blobmsg_array ms) \<Rightarrow>
          list_ex (\<lambda>m. case m of Blob_string s \<Rightarrow> method = Some s \<or> s = ''*'' | _ \<Rightarrow> False) ms
      | _ \<Rightarrow> False)"

definition acl_grants :: "ubusd_acl_type \<Rightarrow> string option \<Rightarrow> ubusd_acl_obj \<Rightarrow> bool" where
  "acl_grants ty method a =
     (case ty of
        UBUS_ACL_PUBLISH \<Rightarrow> ao_publish a
      | UBUS_ACL_SUBSCRIBE \<Rightarrow> ao_subscribe a
      | UBUS_ACL_LISTEN \<Rightarrow> ao_listen a
      | UBUS_ACL_SEND \<Rightarrow> ao_send a
      | UBUS_ACL_ACCESS \<Rightarrow> acl_method_listed method (ao_methods a))"

fun acl_scan ::
  "ubus_client \<Rightarrow> string \<Rightarrow> string option \<Rightarrow> ubusd_acl_type \<Rightarrow> nat \<Rightarrow>
   (string \<times> ubusd_acl_obj) list \<Rightarrow> int" where
  "acl_scan c name method ty match_len [] = - 1"
| "acl_scan c name method ty match_len ((key, a) # t) =
     (let (cur, full) = ubus_strmatch_len name key in
      if cur < match_len then - 1
      else if \<not> full \<and> (\<not> ao_partial a \<or> cur \<noteq> length key) then acl_scan c name method ty cur t
      else if ubusd_acl_match_cred c a \<noteq> 0 then acl_scan c name method ty cur t
      else if acl_grants ty method a then 0
      else acl_scan c name method ty cur t)"

definition ubusd_acl_check ::
  "daemon \<Rightarrow> ubus_client option \<Rightarrow> string option \<Rightarrow> string option \<Rightarrow> ubusd_acl_type \<Rightarrow> int" where
  "ubusd_acl_check d cl name method ty =
     (case (cl, name) of
        (Some c, Some nm) \<Rightarrow>
          if cl_uid c = 0 then 0 else acl_scan c nm method ty 0 (ubusd_acls d)
      | _ \<Rightarrow> 0)"

section \<open>Credentials of a new client\<close>

text \<open>
  The peer as the kernel reports it: its credentials (\<open>SO_PEERCRED\<close>; \<open>None\<close> when the call fails)
  and its supplementary groups (\<open>SO_PEERGROUPS\<close>; \<open>None\<close> when the call fails).
\<close>

record peer_cred =
  peer_ids :: "(int \<times> int) option"
  peer_groups :: "int list option"

definition ubusd_acl_load_extra_gids :: "env \<Rightarrow> peer_cred \<Rightarrow> net \<Rightarrow> int list option \<times> net" where
  "ubusd_acl_load_extra_gids E p n =
     (case calloc E n of
        (False, n) \<Rightarrow> (None, n)
      | (True, n) \<Rightarrow> (Some (case peer_groups p of None \<Rightarrow> [] | Some gs \<Rightarrow> gs), n))"

text \<open>The result is the user id, group id, user name, group name and extra groups.\<close>

definition ubusd_acl_init_client ::
  "env \<Rightarrow> peer_cred \<Rightarrow> net \<Rightarrow> (int \<times> int \<times> string \<times> string \<times> int list) option \<times> net" where
  "ubusd_acl_init_client E p n =
     (case peer_ids p of
        None \<Rightarrow> (None, n)
      | Some (uid, gid) \<Rightarrow>
          (case getpwuid E uid of
             None \<Rightarrow> (None, n)
           | Some pw \<Rightarrow>
               (case getgrgid E gid of
                  None \<Rightarrow> (None, n)
                | Some gr \<Rightarrow>
                    (case calloc E n of
                       (False, n) \<Rightarrow> (None, n)
                     | (True, n) \<Rightarrow>
                         (case calloc E n of
                            (False, n) \<Rightarrow> (None, n)
                          | (True, n) \<Rightarrow>
                              (case ubusd_acl_load_extra_gids E p n of
                                 (None, n) \<Rightarrow> (None, n)
                               | (Some gs, n) \<Rightarrow> (Some (uid, gid, pw, gr, gs), n)))))))"

section \<open>The access control tree\<close>

definition upd_acl :: "addr \<Rightarrow> (ubusd_acl_obj \<Rightarrow> ubusd_acl_obj) \<Rightarrow> daemon \<Rightarrow> daemon" where
  "upd_acl a f d =
     d\<lparr>ubusd_acls := map (\<lambda>(k, ao). if ao_addr ao = a then (k, f ao) else (k, ao)) (ubusd_acls d)\<rparr>"

definition ubusd_acl_alloc_obj ::
  "env \<Rightarrow> string \<Rightarrow> ubusd_acl_file \<times> daemon \<Rightarrow> addr option \<times> ubusd_acl_file \<times> daemon" where
  "ubusd_acl_alloc_obj E name = (\<lambda>(file, d).
     (if name = [] then (None, file, d)
      else
        let partial = (last name = CHR ''*'');
            key = (if partial then butlast name else name) in
        (case calloc_node E d of
           (None, d) \<Rightarrow> (None, file, d)
         | (Some a, d) \<Rightarrow>
             let ao = \<lparr>ao_addr = a, ao_partial = partial, ao_user = af_user file,
                       ao_group = af_group file, ao_uid = af_uid file, ao_gid = af_gid file,
                       ao_methods = None, ao_tags = None, ao_priv = None, ao_subscribe = False,
                       ao_publish = False, ao_listen = False, ao_send = False\<rparr>
             in (Some a, file\<lparr>af_acl := a # af_acl file\<rparr>,
                 d\<lparr>ubusd_acls := avl_link E key ao (ubusd_acls d)\<rparr>))))"

definition acl_obj_policy :: "(string \<times> blobmsg_type) list" where
  "acl_obj_policy =
     [(''methods'', BLOBMSG_TYPE_ARRAY), (''tags'', BLOBMSG_TYPE_ARRAY), (''acl'', BLOBMSG_TYPE_TABLE)]"

definition ubusd_acl_add_access ::
  "env \<Rightarrow> string \<times> blob_attr \<Rightarrow> ubusd_acl_file \<times> daemon \<Rightarrow> ubusd_acl_file \<times> daemon" where
  "ubusd_acl_add_access E obj fd =
     (case blobmsg_parse E acl_obj_policy (snd obj) of
        [methods, tags, priv] \<Rightarrow>
          if methods = None \<and> tags = None \<and> priv = None then fd
          else
            (case ubusd_acl_alloc_obj E (fst obj) fd of
               (None, file, d) \<Rightarrow> (file, d)
             | (Some a, file, d) \<Rightarrow>
                 ((if 0 < af_uid file \<or> 0 < af_gid file then file\<lparr>af_ok := True\<rparr> else file),
                  upd_acl a (\<lambda>ao. ao\<lparr>ao_methods := methods, ao_tags := tags, ao_priv := priv\<rparr>) d))
      | _ \<Rightarrow> fd)"

definition acl_add_flag ::
  "env \<Rightarrow> (ubusd_acl_obj \<Rightarrow> ubusd_acl_obj) \<Rightarrow> string \<Rightarrow> ubusd_acl_file \<times> daemon \<Rightarrow>
   ubusd_acl_file \<times> daemon" where
  "acl_add_flag E f name fd =
     (case ubusd_acl_alloc_obj E name fd of
        (None, file, d) \<Rightarrow> (file, d)
      | (Some a, file, d) \<Rightarrow> (file, upd_acl a f d))"

definition ubusd_acl_add_subscribe ::
  "env \<Rightarrow> string \<Rightarrow> ubusd_acl_file \<times> daemon \<Rightarrow> ubusd_acl_file \<times> daemon" where
  "ubusd_acl_add_subscribe E = acl_add_flag E (\<lambda>ao. ao\<lparr>ao_subscribe := True\<rparr>)"

definition ubusd_acl_add_publish ::
  "env \<Rightarrow> string \<Rightarrow> ubusd_acl_file \<times> daemon \<Rightarrow> ubusd_acl_file \<times> daemon" where
  "ubusd_acl_add_publish E = acl_add_flag E (\<lambda>ao. ao\<lparr>ao_publish := True\<rparr>)"

definition ubusd_acl_add_listen ::
  "env \<Rightarrow> string \<Rightarrow> ubusd_acl_file \<times> daemon \<Rightarrow> ubusd_acl_file \<times> daemon" where
  "ubusd_acl_add_listen E = acl_add_flag E (\<lambda>ao. ao\<lparr>ao_listen := True\<rparr>)"

definition ubusd_acl_add_send ::
  "env \<Rightarrow> string \<Rightarrow> ubusd_acl_file \<times> daemon \<Rightarrow> ubusd_acl_file \<times> daemon" where
  "ubusd_acl_add_send E = acl_add_flag E (\<lambda>ao. ao\<lparr>ao_send := True\<rparr>)"

definition acl_policy :: "(string \<times> blobmsg_type) list" where
  "acl_policy =
     [(''user'', BLOBMSG_TYPE_STRING), (''group'', BLOBMSG_TYPE_STRING),
      (''access'', BLOBMSG_TYPE_TABLE), (''publish'', BLOBMSG_TYPE_ARRAY),
      (''subscribe'', BLOBMSG_TYPE_ARRAY), (''inherit'', BLOBMSG_TYPE_ARRAY),
      (''listen'', BLOBMSG_TYPE_ARRAY), (''send'', BLOBMSG_TYPE_ARRAY)]"

text \<open>\<open>blobmsg_for_each_attr\<close> over a table and over the strings of an array.\<close>

definition table_fields :: "blob_attr option \<Rightarrow> (string \<times> blob_attr) list" where
  "table_fields tb = (case tb of Some (Blobmsg_table fs) \<Rightarrow> fs | _ \<Rightarrow> [])"

definition array_strings :: "blob_attr option \<Rightarrow> string list" where
  "array_strings tb =
     (case tb of
        Some (Blobmsg_array as) \<Rightarrow> concat (map (\<lambda>a. case a of Blob_string s \<Rightarrow> [s] | _ \<Rightarrow> []) as)
      | _ \<Rightarrow> [])"

definition acl_file_ids ::
  "env \<Rightarrow> blob_attr option \<Rightarrow> blob_attr option \<Rightarrow> ubusd_acl_file \<Rightarrow> ubusd_acl_file option" where
  "acl_file_ids E user grp file =
     (let file = file\<lparr>af_uid := - 1, af_gid := - 1\<rparr> in
      case user of
        Some u \<Rightarrow>
          Some (file\<lparr>af_user := Some (blob_str E u),
                     af_uid := (case getpwnam E (blob_str E u) of Some i \<Rightarrow> i | None \<Rightarrow> - 1)\<rparr>)
      | None \<Rightarrow>
          (case grp of
             Some g \<Rightarrow>
               Some (file\<lparr>af_group := Some (blob_str E g),
                          af_gid := (case getgrnam E (blob_str E g) of Some i \<Rightarrow> i | None \<Rightarrow> - 1)\<rparr>)
           | None \<Rightarrow> None))"

definition ubusd_acl_file_add ::
  "env \<Rightarrow> ubusd_acl_file \<times> daemon \<Rightarrow> ubusd_acl_file \<times> daemon" where
  "ubusd_acl_file_add E = (\<lambda>(file, d).
     (case blobmsg_parse E acl_policy (af_blob file) of
        [user, grp, access, publish, subscribe, inherit, listen, send] \<Rightarrow>
          (case acl_file_ids E user grp file of
             None \<Rightarrow> (file\<lparr>af_uid := - 1, af_gid := - 1\<rparr>, d)
           | Some file \<Rightarrow>
               fold (ubusd_acl_add_send E) (array_strings send)
                (fold (ubusd_acl_add_listen E) (array_strings listen)
                 (fold (ubusd_acl_add_publish E) (array_strings publish)
                  (fold (ubusd_acl_add_subscribe E) (array_strings subscribe)
                   (fold (ubusd_acl_add_access E) (table_fields access) (file, d))))))
      | _ \<Rightarrow> (file, d)))"

definition ubusd_acl_file_free :: "ubusd_acl_file \<Rightarrow> daemon \<Rightarrow> daemon" where
  "ubusd_acl_file_free file d =
     d\<lparr>ubusd_acls := filter (\<lambda>(k, ao). ao_addr ao \<notin> set (af_acl file)) (ubusd_acls d)\<rparr>"

definition ubusd_acl_update_cb ::
  "env \<Rightarrow> ubusd_acl_file option \<Rightarrow> ubusd_acl_file option \<Rightarrow> daemon \<Rightarrow>
   ubusd_acl_file option \<times> daemon" where
  "ubusd_acl_update_cb E node_new node_old d =
     (let d = (case node_old of None \<Rightarrow> d | Some file \<Rightarrow> ubusd_acl_file_free file d) in
      case node_new of
        None \<Rightarrow> (None, d)
      | Some file \<Rightarrow> (case ubusd_acl_file_add E (file, d) of (file, d) \<Rightarrow> (Some file, d)))"

section \<open>Loading the configuration directory\<close>

text \<open>
  One match of \<open>glob\<close>: its name, what \<open>stat\<close> reports (\<open>None\<close> when it fails), and what
  \<open>blobmsg_add_json_from_file\<close> reads (\<open>None\<close> when it fails).
\<close>

record acl_dirent =
  de_name :: string
  de_stat :: "(bool \<times> int \<times> int \<times> u32) option"
  de_json :: "blob_attr option"

definition acl_mode_mask :: u32 where
  "acl_mode_mask = 2 OR 16 OR 1"

definition acl_dirent_ok :: "acl_dirent \<Rightarrow> bool" where
  "acl_dirent_ok e =
     (case de_stat e of
        None \<Rightarrow> False
      | Some (isreg, uid, gid, mode) \<Rightarrow>
          isreg \<and> uid = 0 \<and> gid = 0 \<and> mode AND acl_mode_mask = 0)"

definition ubusd_acl_load_file :: "env \<Rightarrow> acl_dirent \<Rightarrow> daemon \<Rightarrow> int \<times> daemon" where
  "ubusd_acl_load_file E e d =
     (case de_json e of
        None \<Rightarrow> (- 1, d)
      | Some blob \<Rightarrow>
          (case calloc E (net d) of
             (False, n) \<Rightarrow> (- 1, d\<lparr>net := n\<rparr>)
           | (True, n) \<Rightarrow>
               let d = d\<lparr>net := n\<rparr>;
                   file = \<lparr>af_user = None, af_group = None, af_uid = 0, af_gid = 0,
                           af_blob = blob, af_acl = [], af_ok = False\<rparr>;
                   old = map_of (ubusd_acl_files d) (de_name e)
               in (case ubusd_acl_update_cb E (Some file) old d of
                     (None, d) \<Rightarrow> (0, d)
                   | (Some file, d) \<Rightarrow>
                       (0, d\<lparr>ubusd_acl_files :=
                              (de_name e, file) #
                              filter (\<lambda>(k, _). k \<noteq> de_name e) (ubusd_acl_files d)\<rparr>))))"

fun acl_load_loop :: "env \<Rightarrow> acl_dirent list \<Rightarrow> string list \<times> daemon \<Rightarrow> string list \<times> daemon" where
  "acl_load_loop E [] ad = ad"
| "acl_load_loop E (e # es) (added, d) =
     (if \<not> acl_dirent_ok e then acl_load_loop E es (added, d)
      else
        (case ubusd_acl_load_file E e d of
           (r, d) \<Rightarrow> acl_load_loop E es (if r = 0 then de_name e # added else added, d)))"

definition acl_flush_one :: "env \<Rightarrow> string \<Rightarrow> daemon \<Rightarrow> daemon" where
  "acl_flush_one E k d =
     (let old = map_of (ubusd_acl_files d) k;
          d = d\<lparr>ubusd_acl_files := filter (\<lambda>(k', _). k' \<noteq> k) (ubusd_acl_files d)\<rparr>
      in snd (ubusd_acl_update_cb E None old d))"

text \<open>\<open>ubusd_acl_load\<close> up to the new sequence number; the event it then sends is in theory
  \<open>Ubusd_Acl_Query\<close>.\<close>

definition acl_reload :: "env \<Rightarrow> acl_dirent list \<Rightarrow> daemon \<Rightarrow> daemon" where
  "acl_reload E gl d =
     (case acl_load_loop E gl ([], d) of
        (added, d) \<Rightarrow>
          let d = fold (acl_flush_one E)
                    (vlist_stale E (map fst (ubusd_acl_files d)) added) d
          in d\<lparr>ubusd_acl_seq := ubusd_acl_seq d + 1\<rparr>)"

section \<open>What the check decides\<close>

definition acl_allows ::
  "ubus_client \<Rightarrow> string \<Rightarrow> string option \<Rightarrow> ubusd_acl_type \<Rightarrow> string \<times> ubusd_acl_obj \<Rightarrow> bool" where
  "acl_allows c name method ty ka \<longleftrightarrow>
     key_matches name (ao_partial (snd ka)) (fst ka) \<and>
     ubusd_acl_match_cred c (snd ka) = 0 \<and> acl_grants ty method (snd ka)"

definition acl_step ::
  "ubus_client \<Rightarrow> string option \<Rightarrow> ubusd_acl_type \<Rightarrow> ubusd_acl_obj \<Rightarrow> int \<Rightarrow> int \<times> bool" where
  "acl_step c method ty a r =
     (if ubusd_acl_match_cred c a = 0 \<and> acl_grants ty method a then (0, True) else (r, False))"

text \<open>The check is an instance of the sorted scan. The result of the loop is carried as its
  state, which starts as \<open>-1\<close>.\<close>

interpretation acl: scan_loop name ao_partial "\<lambda>_. False" "acl_step c meth ty"
  "\<lambda>m t r. if acl_scan c name meth ty m t = 0 then 0 else r"
  for c name meth ty
  by unfold_locales (auto simp: acl_step_def Let_def split: prod.splits)

lemma acl_scan_range: "acl_scan c name method ty m t = 0 \<or> acl_scan c name method ty m t = - 1"
proof (induction t arbitrary: m)
  case (Cons ka t)
  then show ?case by (cases ka) (auto simp: Let_def split: prod.splits)
qed simp

lemma run_until_acl_step:
  "run_until (acl_step c method ty) as (- 1) = 0 \<longleftrightarrow>
     (\<exists>a\<in>set as. ubusd_acl_match_cred c a = 0 \<and> acl_grants ty method a)"
  by (induction as) (auto simp: acl_step_def)

lemma acl_scan_iff:
  assumes "sorted (map fst t)"
  shows "acl_scan c name method ty 0 t = 0 \<longleftrightarrow> (\<exists>ka\<in>set t. acl_allows c name method ty ka)"
proof -
  have "(if acl_scan c name method ty 0 t = 0 then 0 else - 1) =
      run_until (acl_step c method ty) (acl.hits name t) (- 1)"
    by (rule acl.loop_start [OF assms])
  then have "acl_scan c name method ty 0 t = 0 \<longleftrightarrow>
      run_until (acl_step c method ty) (acl.hits name t) (- 1) = 0"
    by (simp split: if_splits)
  then show ?thesis
    by (force simp: run_until_acl_step acl.hits_def acl_allows_def)
qed

end
