(* ===== verification/Ubusd_Registry.thy ===== *)
theory Ubusd_Registry
  imports Ubusd_Acl
begin

text \<open>
  The registry: an abstract view of what the daemon knows about clients, objects, object types,
  paths, subscriptions and event patterns. The C structs point to each other; the view holds
  one function per pointer field, and leaves out the transport layer and the counters. \<open>reg\<close>
  extracts it from the state. Operations that only send messages do not change it.

  \<open>reg_wf\<close> says that every pointer has its counterpart: an object is in the list of its client,
  a subscription is in the lists of both objects, a pattern in the list of its object, a path
  belongs to one object, and the reference count of a type is the number of its objects plus the
  number \<open>K\<close> of references a running operation holds.
\<close>

section \<open>The view\<close>

record registry =
  r_client :: "u32 \<rightharpoonup> ubus_client"
  r_owned :: "u32 \<Rightarrow> u32 list"
  r_monitors :: "u32 list"
  r_tree :: "u32 set"
  r_objs :: "u32 set"
  r_owner :: "u32 \<Rightarrow> u32 option"
  r_pathof :: "u32 \<Rightarrow> string option"
  r_typeof :: "u32 \<Rightarrow> u32 option"
  r_recv :: "u32 \<Rightarrow> recv_msg option"
  r_events :: "u32 \<Rightarrow> addr list"
  r_subscribers :: "u32 \<Rightarrow> addr list"
  r_targets :: "u32 \<Rightarrow> addr list"
  r_types :: "u32 \<rightharpoonup> ubus_object_type"
  r_path :: "(string \<times> u32) list"
  r_subs :: "addr \<rightharpoonup> ubus_subscription"
  r_patterns :: "(string \<times> event_source) list"
  r_acls :: "(string \<times> ubusd_acl_obj) list"
  r_next :: addr
  r_files :: "(string \<times> ubusd_acl_file) list"

definition cl_base :: "ubus_client \<Rightarrow> ubus_client" where
  "cl_base c = (cl_core c)\<lparr>cl_objects := []\<rparr>"

definition cl_field :: "'a \<Rightarrow> (ubus_client \<Rightarrow> 'a) \<Rightarrow> net \<Rightarrow> u32 \<Rightarrow> 'a" where
  "cl_field e f n i = (case clients n i of None \<Rightarrow> e | Some c \<Rightarrow> f c)"

definition obj_field :: "'a \<Rightarrow> (ubus_object \<Rightarrow> 'a) \<Rightarrow> daemon \<Rightarrow> u32 \<Rightarrow> 'a" where
  "obj_field e f d i = (case objects d i of None \<Rightarrow> e | Some ob \<Rightarrow> f ob)"

definition reg :: "daemon \<Rightarrow> registry" where
  "reg d = \<lparr>r_client = (\<lambda>i. map_option cl_base (clients (net d) i)),
            r_owned = cl_field [] cl_objects (net d),
            r_monitors = map mon_cl (monitors (net d)), r_tree = client_tree d,
            r_objs = dom (objects d),
            r_owner = obj_field None obj_client d, r_pathof = obj_field None obj_path d,
            r_typeof = obj_field None obj_type d, r_recv = obj_field None obj_recv_msg d,
            r_events = obj_field [] obj_events d, r_subscribers = obj_field [] obj_subscribers d,
            r_targets = obj_field [] obj_target_list d,
            r_types = obj_types d, r_path = path d, r_subs = subs d, r_patterns = patterns d,
            r_acls = ubusd_acls d, r_next = next_node d, r_files = ubusd_acl_files d\<rparr>"

lemma reg_sel [simp]:
  "r_client (reg d) = (\<lambda>i. map_option cl_base (clients (net d) i))"
  "r_owned (reg d) = cl_field [] cl_objects (net d)"
  "r_monitors (reg d) = map mon_cl (monitors (net d))" "r_tree (reg d) = client_tree d"
  "r_objs (reg d) = dom (objects d)"
  "r_owner (reg d) = obj_field None obj_client d" "r_pathof (reg d) = obj_field None obj_path d"
  "r_typeof (reg d) = obj_field None obj_type d" "r_recv (reg d) = obj_field None obj_recv_msg d"
  "r_events (reg d) = obj_field [] obj_events d"
  "r_subscribers (reg d) = obj_field [] obj_subscribers d"
  "r_targets (reg d) = obj_field [] obj_target_list d"
  "r_types (reg d) = obj_types d" "r_path (reg d) = path d" "r_subs (reg d) = subs d"
  "r_patterns (reg d) = patterns d" "r_acls (reg d) = ubusd_acls d" "r_next (reg d) = next_node d"
  "r_files (reg d) = ubusd_acl_files d"
  by (simp_all add: reg_def)

lemma cl_base_core: "cl_base c = cl_base c' \<and> cl_objects c = cl_objects c' \<longleftrightarrow> cl_core c = cl_core c'"
  by (cases c; cases c') (auto simp: cl_base_def cl_core_def)

lemma core_fields:
  assumes "core n' = core n"
  shows "map_option cl_base (clients n' i) = map_option cl_base (clients n i)"
    and "cl_field [] cl_objects n' i = cl_field [] cl_objects n i"
    and "map mon_cl (monitors n') = map mon_cl (monitors n)"
proof -
  have "map_option cl_core (clients n' i) = map_option cl_core (clients n i)"
    by (rule core_client_map [OF assms])
  then show "map_option cl_base (clients n' i) = map_option cl_base (clients n i)"
    and "cl_field [] cl_objects n' i = cl_field [] cl_objects n i"
    by (cases "clients n' i"; cases "clients n i"; simp add: cl_field_def flip: cl_base_core)+
  show "map mon_cl (monitors n') = map mon_cl (monitors n)"
    using assms by (simp add: core_def)
qed

lemma reg_set_net: "core n = core (net d) \<Longrightarrow> reg (d\<lparr>net := n\<rparr>) = reg d"
  using core_fields [of n "net d"] by (simp add: reg_def fun_eq_iff obj_field_def)

lemma reg_on_net [simp]: "core (f (net d)) = core (net d) \<Longrightarrow> reg (on_net f d) = reg d"
  by (simp add: on_net_def reg_set_net)

lemma reg_dfault [simp]: "reg (dfault d) = reg d"
  by (simp add: dfault_def)

lemma obj_field_upd [simp]:
  "obj_field e f (d\<lparr>net := n\<rparr>) = obj_field e f d"
  "obj_field e f (d\<lparr>event_seq := x1\<rparr>) = obj_field e f d"
  "obj_field e f (d\<lparr>obj_event_seq := x2\<rparr>) = obj_field e f d"
  "obj_field e f (d\<lparr>client_tree := x3\<rparr>) = obj_field e f d"
  "obj_field e f (d\<lparr>obj_types := x4\<rparr>) = obj_field e f d"
  "obj_field e f (d\<lparr>path := x5\<rparr>) = obj_field e f d"
  "obj_field e f (d\<lparr>subs := x6\<rparr>) = obj_field e f d"
  "obj_field e f (d\<lparr>patterns := x7\<rparr>) = obj_field e f d"
  "obj_field e f (d\<lparr>ubusd_acls := x8\<rparr>) = obj_field e f d"
  "obj_field e f (d\<lparr>ubusd_acl_files := x9\<rparr>) = obj_field e f d"
  "obj_field e f (d\<lparr>ubusd_acl_seq := x10\<rparr>) = obj_field e f d"
  "obj_field e f (d\<lparr>next_node := x11\<rparr>) = obj_field e f d"
  "obj_field e f (on_net g d) = obj_field e f d"
  by (simp_all add: obj_field_def fun_eq_iff)

lemma obj_field_set:
  "obj_field e f (d\<lparr>objects := (objects d)(oid \<mapsto> ob)\<rparr>) = (obj_field e f d)(oid := f ob)"
  "obj_field e f (d\<lparr>objects := (objects d)(oid := None)\<rparr>) = (obj_field e f d)(oid := e)"
  by (simp_all add: obj_field_def fun_eq_iff)

lemma reg_upd [simp]:
  "reg (d\<lparr>event_seq := x1\<rparr>) = reg d" "reg (d\<lparr>obj_event_seq := x2\<rparr>) = reg d"
  "reg (d\<lparr>client_tree := x3\<rparr>) = (reg d)\<lparr>r_tree := x3\<rparr>"
  "reg (d\<lparr>obj_types := x4\<rparr>) = (reg d)\<lparr>r_types := x4\<rparr>" "reg (d\<lparr>path := x5\<rparr>) = (reg d)\<lparr>r_path := x5\<rparr>"
  "reg (d\<lparr>subs := x6\<rparr>) = (reg d)\<lparr>r_subs := x6\<rparr>"
  "reg (d\<lparr>patterns := x7\<rparr>) = (reg d)\<lparr>r_patterns := x7\<rparr>"
  "reg (d\<lparr>ubusd_acls := x8\<rparr>) = (reg d)\<lparr>r_acls := x8\<rparr>"
  "reg (d\<lparr>ubusd_acl_files := x9\<rparr>) = (reg d)\<lparr>r_files := x9\<rparr>" "reg (d\<lparr>ubusd_acl_seq := x10\<rparr>) = reg d"
  "reg (d\<lparr>next_node := x11\<rparr>) = (reg d)\<lparr>r_next := x11\<rparr>"
  by (simp_all add: reg_def)

text \<open>One equation per pointer field of an object.\<close>

lemma reg_upd_obj:
  assumes "objects d oid = Some ob"
  shows "reg (upd_obj oid (\<lambda>ob. ob\<lparr>obj_event_seen := x\<rparr>) d) = reg d"
    and "reg (upd_obj oid (\<lambda>ob. ob\<lparr>obj_invoke_seq := y ob\<rparr>) d) = reg d"
    and "reg (upd_obj oid (\<lambda>ob. ob\<lparr>obj_events := g1 (obj_events ob)\<rparr>) d) =
      (reg d)\<lparr>r_events := (r_events (reg d))(oid := g1 (r_events (reg d) oid))\<rparr>"
    and "reg (upd_obj oid (\<lambda>ob. ob\<lparr>obj_subscribers := g2 (obj_subscribers ob)\<rparr>) d) =
      (reg d)\<lparr>r_subscribers := (r_subscribers (reg d))(oid := g2 (r_subscribers (reg d) oid))\<rparr>"
    and "reg (upd_obj oid (\<lambda>ob. ob\<lparr>obj_target_list := g3 (obj_target_list ob)\<rparr>) d) =
      (reg d)\<lparr>r_targets := (r_targets (reg d))(oid := g3 (r_targets (reg d) oid))\<rparr>"
    and "reg (upd_obj oid (\<lambda>ob. ob\<lparr>obj_client := c\<rparr>) d) =
      (reg d)\<lparr>r_owner := (r_owner (reg d))(oid := c)\<rparr>"
    and "reg (upd_obj oid (\<lambda>ob. ob\<lparr>obj_path := p\<rparr>) d) =
      (reg d)\<lparr>r_pathof := (r_pathof (reg d))(oid := p)\<rparr>"
    and "reg (upd_obj oid (\<lambda>ob. ob\<lparr>obj_recv_msg := h\<rparr>) d) =
      (reg d)\<lparr>r_recv := (r_recv (reg d))(oid := h)\<rparr>"
  using assms by (auto simp: upd_obj_def reg_def obj_field_def fun_eq_iff)

lemma reg_upd_seen [simp]:
  "reg (upd_obj oid (\<lambda>ob. ob\<lparr>obj_event_seen := x\<rparr>) d) = reg d"
  "reg (upd_obj oid (\<lambda>ob. ob\<lparr>obj_invoke_seq := y ob\<rparr>) d) = reg d"
proof -
  have "reg (upd_obj oid f d) = reg d" if "objects d oid = None" for f
    using that by (simp add: upd_obj_def)
  then show "reg (upd_obj oid (\<lambda>ob. ob\<lparr>obj_event_seen := x\<rparr>) d) = reg d"
    "reg (upd_obj oid (\<lambda>ob. ob\<lparr>obj_invoke_seq := y ob\<rparr>) d) = reg d"
    by (cases "objects d oid"; simp only: reg_upd_obj)+
qed

text \<open>Two states with the same registry have the same objects and clients up to counters.\<close>

lemma reg_objects: "reg d' = reg d \<Longrightarrow> objects d' i = None \<longleftrightarrow> objects d i = None"
  by (metis reg_sel(5) domIff)

lemma reg_obj_field:
  assumes "reg d' = reg d"
  shows "obj_field None obj_client d' = obj_field None obj_client d"
    "obj_field None obj_path d' = obj_field None obj_path d"
    "obj_field None obj_type d' = obj_field None obj_type d"
    "obj_field None obj_recv_msg d' = obj_field None obj_recv_msg d"
    "obj_field [] obj_events d' = obj_field [] obj_events d"
    "obj_field [] obj_subscribers d' = obj_field [] obj_subscribers d"
    "obj_field [] obj_target_list d' = obj_field [] obj_target_list d"
  using assms by (metis reg_sel)+

lemma reg_object:
  assumes "reg d' = reg d" and "objects d i = Some ob"
  obtains ob' where "objects d' i = Some ob'" and "obj_type ob' = obj_type ob"
    and "obj_path ob' = obj_path ob" and "obj_client ob' = obj_client ob"
    and "obj_recv_msg ob' = obj_recv_msg ob" and "obj_events ob' = obj_events ob"
    and "obj_subscribers ob' = obj_subscribers ob" and "obj_target_list ob' = obj_target_list ob"
proof -
  from reg_objects [OF assms(1), of i] assms(2) obtain ob' where ob': "objects d' i = Some ob'"
    by auto
  with reg_obj_field [OF assms(1), THEN fun_cong, of i] assms(2) that show ?thesis
    by (simp add: obj_field_def)
qed

lemma reg_clients: "reg d' = reg d \<Longrightarrow> clients (net d') i = None \<longleftrightarrow> clients (net d) i = None"
  by (metis reg_sel(1) option.map_disc_iff)

lemma reg_client:
  assumes "reg d' = reg d" and "clients (net d) i = Some c"
  obtains c' where "clients (net d') i = Some c'" and "cl_core c' = cl_core c"
proof -
  from reg_clients [OF assms(1), of i] assms(2) obtain c' where c': "clients (net d') i = Some c'"
    by auto
  have "r_client (reg d') i = r_client (reg d) i" "r_owned (reg d') i = r_owned (reg d) i"
    using assms(1) by simp_all
  with c' assms(2) that show ?thesis
    by (simp add: cl_field_def flip: cl_base_core)
qed

section \<open>The invariant\<close>

definition owners_ok :: "registry \<Rightarrow> bool" where
  "owners_ok r \<longleftrightarrow>
     (\<forall>oid c. r_owner r oid = Some c \<longleftrightarrow> oid \<in> set (r_owned r c)) \<and>
     (\<forall>c. distinct (r_owned r c)) \<and> (\<forall>c. r_client r c = None \<longrightarrow> r_owned r c = []) \<and>
     (\<forall>oid. oid \<notin> r_objs r \<longrightarrow> r_owner r oid = None \<and> r_pathof r oid = None \<and> r_typeof r oid = None)"

definition unowned_ok :: "registry \<Rightarrow> bool" where
  "unowned_ok r \<longleftrightarrow>
     (\<forall>oid. r_owner r oid = None \<longrightarrow>
        r_events r oid = [] \<and> r_subscribers r oid = [] \<and> r_targets r oid = [])"

definition type_refs :: "registry \<Rightarrow> u32 \<Rightarrow> nat" where
  "type_refs r tid = card {oid. r_typeof r oid = Some tid}"

definition types_ok :: "(u32 \<Rightarrow> nat) \<Rightarrow> registry \<Rightarrow> bool" where
  "types_ok K r \<longleftrightarrow>
     finite (r_objs r) \<and>
     (\<forall>tid. case r_types r tid of
              None \<Rightarrow> type_refs r tid = 0 \<and> K tid = 0
            | Some t \<Rightarrow> ty_refcount t = int (type_refs r tid + K tid) \<and> 0 < ty_refcount t)"

definition path_ok :: "registry \<Rightarrow> bool" where
  "path_ok r \<longleftrightarrow>
     sorted (map fst (r_path r)) \<and> distinct (map fst (r_path r)) \<and>
     (\<forall>k oid. (k, oid) \<in> set (r_path r) \<longleftrightarrow> r_pathof r oid = Some k)"

definition subs_ok :: "registry \<Rightarrow> bool" where
  "subs_ok r \<longleftrightarrow>
     (\<forall>a s. r_subs r a = Some s \<longrightarrow>
        a < r_next r \<and> sub_subscriber s \<noteq> sub_target s \<and>
        a \<in> set (r_targets r (sub_subscriber s)) \<and> a \<in> set (r_subscribers r (sub_target s))) \<and>
     (\<forall>oid. distinct (r_subscribers r oid) \<and> distinct (r_targets r oid)) \<and>
     (\<forall>oid a. a \<in> set (r_subscribers r oid) \<longrightarrow> (\<exists>s. r_subs r a = Some s \<and> sub_target s = oid)) \<and>
     (\<forall>oid a. a \<in> set (r_targets r oid) \<longrightarrow> (\<exists>s. r_subs r a = Some s \<and> sub_subscriber s = oid))"

definition events_ok :: "registry \<Rightarrow> bool" where
  "events_ok r \<longleftrightarrow>
     sorted (map fst (r_patterns r)) \<and> distinct (map (ev_addr \<circ> snd) (r_patterns r)) \<and>
     (\<forall>k ev. (k, ev) \<in> set (r_patterns r) \<longrightarrow>
        ev_addr ev < r_next r \<and> ev_addr ev \<in> set (r_events r (ev_obj ev))) \<and>
     (\<forall>oid. distinct (r_events r oid)) \<and>
     (\<forall>oid a. a \<in> set (r_events r oid) \<longrightarrow>
        (\<exists>k ev. (k, ev) \<in> set (r_patterns r) \<and> ev_addr ev = a \<and> ev_obj ev = oid))"

definition clients_ok :: "registry \<Rightarrow> bool" where
  "clients_ok r \<longleftrightarrow>
     r_tree r = dom (r_client r) \<and> distinct (r_monitors r) \<and> sorted (map fst (r_acls r))"

definition reg_wf :: "(u32 \<Rightarrow> nat) \<Rightarrow> registry \<Rightarrow> bool" where
  "reg_wf K r \<longleftrightarrow>
     owners_ok r \<and> unowned_ok r \<and> types_ok K r \<and> path_ok r \<and> subs_ok r \<and> events_ok r \<and> clients_ok r"

text \<open>The objects without a client are the daemon's own: they have a method handler, and are not
  published under a path.\<close>

definition served_ok :: "registry \<Rightarrow> bool" where
  "served_ok r \<longleftrightarrow>
     (\<forall>oid. oid \<in> r_objs r \<and> r_owner r oid = None \<longrightarrow> r_recv r oid \<noteq> None \<and> r_pathof r oid = None)"

definition daemon_wf :: "(addr \<Rightarrow> nat) \<Rightarrow> daemon \<Rightarrow> bool" where
  "daemon_wf H d \<longleftrightarrow> net_wf H (net d) \<and> reg_wf (\<lambda>_. 0) (reg d) \<and> served_ok (reg d)"

lemma reg_wfD:
  assumes "reg_wf K r"
  shows "owners_ok r" "unowned_ok r" "types_ok K r" "path_ok r" "subs_ok r" "events_ok r"
    "clients_ok r"
  using assms by (simp_all add: reg_wf_def)

lemma daemon_wfD:
  assumes "daemon_wf H d"
  shows "net_wf H (net d)" "reg_wf (\<lambda>_. 0) (reg d)" "served_ok (reg d)"
  using assms by (simp_all add: daemon_wf_def)

lemma daemon_wf_net: "net_wf H (net d') \<Longrightarrow> reg d' = reg d \<Longrightarrow> daemon_wf H' d \<Longrightarrow> daemon_wf H d'"
  by (simp add: daemon_wf_def)

lemma owners_okD:
  assumes "owners_ok r"
  shows "r_owner r oid = Some c \<longleftrightarrow> oid \<in> set (r_owned r c)" and "distinct (r_owned r c)"
    and "r_client r c = None \<Longrightarrow> r_owned r c = []"
    and "oid \<notin> r_objs r \<Longrightarrow> r_owner r oid = None" and "oid \<notin> r_objs r \<Longrightarrow> r_pathof r oid = None"
    and "oid \<notin> r_objs r \<Longrightarrow> r_typeof r oid = None"
    and "r_owner r oid = Some c \<Longrightarrow> r_client r c \<noteq> None"
proof -
  show *: "r_owner r oid = Some c \<longleftrightarrow> oid \<in> set (r_owned r c)" "distinct (r_owned r c)"
    "r_client r c = None \<Longrightarrow> r_owned r c = []" "oid \<notin> r_objs r \<Longrightarrow> r_owner r oid = None"
    "oid \<notin> r_objs r \<Longrightarrow> r_pathof r oid = None" "oid \<notin> r_objs r \<Longrightarrow> r_typeof r oid = None"
    using assms by (auto simp: owners_ok_def)
  show "r_owner r oid = Some c \<Longrightarrow> r_client r c \<noteq> None"
    using *(1,3) by force
qed

lemma subs_okD:
  assumes "subs_ok r"
  shows "r_subs r a = Some s \<Longrightarrow> a < r_next r" and "r_subs r a = Some s \<Longrightarrow> sub_subscriber s \<noteq> sub_target s"
    and "r_subs r a = Some s \<Longrightarrow> a \<in> set (r_targets r (sub_subscriber s))"
    and "r_subs r a = Some s \<Longrightarrow> a \<in> set (r_subscribers r (sub_target s))"
    and "distinct (r_subscribers r oid)" and "distinct (r_targets r oid)"
    and "a \<in> set (r_subscribers r oid) \<Longrightarrow> \<exists>s. r_subs r a = Some s \<and> sub_target s = oid"
    and "a \<in> set (r_targets r oid) \<Longrightarrow> \<exists>s. r_subs r a = Some s \<and> sub_subscriber s = oid"
  using assms unfolding subs_ok_def by blast+

lemma events_okD:
  assumes "events_ok r"
  shows "(k, ev) \<in> set (r_patterns r) \<Longrightarrow> ev_addr ev \<in> set (r_events r (ev_obj ev))"
    and "(k, ev) \<in> set (r_patterns r) \<Longrightarrow> ev_addr ev < r_next r"
    and "a \<in> set (r_events r oid) \<Longrightarrow>
      \<exists>k ev. (k, ev) \<in> set (r_patterns r) \<and> ev_addr ev = a \<and> ev_obj ev = oid"
    and "distinct (r_events r oid)"
    and "sorted (map fst (r_patterns r))" and "distinct (map (ev_addr \<circ> snd) (r_patterns r))"
  using assms unfolding events_ok_def by blast+

lemma subs_okI:
  assumes "\<And>a s. r_subs r a = Some s \<Longrightarrow>
      a < r_next r \<and> sub_subscriber s \<noteq> sub_target s \<and>
      a \<in> set (r_targets r (sub_subscriber s)) \<and> a \<in> set (r_subscribers r (sub_target s))"
    and "\<And>oid. distinct (r_subscribers r oid)" and "\<And>oid. distinct (r_targets r oid)"
    and "\<And>oid a. a \<in> set (r_subscribers r oid) \<Longrightarrow> \<exists>s. r_subs r a = Some s \<and> sub_target s = oid"
    and "\<And>oid a. a \<in> set (r_targets r oid) \<Longrightarrow> \<exists>s. r_subs r a = Some s \<and> sub_subscriber s = oid"
  shows "subs_ok r"
  using assms unfolding subs_ok_def by blast

lemma events_okI:
  assumes "sorted (map fst (r_patterns r))" and "distinct (map (ev_addr \<circ> snd) (r_patterns r))"
    and "\<And>k ev. (k, ev) \<in> set (r_patterns r) \<Longrightarrow>
      ev_addr ev < r_next r \<and> ev_addr ev \<in> set (r_events r (ev_obj ev))"
    and "\<And>oid. distinct (r_events r oid)"
    and "\<And>oid a. a \<in> set (r_events r oid) \<Longrightarrow>
      \<exists>k ev. (k, ev) \<in> set (r_patterns r) \<and> ev_addr ev = a \<and> ev_obj ev = oid"
  shows "events_ok r"
  using assms unfolding events_ok_def by blast

lemma unowned_okD:
  assumes "unowned_ok r"
  shows "a \<in> set (r_events r oid) \<Longrightarrow> \<exists>c. r_owner r oid = Some c"
    and "a \<in> set (r_subscribers r oid) \<Longrightarrow> \<exists>c. r_owner r oid = Some c"
    and "a \<in> set (r_targets r oid) \<Longrightarrow> \<exists>c. r_owner r oid = Some c"
  using assms unfolding unowned_ok_def by (metis empty_iff empty_set not_None_eq)+

text \<open>Each part of the invariant depends on few fields only.\<close>

lemma owners_ok_cong:
  "owners_ok r \<Longrightarrow> r_owner r' = r_owner r \<Longrightarrow> r_owned r' = r_owned r \<Longrightarrow> r_client r' = r_client r \<Longrightarrow>
   r_objs r' = r_objs r \<Longrightarrow> r_pathof r' = r_pathof r \<Longrightarrow> r_typeof r' = r_typeof r \<Longrightarrow> owners_ok r'"
  by (simp add: owners_ok_def)

lemma unowned_ok_cong:
  "unowned_ok r \<Longrightarrow> r_owner r' = r_owner r \<Longrightarrow> r_events r' = r_events r \<Longrightarrow>
   r_subscribers r' = r_subscribers r \<Longrightarrow> r_targets r' = r_targets r \<Longrightarrow> unowned_ok r'"
  by (simp add: unowned_ok_def)

lemma type_refs_cong: "r_typeof r' = r_typeof r \<Longrightarrow> type_refs r' = type_refs r"
  by (simp add: type_refs_def fun_eq_iff)

lemma types_ok_cong:
  assumes "types_ok K r" and "r_objs r' = r_objs r" and "r_types r' = r_types r"
    and "r_typeof r' = r_typeof r"
  shows "types_ok K r'"
  using assms(1) unfolding types_ok_def assms(2,3) type_refs_cong [OF assms(4)] .

lemma path_ok_cong:
  "path_ok r \<Longrightarrow> r_path r' = r_path r \<Longrightarrow> r_pathof r' = r_pathof r \<Longrightarrow> path_ok r'"
  by (simp add: path_ok_def)

lemma subs_ok_cong:
  assumes "subs_ok r" and eq: "r_subs r' = r_subs r" "r_subscribers r' = r_subscribers r"
    "r_targets r' = r_targets r" and le: "r_next r \<le> r_next r'"
  shows "subs_ok r'"
proof -
  note e = subs_okD [OF assms(1)]
  show ?thesis
    by (intro subs_okI; unfold eq) (use e(2-6) less_le_trans [OF e(1) le] e(7,8) in blast)+
qed

lemma events_ok_cong:
  assumes "events_ok r" and eq: "r_patterns r' = r_patterns r" "r_events r' = r_events r"
    and le: "r_next r \<le> r_next r'"
  shows "events_ok r'"
proof -
  note e = events_okD [OF assms(1)]
  show ?thesis
    by (intro events_okI; unfold eq) (use e(1,3-6) less_le_trans [OF e(2) le] in blast)+
qed

lemma clients_ok_cong:
  "clients_ok r \<Longrightarrow> r_tree r' = r_tree r \<Longrightarrow> r_client r' = r_client r \<Longrightarrow>
   r_monitors r' = r_monitors r \<Longrightarrow> r_acls r' = r_acls r \<Longrightarrow> clients_ok r'"
  by (simp add: clients_ok_def)

lemmas reg_wf_congs = owners_ok_cong unowned_ok_cong types_ok_cong path_ok_cong subs_ok_cong
  events_ok_cong clients_ok_cong

subsection \<open>Live objects\<close>

definition owner :: "daemon \<Rightarrow> u32 \<Rightarrow> u32 option" where
  "owner d = obj_field None obj_client d"

text \<open>The object exists and so does its client.\<close>

definition live_owner :: "daemon \<Rightarrow> u32 \<Rightarrow> bool" where
  "live_owner d oid \<longleftrightarrow> (\<exists>ob c cl. objects d oid = Some ob \<and> obj_client ob = Some c \<and>
     clients (net d) c = Some cl)"

lemma reg_owner: "reg d' = reg d \<Longrightarrow> owner d' = owner d"
  unfolding owner_def by (rule reg_obj_field(1))

lemma owner_live:
  assumes "owners_ok (reg d)" and "owner d oid = Some c"
  shows "live_owner d oid"
  using owners_okD(7) [OF assms(1), of oid c] assms(2)
  by (auto simp: live_owner_def owner_def obj_field_def split: option.splits)

lemma reg_live_owner:
  assumes "reg d' = reg d" and "live_owner d oid"
  shows "live_owner d' oid"
proof -
  from assms(2) obtain ob c cl where ob: "objects d oid = Some ob" and c: "obj_client ob = Some c"
    and cl: "clients (net d) c = Some cl"
    by (auto simp: live_owner_def)
  obtain ob' where "objects d' oid = Some ob'" "obj_client ob' = obj_client ob"
    by (rule reg_object [OF assms(1) ob])
  moreover obtain cl' where "clients (net d') c = Some cl'"
    by (rule reg_client [OF assms(1) cl])
  ultimately show ?thesis using c by (auto simp: live_owner_def)
qed

lemma live_objects:
  assumes "reg_wf K (reg d)"
  shows "(k, ev) \<in> set (patterns d) \<Longrightarrow> live_owner d (ev_obj ev)"
    and "subs d a = Some s \<Longrightarrow> live_owner d (sub_subscriber s)"
    and "subs d a = Some s \<Longrightarrow> live_owner d (sub_target s)"
proof -
  note wf = reg_wfD [OF assms]
  have "live_owner d oid" if "\<exists>c. r_owner (reg d) oid = Some c" for oid
    using that owner_live [OF wf(1)] by (auto simp: owner_def)
  then show "(k, ev) \<in> set (patterns d) \<Longrightarrow> live_owner d (ev_obj ev)"
    "subs d a = Some s \<Longrightarrow> live_owner d (sub_subscriber s)"
    "subs d a = Some s \<Longrightarrow> live_owner d (sub_target s)"
    using unowned_okD(1) [OF wf(2), OF events_okD(1) [OF wf(6)]]
      unowned_okD(2) [OF wf(2), OF subs_okD(4) [OF wf(5)]]
      unowned_okD(3) [OF wf(2), OF subs_okD(3) [OF wf(5)]]
    by simp_all
qed

end
