(* ===== verification/Ubusd_Reg_Ops.thy ===== *)
theory Ubusd_Reg_Ops
  imports Ubusd_Registry
begin

text \<open>
  What the daemon's operations do to the registry, as functions on it, and that they keep the
  invariant. The component theories show that the operations of the sources, message sending
  included, have these effects.
\<close>

section \<open>Operations on the registry\<close>

definition r_add_pattern :: "env \<Rightarrow> u32 \<Rightarrow> bool \<Rightarrow> string \<Rightarrow> registry \<Rightarrow> registry" where
  "r_add_pattern E oid partial key r =
     (let ev = \<lparr>ev_addr = r_next r, ev_obj = oid, ev_partial = partial\<rparr> in
      r\<lparr>r_events := (r_events r)(oid := r_next r # r_events r oid),
        r_patterns := avl_link E key ev (r_patterns r), r_next := Suc (r_next r)\<rparr>)"

definition r_clear_patterns :: "u32 \<Rightarrow> registry \<Rightarrow> registry" where
  "r_clear_patterns oid r =
     r\<lparr>r_events := (r_events r)(oid := []),
       r_patterns := filter (\<lambda>(_, ev). ev_obj ev \<noteq> oid) (r_patterns r)\<rparr>"

definition r_subscribe :: "u32 \<Rightarrow> u32 \<Rightarrow> registry \<Rightarrow> registry" where
  "r_subscribe oid target r =
     (let a = r_next r in
      r\<lparr>r_subs := (r_subs r)(a \<mapsto> \<lparr>sub_subscriber = oid, sub_target = target\<rparr>),
        r_subscribers := (r_subscribers r)(target := a # r_subscribers r target),
        r_targets := (r_targets r)(oid := a # r_targets r oid), r_next := Suc a\<rparr>)"

definition r_unsubscribe :: "addr \<Rightarrow> registry \<Rightarrow> registry" where
  "r_unsubscribe a r =
     (case r_subs r a of
        None \<Rightarrow> r
      | Some s \<Rightarrow>
          r\<lparr>r_subs := (r_subs r)(a := None),
            r_subscribers := (r_subscribers r)(sub_target s := remove1 a (r_subscribers r (sub_target s))),
            r_targets := (r_targets r)(sub_subscriber s := remove1 a (r_targets r (sub_subscriber s)))\<rparr>)"

definition r_unref_type :: "u32 \<Rightarrow> registry \<Rightarrow> registry" where
  "r_unref_type tid r =
     (case r_types r tid of
        None \<Rightarrow> r
      | Some t \<Rightarrow>
          r\<lparr>r_types := (if 0 < ty_refcount t - 1
              then (r_types r)(tid \<mapsto> t\<lparr>ty_refcount := ty_refcount t - 1\<rparr>)
              else (r_types r)(tid := None))\<rparr>)"

definition r_ref_type :: "u32 \<Rightarrow> registry \<Rightarrow> registry" where
  "r_ref_type tid r =
     (case r_types r tid of
        None \<Rightarrow> r
      | Some t \<Rightarrow> r\<lparr>r_types := (r_types r)(tid \<mapsto> t\<lparr>ty_refcount := ty_refcount t + 1\<rparr>)\<rparr>)"

text \<open>A new object of a type, and the rest of its fields at their defaults.\<close>

definition r_create :: "u32 \<Rightarrow> u32 option \<Rightarrow> registry \<Rightarrow> registry" where
  "r_create oid ty r =
     (let r = r\<lparr>r_objs := insert oid (r_objs r), r_typeof := (r_typeof r)(oid := ty)\<rparr>
      in (case ty of None \<Rightarrow> r | Some tid \<Rightarrow> r_ref_type tid r))"

definition r_publish :: "env \<Rightarrow> u32 \<Rightarrow> string \<Rightarrow> registry \<Rightarrow> registry" where
  "r_publish E oid p r =
     r\<lparr>r_pathof := (r_pathof r)(oid := Some p), r_path := avl_link E p oid (r_path r)\<rparr>"

definition r_attach :: "u32 \<Rightarrow> u32 \<Rightarrow> registry \<Rightarrow> registry" where
  "r_attach cl oid r =
     r\<lparr>r_owner := (r_owner r)(oid := Some cl), r_owned := (r_owned r)(cl := oid # r_owned r cl)\<rparr>"

text \<open>The end of an object that has no patterns and no subscriptions left.\<close>

definition r_delete :: "u32 \<Rightarrow> registry \<Rightarrow> registry" where
  "r_delete oid r =
     (let r' = r\<lparr>r_path := filter (\<lambda>(_, i). i \<noteq> oid) (r_path r), r_pathof := (r_pathof r)(oid := None),
                 r_owned := (case r_owner r oid of
                    None \<Rightarrow> r_owned r | Some c \<Rightarrow> (r_owned r)(c := remove1 oid (r_owned r c))),
                 r_owner := (r_owner r)(oid := None), r_objs := r_objs r - {oid},
                 r_recv := (r_recv r)(oid := None), r_typeof := (r_typeof r)(oid := None)\<rparr>
      in (case r_typeof r oid of None \<Rightarrow> r' | Some tid \<Rightarrow> r_unref_type tid r'))"

section \<open>They keep the invariant\<close>

lemma r_add_pattern_wf:
  assumes wf: "reg_wf K r" and E: "avl_law E" and own: "r_owner r oid \<noteq> None"
  shows "reg_wf K (r_add_pattern E oid partial key r)"
proof -
  note w = reg_wfD [OF wf] and e = events_okD [OF reg_wfD(6) [OF wf]]
  let ?ev = "\<lparr>ev_addr = r_next r, ev_obj = oid, ev_partial = partial\<rparr>"
  have fresh: "r_next r \<notin> set (r_events r i)" for i
    using e(2,3) by (metis less_irrefl)
  have new: "r_next r \<notin> (ev_addr \<circ> snd) ` set (r_patterns r)"
    using e(2) by fastforce
  have "sorted (map fst (avl_link E key ?ev (r_patterns r)))"
    by (rule sorted_avl_link [OF E e(5)])
  moreover have "distinct (map (ev_addr \<circ> snd) (avl_link E key ?ev (r_patterns r)))"
    by (rule distinct_avl_link [OF e(6)]) (use new in simp)
  ultimately have "events_ok (r_add_pattern E oid partial key r)"
    by (intro events_okI)
      (use e(1,2,4) fresh in \<open>auto simp: r_add_pattern_def Let_def less_Suc_eq dest!: e(3) split: if_splits\<close>,
        rule exI [of _ key], rule exI [of _ ?ev], simp)
  moreover have "unowned_ok (r_add_pattern E oid partial key r)"
    using w(2) own by (auto simp: unowned_ok_def r_add_pattern_def Let_def)
  ultimately show ?thesis
    unfolding reg_wf_def using w
    by (simp add: r_add_pattern_def Let_def) (auto elim: reg_wf_congs)
qed

lemma r_clear_patterns_wf:
  assumes wf: "reg_wf K r"
  shows "reg_wf K (r_clear_patterns oid r)"
proof -
  note w = reg_wfD [OF wf] and e = events_okD [OF reg_wfD(6) [OF wf]]
  have "sorted (map fst (filter P (r_patterns r)))" "distinct (map (ev_addr \<circ> snd) (filter P (r_patterns r)))" for P
    using e(5,6) by (simp_all add: sorted_filter distinct_map_filter)
  then have "events_ok (r_clear_patterns oid r)"
    by (intro events_okI)
      (use e(1,2,4) in \<open>auto simp: r_clear_patterns_def dest!: e(3) split: if_splits\<close>)
  moreover have "unowned_ok (r_clear_patterns oid r)"
    using w(2) by (auto simp: unowned_ok_def r_clear_patterns_def)
  ultimately show ?thesis
    unfolding reg_wf_def using w
    by (simp add: r_clear_patterns_def) (auto elim: reg_wf_congs)
qed

lemma r_subscribe_wf:
  assumes wf: "reg_wf K r" and own: "r_owner r oid \<noteq> None" "r_owner r target \<noteq> None"
    and ne: "oid \<noteq> target"
  shows "reg_wf K (r_subscribe oid target r)"
proof -
  note w = reg_wfD [OF wf] and e = subs_okD [OF reg_wfD(5) [OF wf]]
  have fresh: "r_next r \<notin> set (r_subscribers r i)" "r_next r \<notin> set (r_targets r i)" for i
    using e(1,7,8) by (metis less_irrefl)+
  have none: "r_subs r (r_next r) = None" using e(1) by (meson less_irrefl not_Some_eq)
  have "subs_ok (r_subscribe oid target r)"
    by (intro subs_okI)
      (use e(1-6) fresh none ne in \<open>auto simp: r_subscribe_def Let_def less_Suc_eq dest: e(7,8) split: if_splits\<close>)
  moreover have "unowned_ok (r_subscribe oid target r)"
    using w(2) own by (auto simp: unowned_ok_def r_subscribe_def Let_def)
  ultimately show ?thesis
    unfolding reg_wf_def using w
    by (simp add: r_subscribe_def Let_def) (auto elim: reg_wf_congs)
qed

lemma r_unsubscribe_wf:
  assumes wf: "reg_wf K r"
  shows "reg_wf K (r_unsubscribe a r)"
proof (cases "r_subs r a")
  case None
  with wf show ?thesis by (simp add: r_unsubscribe_def)
next
  case (Some s)
  note w = reg_wfD [OF wf] and e = subs_okD [OF reg_wfD(5) [OF wf]]
  have "subs_ok (r_unsubscribe a r)"
    by (intro subs_okI)
      (use e(1-6) Some in \<open>auto simp: r_unsubscribe_def dest: e(7,8) split: if_splits\<close>, (metis e(2-4))+)
  moreover have "unowned_ok (r_unsubscribe a r)"
    using w(2) Some by (auto simp: unowned_ok_def r_unsubscribe_def)
  ultimately show ?thesis
    unfolding reg_wf_def using w
    by (simp add: r_unsubscribe_def Some) (auto elim: reg_wf_congs)
qed

text \<open>Object types are reference counted: \<open>K\<close> tells who holds the references.\<close>

lemma types_okD:
  assumes "types_ok K r"
  shows "finite (r_objs r)"
    and "r_types r tid = Some t \<Longrightarrow> ty_refcount t = int (type_refs r tid + K tid) \<and> 0 < ty_refcount t"
    and "r_types r tid = None \<Longrightarrow> type_refs r tid = 0 \<and> K tid = 0"
  using assms [unfolded types_ok_def, THEN conjunct1]
    assms [unfolded types_ok_def, THEN conjunct2, THEN spec, of tid] by simp_all

lemma types_okI:
  assumes "finite (r_objs r)"
    and "\<And>tid t. r_types r tid = Some t \<Longrightarrow>
      ty_refcount t = int (type_refs r tid + K tid) \<and> 0 < ty_refcount t"
    and "\<And>tid. r_types r tid = None \<Longrightarrow> type_refs r tid = 0 \<and> K tid = 0"
  shows "types_ok K r"
  unfolding types_ok_def
proof (intro conjI allI assms(1))
  fix tid
  show "case r_types r tid of None \<Rightarrow> type_refs r tid = 0 \<and> K tid = 0
      | Some t \<Rightarrow> ty_refcount t = int (type_refs r tid + K tid) \<and> 0 < ty_refcount t"
    using assms(3) [of tid] assms(2) [of tid] by (cases "r_types r tid") auto
qed

lemma type_refs_types [simp]: "type_refs (r\<lparr>r_types := x\<rparr>) = type_refs r"
  by (rule type_refs_cong) simp

lemma types_ok_unref:
  assumes "types_ok K r" and K: "K = K'(tid := K' tid + 1)"
  shows "types_ok K' (r_unref_type tid r)"
proof -
  note t = types_okD [OF assms(1)]
  obtain ty where ty: "r_types r tid = Some ty"
    using t(3) [of tid] K by fastforce
  show ?thesis
  proof (rule types_okI)
    fix i t'
    assume "r_types (r_unref_type tid r) i = Some t'"
    then show "ty_refcount t' = int (type_refs (r_unref_type tid r) i + K' i) \<and> 0 < ty_refcount t'"
      using t(2) [OF ty] t(2) [of i t'] ty K
      by (cases "i = tid") (auto simp: r_unref_type_def split: if_splits)
  next
    fix i
    assume "r_types (r_unref_type tid r) i = None"
    then show "type_refs (r_unref_type tid r) i = 0 \<and> K' i = 0"
      using t(2) [OF ty] t(3) [of i] ty K
      by (cases "i = tid") (auto simp: r_unref_type_def split: if_splits)
  qed (use t(1) ty in \<open>simp add: r_unref_type_def\<close>)
qed

lemma types_ok_ref:
  assumes "types_ok K r" and ty: "r_types r tid = Some ty"
  shows "types_ok (K(tid := K tid + 1)) (r_ref_type tid r)"
proof -
  note t = types_okD [OF assms(1)]
  show ?thesis
  proof (rule types_okI)
    fix i t'
    assume "r_types (r_ref_type tid r) i = Some t'"
    then show "ty_refcount t' = int (type_refs (r_ref_type tid r) i + (K(tid := K tid + 1)) i) \<and>
        0 < ty_refcount t'"
      using t(2) [OF ty] t(2) [of i t'] ty
      by (cases "i = tid") (auto simp: r_ref_type_def split: if_splits)
  next
    fix i
    assume "r_types (r_ref_type tid r) i = None"
    then show "type_refs (r_ref_type tid r) i = 0 \<and> (K(tid := K tid + 1)) i = 0"
      using t(3) [of i] ty by (cases "i = tid") (auto simp: r_ref_type_def)
  qed (use t(1) ty in \<open>simp add: r_ref_type_def\<close>)
qed

text \<open>A held reference becomes the reference of an object, and back.\<close>

lemma type_refs_upd:
  assumes "finite {i. r_typeof r i \<noteq> None}" and "r_typeof r oid = None"
  shows "type_refs (r'\<lparr>r_typeof := (r_typeof r)(oid := ty)\<rparr>) tid =
    type_refs r tid + (if ty = Some tid then 1 else 0)"
proof -
  have fin: "finite {i. r_typeof r i = Some tid}"
    by (rule finite_subset [OF _ assms(1)]) auto
  have "{i. ((r_typeof r)(oid := ty)) i = Some tid} =
      (if ty = Some tid then insert oid {i. r_typeof r i = Some tid} else {i. r_typeof r i = Some tid})"
    using assms(2) by auto
  then show ?thesis
    using fin assms(2) by (simp add: type_refs_def del: fun_upd_apply)
qed

lemma typeof_finite: "owners_ok r \<Longrightarrow> types_ok K r \<Longrightarrow> finite {i. r_typeof r i \<noteq> None}"
  by (rule finite_subset [of _ "r_objs r"]) (auto simp: types_okD(1) dest: owners_okD(6))

lemma type_refs_create:
  assumes own: "owners_ok r" and ty: "types_ok K r" and new: "oid \<notin> r_objs r"
  shows "type_refs (r\<lparr>r_objs := insert oid (r_objs r), r_typeof := (r_typeof r)(oid := tid)\<rparr>) i =
    type_refs r i + (if tid = Some i then 1 else 0)"
  using type_refs_upd [OF typeof_finite [OF own ty] owners_okD(6) [OF own new],
      where r' = "r\<lparr>r_objs := insert oid (r_objs r)\<rparr>"] by simp

lemma types_ok_create:
  assumes own: "owners_ok r" and ty: "types_ok K r" and new: "oid \<notin> r_objs r"
    and ref: "\<And>t. tid = Some t \<Longrightarrow> r_types r t \<noteq> None"
  shows "types_ok K (r_create oid tid r)"
proof -
  note t = types_okD [OF ty] and refs = type_refs_create [OF own ty new]
  have tys: "r_types (r_create oid tid r) i =
      (if tid = Some i then map_option (\<lambda>t. t\<lparr>ty_refcount := ty_refcount t + 1\<rparr>) (r_types r i)
       else r_types r i)" for i
    by (auto simp: r_create_def r_ref_type_def Let_def split: option.splits)
  have cnt: "type_refs (r_create oid tid r) i = type_refs r i + (if tid = Some i then 1 else 0)" for i
    using refs [of tid i] by (auto simp: r_create_def r_ref_type_def Let_def split: option.splits)
  show ?thesis
  proof (rule types_okI)
    fix i t'
    assume "r_types (r_create oid tid r) i = Some t'"
    then show "ty_refcount t' = int (type_refs (r_create oid tid r) i + K i) \<and> 0 < ty_refcount t'"
      using t(2) [of i] by (auto simp: tys cnt split: if_splits)
  next
    fix i
    assume "r_types (r_create oid tid r) i = None"
    then show "type_refs (r_create oid tid r) i = 0 \<and> K i = 0"
      using t(3) [of i] ref [of i] by (auto simp: tys cnt split: if_splits)
  qed (use t(1) in \<open>auto simp: r_create_def r_ref_type_def Let_def split: option.splits\<close>)
qed

lemma r_create_fields [simp]:
  "r_client (r_create oid ty r) = r_client r" "r_owned (r_create oid ty r) = r_owned r"
  "r_monitors (r_create oid ty r) = r_monitors r" "r_tree (r_create oid ty r) = r_tree r"
  "r_objs (r_create oid ty r) = insert oid (r_objs r)" "r_owner (r_create oid ty r) = r_owner r"
  "r_pathof (r_create oid ty r) = r_pathof r" "r_typeof (r_create oid ty r) = (r_typeof r)(oid := ty)"
  "r_recv (r_create oid ty r) = r_recv r" "r_events (r_create oid ty r) = r_events r"
  "r_subscribers (r_create oid ty r) = r_subscribers r" "r_targets (r_create oid ty r) = r_targets r"
  "r_path (r_create oid ty r) = r_path r" "r_subs (r_create oid ty r) = r_subs r"
  "r_patterns (r_create oid ty r) = r_patterns r" "r_acls (r_create oid ty r) = r_acls r"
  "r_next (r_create oid ty r) = r_next r"
  by (simp_all add: r_create_def r_ref_type_def Let_def split: option.splits)

lemma r_create_wf:
  assumes wf: "reg_wf K r" and new: "oid \<notin> r_objs r" and ref: "\<And>t. tid = Some t \<Longrightarrow> r_types r t \<noteq> None"
  shows "reg_wf K (r_create oid tid r)"
proof -
  note w = reg_wfD [OF wf]
  have "types_ok K (r_create oid tid r)" by (rule types_ok_create [OF w(1,3) new ref])
  moreover have "owners_ok (r_create oid tid r)"
    using owners_okD [OF w(1)] new by (auto simp: owners_ok_def)
  ultimately show ?thesis
    unfolding reg_wf_def using w(2,4-7) by (auto elim: reg_wf_congs)
qed

lemma r_publish_wf:
  assumes wf: "reg_wf K r" and E: "avl_law E" and o: "oid \<in> r_objs r" and none: "r_pathof r oid = None"
    and free: "p \<notin> fst ` set (r_path r)"
  shows "reg_wf K (r_publish E oid p r)"
proof -
  note w = reg_wfD [OF wf]
  have s: "sorted (map fst (r_path r))" and d: "distinct (map fst (r_path r))"
    and iff: "\<And>k i. (k, i) \<in> set (r_path r) \<longleftrightarrow> r_pathof r i = Some k"
    using w(4) by (auto simp: path_ok_def)
  have "path_ok (r_publish E oid p r)"
    using sorted_avl_link [OF E s, of p oid] distinct_avl_link [OF d, of p oid E] free iff none
    by (auto simp: path_ok_def r_publish_def)
  moreover have "owners_ok (r_publish E oid p r)"
    using w(1) o by (auto simp: owners_ok_def r_publish_def)
  ultimately show ?thesis
    unfolding reg_wf_def using w by (simp add: r_publish_def) (auto elim: reg_wf_congs)
qed

lemma r_attach_wf:
  assumes wf: "reg_wf K r" and o: "oid \<in> r_objs r" and none: "r_owner r oid = None"
    and cl: "r_client r cl \<noteq> None"
  shows "reg_wf K (r_attach cl oid r)"
proof -
  note w = reg_wfD [OF wf]
  have "oid \<notin> set (r_owned r c)" for c
    using owners_okD(1) [OF w(1), of oid c] none by simp
  then have "owners_ok (r_attach cl oid r)"
    using owners_okD [OF w(1)] o none cl unfolding owners_ok_def r_attach_def by auto
  moreover have "unowned_ok (r_attach cl oid r)"
    using w(2) by (auto simp: unowned_ok_def r_attach_def)
  ultimately show ?thesis
    unfolding reg_wf_def using w by (simp add: r_attach_def) (auto elim: reg_wf_congs)
qed

lemma r_unref_fields [simp]:
  "r_client (r_unref_type t r) = r_client r" "r_owned (r_unref_type t r) = r_owned r"
  "r_monitors (r_unref_type t r) = r_monitors r" "r_tree (r_unref_type t r) = r_tree r"
  "r_objs (r_unref_type t r) = r_objs r" "r_owner (r_unref_type t r) = r_owner r"
  "r_pathof (r_unref_type t r) = r_pathof r" "r_typeof (r_unref_type t r) = r_typeof r"
  "r_recv (r_unref_type t r) = r_recv r" "r_events (r_unref_type t r) = r_events r"
  "r_subscribers (r_unref_type t r) = r_subscribers r" "r_targets (r_unref_type t r) = r_targets r"
  "r_path (r_unref_type t r) = r_path r" "r_subs (r_unref_type t r) = r_subs r"
  "r_patterns (r_unref_type t r) = r_patterns r" "r_acls (r_unref_type t r) = r_acls r"
  "r_next (r_unref_type t r) = r_next r"
  by (simp_all add: r_unref_type_def split: option.splits)

lemma r_unref_wf:
  "reg_wf (K(tid := K tid + 1)) r \<Longrightarrow> reg_wf K (r_unref_type tid r)"
  unfolding reg_wf_def
  by (auto elim: owners_ok_cong unowned_ok_cong path_ok_cong subs_ok_cong events_ok_cong
      clients_ok_cong types_ok_unref)

lemma r_ref_wf:
  assumes "reg_wf K r" and "r_types r tid = Some t"
  shows "reg_wf (K(tid := K tid + 1)) (r_ref_type tid r)"
proof -
  have "types_ok (K(tid := K tid + 1)) (r_ref_type tid r)"
    by (rule types_ok_ref [OF reg_wfD(3) [OF assms(1)] assms(2)])
  then show ?thesis
    unfolding reg_wf_def using reg_wfD [OF assms(1)] assms(2)
    by (simp add: r_ref_type_def) (auto elim: reg_wf_congs)
qed

lemma type_refs_remove:
  assumes "owners_ok r" and "types_ok K r"
  shows "type_refs r i =
    type_refs (r'\<lparr>r_typeof := (r_typeof r)(oid := None)\<rparr>) i + (if r_typeof r oid = Some i then 1 else 0)"
proof -
  have fin: "finite {j. r_typeof r j = Some i}"
    by (rule finite_subset [OF _ typeof_finite [OF assms]]) auto
  have "{j. r_typeof r j = Some i} =
      (if r_typeof r oid = Some i then insert oid {j. ((r_typeof r)(oid := None)) j = Some i}
       else {j. ((r_typeof r)(oid := None)) j = Some i})"
    by auto
  moreover have "finite {j. ((r_typeof r)(oid := None)) j = Some i}"
    by (rule finite_subset [OF _ fin]) auto
  ultimately show ?thesis
    by (auto simp: type_refs_def)
qed

lemma types_ok_remove:
  assumes own: "owners_ok r" and ty: "types_ok K r" and r': "r_objs r' = r_objs r - {oid}"
    "r_typeof r' = (r_typeof r)(oid := None)" "r_types r' = r_types r"
  shows "types_ok (\<lambda>i. K i + (if r_typeof r oid = Some i then 1 else 0)) r'"
proof -
  note t = types_okD [OF ty]
  have refs: "type_refs r i = type_refs r' i + (if r_typeof r oid = Some i then 1 else 0)" for i
    using type_refs_remove [OF own ty, where i = i and r' = r' and oid = oid] r'(2)
      type_refs_cong [of r' "r'\<lparr>r_typeof := (r_typeof r)(oid := None)\<rparr>"] by simp
  show ?thesis
  proof (rule types_okI)
    fix i ty
    assume "r_types r' i = Some ty"
    then show "ty_refcount ty = int (type_refs r' i + (K i + (if r_typeof r oid = Some i then 1 else 0))) \<and>
        0 < ty_refcount ty"
      using t(2) [of i ty] refs [of i] r'(3) by simp
  next
    fix i
    assume "r_types r' i = None"
    then show "type_refs r' i = 0 \<and> K i + (if r_typeof r oid = Some i then 1 else 0) = 0"
      using t(3) [of i] refs [of i] r'(3) by simp
  qed (use t(1) r'(1) in simp)
qed

lemma r_delete_wf:
  assumes wf: "reg_wf K r" and none: "r_events r oid = []" "r_subscribers r oid = []" "r_targets r oid = []"
  shows "reg_wf K (r_delete oid r)"
proof -
  note w = reg_wfD [OF wf] and o = owners_okD [OF reg_wfD(1) [OF wf]]
  define r' where "r' = r\<lparr>r_path := filter (\<lambda>(_, i). i \<noteq> oid) (r_path r), r_pathof := (r_pathof r)(oid := None),
                 r_owned := (case r_owner r oid of
                    None \<Rightarrow> r_owned r | Some c \<Rightarrow> (r_owned r)(c := remove1 oid (r_owned r c))),
                 r_owner := (r_owner r)(oid := None), r_objs := r_objs r - {oid},
                 r_recv := (r_recv r)(oid := None), r_typeof := (r_typeof r)(oid := None)\<rparr>"
  have other: "oid \<notin> set (r_owned r c)" if "r_owner r oid \<noteq> Some c" for c
    using o(1) [of oid c] that by simp
  have "owners_ok r'"
  proof (cases "r_owner r oid")
    case None
    then have "oid \<notin> set (r_owned r c)" for c using other by simp
    with o(2-6) show ?thesis
      unfolding owners_ok_def r'_def None by (auto simp: o(1))
  next
    case (Some c0)
    then have "c \<noteq> c0 \<Longrightarrow> oid \<notin> set (r_owned r c)" for c using other by simp
    with o(2-6) show ?thesis
      unfolding owners_ok_def r'_def Some by (auto simp: o(1))
  qed
  moreover have "unowned_ok r'"
    using w(2) none by (auto simp: unowned_ok_def r'_def)
  moreover have "path_ok r'"
    using w(4) by (auto simp: path_ok_def r'_def sorted_filter distinct_map_filter)
  moreover have ty: "types_ok (\<lambda>i. K i + (if r_typeof r oid = Some i then 1 else 0)) r'"
    by (rule types_ok_remove [OF w(1,3)]) (simp_all add: r'_def)
  moreover have "subs_ok r'" "events_ok r'" "clients_ok r'"
    using w(5,6,7) by (auto simp: r'_def elim: reg_wf_congs)
  ultimately have "reg_wf (\<lambda>i. K i + (if r_typeof r oid = Some i then 1 else 0)) r'"
    by (simp add: reg_wf_def)
  moreover have "(\<lambda>i. K i + (if Some t = Some i then 1 else 0)) = K(t := K t + 1)" for t
    by (auto simp: fun_eq_iff)
  ultimately show ?thesis
    unfolding r_delete_def Let_def r'_def [symmetric]
    by (cases "r_typeof r oid") (auto intro: r_unref_wf)
qed

end
