(* ===== verification/Ubusd_Event.thy ===== *)
theory Ubusd_Event
  imports Ubusd_Reg_Ops
begin

text \<open>
  Events (src/ubusd_event.c): the patterns objects register for, and the delivery of an event
  to every object with a matching pattern. \<open>fill_cb\<close> with its argument is the list of
  attributes it puts into the message.
\<close>

section \<open>Definitions\<close>

definition UBUS_EVENT_RESERVED_PREFIX :: string where
  "UBUS_EVENT_RESERVED_PREFIX = ''ubus.''"

text \<open>The record of a client pointer; \<open>None\<close> is the null pointer.\<close>

definition client_of :: "daemon \<Rightarrow> u32 option \<Rightarrow> ubus_client option" where
  "client_of d cl = (case cl of None \<Rightarrow> None | Some c \<Rightarrow> clients (net d) c)"

definition ubusd_delete_event_source :: "event_source \<Rightarrow> daemon \<Rightarrow> daemon" where
  "ubusd_delete_event_source evs d =
     (let d = upd_obj (ev_obj evs) (\<lambda>ob. ob\<lparr>obj_events := remove1 (ev_addr evs) (obj_events ob)\<rparr>) d
      in d\<lparr>patterns := filter (\<lambda>(_, ev). ev_addr ev \<noteq> ev_addr evs) (patterns d)\<rparr>)"

definition find_event_source :: "addr \<Rightarrow> daemon \<Rightarrow> event_source option" where
  "find_event_source a d = find (\<lambda>ev. ev_addr ev = a) (map snd (patterns d))"

fun event_cleanup_loop :: "addr list \<Rightarrow> daemon \<Rightarrow> daemon" where
  "event_cleanup_loop [] d = d"
| "event_cleanup_loop (a # as) d =
     event_cleanup_loop as
       (case find_event_source a d of
          None \<Rightarrow> dfault d
        | Some ev \<Rightarrow> ubusd_delete_event_source ev d)"

definition ubusd_event_cleanup_object :: "u32 \<Rightarrow> daemon \<Rightarrow> daemon" where
  "ubusd_event_cleanup_object oid d =
     (case objects d oid of None \<Rightarrow> dfault d | Some ob \<Rightarrow> event_cleanup_loop (obj_events ob) d)"

definition evr_policy :: "(string \<times> blobmsg_type) list" where
  "evr_policy = [(''pattern'', BLOBMSG_TYPE_STRING), (''object'', BLOBMSG_TYPE_INT32)]"

definition ubusd_alloc_event_pattern ::
  "env \<Rightarrow> u32 \<Rightarrow> blob_attr option \<Rightarrow> daemon \<Rightarrow> ubus_msg_status \<times> daemon" where
  "ubusd_alloc_event_pattern E cl msg d =
     (case msg of
        None \<Rightarrow> (UBUS_STATUS_INVALID_ARGUMENT, d)
      | Some m \<Rightarrow>
          (case blobmsg_parse E evr_policy m of
             [Some pa, Some oa] \<Rightarrow>
               let ident = blob_get_u32 E oa in
               if ident < UBUS_SYSTEM_OBJECT_MAX then (UBUS_STATUS_PERMISSION_DENIED, d)
               else
                 (case ubusd_find_object ident d of
                    None \<Rightarrow> (UBUS_STATUS_NOT_FOUND, d)
                  | Some ob \<Rightarrow>
                      let pattern = blob_str E pa;
                          partial = (last pattern = CHR ''*'');
                          key = (if partial then butlast pattern else pattern) in
                      if obj_client ob \<noteq> Some cl then (UBUS_STATUS_PERMISSION_DENIED, d)
                      else if pattern = [] then (UBUS_STATUS_PERMISSION_DENIED, d)
                      else if ubusd_acl_check d (client_of d (Some cl)) (Some key) None UBUS_ACL_LISTEN \<noteq> 0
                      then (UBUS_STATUS_PERMISSION_DENIED, d)
                      else
                        (case calloc_node E d of
                           (None, d) \<Rightarrow> (UBUS_STATUS_NO_MEMORY, d)
                         | (Some a, d) \<Rightarrow>
                             let d = upd_obj ident (\<lambda>ob. ob\<lparr>obj_events := a # obj_events ob\<rparr>) d;
                                 ev = \<lparr>ev_addr = a, ev_obj = ident, ev_partial = partial\<rparr>
                             in (UBUS_STATUS_OK, d\<lparr>patterns := avl_link E key ev (patterns d)\<rparr>)))
           | _ \<Rightarrow> (UBUS_STATUS_INVALID_ARGUMENT, d)))"

text \<open>Overwriting the value of the first attribute of a message, a 32-bit integer, in place.\<close>

definition blob_patch32 :: "u32 \<Rightarrow> blob \<Rightarrow> blob" where
  "blob_patch32 v data =
     (case data of Built ((i, Blob_int32 _) # as) \<Rightarrow> Built ((i, Blob_int32 v) # as) | _ \<Rightarrow> data)"

definition event_fill ::
  "env \<Rightarrow> (nat \<times> blob_attr) list \<Rightarrow> addr option \<Rightarrow> net \<Rightarrow> addr option \<times> net" where
  "event_fill E attrs ub n =
     (case ub of
        Some u \<Rightarrow> (Some u, n)
      | None \<Rightarrow>
          (case ubus_msg_new E (Built attrs) (blob_raw_len E (Built attrs)) True n of
             (None, n) \<Rightarrow> (None, n)
           | (Some u, n) \<Rightarrow>
               (Some u, upd_buf u (\<lambda>b. b\<lparr>ub_hdr := (ub_hdr b)
                  \<lparr>hdr_type := ubus_msg_code UBUS_MSG_INVOKE, hdr_peer := 0\<rparr>\<rparr>) n)))"

definition ubusd_send_event_msg ::
  "env \<Rightarrow> u32 option \<Rightarrow> (nat \<times> blob_attr) list \<Rightarrow> u32 \<Rightarrow> addr option \<times> daemon \<Rightarrow>
   ubus_msg_status \<times> addr option \<times> daemon" where
  "ubusd_send_event_msg E cl attrs oid = (\<lambda>(ub, d).
     (case objects d oid of
        None \<Rightarrow> (UBUS_STATUS_OK, ub, dfault d)
      | Some ob \<Rightarrow>
          if obj_client ob = cl then (UBUS_STATUS_OK, ub, d)
          else if obj_event_seen ob = obj_event_seq d then (UBUS_STATUS_OK, ub, d)
          else
            let d = upd_obj oid (\<lambda>ob. ob\<lparr>obj_event_seen := obj_event_seq d\<rparr>) d in
            (case event_fill E attrs ub (net d) of
               (None, n) \<Rightarrow> (UBUS_STATUS_UNKNOWN_ERROR, None, d\<lparr>net := n\<rparr>)
             | (Some u, n) \<Rightarrow>
                 let seq = event_seq d + 1;
                     n = upd_buf u (\<lambda>b. b\<lparr>ub_data := blob_patch32 oid (ub_data b),
                                          ub_hdr := (ub_hdr b)\<lparr>hdr_seq := seq\<rparr>\<rparr>) n
                 in (UBUS_STATUS_OK, Some u,
                     d\<lparr>event_seq := seq,
                       net := (case obj_client ob of
                                 None \<Rightarrow> set_fault n
                               | Some c \<Rightarrow> ubus_msg_send E c u n)\<rparr>))))"

fun event_loop ::
  "env \<Rightarrow> u32 option \<Rightarrow> string \<Rightarrow> (nat \<times> blob_attr) list \<Rightarrow> nat \<Rightarrow> (string \<times> event_source) list \<Rightarrow>
   ubus_msg_status \<times> addr option \<times> daemon \<Rightarrow> ubus_msg_status \<times> addr option \<times> daemon" where
  "event_loop E cl ident attrs match_len [] s = s"
| "event_loop E cl ident attrs match_len ((key, ev) # t) s =
     (let (cur, full) = ubus_strmatch_len ident key in
      if cur < match_len then s
      else if \<not> full \<and> (\<not> ev_partial ev \<or> cur \<noteq> length key) then event_loop E cl ident attrs cur t s
      else
        let s = ubusd_send_event_msg E cl attrs (ev_obj ev) (snd s) in
        if fst s \<noteq> UBUS_STATUS_OK then s else event_loop E cl ident attrs cur t s)"

definition ubusd_send_event ::
  "env \<Rightarrow> u32 option \<Rightarrow> string \<Rightarrow> (nat \<times> blob_attr) list \<Rightarrow> daemon \<Rightarrow> ubus_msg_status \<times> daemon" where
  "ubusd_send_event E cl ident attrs d =
     (if ubusd_acl_check d (client_of d cl) (Some ident) None UBUS_ACL_SEND \<noteq> 0
      then (UBUS_STATUS_PERMISSION_DENIED, d)
      else
        let seq = obj_event_seq d + 1;
            d = d\<lparr>obj_event_seq := (if seq = 0 then 1 else seq)\<rparr>
        in (case event_loop E cl ident attrs 0 (patterns d) (UBUS_STATUS_OK, None, d) of
              (ret, ub, d) \<Rightarrow>
                (ret, case ub of None \<Rightarrow> d | Some u \<Rightarrow> on_net (ubus_msg_free u) d)))"

definition ev_policy :: "(string \<times> blobmsg_type) list" where
  "ev_policy = [(''id'', BLOBMSG_TYPE_STRING), (''data'', BLOBMSG_TYPE_TABLE)]"

definition ubusd_create_event_from_msg :: "blob_attr \<Rightarrow> string \<Rightarrow> (nat \<times> blob_attr) list" where
  "ubusd_create_event_from_msg msg ident =
     [(ubus_attr_code UBUS_ATTR_OBJID, Blob_int32 0),
      (ubus_attr_code UBUS_ATTR_METHOD, Blob_string ident),
      (ubus_attr_code UBUS_ATTR_NO_REPLY, Blob_int8 1),
      (ubus_attr_code UBUS_ATTR_DATA, msg)]"

definition ubusd_forward_event ::
  "env \<Rightarrow> u32 \<Rightarrow> blob_attr option \<Rightarrow> daemon \<Rightarrow> ubus_msg_status \<times> daemon" where
  "ubusd_forward_event E cl msg d =
     (case msg of
        None \<Rightarrow> (UBUS_STATUS_INVALID_ARGUMENT, d)
      | Some m \<Rightarrow>
          (case blobmsg_parse E ev_policy m of
             [Some ia, Some data] \<Rightarrow>
               let ident = blob_str E ia in
               if take (length UBUS_EVENT_RESERVED_PREFIX) ident = UBUS_EVENT_RESERVED_PREFIX
               then (UBUS_STATUS_PERMISSION_DENIED, d)
               else ubusd_send_event E (Some cl) ident (ubusd_create_event_from_msg data ident) d
           | _ \<Rightarrow> (UBUS_STATUS_INVALID_ARGUMENT, d)))"

definition ubusd_event_recv ::
  "env \<Rightarrow> u32 \<Rightarrow> addr \<Rightarrow> string \<Rightarrow> blob_attr option \<Rightarrow> daemon \<Rightarrow> ubus_msg_status \<times> daemon" where
  "ubusd_event_recv E cl ub method msg d =
     (if method = ''register'' then ubusd_alloc_event_pattern E cl msg d
      else if method = ''send'' then ubusd_forward_event E cl msg d
      else (UBUS_STATUS_INVALID_COMMAND, d))"

definition ubusd_create_object_event_msg :: "u32 \<Rightarrow> string \<Rightarrow> string \<Rightarrow> (nat \<times> blob_attr) list" where
  "ubusd_create_object_event_msg oid pth ident =
     [(ubus_attr_code UBUS_ATTR_OBJID, Blob_int32 0),
      (ubus_attr_code UBUS_ATTR_METHOD, Blob_string ident),
      (ubus_attr_code UBUS_ATTR_NO_REPLY, Blob_int8 1),
      (ubus_attr_code UBUS_ATTR_DATA,
       Blobmsg_table [(''id'', Blob_int32 oid), (''path'', Blob_string pth)])]"

definition ubusd_send_obj_event :: "env \<Rightarrow> u32 \<Rightarrow> bool \<Rightarrow> daemon \<Rightarrow> daemon" where
  "ubusd_send_obj_event E oid add d =
     (case objects d oid of
        None \<Rightarrow> dfault d
      | Some ob \<Rightarrow>
          (case obj_path ob of
             None \<Rightarrow> dfault d
           | Some pth \<Rightarrow>
               let ident = (if add then ''ubus.object.add'' else ''ubus.object.remove'') in
               snd (ubusd_send_event E None ident (ubusd_create_object_event_msg oid pth ident) d)))"

section \<open>Which objects an event reaches\<close>

definition event_step ::
  "env \<Rightarrow> u32 option \<Rightarrow> (nat \<times> blob_attr) list \<Rightarrow> event_source \<Rightarrow>
   ubus_msg_status \<times> addr option \<times> daemon \<Rightarrow> (ubus_msg_status \<times> addr option \<times> daemon) \<times> bool" where
  "event_step E cl attrs ev s =
     (let s' = ubusd_send_event_msg E cl attrs (ev_obj ev) (snd s)
      in (s', fst s' \<noteq> UBUS_STATUS_OK))"

interpretation event: scan_loop ident ev_partial "\<lambda>_. False" "event_step E cl attrs"
  "event_loop E cl ident attrs"
  for E cl ident attrs
  by unfold_locales (auto simp: event_step_def Let_def split: prod.splits)

subsection \<open>The registry is not touched\<close>

lemma core_event_fill: "event_fill E attrs ub n = (r, n') \<Longrightarrow> core n' = core n"
  by (auto simp: event_fill_def dest!: core_msg_new split: option.splits prod.splits)

lemma net_upd_obj_Some [simp]: "objects d oid = Some ob \<Longrightarrow> net (upd_obj oid f d) = net d"
  by (simp add: upd_obj_def)

lemma reg_send_event_msg:
  "ubusd_send_event_msg E cl attrs oid (ub, d) = (r, ub', d') \<Longrightarrow> reg d' = reg d"
proof -
  let ?d = "upd_obj oid (\<lambda>ob. ob\<lparr>obj_event_seen := obj_event_seq d\<rparr>) d"
  have n: "reg (?d\<lparr>event_seq := x, net := n\<rparr>) = reg d" "reg (?d\<lparr>net := n\<rparr>) = reg d"
    if "core n = core (net ?d)" for n x
    using that reg_upd_seen(1) [of oid "obj_event_seq d" d]
    by (simp_all add: reg_set_net)
  show "ubusd_send_event_msg E cl attrs oid (ub, d) = (r, ub', d') \<Longrightarrow> reg d' = reg d"
    by (auto simp: ubusd_send_event_msg_def Let_def n dest!: core_event_fill
        split: option.splits if_splits prod.splits)
qed

lemma reg_event_loop: "reg (snd (snd (event_loop E cl ident attrs m t s))) = reg (snd (snd s))"
proof (induction t arbitrary: m s)
  case (Cons kv t)
  obtain r ub d where s: "s = (r, ub, d)" by (cases s)
  obtain r' ub' d' where s': "ubusd_send_event_msg E cl attrs (ev_obj (snd kv)) (ub, d) = (r', ub', d')"
    by (cases "ubusd_send_event_msg E cl attrs (ev_obj (snd kv)) (ub, d)")
  note reg_send_event_msg [OF s']
  with Cons s s' show ?case
    by (cases kv) (auto simp: Let_def split: prod.splits)
qed simp

lemma reg_send_event [simp]: "reg (snd (ubusd_send_event E cl ident attrs d)) = reg d"
proof -
  have "reg d' = reg d"
    if "event_loop E cl ident attrs 0 t (x, y, d\<lparr>obj_event_seq := q\<rparr>) = (r, ub, d')"
    for q r ub d' x y t
    using reg_event_loop [of E cl ident attrs 0 t "(x, y, d\<lparr>obj_event_seq := q\<rparr>)"] that by simp
  then show ?thesis
    by (auto simp: ubusd_send_event_def Let_def split: prod.splits option.splits)
qed

lemma reg_send_obj_event [simp]: "reg (ubusd_send_obj_event E oid add d) = reg d"
  by (simp add: ubusd_send_obj_event_def Let_def split: option.splits)

subsection \<open>Memory safety of the delivery\<close>

text \<open>The loop holds the only reference to the event message, once that is built. The message
  keeps its contents but for the object id and the sequence number.\<close>

definition event_msg_ok :: "(nat \<times> blob_attr) list \<Rightarrow> ubus_msg_buf \<Rightarrow> bool" where
  "event_msg_ok attrs b \<longleftrightarrow>
     ub_refcount b = USES_EXTERNAL_BUFFER \<and> ub_fd b = - 1 \<and>
     (\<forall>oid. blob_patch32 oid (ub_data b) = blob_patch32 oid (Built attrs)) \<and>
     (ub_hdr b)\<lparr>hdr_seq := 0\<rparr> =
       \<lparr>hdr_version = 0, hdr_type = ubus_msg_code UBUS_MSG_INVOKE, hdr_seq = 0, hdr_peer = 0\<rparr>"

definition event_held :: "(addr \<Rightarrow> nat) \<Rightarrow> (nat \<times> blob_attr) list \<Rightarrow> addr option \<Rightarrow> net \<Rightarrow> bool" where
  "event_held H attrs ub n \<longleftrightarrow>
     (case ub of
        None \<Rightarrow> net_wf H n
      | Some u \<Rightarrow> H u = 0 \<and> net_wf (H(u := 1)) n \<and> (\<exists>b. bufs n u = Some b \<and> event_msg_ok attrs b))"

lemma blob_patch32_twice [simp]: "blob_patch32 v (blob_patch32 w x) = blob_patch32 v x"
  by (auto simp: blob_patch32_def split: blob.splits list.splits prod.splits blob_attr.splits)

lemma event_fill_held:
  assumes "event_held H attrs ub n" and "event_fill E attrs ub n = (ub', n')"
  shows "event_held H attrs ub' n'" and "sent n' = sent n"
proof -
  have "event_held H attrs ub' n' \<and> sent n' = sent n"
  proof (cases ub)
    case None
    obtain r n1 where new: "ubus_msg_new E (Built attrs) (blob_raw_len E (Built attrs)) True n = (r, n1)"
      by fastforce
    show ?thesis
    proof (cases r)
      case None
      with \<open>ub = None\<close> assms new show ?thesis
        by (auto simp: event_fill_def event_held_def dest: net_wf_msg_new_None sent_msg_new)
    next
      case (Some u)
      let ?f = "\<lambda>b. b\<lparr>ub_hdr := (ub_hdr b)\<lparr>hdr_type := ubus_msg_code UBUS_MSG_INVOKE, hdr_peer := 0\<rparr>\<rparr>"
      have wf: "net_wf H n" using assms(1) \<open>ub = None\<close> by (simp add: event_held_def)
      note new = new [unfolded Some]
      note w = net_wf_msg_new [OF wf new]
      note n1 = ubus_msg_new_Some [OF new]
      have "net_wf (H(u := 1)) (upd_buf u ?f n1)"
        by (rule net_wf_upd_buf [OF w(1)]) (simp_all add: n1)
      with w(2) have "event_held H attrs (Some u) (upd_buf u ?f n1)"
        by (simp add: event_held_def n1 upd_buf_def event_msg_ok_def zero_hdr_def)
      with \<open>ub = None\<close> assms(2) new sent_msg_new [OF new] show ?thesis
        by (auto simp: event_fill_def)
    qed
  next
    case (Some u)
    with assms show ?thesis by (simp add: event_fill_def)
  qed
  then show "event_held H attrs ub' n'" and "sent n' = sent n" by simp_all
qed

lemma send_event_held:
  fixes oid :: u32 and q :: u16 and n :: net
  assumes held: "event_held H attrs (Some u) n" and c: "clients n c = Some cl"
  defines "n1 \<equiv> upd_buf u (\<lambda>b. b\<lparr>ub_data := blob_patch32 oid (ub_data b),
                                 ub_hdr := (ub_hdr b)\<lparr>hdr_seq := q\<rparr>\<rparr>) n"
  shows "event_held H attrs (Some u) (ubus_msg_send E c u n1)"
    and "sent (ubus_msg_send E c u n1) = sent n @
      [(c, \<lparr>hdr_version = 0, hdr_type = ubus_msg_code UBUS_MSG_INVOKE, hdr_seq = q, hdr_peer = 0\<rparr>,
        blob_patch32 oid (Built attrs), - 1)]"
proof -
  obtain b where b: "bufs n u = Some b" and ok: "event_msg_ok attrs b"
    and H: "H u = 0" and wf: "net_wf (H(u := 1)) n"
    using held by (auto simp: event_held_def)
  let ?b = "b\<lparr>ub_data := blob_patch32 oid (ub_data b), ub_hdr := (ub_hdr b)\<lparr>hdr_seq := q\<rparr>\<rparr>"
  have wf1: "net_wf (H(u := 1)) n1" unfolding n1_def by (rule net_wf_upd_buf [OF wf b]) simp
  have b1: "bufs n1 u = Some ?b" and c1: "clients n1 c = Some cl"
    using b c by (simp_all add: n1_def upd_buf_def)
  have ok1: "event_msg_ok attrs ?b" using ok by (simp add: event_msg_ok_def)
  have s1: "sendable n1 u" and e1: "ext_view n1 u = Some (ub_data ?b, ub_len ?b, (ub_hdr ?b)\<lparr>hdr_seq := 0\<rparr>)"
    and f1: "no_fd n1 u"
    using b1 ok1 by (auto simp: sendable_def event_msg_ok_def ext_view_def no_fd_def)
  have less: "u < next_addr n1" by (rule net_wf_ub_less [OF wf1 b1])
  note snd = net_wf_send [OF wf1 c1 s1, of E]
  from snd(2) e1 f1 less have e2: "ext_view (ubus_msg_send E c u n1) u = ext_view n1 u"
    and f2: "no_fd (ubus_msg_send E c u n1) u"
    by (simp_all add: bufs_frame_def)
  from e2 e1 f2 obtain b2 where "bufs (ubus_msg_send E c u n1) u = Some b2"
    and "ub_refcount b2 = USES_EXTERNAL_BUFFER" and "ub_data b2 = ub_data ?b" and "ub_fd b2 = - 1"
    and "(ub_hdr b2)\<lparr>hdr_seq := 0\<rparr> = (ub_hdr ?b)\<lparr>hdr_seq := 0\<rparr>"
    by (auto simp: ext_view_def no_fd_def split: option.splits if_splits)
  with snd(1) H ok1 show "event_held H attrs (Some u) (ubus_msg_send E c u n1)"
    by (auto simp: event_held_def event_msg_ok_def)
  have "ub_hdr ?b =
      \<lparr>hdr_version = 0, hdr_type = ubus_msg_code UBUS_MSG_INVOKE, hdr_seq = q, hdr_peer = 0\<rparr>"
    using ok by (cases "ub_hdr b") (simp add: event_msg_ok_def)
  then show "sent (ubus_msg_send E c u n1) = sent n @
      [(c, \<lparr>hdr_version = 0, hdr_type = ubus_msg_code UBUS_MSG_INVOKE, hdr_seq = q, hdr_peer = 0\<rparr>,
        blob_patch32 oid (Built attrs), - 1)]"
    using sent_send [OF c1 b1, of E] ok by (simp add: n1_def event_msg_ok_def)
qed

subsection \<open>Exactly the matching objects, once each\<close>

text \<open>The objects an event reaches, in order: those with a matching pattern, each at its first
  pattern, without the objects of the sender and those already marked.\<close>

fun keep_new :: "'a set \<Rightarrow> 'a list \<Rightarrow> 'a list" where
  "keep_new S [] = []"
| "keep_new S (x # xs) = (if x \<in> S then keep_new S xs else x # keep_new (insert x S) xs)"

lemma keep_new_set: "set (keep_new S xs) = set xs - S"
  by (induction S xs rule: keep_new.induct) auto

lemma keep_new_distinct: "distinct (keep_new S xs)"
  by (induction S xs rule: keep_new.induct) (auto simp: keep_new_set)

definition event_marked :: "daemon \<Rightarrow> u32 set" where
  "event_marked d = {oid. \<exists>ob. objects d oid = Some ob \<and> obj_event_seen ob = obj_event_seq d}"

fun event_msgs ::
  "(u32 \<Rightarrow> u32 option) \<Rightarrow> (nat \<times> blob_attr) list \<Rightarrow> u16 \<Rightarrow> u32 list \<Rightarrow>
   (u32 \<times> ubus_msghdr \<times> blob \<times> int) list" where
  "event_msgs own attrs q [] = []"
| "event_msgs own attrs q (oid # oids) =
     (the (own oid),
      \<lparr>hdr_version = 0, hdr_type = ubus_msg_code UBUS_MSG_INVOKE, hdr_seq = q + 1, hdr_peer = 0\<rparr>,
      blob_patch32 oid (Built attrs), - 1) # event_msgs own attrs (q + 1) oids"

lemma send_event_msg_skip:
  assumes "live_owner d oid" and "owner d oid = cl \<or> oid \<in> event_marked d"
  shows "ubusd_send_event_msg E cl attrs oid (ub, d) = (UBUS_STATUS_OK, ub, d)"
  using assms
  by (auto simp: live_owner_def owner_def obj_field_def event_marked_def ubusd_send_event_msg_def)

lemma send_event_msg_send:
  assumes live: "live_owner d oid" and cl: "owner d oid \<noteq> cl" and new: "oid \<notin> event_marked d"
    and held: "event_held H attrs ub (net d)"
    and r: "ubusd_send_event_msg E cl attrs oid (ub, d) = (ret, ub', d')"
  shows "event_held H attrs ub' (net d')"
    and "ret = UBUS_STATUS_OK \<and> ub' \<noteq> None \<and>
        sent (net d') = sent (net d) @ event_msgs (owner d) attrs (event_seq d) [oid] \<and>
        event_seq d' = event_seq d + 1 \<and> obj_event_seq d' = obj_event_seq d \<and>
        event_marked d' = insert oid (event_marked d) \<or>
      ret = UBUS_STATUS_UNKNOWN_ERROR \<and> ub = None \<and> sent (net d') = sent (net d)"
proof -
  obtain ob c cr where ob: "objects d oid = Some ob" and c: "obj_client ob = Some c"
    and cr: "clients (net d) c = Some cr"
    using live by (auto simp: live_owner_def)
  let ?d = "upd_obj oid (\<lambda>ob. ob\<lparr>obj_event_seen := obj_event_seq d\<rparr>) d"
  obtain u n where fill: "event_fill E attrs ub (net d) = (u, n)" by fastforce
  note held1 = event_fill_held [OF held fill]
  have ne: "c \<notin> set_option cl" using cl ob c by (auto simp: owner_def obj_field_def)
  have seen: "obj_event_seen ob \<noteq> obj_event_seq d" using new ob by (auto simp: event_marked_def)
  have "event_held H attrs ub' (net d') \<and>
      (ret = UBUS_STATUS_OK \<and> ub' \<noteq> None \<and>
        sent (net d') = sent (net d) @ event_msgs (owner d) attrs (event_seq d) [oid] \<and>
        event_seq d' = event_seq d + 1 \<and> obj_event_seq d' = obj_event_seq d \<and>
        event_marked d' = insert oid (event_marked d) \<or>
      ret = UBUS_STATUS_UNKNOWN_ERROR \<and> ub = None \<and> sent (net d') = sent (net d))"
  proof (cases u)
    case None
    then have "ub = None" using fill by (auto simp: event_fill_def split: option.splits prod.splits)
    with r ob c cl seen fill None held1 show ?thesis
      by (auto simp: ubusd_send_event_msg_def Let_def owner_def obj_field_def)
  next
    case (Some v)
    note held1 = held1 [unfolded Some]
    obtain cr' where cr': "clients n c = Some cr'"
      using core_client [OF core_event_fill [OF fill] cr] by blast
    note snd = send_event_held [OF held1(1) cr', where E = E and oid = oid and q = "event_seq d + 1"]
    have m: "event_marked d' = insert oid (event_marked d)"
      if "objects d' = objects ?d" "obj_event_seq d' = obj_event_seq d"
      using that ob by (auto simp: event_marked_def upd_obj_def)
    have q: "event_seq ?d = event_seq d" "obj_event_seq ?d = obj_event_seq d"
      using ob by (simp_all add: upd_obj_def)
    from r ob c cl seen fill Some q held1(2) snd m show ?thesis
      by (auto simp: ubusd_send_event_msg_def Let_def owner_def obj_field_def)
  qed
  then show "event_held H attrs ub' (net d')"
    and "ret = UBUS_STATUS_OK \<and> ub' \<noteq> None \<and>
        sent (net d') = sent (net d) @ event_msgs (owner d) attrs (event_seq d) [oid] \<and>
        event_seq d' = event_seq d + 1 \<and> obj_event_seq d' = obj_event_seq d \<and>
        event_marked d' = insert oid (event_marked d) \<or>
      ret = UBUS_STATUS_UNKNOWN_ERROR \<and> ub = None \<and> sent (net d') = sent (net d)"
    by simp_all
qed

lemma event_step_Cons:
  "run_until (event_step E cl attrs) (ev # evs) (r, ub, d) =
     (let s' = ubusd_send_event_msg E cl attrs (ev_obj ev) (ub, d)
      in if fst s' \<noteq> UBUS_STATUS_OK then s' else run_until (event_step E cl attrs) evs s')"
  by (simp add: event_step_def [of E cl attrs ev] Let_def)

lemma event_run:
  assumes "\<forall>ev\<in>set evs. live_owner d (ev_obj ev)" and "event_held H attrs ub (net d)"
    and "run_until (event_step E cl attrs) evs (UBUS_STATUS_OK, ub, d) = (ret, ub', d')"
  shows "event_held H attrs ub' (net d')"
    and "ret = UBUS_STATUS_OK \<and>
        sent (net d') = sent (net d) @ event_msgs (owner d) attrs (event_seq d)
          (keep_new (event_marked d) (filter (\<lambda>oid. owner d oid \<noteq> cl) (map ev_obj evs))) \<or>
      ret = UBUS_STATUS_UNKNOWN_ERROR \<and> ub = None \<and> sent (net d') = sent (net d)"
proof -
  have "event_held H attrs ub' (net d') \<and>
    (ret = UBUS_STATUS_OK \<and>
        sent (net d') = sent (net d) @ event_msgs (owner d) attrs (event_seq d)
          (keep_new (event_marked d) (filter (\<lambda>oid. owner d oid \<noteq> cl) (map ev_obj evs))) \<or>
      ret = UBUS_STATUS_UNKNOWN_ERROR \<and> ub = None \<and> sent (net d') = sent (net d))"
    using assms
  proof (induction evs arbitrary: ub d)
    case (Cons ev evs)
    let ?oid = "ev_obj ev"
    have live: "live_owner d ?oid" using Cons.prems(1) by simp
    show ?case
    proof (cases "owner d ?oid = cl \<or> ?oid \<in> event_marked d")
      case True
      have "run_until (event_step E cl attrs) evs (UBUS_STATUS_OK, ub, d) = (ret, ub', d')"
        using Cons.prems(3) by (simp add: event_step_Cons send_event_msg_skip [OF live True] del: run_until.simps)
      from Cons.IH [OF _ Cons.prems(2) this] Cons.prems(1) True show ?thesis by auto
    next
      case False
      obtain r1 ub1 d1 where r1: "ubusd_send_event_msg E cl attrs ?oid (ub, d) = (r1, ub1, d1)"
        by (cases "ubusd_send_event_msg E cl attrs ?oid (ub, d)")
      note reg1 = reg_send_event_msg [OF r1]
      have own: "owner d1 = owner d" by (rule reg_owner [OF reg1])
      from False have ne: "owner d ?oid \<noteq> cl" and nm: "?oid \<notin> event_marked d" by simp_all
      note s1 = send_event_msg_send [OF live ne nm Cons.prems(2) r1]
      note held1 = s1(1)
      show ?thesis
      proof (cases "r1 = UBUS_STATUS_OK")
        case True
        have "\<forall>ev\<in>set evs. live_owner d1 (ev_obj ev)"
          using Cons.prems(1) reg_live_owner [OF reg1] by simp
        moreover have "run_until (event_step E cl attrs) evs (UBUS_STATUS_OK, ub1, d1) = (ret, ub', d')"
          using Cons.prems(3) r1 True by (simp add: event_step_Cons del: run_until.simps)
        ultimately have "event_held H attrs ub' (net d') \<and>
          (ret = UBUS_STATUS_OK \<and>
            sent (net d') = sent (net d1) @ event_msgs (owner d1) attrs (event_seq d1)
              (keep_new (event_marked d1) (filter (\<lambda>oid. owner d1 oid \<noteq> cl) (map ev_obj evs))) \<or>
          ret = UBUS_STATUS_UNKNOWN_ERROR \<and> ub1 = None \<and> sent (net d') = sent (net d1))"
          by (intro Cons.IH [OF _ held1])
        with s1(2) True ne nm own show ?thesis by auto
      next
        case err: False
        then have "(ret, ub', d') = (r1, ub1, d1)"
          using Cons.prems(3) r1 err by (simp add: event_step_Cons del: run_until.simps)
        with s1(2) held1 err show ?thesis by auto
      qed
    qed
  qed simp
  then show "event_held H attrs ub' (net d')"
    and "ret = UBUS_STATUS_OK \<and>
        sent (net d') = sent (net d) @ event_msgs (owner d) attrs (event_seq d)
          (keep_new (event_marked d) (filter (\<lambda>oid. owner d oid \<noteq> cl) (map ev_obj evs))) \<or>
      ret = UBUS_STATUS_UNKNOWN_ERROR \<and> ub = None \<and> sent (net d') = sent (net d)"
    by simp_all
qed

text \<open>The next event number, and the objects that the event reaches.\<close>

definition next_event_seq :: "daemon \<Rightarrow> u32" where
  "next_event_seq d = (let seq = obj_event_seq d + 1 in if seq = 0 then 1 else seq)"

definition event_targets :: "u32 option \<Rightarrow> string \<Rightarrow> daemon \<Rightarrow> u32 list" where
  "event_targets cl ident d =
     keep_new {} (filter (\<lambda>oid. owner d oid \<noteq> cl)
       (map (ev_obj \<circ> snd) (filter (\<lambda>(k, ev). key_matches ident (ev_partial ev) k) (patterns d))))"

lemma send_event_eq:
  assumes "reg_wf K (reg d)"
    and "ubusd_acl_check d (client_of d cl) (Some ident) None UBUS_ACL_SEND = 0"
  defines "d0 \<equiv> d\<lparr>obj_event_seq := next_event_seq d\<rparr>"
  shows "ubusd_send_event E cl ident attrs d =
    (case run_until (event_step E cl attrs) (event.hits ident (patterns d)) (UBUS_STATUS_OK, None, d0) of
       (ret, ub, d) \<Rightarrow> (ret, case ub of None \<Rightarrow> d | Some u \<Rightarrow> on_net (ubus_msg_free u) d))"
proof -
  have "sorted (map fst (patterns d))"
    using events_okD(5) [OF reg_wfD(6) [OF assms(1)]] by (simp add: reg_sel)
  from event.loop_start [OF this] show ?thesis
    using assms(2) by (simp add: ubusd_send_event_def next_event_seq_def d0_def Let_def)
qed

lemma hits_live:
  assumes "reg_wf K (reg d)" and "ev \<in> set (event.hits ident (patterns d))"
  shows "live_owner d (ev_obj ev)"
proof -
  from assms(2) obtain x where "x \<in> set (patterns d)" and "ev = snd x"
    unfolding event.hits_def set_map set_filter by blast
  then show ?thesis
    using live_objects(1) [OF assms(1), of "fst x" ev] by simp
qed

lemma net_wf_held_free:
  assumes "event_held H attrs ub n"
  shows "net_wf H (case ub of None \<Rightarrow> n | Some u \<Rightarrow> ubus_msg_free u n)"
proof (cases ub)
  case (Some u)
  with assms have "net_wf ((H(u := 1))(u := (H(u := 1)) u - 1)) (ubus_msg_free u n)"
    by (intro net_wf_free) (simp_all add: event_held_def)
  with Some assms show ?thesis by (simp add: event_held_def fun_upd_idem)
qed (use assms in \<open>simp add: event_held_def\<close>)

lemma send_event_ok:
  assumes wf: "net_wf H (net d)" "reg_wf K (reg d)"
    and r: "ubusd_send_event E cl ident attrs d = (ret, d')"
  shows "net_wf H (net d')"
    and "(\<forall>oid ob. objects d oid = Some ob \<longrightarrow> obj_event_seen ob \<noteq> next_event_seq d) \<Longrightarrow>
      ret = UBUS_STATUS_OK \<and>
        sent (net d') = sent (net d) @ event_msgs (owner d) attrs (event_seq d) (event_targets cl ident d) \<or>
      ret \<noteq> UBUS_STATUS_OK \<and> sent (net d') = sent (net d)"
proof -
  let ?d0 = "d\<lparr>obj_event_seq := next_event_seq d\<rparr>"
  have "net_wf H (net d') \<and>
      ((\<forall>oid ob. objects d oid = Some ob \<longrightarrow> obj_event_seen ob \<noteq> next_event_seq d) \<longrightarrow>
      ret = UBUS_STATUS_OK \<and>
        sent (net d') = sent (net d) @ event_msgs (owner d) attrs (event_seq d) (event_targets cl ident d) \<or>
      ret \<noteq> UBUS_STATUS_OK \<and> sent (net d') = sent (net d))"
  proof (cases "ubusd_acl_check d (client_of d cl) (Some ident) None UBUS_ACL_SEND = 0")
    case False
    with r wf show ?thesis by (auto simp: ubusd_send_event_def)
  next
    case True
    obtain ret1 ub d1 where run: "run_until (event_step E cl attrs) (event.hits ident (patterns d))
        (UBUS_STATUS_OK, None, ?d0) = (ret1, ub, d1)" by (rule prod_cases3)
    have "\<forall>ev\<in>set (event.hits ident (patterns d)). live_owner ?d0 (ev_obj ev)"
      using hits_live [OF wf(2)] reg_live_owner [of ?d0 d] by simp
    moreover have "event_held H attrs None (net ?d0)" using wf by (simp add: event_held_def)
    ultimately have ok: "event_held H attrs ub (net d1)"
      "ret1 = UBUS_STATUS_OK \<and>
          sent (net d1) = sent (net d) @ event_msgs (owner d) attrs (event_seq d)
            (keep_new (event_marked ?d0) (filter (\<lambda>oid. owner d oid \<noteq> cl)
              (map ev_obj (event.hits ident (patterns d))))) \<or>
        ret1 = UBUS_STATUS_UNKNOWN_ERROR \<and> sent (net d1) = sent (net d)"
      using event_run [OF _ _ run] reg_owner [of ?d0 d] by auto
    have d': "ret = ret1" "net d' = (case ub of None \<Rightarrow> net d1 | Some u \<Rightarrow> ubus_msg_free u (net d1))"
      using r send_event_eq [OF wf(2) True] run by (auto split: option.splits)
    moreover have "event_marked ?d0 = {}"
      if "\<forall>oid ob. objects d oid = Some ob \<longrightarrow> obj_event_seen ob \<noteq> next_event_seq d"
      using that by (auto simp: event_marked_def)
    ultimately show ?thesis
      using ok(2) net_wf_held_free [OF ok(1)]
      by (auto simp: event_targets_def event.hits_def comp_def split: option.splits)
  qed
  then show "net_wf H (net d')"
    and "(\<forall>oid ob. objects d oid = Some ob \<longrightarrow> obj_event_seen ob \<noteq> next_event_seq d) \<Longrightarrow>
      ret = UBUS_STATUS_OK \<and>
        sent (net d') = sent (net d) @ event_msgs (owner d) attrs (event_seq d) (event_targets cl ident d) \<or>
      ret \<noteq> UBUS_STATUS_OK \<and> sent (net d') = sent (net d)"
    by simp_all
qed

lemma net_wf_send_event:
  "net_wf H (net d) \<Longrightarrow> reg_wf K (reg d) \<Longrightarrow> net_wf H (net (snd (ubusd_send_event E cl ident attrs d)))"
  using send_event_ok(1) by (metis prod.collapse)

lemma net_wf_send_obj_event:
  assumes "net_wf H (net d)" and "reg_wf K (reg d)" and "objects d oid = Some ob"
    and "obj_path ob \<noteq> None"
  shows "net_wf H (net (ubusd_send_obj_event E oid add d))"
  using assms by (auto simp: ubusd_send_obj_event_def Let_def intro!: net_wf_send_event)

section \<open>Registering and dropping patterns\<close>

lemma calloc_node_Some:
  assumes "calloc_node E d = (Some a, d')"
  shows "a = next_node d" and "reg d' = (reg d)\<lparr>r_next := Suc (next_node d)\<rparr>"
    and "objects d' = objects d" and "patterns d' = patterns d" and "subs d' = subs d"
    and "net_wf H (net d) \<Longrightarrow> net_wf H (net d')"
proof -
  let ?n = "snd (calloc E (net d))"
  have c: "calloc E (net d) = (True, ?n)"
    and d': "d' = d\<lparr>net := ?n, next_node := Suc (next_node d)\<rparr>" and a: "a = next_node d"
    using assms by (auto simp: calloc_node_def split: prod.splits bool.splits)
  show "a = next_node d" by (rule a)
  show "objects d' = objects d" "patterns d' = patterns d" "subs d' = subs d"
    by (simp_all add: d')
  show "reg d' = (reg d)\<lparr>r_next := Suc (next_node d)\<rparr>"
    using core_calloc [OF c] by (simp add: d' reg_set_net)
  show "net_wf H (net d) \<Longrightarrow> net_wf H (net d')"
    using net_wf_calloc [OF _ c] by (simp add: d')
qed

lemma calloc_node_None:
  assumes "calloc_node E d = (None, d')"
  shows "reg d' = reg d" and "net_wf H (net d) \<Longrightarrow> net_wf H (net d')"
proof -
  let ?n = "snd (calloc E (net d))"
  have c: "calloc E (net d) = (False, ?n)" and d': "d' = d\<lparr>net := ?n\<rparr>"
    using assms by (auto simp: calloc_node_def split: prod.splits bool.splits)
  show "reg d' = reg d" using core_calloc [OF c] by (simp add: d' reg_set_net)
  show "net_wf H (net d) \<Longrightarrow> net_wf H (net d')" using net_wf_calloc [OF _ c] by (simp add: d')
qed

text \<open>A registration either leaves the registry alone or adds one pattern to an object of the
  client that asked, and only when the access control lists let it listen.\<close>

lemma alloc_event_pattern_cases:
  assumes r: "ubusd_alloc_event_pattern E cl msg d = (ret, d')"
  shows "net_wf H (net d) \<Longrightarrow> net_wf H (net d')"
    and "ret \<noteq> UBUS_STATUS_OK \<and> reg d' = reg d \<or>
      ret = UBUS_STATUS_OK \<and>
      (\<exists>oid partial key. reg d' = r_add_pattern E oid partial key (reg d) \<and> owner d oid = Some cl \<and>
         UBUS_SYSTEM_OBJECT_MAX \<le> oid \<and>
         ubusd_acl_check d (client_of d (Some cl)) (Some key) None UBUS_ACL_LISTEN = 0)"
proof -
  have "(net_wf H (net d) \<longrightarrow> net_wf H (net d')) \<and>
      (ret \<noteq> UBUS_STATUS_OK \<and> reg d' = reg d \<or>
      ret = UBUS_STATUS_OK \<and>
      (\<exists>oid partial key. reg d' = r_add_pattern E oid partial key (reg d) \<and> owner d oid = Some cl \<and>
         UBUS_SYSTEM_OBJECT_MAX \<le> oid \<and>
         ubusd_acl_check d (client_of d (Some cl)) (Some key) None UBUS_ACL_LISTEN = 0))"
  proof (cases "ret = UBUS_STATUS_OK \<or> ret = UBUS_STATUS_NO_MEMORY")
    case False
    with r have "d' = d"
      by (auto simp: ubusd_alloc_event_pattern_def Let_def
          split: option.splits list.splits if_splits prod.splits)
    with False show ?thesis by simp
  next
    case True
    with r obtain m pa oa ob where parse: "msg = Some m" "blobmsg_parse E evr_policy m = [Some pa, Some oa]"
      and ob: "objects d (blob_get_u32 E oa) = Some ob" "obj_client ob = Some cl"
      and sys: "\<not> blob_get_u32 E oa < UBUS_SYSTEM_OBJECT_MAX"
      and ne: "blob_str E pa \<noteq> []"
      and acl: "ubusd_acl_check d (client_of d (Some cl))
        (Some (if last (blob_str E pa) = CHR ''*'' then butlast (blob_str E pa) else blob_str E pa))
        None UBUS_ACL_LISTEN = 0"
      by (auto simp: ubusd_alloc_event_pattern_def Let_def ubusd_find_object_def ubus_find_id_def
          split: option.splits list.splits if_splits)
    let ?oid = "blob_get_u32 E oa" and ?p = "last (blob_str E pa) = CHR ''*''"
    let ?key = "if ?p then butlast (blob_str E pa) else blob_str E pa"
    obtain x d1 where c: "calloc_node E d = (x, d1)" by fastforce
    show ?thesis
    proof (cases x)
      case None
      with r parse ob sys ne acl c have "ret = UBUS_STATUS_NO_MEMORY" "d' = d1"
        by (simp_all add: ubusd_alloc_event_pattern_def Let_def ubusd_find_object_def ubus_find_id_def)
      with calloc_node_None [OF c [unfolded None]] show ?thesis by simp
    next
      case (Some a)
      note n = calloc_node_Some [OF c [unfolded Some]]
      let ?d2 = "upd_obj ?oid (\<lambda>ob. ob\<lparr>obj_events := a # obj_events ob\<rparr>) d1"
      have ob1: "objects d1 ?oid = Some ob" using ob n(3) by simp
      have d': "ret = UBUS_STATUS_OK" "d' = ?d2\<lparr>patterns := avl_link E ?key
          \<lparr>ev_addr = a, ev_obj = ?oid, ev_partial = ?p\<rparr> (patterns ?d2)\<rparr>"
        using r parse ob sys ne acl c Some
        by (simp_all add: ubusd_alloc_event_pattern_def Let_def ubusd_find_object_def ubus_find_id_def)
      have p: "patterns ?d2 = patterns d" using ob1 n(4) by (simp add: upd_obj_def)
      have "reg d' = (reg ?d2)\<lparr>r_patterns := avl_link E ?key
          \<lparr>ev_addr = a, ev_obj = ?oid, ev_partial = ?p\<rparr> (patterns d)\<rparr>"
        by (simp only: d' reg_upd p)
      also have "reg ?d2 = (reg d1)\<lparr>r_events := (r_events (reg d1))(?oid := a # r_events (reg d1) ?oid)\<rparr>"
        by (rule reg_upd_obj(3) [OF ob1])
      finally have "reg d' = r_add_pattern E ?oid ?p ?key (reg d)"
        by (simp add: r_add_pattern_def Let_def n(1,2))
      moreover have "owner d ?oid = Some cl" "UBUS_SYSTEM_OBJECT_MAX \<le> ?oid"
        using ob sys by (simp_all add: owner_def obj_field_def)
      moreover have "net_wf H (net d')" if "net_wf H (net d)"
        using n(6) [OF that] ob1 by (simp add: d' upd_obj_def)
      ultimately show ?thesis
        using d'(1) acl by blast
    qed
  qed
  then show "net_wf H (net d) \<Longrightarrow> net_wf H (net d')"
    and "ret \<noteq> UBUS_STATUS_OK \<and> reg d' = reg d \<or>
      ret = UBUS_STATUS_OK \<and>
      (\<exists>oid partial key. reg d' = r_add_pattern E oid partial key (reg d) \<and> owner d oid = Some cl \<and>
         UBUS_SYSTEM_OBJECT_MAX \<le> oid \<and>
         ubusd_acl_check d (client_of d (Some cl)) (Some key) None UBUS_ACL_LISTEN = 0)"
    by blast+
qed

text \<open>When an object goes, exactly its patterns go.\<close>

lemma find_SomeD: "find P xs = Some x \<Longrightarrow> x \<in> set xs \<and> P x"
  by (induction xs) (auto split: if_splits)

lemma find_event_source_Some:
  assumes "events_ok (reg d)" and "a \<in> set (r_events (reg d) oid)"
  obtains k ev where "find_event_source a d = Some ev" and "(k, ev) \<in> set (patterns d)"
    and "ev_addr ev = a" and "ev_obj ev = oid"
proof -
  obtain k ev where ev: "(k, ev) \<in> set (patterns d)" "ev_addr ev = a" "ev_obj ev = oid"
    using events_okD(3) [OF assms] by auto
  have inj: "inj_on (ev_addr \<circ> snd) (set (patterns d))"
    using events_okD(6) [OF assms(1)] by (simp add: distinct_map)
  obtain ev' where f: "find_event_source a d = Some ev'"
    using ev by (cases "find_event_source a d") (auto simp: find_event_source_def find_None_iff)
  then obtain k' where ev': "(k', ev') \<in> set (patterns d)" "ev_addr ev' = a"
    using find_SomeD [of "\<lambda>ev. ev_addr ev = a" "map snd (patterns d)" ev']
    by (auto simp: find_event_source_def)
  have "(k', ev') = (k, ev)"
    using inj_onD [OF inj, of "(k', ev')" "(k, ev)"] ev ev' by simp
  with f ev that show ?thesis by simp
qed

definition r_del_pattern :: "addr \<Rightarrow> u32 \<Rightarrow> registry \<Rightarrow> registry" where
  "r_del_pattern a oid r =
     r\<lparr>r_events := (r_events r)(oid := remove1 a (r_events r oid)),
       r_patterns := filter (\<lambda>(_, ev). ev_addr ev \<noteq> a) (r_patterns r)\<rparr>"

lemma r_del_pattern_ok:
  assumes ok: "events_ok r" and a: "a \<in> set (r_events r oid)"
  shows "events_ok (r_del_pattern a oid r)"
    and "r_clear_patterns oid (r_del_pattern a oid r) = r_clear_patterns oid r"
proof -
  note e = events_okD [OF ok]
  have uniq: "oid' = oid" if "a \<in> set (r_events r oid')" for oid'
    using e(3) [OF a] e(3) [OF that] e(6) unfolding distinct_map inj_on_def by force
  have objs: "ev_obj ev = oid" if "(k, ev) \<in> set (r_patterns r)" "ev_addr ev = a" for k ev
    using uniq e(1) [OF that(1)] that(2) by simp
  then have "filter (\<lambda>(_, ev). ev_obj ev \<noteq> oid) (filter (\<lambda>(_, ev). ev_addr ev \<noteq> a) (r_patterns r)) =
      filter (\<lambda>(_, ev). ev_obj ev \<noteq> oid) (r_patterns r)"
    unfolding filter_filter by (intro filter_cong) auto
  then show "r_clear_patterns oid (r_del_pattern a oid r) = r_clear_patterns oid r"
    by (simp add: r_clear_patterns_def r_del_pattern_def del: filter_filter)
  have "sorted (map fst (filter P (r_patterns r)))" "distinct (map (ev_addr \<circ> snd) (filter P (r_patterns r)))" for P
    using e(5,6) by (simp_all add: sorted_filter distinct_map_filter)
  then show "events_ok (r_del_pattern a oid r)"
    by (intro events_okI)
      (use e(1,2,4) uniq in \<open>auto simp: r_del_pattern_def dest!: e(3) split: if_splits\<close>, metis objs)
qed

lemma event_cleanup_loop_reg:
  assumes "events_ok (reg d)" and "r_events (reg d) oid = as"
  shows "reg (event_cleanup_loop as d) = r_clear_patterns oid (reg d)"
    and "net (event_cleanup_loop as d) = net d"
proof -
  have "reg (event_cleanup_loop as d) = r_clear_patterns oid (reg d) \<and>
      net (event_cleanup_loop as d) = net d"
    using assms
  proof (induction as arbitrary: d)
    case Nil
    have "filter (\<lambda>(_, ev). ev_obj ev \<noteq> oid) (patterns d) = patterns d"
      using events_okD(1) [OF Nil.prems(1)] Nil.prems(2) by (fastforce simp: filter_id_conv)
    moreover have "(r_events (reg d))(oid := []) = r_events (reg d)"
      using Nil.prems(2) by (simp add: fun_eq_iff)
    ultimately show ?case
      by (simp add: r_clear_patterns_def reg_def)
  next
    case (Cons a as)
    have a: "a \<in> set (r_events (reg d) oid)" using Cons.prems(2) by simp
    obtain k ev where f: "find_event_source a d = Some ev" and ev: "ev_addr ev = a" "ev_obj ev = oid"
      by (rule find_event_source_Some [OF Cons.prems(1) a])
    obtain ob where ob: "objects d oid = Some ob"
      using a by (cases "objects d oid") (auto simp: obj_field_def)
    let ?d1 = "ubusd_delete_event_source ev d"
    have r1: "reg ?d1 = r_del_pattern a oid (reg d)"
      using reg_upd_obj(3) [OF ob, of "remove1 a"] ev ob
      by (simp add: ubusd_delete_event_source_def Let_def r_del_pattern_def upd_obj_def)
    have n1: "net ?d1 = net d"
      using ob ev by (simp add: ubusd_delete_event_source_def upd_obj_def)
    have "r_events (reg ?d1) oid = as"
      unfolding r1 using Cons.prems(2) by (simp add: r_del_pattern_def)
    with Cons.IH [of ?d1] r_del_pattern_ok [OF Cons.prems(1) a] f r1 n1 show ?case
      by simp
  qed
  then show "reg (event_cleanup_loop as d) = r_clear_patterns oid (reg d)"
    and "net (event_cleanup_loop as d) = net d" by simp_all
qed

lemma event_cleanup_object_reg:
  assumes "events_ok (reg d)" and "objects d oid = Some ob"
  shows "reg (ubusd_event_cleanup_object oid d) = r_clear_patterns oid (reg d)"
    and "net (ubusd_event_cleanup_object oid d) = net d"
  using event_cleanup_loop_reg [OF assms(1), of oid "obj_events ob"] assms(2)
  by (simp_all add: ubusd_event_cleanup_object_def obj_field_def)

end
