(* ===== verification/Ubusd_Reply.thy ===== *)
theory Ubusd_Reply
  imports Ubusd_Event
begin

text \<open>
  How the handlers build and send messages (the helpers at the top of src/ubusd_proto.c).
  \<open>attrs\<close> is the content of the shared blob buffer \<open>b\<close> at the time of the call.
\<close>

definition ubus_msg_init :: "ubus_msg_type \<Rightarrow> u16 \<Rightarrow> u32 \<Rightarrow> ubus_msg_buf \<Rightarrow> ubus_msg_buf" where
  "ubus_msg_init ty seq peer b =
     b\<lparr>ub_hdr := \<lparr>hdr_version = 0, hdr_type = ubus_msg_code ty, hdr_seq = seq, hdr_peer = peer\<rparr>\<rparr>"

definition ubus_msg_close_fd :: "addr \<Rightarrow> net \<Rightarrow> net" where
  "ubus_msg_close_fd ub n =
     (case bufs n ub of
        None \<Rightarrow> set_fault n
      | Some b \<Rightarrow> if ub_fd b < 0 then n else upd_buf ub (\<lambda>b. b\<lparr>ub_fd := - 1\<rparr>) (close_fd (ub_fd b) n))"

definition ubus_msg_from_blob ::
  "env \<Rightarrow> (nat \<times> blob_attr) list \<Rightarrow> bool \<Rightarrow> net \<Rightarrow> addr option \<times> net" where
  "ubus_msg_from_blob E attrs shared n =
     ubus_msg_new E (Built attrs) (blob_raw_len E (Built attrs)) shared n"

definition ubus_reply_from_blob ::
  "env \<Rightarrow> addr \<Rightarrow> (nat \<times> blob_attr) list \<Rightarrow> bool \<Rightarrow> net \<Rightarrow> addr option \<times> net" where
  "ubus_reply_from_blob E ub attrs shared n =
     (case ubus_msg_from_blob E attrs shared n of
        (None, n) \<Rightarrow> (None, n)
      | (Some new, n) \<Rightarrow>
          (case bufs n ub of
             None \<Rightarrow> (Some new, set_fault n)
           | Some b \<Rightarrow>
               (Some new, upd_buf new
                  (ubus_msg_init UBUS_MSG_DATA (hdr_seq (ub_hdr b)) (hdr_peer (ub_hdr b))) n)))"

definition ubus_proto_send_msg_from_blob ::
  "env \<Rightarrow> u32 \<Rightarrow> addr \<Rightarrow> (nat \<times> blob_attr) list \<Rightarrow> ubus_msg_type \<Rightarrow> net \<Rightarrow> net" where
  "ubus_proto_send_msg_from_blob E cl ub attrs ty n =
     (case bufs n ub of
        None \<Rightarrow> set_fault n
      | Some b \<Rightarrow>
          let fd = ub_fd b in
          (case ubus_reply_from_blob E ub attrs True n of
             (None, n) \<Rightarrow> if 0 \<le> fd then close_fd fd n else n
           | (Some new, n) \<Rightarrow>
               let n = upd_buf new (\<lambda>b. b\<lparr>ub_hdr := (ub_hdr b)\<lparr>hdr_type := ubus_msg_code ty\<rparr>,
                                          ub_fd := fd\<rparr>) n
               in ubus_msg_free new (ubus_msg_send E cl new n)))"

text \<open>A message built by the daemon, sent and dropped: the common shape of the greeting and of
  the subscription notices.\<close>

definition send_new ::
  "env \<Rightarrow> u32 \<Rightarrow> (nat \<times> blob_attr) list \<Rightarrow> bool \<Rightarrow> ubus_msg_type \<Rightarrow> u16 \<Rightarrow> u32 \<Rightarrow> net \<Rightarrow> bool \<times> net" where
  "send_new E cl attrs shared ty seq peer n =
     (case ubus_msg_from_blob E attrs shared n of
        (None, n) \<Rightarrow> (False, n)
      | (Some ub, n) \<Rightarrow>
          (True, ubus_msg_free ub (ubus_msg_send E cl ub (upd_buf ub (ubus_msg_init ty seq peer) n))))"

section \<open>Facts\<close>

lemma core_from_blob: "ubus_msg_from_blob E attrs s n = (r, n') \<Longrightarrow> core n' = core n"
  unfolding ubus_msg_from_blob_def by (rule core_msg_new)

lemma core_reply_from_blob: "ubus_reply_from_blob E ub attrs s n = (r, n') \<Longrightarrow> core n' = core n"
  by (auto simp: ubus_reply_from_blob_def dest!: core_from_blob split: option.splits prod.splits)

lemma core_close [simp]: "core (ubus_msg_close_fd ub n) = core n"
  by (simp add: ubus_msg_close_fd_def split: option.splits)

lemma core_send_msg_from_blob [simp]:
  "core (ubus_proto_send_msg_from_blob E cl ub attrs ty n) = core n"
  by (auto simp: ubus_proto_send_msg_from_blob_def Let_def dest!: core_reply_from_blob
      split: option.splits prod.splits)

lemma core_send_new: "send_new E cl attrs s ty seq peer n = (r, n') \<Longrightarrow> core n' = core n"
  by (auto simp: send_new_def dest!: core_from_blob split: option.splits prod.splits)

lemma net_wf_close_fd [simp]: "net_wf H (close_fd fd n) = net_wf H n"
  by (auto simp: close_fd_def elim!: net_wf_cong)

lemma net_wf_msg_close_fd:
  assumes "net_wf H n" and "bufs n ub = Some b"
  shows "net_wf H (ubus_msg_close_fd ub n)"
proof -
  have "net_wf H (upd_buf ub (\<lambda>b. b\<lparr>ub_fd := - 1\<rparr>) (close_fd (ub_fd b) n))"
    by (rule net_wf_upd_buf) (use assms in \<open>auto simp: close_fd_def elim!: net_wf_cong\<close>)
  with assms show ?thesis by (simp add: ubus_msg_close_fd_def)
qed

text \<open>A fresh message is filled in, sent and dropped: the reference counts are as before, no older
  buffer is touched, and one message is handed over.\<close>

lemma new_send_free:
  assumes wf: "net_wf H n" and c: "clients n cl = Some c"
    and new: "ubus_msg_from_blob E attrs s n = (Some ub, n1)"
    and f: "\<And>b. ub_refcount (f b) = ub_refcount b"
  defines "n2 \<equiv> upd_buf ub f n1"
  shows "net_wf H (ubus_msg_free ub (ubus_msg_send E cl ub n2))"
    and "a < next_addr n \<Longrightarrow> bufs (ubus_msg_free ub (ubus_msg_send E cl ub n2)) a = bufs n a"
    and "\<exists>b. bufs n2 ub = Some b \<and>
      b = f \<lparr>ub_refcount = (if s then USES_EXTERNAL_BUFFER else 1), ub_hdr = zero_hdr,
             ub_data = Built attrs, ub_fd = - 1, ub_len = blob_raw_len E (Built attrs)\<rparr> \<and>
      sent (ubus_msg_free ub (ubus_msg_send E cl ub n2)) = sent n @ [(cl, ub_hdr b, ub_data b, ub_fd b)]"
proof -
  note new' = new [unfolded ubus_msg_from_blob_def]
  note w = net_wf_msg_new [OF wf new'] and n1 = ubus_msg_new_Some [OF new']
  let ?b = "\<lparr>ub_refcount = (if s then USES_EXTERNAL_BUFFER else 1), ub_hdr = zero_hdr,
             ub_data = Built attrs, ub_fd = - 1, ub_len = blob_raw_len E (Built attrs)\<rparr>"
  have b1: "bufs n1 ub = Some ?b" by (simp add: n1)
  have wf2: "net_wf (H(ub := 1)) n2" unfolding n2_def by (rule net_wf_upd_buf [OF w(1) b1]) (rule f)
  have b2: "bufs n2 ub = Some (f ?b)" and o2: "\<And>a. a \<noteq> ub \<Longrightarrow> bufs n2 a = bufs n a"
    and nx: "next_addr n2 = Suc (next_addr n)"
    by (simp_all add: n2_def upd_buf_def n1)
  have c2: "clients n2 cl = Some c" using c by (simp add: n2_def upd_buf_def n1)
  have s2: "sendable n2 ub" using b2 f [of ?b] by (auto simp: sendable_def)
  show "net_wf H (ubus_msg_free ub (ubus_msg_send E cl ub n2))"
    by (rule net_wf_send_free [OF wf2 w(2) c2 s2])
  have fr: "bufs_frame ub n2 (ubus_msg_send E cl ub n2)" by (rule net_wf_send(2) [OF wf2 c2 s2])
  show "bufs (ubus_msg_free ub (ubus_msg_send E cl ub n2)) a = bufs n a" if "a < next_addr n"
    using bufs_frame_other [OF fr, of a] o2 [of a] that n1(1) nx by (simp add: bufs_frame_free)
  have "sent n2 = sent n" by (simp add: n2_def n1)
  with b2 sent_send [OF c2 b2, of E]
  show "\<exists>b. bufs n2 ub = Some b \<and> b = f ?b \<and>
      sent (ubus_msg_free ub (ubus_msg_send E cl ub n2)) = sent n @ [(cl, ub_hdr b, ub_data b, ub_fd b)]"
    by simp
qed

lemma from_blob_None:
  assumes "ubus_msg_from_blob E attrs s n = (None, n')"
  shows "net_wf H n \<Longrightarrow> net_wf H n'" and "bufs n' = bufs n" and "sent n' = sent n"
  using assms net_wf_msg_new_None [of H n] sent_msg_new
  by (auto simp: ubus_msg_from_blob_def) (auto simp: ubus_msg_new_def calloc_def Let_def split: if_splits)

lemma send_new_ok:
  assumes wf: "net_wf H n" and c: "clients n cl = Some c"
    and r: "send_new E cl attrs s ty seq peer n = (ok, n')"
  shows "net_wf H n'" and "a < next_addr n \<Longrightarrow> bufs n' a = bufs n a"
    and "sent n' = sent n @ (if ok then
      [(cl, \<lparr>hdr_version = 0, hdr_type = ubus_msg_code ty, hdr_seq = seq, hdr_peer = peer\<rparr>,
        Built attrs, - 1)] else [])"
proof -
  obtain x n1 where x: "ubus_msg_from_blob E attrs s n = (x, n1)" by fastforce
  have "net_wf H n' \<and> (\<forall>a < next_addr n. bufs n' a = bufs n a) \<and> sent n' = sent n @ (if ok then
      [(cl, \<lparr>hdr_version = 0, hdr_type = ubus_msg_code ty, hdr_seq = seq, hdr_peer = peer\<rparr>,
        Built attrs, - 1)] else [])"
  proof (cases x)
    case None
    with r x from_blob_None [OF x [unfolded None]] wf show ?thesis
      by (simp add: send_new_def)
  next
    case (Some ub)
    note k = new_send_free [OF wf c x [unfolded Some], of "ubus_msg_init ty seq peer"]
    with r x Some show ?thesis
      by (auto simp: send_new_def ubus_msg_init_def)
  qed
  then show "net_wf H n'" and "a < next_addr n \<Longrightarrow> bufs n' a = bufs n a"
    and "sent n' = sent n @ (if ok then
      [(cl, \<lparr>hdr_version = 0, hdr_type = ubus_msg_code ty, hdr_seq = seq, hdr_peer = peer\<rparr>,
        Built attrs, - 1)] else [])"
    by simp_all
qed

text \<open>A reply carries the sequence number, the peer and the descriptor of the request. If it cannot
  be built, the descriptor is closed.\<close>

lemma send_msg_from_blob_ok:
  fixes E :: env and ty :: ubus_msg_type and attrs :: "(nat \<times> blob_attr) list"
  assumes wf: "net_wf H n" and c: "clients n cl = Some c" and b: "bufs n ub = Some b"
  defines "n' \<equiv> ubus_proto_send_msg_from_blob E cl ub attrs ty n"
  shows "net_wf H n'" and "a < next_addr n \<Longrightarrow> bufs n' a = bufs n a"
    and "if calloc_ok E (n_calloc n)
      then sent n' = sent n @
        [(cl, \<lparr>hdr_version = 0, hdr_type = ubus_msg_code ty, hdr_seq = hdr_seq (ub_hdr b),
               hdr_peer = hdr_peer (ub_hdr b)\<rparr>, Built attrs, ub_fd b)]
      else sent n' = sent n \<and>
        closed_fds n' = closed_fds n @ (if 0 \<le> ub_fd b then [ub_fd b] else [])"
proof -
  obtain x n1 where x: "ubus_msg_from_blob E attrs True n = (x, n1)" by fastforce
  have "net_wf H n' \<and> (\<forall>a < next_addr n. bufs n' a = bufs n a) \<and> (if calloc_ok E (n_calloc n)
      then sent n' = sent n @
        [(cl, \<lparr>hdr_version = 0, hdr_type = ubus_msg_code ty, hdr_seq = hdr_seq (ub_hdr b),
               hdr_peer = hdr_peer (ub_hdr b)\<rparr>, Built attrs, ub_fd b)]
      else sent n' = sent n \<and>
        closed_fds n' = closed_fds n @ (if 0 \<le> ub_fd b then [ub_fd b] else []))"
  proof (cases x)
    case None
    have "\<not> calloc_ok E (n_calloc n)" "closed_fds n1 = closed_fds n"
      using x None
      by (auto simp: ubus_msg_from_blob_def ubus_msg_new_def calloc_def Let_def split: if_splits)
    moreover have "n' = (if 0 \<le> ub_fd b then close_fd (ub_fd b) n1 else n1)"
      using x None b
      by (simp add: n'_def ubus_proto_send_msg_from_blob_def ubus_reply_from_blob_def Let_def)
    moreover have "sent (close_fd fd n1) = sent n1" "bufs (close_fd fd n1) = bufs n1"
      "closed_fds (close_fd fd n1) = closed_fds n1 @ [fd]" for fd
      by (simp_all add: close_fd_def)
    ultimately show ?thesis
      using from_blob_None [OF x [unfolded None]] wf by simp
  next
    case (Some new)
    note x = x [unfolded Some]
    let ?f = "\<lambda>b'. (ubus_msg_init UBUS_MSG_DATA (hdr_seq (ub_hdr b)) (hdr_peer (ub_hdr b)) b')
        \<lparr>ub_hdr := (ub_hdr (ubus_msg_init UBUS_MSG_DATA (hdr_seq (ub_hdr b)) (hdr_peer (ub_hdr b)) b'))
           \<lparr>hdr_type := ubus_msg_code ty\<rparr>, ub_fd := ub_fd b\<rparr>"
    have ok: "calloc_ok E (n_calloc n)" and nw: "new = next_addr n"
      and b1: "bufs n1 = (bufs n)(new \<mapsto> \<lparr>ub_refcount = USES_EXTERNAL_BUFFER, ub_hdr = zero_hdr,
        ub_data = Built attrs, ub_fd = - 1, ub_len = blob_raw_len E (Built attrs)\<rparr>)"
      using x by (auto simp: ubus_msg_from_blob_def ubus_msg_new_def calloc_def Let_def split: if_splits)
    have "ub \<noteq> new" using nw net_wf_ub_less [OF wf b] by simp
    then have "n' = ubus_msg_free new (ubus_msg_send E cl new (upd_buf new ?f n1))"
      using x b b1
      by (simp add: n'_def ubus_proto_send_msg_from_blob_def ubus_reply_from_blob_def Let_def upd_buf_def)
    with new_send_free [OF wf c x, of ?f] ok show ?thesis
      by (auto simp: ubus_msg_init_def)
  qed
  then show "net_wf H n'" and "a < next_addr n \<Longrightarrow> bufs n' a = bufs n a"
    and "if calloc_ok E (n_calloc n)
      then sent n' = sent n @
        [(cl, \<lparr>hdr_version = 0, hdr_type = ubus_msg_code ty, hdr_seq = hdr_seq (ub_hdr b),
               hdr_peer = hdr_peer (ub_hdr b)\<rparr>, Built attrs, ub_fd b)]
      else sent n' = sent n \<and>
        closed_fds n' = closed_fds n @ (if 0 \<le> ub_fd b then [ub_fd b] else [])"
    by blast+
qed

end
