(* ===== verification/Ubusd_Obj.thy ===== *)
theory Ubusd_Obj
  imports Ubusd_Reply
begin

text \<open>
  Objects, object types and subscriptions (src/ubusd_obj.c), with the two notices of
  src/ubusd_proto.c that they send: \<open>ubus_notify_subscription\<close> tells an object whether it has
  subscribers, \<open>ubus_notify_unsubscribe\<close> tells a subscriber that its target is gone.

  The lemmas show that each operation does to the registry exactly what the operation of
  theory \<open>Ubusd_Reg_Ops\<close> says, and follows no invalid pointer on the way.
\<close>

section \<open>Subscriptions\<close>

definition ubus_notify_subscription :: "env \<Rightarrow> u32 \<Rightarrow> daemon \<Rightarrow> daemon" where
  "ubus_notify_subscription E oid d =
     (case objects d oid of
        None \<Rightarrow> dfault d
      | Some ob \<Rightarrow>
          let active = (obj_subscribers ob \<noteq> []);
              attrs = [(ubus_attr_code UBUS_ATTR_OBJID, Blob_int32 oid),
                       (ubus_attr_code UBUS_ATTR_ACTIVE, Blob_int8 (if active then 1 else 0))];
              seq = obj_invoke_seq ob + 1 in
          (case obj_client ob of
             None \<Rightarrow> dfault d
           | Some c \<Rightarrow>
               (case send_new E c attrs False UBUS_MSG_NOTIFY seq 0 (net d) of
                  (False, n) \<Rightarrow> d\<lparr>net := n\<rparr>
                | (True, n) \<Rightarrow> upd_obj oid (\<lambda>ob. ob\<lparr>obj_invoke_seq := seq\<rparr>) (d\<lparr>net := n\<rparr>))))"

definition ubus_unsubscribe :: "env \<Rightarrow> addr \<Rightarrow> daemon \<Rightarrow> daemon" where
  "ubus_unsubscribe E a d =
     (case subs d a of
        None \<Rightarrow> dfault d
      | Some s \<Rightarrow>
          let d = upd_obj (sub_target s)
                    (\<lambda>ob. ob\<lparr>obj_subscribers := remove1 a (obj_subscribers ob)\<rparr>) d;
              d = upd_obj (sub_subscriber s)
                    (\<lambda>ob. ob\<lparr>obj_target_list := remove1 a (obj_target_list ob)\<rparr>) d;
              d = d\<lparr>subs := (subs d)(a := None)\<rparr>
          in (case objects d (sub_target s) of
                None \<Rightarrow> dfault d
              | Some ob \<Rightarrow>
                  if obj_subscribers ob = [] then ubus_notify_subscription E (sub_target s) d else d))"

definition ubus_notify_unsubscribe :: "env \<Rightarrow> addr \<Rightarrow> daemon \<Rightarrow> daemon" where
  "ubus_notify_unsubscribe E a d =
     (case subs d a of
        None \<Rightarrow> dfault d
      | Some s \<Rightarrow>
          (case objects d (sub_subscriber s) of
             None \<Rightarrow> dfault d
           | Some ob \<Rightarrow>
               let attrs = [(ubus_attr_code UBUS_ATTR_OBJID, Blob_int32 (sub_subscriber s)),
                            (ubus_attr_code UBUS_ATTR_TARGET, Blob_int32 (sub_target s))];
                   seq = obj_invoke_seq ob + 1 in
               (case obj_client ob of
                  None \<Rightarrow> dfault d
                | Some c \<Rightarrow>
                    (case send_new E c attrs False UBUS_MSG_UNSUBSCRIBE seq 0 (net d) of
                       (False, n) \<Rightarrow> ubus_unsubscribe E a (d\<lparr>net := n\<rparr>)
                     | (True, n) \<Rightarrow>
                         ubus_unsubscribe E a
                           (upd_obj (sub_subscriber s) (\<lambda>ob. ob\<lparr>obj_invoke_seq := seq\<rparr>) (d\<lparr>net := n\<rparr>))))))"

definition ubus_subscribe :: "env \<Rightarrow> u32 \<Rightarrow> u32 \<Rightarrow> daemon \<Rightarrow> ubus_msg_status \<times> daemon" where
  "ubus_subscribe E oid target d =
     (case objects d target of
        None \<Rightarrow> (UBUS_STATUS_NO_MEMORY, dfault d)
      | Some tob \<Rightarrow>
          let first = (obj_subscribers tob = []) in
          (case calloc_node E d of
             (None, d) \<Rightarrow> (UBUS_STATUS_NO_MEMORY, d)
           | (Some a, d) \<Rightarrow>
               let d = d\<lparr>subs := (subs d)(a \<mapsto> \<lparr>sub_subscriber = oid, sub_target = target\<rparr>)\<rparr>;
                   d = upd_obj target (\<lambda>ob. ob\<lparr>obj_subscribers := a # obj_subscribers ob\<rparr>) d;
                   d = upd_obj oid (\<lambda>ob. ob\<lparr>obj_target_list := a # obj_target_list ob\<rparr>) d
               in (UBUS_STATUS_OK, if first then ubus_notify_subscription E target d else d)))"

section \<open>Object types\<close>

definition ubus_unref_object_type :: "u32 \<Rightarrow> daemon \<Rightarrow> daemon" where
  "ubus_unref_object_type tid d =
     (case obj_types d tid of
        None \<Rightarrow> dfault d
      | Some t \<Rightarrow>
          let rc = ty_refcount t - 1 in
          if 0 < rc then d\<lparr>obj_types := (obj_types d)(tid \<mapsto> t\<lparr>ty_refcount := rc\<rparr>)\<rparr>
          else d\<lparr>obj_types := ubus_free_id (obj_types d) tid\<rparr>)"

definition ubus_create_obj_method :: "env \<Rightarrow> u32 \<Rightarrow> string \<times> blob_attr \<Rightarrow> daemon \<Rightarrow> bool \<times> daemon" where
  "ubus_create_obj_method E tid attr d =
     (case calloc E (net d) of
        (False, n) \<Rightarrow> (False, d\<lparr>net := n\<rparr>)
      | (True, n) \<Rightarrow> (True, upd_type tid (\<lambda>t. t\<lparr>ty_methods := ty_methods t @ [attr]\<rparr>) (d\<lparr>net := n\<rparr>)))"

fun obj_type_methods :: "env \<Rightarrow> u32 \<Rightarrow> (string \<times> blob_attr) list \<Rightarrow> daemon \<Rightarrow> bool \<times> daemon" where
  "obj_type_methods E tid [] d = (True, d)"
| "obj_type_methods E tid (pos # rest) d =
     (if \<not> blobmsg_check_attr E pos then (False, d)
      else
        (case ubus_create_obj_method E tid pos d of
           (False, d) \<Rightarrow> (False, d)
         | (True, d) \<Rightarrow> obj_type_methods E tid rest d))"

definition ubus_create_obj_type :: "env \<Rightarrow> blob_attr \<Rightarrow> daemon \<Rightarrow> u32 option \<times> daemon" where
  "ubus_create_obj_type E sig d =
     (case calloc E (net d) of
        (False, n) \<Rightarrow> (None, d\<lparr>net := n\<rparr>)
      | (True, n) \<Rightarrow>
          (case ubus_alloc_id (obj_types d) 0 n of
             (None, n) \<Rightarrow> (None, d\<lparr>net := n\<rparr>)
           | (Some tid, n) \<Rightarrow>
               let d = d\<lparr>net := n, obj_types := (obj_types d)(tid \<mapsto> \<lparr>ty_refcount = 1, ty_methods = []\<rparr>)\<rparr>
               in (case obj_type_methods E tid (table_fields (Some sig)) d of
                     (True, d) \<Rightarrow> (Some tid, d)
                   | (False, d) \<Rightarrow> (None, ubus_unref_object_type tid d))))"

definition ubus_get_obj_type :: "u32 \<Rightarrow> daemon \<Rightarrow> u32 option \<times> daemon" where
  "ubus_get_obj_type tid d =
     (case ubus_find_id (obj_types d) tid of
        None \<Rightarrow> (None, d)
      | Some t \<Rightarrow> (Some tid, upd_type tid (\<lambda>t. t\<lparr>ty_refcount := ty_refcount t + 1\<rparr>) d))"

section \<open>Objects\<close>

definition new_object :: "u32 option \<Rightarrow> ubus_object" where
  "new_object ty =
     \<lparr>obj_type = ty, obj_path = None, obj_client = None, obj_recv_msg = None, obj_events = [],
      obj_subscribers = [], obj_target_list = [], obj_event_seen = 0, obj_invoke_seq = 0\<rparr>"

definition ubusd_create_object_internal ::
  "env \<Rightarrow> u32 option \<Rightarrow> u32 \<Rightarrow> daemon \<Rightarrow> u32 option \<times> daemon" where
  "ubusd_create_object_internal E ty val d =
     (case calloc E (net d) of
        (False, n) \<Rightarrow> (None, d\<lparr>net := n\<rparr>)
      | (True, n) \<Rightarrow>
          (case ubus_alloc_id (objects d) val n of
             (None, n) \<Rightarrow> (None, d\<lparr>net := n\<rparr>)
           | (Some oid, n) \<Rightarrow>
               let d = d\<lparr>net := n, objects := (objects d)(oid \<mapsto> new_object ty)\<rparr>
               in (Some oid,
                   case ty of
                     None \<Rightarrow> d
                   | Some tid \<Rightarrow> upd_type tid (\<lambda>t. t\<lparr>ty_refcount := ty_refcount t + 1\<rparr>) d)))"

text \<open>The parts of \<open>ubusd_free_object\<close> after the event patterns: the path, the list of the client
  and the id. \<open>obj->list\<close> is linked into the list of a client exactly when \<open>obj->client\<close> is set.\<close>

definition obj_unpublish :: "env \<Rightarrow> u32 \<Rightarrow> ubus_object \<Rightarrow> daemon \<Rightarrow> daemon" where
  "obj_unpublish E oid ob d =
     (case obj_path ob of
        None \<Rightarrow> d
      | Some _ \<Rightarrow>
          let d = ubusd_send_obj_event E oid False d
          in d\<lparr>path := filter (\<lambda>(_, i). i \<noteq> oid) (path d)\<rparr>)"

definition obj_unlist :: "u32 \<Rightarrow> ubus_object \<Rightarrow> daemon \<Rightarrow> daemon" where
  "obj_unlist oid ob d =
     (case obj_client ob of
        None \<Rightarrow> d
      | Some c \<Rightarrow> on_net (upd_client c (\<lambda>cl. cl\<lparr>cl_objects := remove1 oid (cl_objects cl)\<rparr>)) d)"

definition ubusd_free_object :: "env \<Rightarrow> u32 \<Rightarrow> daemon \<Rightarrow> daemon" where
  "ubusd_free_object E oid d =
     (let d = fold (ubus_unsubscribe E) (obj_field [] obj_target_list d oid) d;
          d = fold (ubus_notify_unsubscribe E) (obj_field [] obj_subscribers d oid) d;
          d = ubusd_event_cleanup_object oid d
      in (case objects d oid of
            None \<Rightarrow> dfault d
          | Some ob \<Rightarrow>
              let d = obj_unlist oid ob (obj_unpublish E oid ob d);
                  d = d\<lparr>objects := ubus_free_id (objects d) oid\<rparr>
              in (case obj_type ob of None \<Rightarrow> d | Some tid \<Rightarrow> ubus_unref_object_type tid d)))"

text \<open>The type is chosen by its id or created from a signature; a lookup that fails leaves the
  object without one.\<close>

definition obj_type_of_attrs :: "env \<Rightarrow> attr_table \<Rightarrow> daemon \<Rightarrow> u32 option \<times> daemon" where
  "obj_type_of_attrs E attr d =
     (case attr UBUS_ATTR_OBJTYPE of
        Some a \<Rightarrow> ubus_get_obj_type (blob_get_u32 E a) d
      | None \<Rightarrow>
          (case attr UBUS_ATTR_SIGNATURE of
             Some sig \<Rightarrow> ubus_create_obj_type E sig d
           | None \<Rightarrow> (None, d)))"

definition obj_publish :: "env \<Rightarrow> u32 \<Rightarrow> u32 \<Rightarrow> string \<Rightarrow> daemon \<Rightarrow> bool \<times> daemon" where
  "obj_publish E cl oid p d =
     (if ubusd_acl_check d (client_of d (Some cl)) (Some p) None UBUS_ACL_PUBLISH \<noteq> 0 then (False, d)
      else
        (case calloc E (net d) of
           (False, n) \<Rightarrow> (False, d\<lparr>net := n\<rparr>)
         | (True, n) \<Rightarrow>
             let d = d\<lparr>net := n\<rparr> in
             if list_ex (\<lambda>(k, _). k = p) (path d) then (False, d)
             else
               let d = upd_obj oid (\<lambda>ob. ob\<lparr>obj_path := Some p\<rparr>) d;
                   d = d\<lparr>path := avl_link E p oid (path d)\<rparr>
               in (True, ubusd_send_obj_event E oid True d)))"

definition ubusd_create_object ::
  "env \<Rightarrow> u32 \<Rightarrow> attr_table \<Rightarrow> daemon \<Rightarrow> u32 option \<times> daemon" where
  "ubusd_create_object E cl attr d =
     (case obj_type_of_attrs E attr d of
        (ty, d) \<Rightarrow>
          (case ubusd_create_object_internal E ty 0 d of
             (ob, d) \<Rightarrow>
               let d = (case ty of None \<Rightarrow> d | Some tid \<Rightarrow> ubus_unref_object_type tid d) in
               (case ob of
                  None \<Rightarrow> (None, d)
                | Some oid \<Rightarrow>
                    (case (case attr UBUS_ATTR_OBJPATH of
                             None \<Rightarrow> (True, d)
                           | Some pa \<Rightarrow> obj_publish E cl oid (blob_str E pa) d) of
                       (False, d) \<Rightarrow> (None, ubusd_free_object E oid d)
                     | (True, d) \<Rightarrow>
                         let d = upd_obj oid (\<lambda>ob. ob\<lparr>obj_client := Some cl\<rparr>) d
                         in (Some oid,
                             on_net (upd_client cl (\<lambda>c. c\<lparr>cl_objects := oid # cl_objects c\<rparr>)) d)))))"

section \<open>Refinement: subscriptions\<close>

definition st_wf :: "(addr \<Rightarrow> nat) \<Rightarrow> (u32 \<Rightarrow> nat) \<Rightarrow> daemon \<Rightarrow> bool" where
  "st_wf H K d \<longleftrightarrow> net_wf H (net d) \<and> reg_wf K (reg d)"

lemma st_wfD:
  assumes "st_wf H K d"
  shows "net_wf H (net d)" "reg_wf K (reg d)"
  using assms by (simp_all add: st_wf_def)

lemma st_wf_cong: "st_wf H K d \<Longrightarrow> net_wf H (net d') \<Longrightarrow> reg d' = reg d \<Longrightarrow> st_wf H K d'"
  by (simp add: st_wf_def)

lemma net_upd_obj [simp]: "objects d oid \<noteq> None \<Longrightarrow> net (upd_obj oid f d) = net d"
  by (auto simp: upd_obj_def)

lemma objects_upd_obj [simp]:
  "objects (upd_obj oid f d) i = (if i = oid then map_option f (objects d oid) else objects d i)"
  by (auto simp: upd_obj_def dfault_def split: option.splits)

lemma fields_upd_obj [simp]:
  "subs (upd_obj oid f d) = subs d" "patterns (upd_obj oid f d) = patterns d"
  "path (upd_obj oid f d) = path d" "obj_types (upd_obj oid f d) = obj_types d"
  "next_node (upd_obj oid f d) = next_node d"
  by (auto simp: upd_obj_def dfault_def split: option.splits)

lemma notify_subscription_ok:
  assumes wf: "net_wf H (net d)" and live: "live_owner d oid"
  shows "reg (ubus_notify_subscription E oid d) = reg d"
    and "net_wf H (net (ubus_notify_subscription E oid d))"
proof -
  obtain ob c cl where ob: "objects d oid = Some ob" and c: "obj_client ob = Some c"
    and cl: "clients (net d) c = Some cl"
    using live by (auto simp: live_owner_def)
  let ?attrs = "[(ubus_attr_code UBUS_ATTR_OBJID, Blob_int32 oid),
      (ubus_attr_code UBUS_ATTR_ACTIVE, Blob_int8 (if obj_subscribers ob \<noteq> [] then 1 else 0))]"
  obtain r n where n: "send_new E c ?attrs False UBUS_MSG_NOTIFY (obj_invoke_seq ob + 1) 0 (net d) = (r, n)"
    by fastforce
  have "reg (d\<lparr>net := n\<rparr>) = reg d" using core_send_new [OF n] by (rule reg_set_net)
  with send_new_ok(1) [OF wf cl n] ob c n
  show "reg (ubus_notify_subscription E oid d) = reg d"
    and "net_wf H (net (ubus_notify_subscription E oid d))"
    by (simp_all add: ubus_notify_subscription_def Let_def split: bool.splits)
qed

lemma unsubscribe_ok:
  assumes wf: "st_wf H K d" and s: "subs d a = Some s"
  shows "reg (ubus_unsubscribe E a d) = r_unsubscribe a (reg d)"
    and "st_wf H K (ubus_unsubscribe E a d)"
proof -
  note w = st_wfD [OF wf]
  obtain tob where t: "objects d (sub_target s) = Some tob"
    using live_objects(3) [OF w(2) s] by (auto simp: live_owner_def)
  obtain sob where sb: "objects d (sub_subscriber s) = Some sob"
    using live_objects(2) [OF w(2) s] by (auto simp: live_owner_def)
  define d1 where "d1 = upd_obj (sub_target s) (\<lambda>ob. ob\<lparr>obj_subscribers := remove1 a (obj_subscribers ob)\<rparr>) d"
  define d2 where "d2 = upd_obj (sub_subscriber s) (\<lambda>ob. ob\<lparr>obj_target_list := remove1 a (obj_target_list ob)\<rparr>) d1"
  define d3 where "d3 = d2\<lparr>subs := (subs d2)(a := None)\<rparr>"
  have "objects d1 (sub_subscriber s) \<noteq> None" using sb t by (simp add: d1_def)
  then obtain sob' where sb': "objects d1 (sub_subscriber s) = Some sob'" by blast
  have sd: "subs d2 = subs d" by (simp add: d2_def d1_def)
  have r1: "reg d1 = (reg d)\<lparr>r_subscribers := (r_subscribers (reg d))(sub_target s :=
      remove1 a (r_subscribers (reg d) (sub_target s)))\<rparr>"
    unfolding d1_def by (rule reg_upd_obj(4) [OF t])
  have r2: "reg d2 = (reg d1)\<lparr>r_targets := (r_targets (reg d1))(sub_subscriber s :=
      remove1 a (r_targets (reg d1) (sub_subscriber s)))\<rparr>"
    unfolding d2_def by (rule reg_upd_obj(5) [OF sb'])
  have r3: "reg d3 = r_unsubscribe a (reg d)"
    unfolding d3_def reg_upd r2 r1 by (simp add: r_unsubscribe_def s sd)
  have wf3: "reg_wf K (reg d3)" unfolding r3 by (rule r_unsubscribe_wf [OF w(2)])
  have n3: "net d3 = net d" using t sb by (simp add: d3_def d2_def d1_def)
  have "owner d3 (sub_target s) = owner d (sub_target s)"
    using r3 s by (simp add: owner_def r_unsubscribe_def flip: reg_sel(6))
  then have live: "live_owner d3 (sub_target s)"
    using owner_live [OF reg_wfD(1) [OF wf3], of "sub_target s"] live_objects(3) [OF w(2) s]
    by (auto simp: live_owner_def owner_def obj_field_def)
  then obtain ob3 where o3: "objects d3 (sub_target s) = Some ob3" by (auto simp: live_owner_def)
  have eq: "ubus_unsubscribe E a d =
      (if obj_subscribers ob3 = [] then ubus_notify_subscription E (sub_target s) d3 else d3)"
    using s o3 by (simp add: ubus_unsubscribe_def Let_def d1_def d2_def d3_def)
  note ns = notify_subscription_ok [where E = E, OF _ live, of H]
  show "reg (ubus_unsubscribe E a d) = r_unsubscribe a (reg d)"
    using ns(1) n3 w(1) by (simp add: eq r3)
  then show "st_wf H K (ubus_unsubscribe E a d)"
    using ns(2) n3 w(1) wf3 r3 by (simp add: eq st_wf_def)
qed

lemma notify_unsubscribe_ok:
  assumes wf: "st_wf H K d" and s: "subs d a = Some s"
  shows "reg (ubus_notify_unsubscribe E a d) = r_unsubscribe a (reg d)"
    and "st_wf H K (ubus_notify_unsubscribe E a d)"
proof -
  note w = st_wfD [OF wf]
  obtain ob c cl where ob: "objects d (sub_subscriber s) = Some ob" and c: "obj_client ob = Some c"
    and cl: "clients (net d) c = Some cl"
    using live_objects(2) [OF w(2) s] by (auto simp: live_owner_def)
  let ?attrs = "[(ubus_attr_code UBUS_ATTR_OBJID, Blob_int32 (sub_subscriber s)),
                 (ubus_attr_code UBUS_ATTR_TARGET, Blob_int32 (sub_target s))]"
  obtain r n where n: "send_new E c ?attrs False UBUS_MSG_UNSUBSCRIBE (obj_invoke_seq ob + 1) 0 (net d) = (r, n)"
    by fastforce
  let ?d1 = "d\<lparr>net := n\<rparr>"
  let ?d2 = "upd_obj (sub_subscriber s) (\<lambda>ob'. ob'\<lparr>obj_invoke_seq := obj_invoke_seq ob + 1\<rparr>) ?d1"
  have r1: "reg ?d1 = reg d" using core_send_new [OF n] by (rule reg_set_net)
  have n1: "net_wf H n" by (rule send_new_ok(1) [OF w(1) cl n])
  have wf1: "st_wf H K ?d1" by (rule st_wf_cong [OF wf]) (simp_all add: n1 r1)
  have wf2: "st_wf H K ?d2" by (rule st_wf_cong [OF wf1]) (simp_all add: n1 ob)
  note u1 = unsubscribe_ok [OF wf1, of a s E] and u2 = unsubscribe_ok [OF wf2, of a s E]
  have eq: "ubus_notify_unsubscribe E a d = ubus_unsubscribe E a (if r then ?d2 else ?d1)"
    using s ob c n by (simp add: ubus_notify_unsubscribe_def Let_def split: bool.splits)
  show "reg (ubus_notify_unsubscribe E a d) = r_unsubscribe a (reg d)"
    and "st_wf H K (ubus_notify_unsubscribe E a d)"
    using u1 u2 s by (simp_all add: eq r1)
qed

text \<open>Dropping a set of subscriptions at once.\<close>

definition r_drop_subs :: "addr set \<Rightarrow> registry \<Rightarrow> registry" where
  "r_drop_subs S r =
     r\<lparr>r_subs := (\<lambda>a. if a \<in> S then None else r_subs r a),
       r_subscribers := (\<lambda>i. filter (\<lambda>a. a \<notin> S) (r_subscribers r i)),
       r_targets := (\<lambda>i. filter (\<lambda>a. a \<notin> S) (r_targets r i))\<rparr>"

lemma r_drop_subs_empty [simp]: "r_drop_subs {} r = r"
  by (simp add: r_drop_subs_def)

lemma r_drop_subs_twice: "r_drop_subs S (r_drop_subs T r) = r_drop_subs (S \<union> T) r"
  by (rule registry.equality) (simp_all add: r_drop_subs_def fun_eq_iff conj_commute)

lemma remove1_filter: "distinct xs \<Longrightarrow> remove1 a xs = filter (\<lambda>b. b \<noteq> a) xs"
  by (simp add: distinct_remove1_removeAll removeAll_filter_not_eq) (rule filter_cong, auto)

lemma r_unsubscribe_drop:
  assumes "subs_ok r" and "r_subs r a = Some s"
  shows "r_unsubscribe a r = r_drop_subs {a} r"
proof -
  note e = subs_okD [OF assms(1)]
  have "a \<in> set (r_subscribers r i) \<Longrightarrow> i = sub_target s" "a \<in> set (r_targets r i) \<Longrightarrow> i = sub_subscriber s" for i
    using e(7,8) assms(2) by fastforce+
  then have "(r_subscribers r)(sub_target s := remove1 a (r_subscribers r (sub_target s))) =
        (\<lambda>i. filter (\<lambda>b. b \<notin> {a}) (r_subscribers r i))"
    and "(r_targets r)(sub_subscriber s := remove1 a (r_targets r (sub_subscriber s))) =
        (\<lambda>i. filter (\<lambda>b. b \<notin> {a}) (r_targets r i))"
    using remove1_filter [OF e(5)] remove1_filter [OF e(6)]
    by (auto simp: fun_eq_iff filter_id_conv intro!: filter_id_conv [THEN iffD2, symmetric])
  moreover have "(r_subs r)(a := None) = (\<lambda>b. if b \<in> {a} then None else r_subs r b)"
    by (simp add: fun_eq_iff)
  ultimately show ?thesis
    by (simp add: r_unsubscribe_def r_drop_subs_def assms(2))
qed

text \<open>Both ways of ending a subscription keep the same promise, and a loop over a list of
  subscriptions drops all of them.\<close>

locale drops_subscription =
  fixes dropper :: "addr \<Rightarrow> daemon \<Rightarrow> daemon"
  assumes drop_reg: "st_wf H K d \<Longrightarrow> subs d a = Some s \<Longrightarrow> reg (dropper a d) = r_unsubscribe a (reg d)"
    and drop_wf: "st_wf H K d \<Longrightarrow> subs d a = Some s \<Longrightarrow> st_wf H K (dropper a d)"
begin

lemma fold_drop:
  assumes "st_wf H K d" and "distinct as" and "set as \<subseteq> dom (subs d)"
  shows "st_wf H K (fold dropper as d) \<and> reg (fold dropper as d) = r_drop_subs (set as) (reg d)"
  using assms
proof (induction as arbitrary: d)
  case (Cons a as)
  then obtain s where s: "subs d a = Some s" by auto
  have r1: "reg (dropper a d) = r_drop_subs {a} (reg d)"
    using drop_reg [OF Cons.prems(1) s] r_unsubscribe_drop [of "reg d" a s] s
      reg_wfD(5) [OF st_wfD(2) [OF Cons.prems(1)]] by simp
  have "subs (dropper a d) b = (if b = a then None else subs d b)" for b
    using arg_cong [OF r1, of "\<lambda>r. r_subs r b"] by (simp add: r_drop_subs_def)
  then have "set as \<subseteq> dom (subs (dropper a d))" using Cons.prems(2,3) by (auto simp: dom_def)
  with Cons.IH [OF drop_wf [OF Cons.prems(1) s]] Cons.prems(2) r1 show ?case
    by (simp add: r_drop_subs_twice)
qed simp

end

interpretation unsubscribe: drops_subscription "ubus_unsubscribe E" for E
  by unfold_locales (rule unsubscribe_ok, assumption+)+

interpretation notify_unsubscribe: drops_subscription "ubus_notify_unsubscribe E" for E
  by unfold_locales (rule notify_unsubscribe_ok, assumption+)+

section \<open>Refinement: removing an object\<close>

text \<open>What is left when an object is gone: none of its subscriptions in either direction, none of
  its patterns, no path, no entry in its client's list, one reference less to its type.\<close>

definition r_remove :: "u32 \<Rightarrow> registry \<Rightarrow> registry" where
  "r_remove oid r =
     r_delete oid (r_clear_patterns oid
       (r_drop_subs (set (r_targets r oid) \<union> set (r_subscribers r oid)) r))"

lemma r_drop_subs_fields [simp]:
  "r_client (r_drop_subs S r) = r_client r" "r_owned (r_drop_subs S r) = r_owned r"
  "r_objs (r_drop_subs S r) = r_objs r" "r_owner (r_drop_subs S r) = r_owner r"
  "r_pathof (r_drop_subs S r) = r_pathof r" "r_typeof (r_drop_subs S r) = r_typeof r"
  "r_recv (r_drop_subs S r) = r_recv r" "r_events (r_drop_subs S r) = r_events r"
  "r_types (r_drop_subs S r) = r_types r" "r_path (r_drop_subs S r) = r_path r"
  "r_patterns (r_drop_subs S r) = r_patterns r"
  by (simp_all add: r_drop_subs_def)

lemma reg_same [simp]:
  "(reg d)\<lparr>r_path := path d\<rparr> = reg d" "(reg d)\<lparr>r_owned := cl_field [] cl_objects (net d)\<rparr> = reg d"
  by (simp_all add: reg_def)

lemma reg_upd_owned:
  assumes "clients (net d) c = Some cl"
  shows "reg (on_net (upd_client c (\<lambda>cl. cl\<lparr>cl_objects := g (cl_objects cl)\<rparr>)) d) =
    (reg d)\<lparr>r_owned := (r_owned (reg d))(c := g (r_owned (reg d) c))\<rparr>"
  using assms
  by (auto simp: reg_def upd_client_def on_net_def cl_field_def cl_base_def cl_core_def fun_eq_iff)

lemma reg_del_object:
  "reg (d\<lparr>objects := ubus_free_id (objects d) oid\<rparr>) =
    (reg d)\<lparr>r_objs := r_objs (reg d) - {oid}, r_owner := (r_owner (reg d))(oid := None),
      r_pathof := (r_pathof (reg d))(oid := None), r_typeof := (r_typeof (reg d))(oid := None),
      r_recv := (r_recv (reg d))(oid := None), r_events := (r_events (reg d))(oid := []),
      r_subscribers := (r_subscribers (reg d))(oid := []), r_targets := (r_targets (reg d))(oid := [])\<rparr>"
  by (auto simp: reg_def ubus_free_id_def obj_field_def fun_eq_iff dom_def)

lemma unref_object_type_ok:
  assumes "obj_types d tid \<noteq> None"
  shows "reg (ubus_unref_object_type tid d) = r_unref_type tid (reg d)"
    and "net (ubus_unref_object_type tid d) = net d"
  using assms by (auto simp: ubus_unref_object_type_def r_unref_type_def ubus_free_id_def Let_def)

text \<open>The last part of \<open>ubusd_free_object\<close>, once the object has no subscriptions and patterns.\<close>

lemma obj_unpublish_ok:
  assumes wf: "st_wf H K d" and ob: "objects d oid = Some ob"
  shows "reg (obj_unpublish E oid ob d) = (reg d)\<lparr>r_path := filter (\<lambda>(_, i). i \<noteq> oid) (r_path (reg d))\<rparr>"
    and "net_wf H (net (obj_unpublish E oid ob d))"
proof -
  note w = st_wfD [OF wf]
  have same: "filter (\<lambda>(_, i). i \<noteq> oid) (path d) = path d" if "obj_path ob = None"
    using reg_wfD(4) [OF w(2)] ob that unfolding path_ok_def
    by (intro filter_id_conv [THEN iffD2]) (auto simp: obj_field_def)
  have "path (ubusd_send_obj_event E oid False d) = path d"
    by (metis reg_sel(14) reg_send_obj_event)
  with same show "reg (obj_unpublish E oid ob d) =
      (reg d)\<lparr>r_path := filter (\<lambda>(_, i). i \<noteq> oid) (r_path (reg d))\<rparr>"
    by (cases "obj_path ob") (simp_all add: obj_unpublish_def Let_def)
  show "net_wf H (net (obj_unpublish E oid ob d))"
    using net_wf_send_obj_event [OF w ob] w(1)
    by (auto simp: obj_unpublish_def Let_def split: option.splits)
qed

lemma obj_unlist_ok:
  assumes n: "net_wf H (net d)" and c: "\<forall>c. obj_client ob = Some c \<longrightarrow> clients (net d) c \<noteq> None"
  shows "reg (obj_unlist oid ob d) = (reg d)\<lparr>r_owned := (case obj_client ob of None \<Rightarrow> r_owned (reg d)
      | Some c \<Rightarrow> (r_owned (reg d))(c := remove1 oid (r_owned (reg d) c)))\<rparr>"
    and "net_wf H (net (obj_unlist oid ob d))"
proof -
  have "reg (obj_unlist oid ob d) = (reg d)\<lparr>r_owned := (case obj_client ob of None \<Rightarrow> r_owned (reg d)
      | Some c \<Rightarrow> (r_owned (reg d))(c := remove1 oid (r_owned (reg d) c)))\<rparr> \<and>
      net_wf H (net (obj_unlist oid ob d))"
  proof (cases "obj_client ob")
    case None
    then show ?thesis using n by (simp add: obj_unlist_def)
  next
    case (Some i)
    with c obtain cl where cl: "clients (net d) i = Some cl" by blast
    have "net_wf H (upd_client i (\<lambda>cl. cl\<lparr>cl_objects := remove1 oid (cl_objects cl)\<rparr>) (net d))"
      by (rule net_wf_upd_client [OF n cl]) (simp_all add: client_refs_def)
    then show ?thesis
      using reg_upd_owned [OF cl, of "remove1 oid"] Some by (simp add: obj_unlist_def)
  qed
  then show "reg (obj_unlist oid ob d) = (reg d)\<lparr>r_owned := (case obj_client ob of None \<Rightarrow> r_owned (reg d)
      | Some c \<Rightarrow> (r_owned (reg d))(c := remove1 oid (r_owned (reg d) c)))\<rparr>"
    and "net_wf H (net (obj_unlist oid ob d))" by simp_all
qed

lemma typeof_exists:
  assumes "reg_wf K r" and "r_typeof r oid = Some tid"
  shows "r_types r tid \<noteq> None"
proof -
  have "finite {i. r_typeof r i = Some tid}"
    by (rule finite_subset [OF _ typeof_finite [OF reg_wfD(1,3) [OF assms(1)]]]) auto
  moreover have "oid \<in> {i. r_typeof r i = Some tid}" using assms(2) by simp
  ultimately have "type_refs r tid \<noteq> 0" by (auto simp: type_refs_def)
  then show ?thesis using types_okD(3) [OF reg_wfD(3) [OF assms(1)], of tid] by auto
qed

lemma delete_object_ok:
  fixes E :: env
  assumes wf: "st_wf H K d" and ob: "objects d oid = Some ob"
    and none: "r_events (reg d) oid = []" "r_subscribers (reg d) oid = []" "r_targets (reg d) oid = []"
  defines "d2 \<equiv> obj_unlist oid ob (obj_unpublish E oid ob d)"
  defines "d3 \<equiv> d2\<lparr>objects := ubus_free_id (objects d2) oid\<rparr>"
  defines "d4 \<equiv> (case obj_type ob of None \<Rightarrow> d3 | Some tid \<Rightarrow> ubus_unref_object_type tid d3)"
  shows "reg d4 = r_delete oid (reg d)" and "st_wf H K d4"
proof -
  note w = st_wfD [OF wf]
  have f: "r_owner (reg d) oid = obj_client ob" "r_typeof (reg d) oid = obj_type ob"
    using ob by (simp_all add: obj_field_def)
  note u = obj_unpublish_ok [OF wf ob, of E]
  have "clients (net (obj_unpublish E oid ob d)) c \<noteq> None" if "obj_client ob = Some c" for c
  proof -
    have "r_client (reg d) c \<noteq> None" using owners_okD(7) [OF reg_wfD(1) [OF w(2)]] f(1) that by simp
    then have "r_client (reg (obj_unpublish E oid ob d)) c \<noteq> None" by (simp add: u(1) del: reg_sel)
    then show ?thesis by auto
  qed
  then have "\<forall>c. obj_client ob = Some c \<longrightarrow> clients (net (obj_unpublish E oid ob d)) c \<noteq> None" by blast
  note l = obj_unlist_ok [OF u(2) this, of oid]
  have r3: "reg d3 = (reg d)\<lparr>r_path := filter (\<lambda>(_, i). i \<noteq> oid) (r_path (reg d)),
      r_pathof := (r_pathof (reg d))(oid := None),
      r_owned := (case r_owner (reg d) oid of None \<Rightarrow> r_owned (reg d)
        | Some c \<Rightarrow> (r_owned (reg d))(c := remove1 oid (r_owned (reg d) c))),
      r_owner := (r_owner (reg d))(oid := None), r_objs := r_objs (reg d) - {oid},
      r_recv := (r_recv (reg d))(oid := None), r_typeof := (r_typeof (reg d))(oid := None)\<rparr>"
    unfolding d3_def reg_del_object d2_def l(1) u(1) f(1) using none
    by (simp add: fun_upd_idem del: reg_sel cong: option.case_cong)
  have n3: "net_wf H (net d3)" using l(2) by (simp add: d3_def d2_def)
  have "reg d4 = r_delete oid (reg d) \<and> net d4 = net d3"
  proof (cases "obj_type ob")
    case None
    then show ?thesis using r3 f(2) by (simp add: d4_def r_delete_def Let_def del: reg_sel)
  next
    case (Some tid)
    have "r_types (reg d) tid \<noteq> None" by (rule typeof_exists [OF w(2)]) (use Some f(2) in simp)
    moreover have "r_types (reg d3) = r_types (reg d)" by (simp add: r3 del: reg_sel)
    ultimately have "obj_types d3 tid \<noteq> None" by simp
    from unref_object_type_ok [OF this] r3 Some f(2) show ?thesis
      by (simp add: d4_def r_delete_def Let_def del: reg_sel)
  qed
  then show "reg d4 = r_delete oid (reg d)" "st_wf H K d4"
    using r_delete_wf [OF w(2) none] n3 by (simp_all add: st_wf_def)
qed

lemma free_object_ok:
  assumes wf: "st_wf H K d" and ob: "objects d oid \<noteq> None"
  shows "reg (ubusd_free_object E oid d) = r_remove oid (reg d)"
    and "st_wf H K (ubusd_free_object E oid d)"
proof -
  note w = st_wfD [OF wf] and e = subs_okD [OF reg_wfD(5) [OF st_wfD(2) [OF wf]]]
  let ?r = "reg d" and ?T = "set (r_targets (reg d) oid)" and ?S = "set (r_subscribers (reg d) oid)"
  define d1 where "d1 = fold (ubus_unsubscribe E) (obj_field [] obj_target_list d oid) d"
  define d2 where "d2 = fold (ubus_notify_unsubscribe E) (obj_field [] obj_subscribers d1 oid) d1"
  define d3 where "d3 = ubusd_event_cleanup_object oid d2"
  have "?T \<subseteq> dom (r_subs ?r)" "?S \<subseteq> dom (r_subs ?r)" using e(7,8) by blast+
  then have dom: "?T \<subseteq> dom (subs d)" "?S \<subseteq> dom (subs d)" by simp_all
  have 1: "st_wf H K d1 \<and> reg d1 = r_drop_subs ?T ?r"
    unfolding d1_def using unsubscribe.fold_drop [OF wf e(6) dom(1)] by simp
  have s1: "obj_field [] obj_subscribers d1 oid = filter (\<lambda>a. a \<notin> ?T) (r_subscribers ?r oid)"
    using arg_cong [OF 1 [THEN conjunct2], of "\<lambda>r. r_subscribers r oid"] by (simp add: r_drop_subs_def)
  have "subs d1 a = (if a \<in> ?T then None else subs d a)" for a
    using arg_cong [OF 1 [THEN conjunct2], of "\<lambda>r. r_subs r a"] by (simp add: r_drop_subs_def)
  then have "set (obj_field [] obj_subscribers d1 oid) \<subseteq> dom (subs d1)"
    using dom(2) by (auto simp: s1 dom_def)
  then have 2: "st_wf H K d2 \<and> reg d2 = r_drop_subs (set (filter (\<lambda>a. a \<notin> ?T) (r_subscribers ?r oid))) (reg d1)"
    unfolding d2_def using notify_unsubscribe.fold_drop [of H K d1] 1 e(5) s1 by (simp add: distinct_filter)
  have "set (filter (\<lambda>a. a \<notin> ?T) (r_subscribers ?r oid)) \<union> ?T = ?T \<union> ?S" by auto
  then have r2: "reg d2 = r_drop_subs (?T \<union> ?S) ?r" using 1 2 by (simp add: r_drop_subs_twice)
  have "oid \<in> r_objs (reg d2)" using ob by (simp add: r2 dom_def del: reg_sel(1-4) reg_sel(6-18))
  then obtain ob2 where ob2: "objects d2 oid = Some ob2" by auto
  note c = event_cleanup_object_reg [OF reg_wfD(6) [OF st_wfD(2)] ob2, of H K]
  have r3: "reg d3 = r_clear_patterns oid (r_drop_subs (?T \<union> ?S) ?r)"
    using c(1) 2 r2 by (simp add: d3_def)
  have wf3: "st_wf H K d3"
    using c 2 r_clear_patterns_wf [OF st_wfD(2), of H K d2 oid] by (auto simp: d3_def st_wf_def)
  have "oid \<in> r_objs (reg d3)" using ob by (simp add: r3 r_clear_patterns_def dom_def del: reg_sel(1-4) reg_sel(6-18))
  then obtain ob3 where ob3: "objects d3 oid = Some ob3" by auto
  have none: "r_events (reg d3) oid = []" "r_subscribers (reg d3) oid = []" "r_targets (reg d3) oid = []"
    unfolding r3 by (simp_all add: r_clear_patterns_def r_drop_subs_def)
  note del = delete_object_ok [OF wf3 ob3 none, of E]
  have eq: "ubusd_free_object E oid d =
      (let d = obj_unlist oid ob3 (obj_unpublish E oid ob3 d3);
           d = d\<lparr>objects := ubus_free_id (objects d) oid\<rparr>
       in (case obj_type ob3 of None \<Rightarrow> d | Some tid \<Rightarrow> ubus_unref_object_type tid d))"
    using ob3 by (simp add: ubusd_free_object_def Let_def d1_def d2_def d3_def)
  show "reg (ubusd_free_object E oid d) = r_remove oid (reg d)"
    using del(1) r3 by (simp add: eq r_remove_def Let_def)
  show "st_wf H K (ubusd_free_object E oid d)"
    using del(2) by (simp add: eq Let_def)
qed

end
