(* ===== verification/Ubusd_Obj_Create.thy ===== *)
theory Ubusd_Obj_Create
  imports Ubusd_Obj
begin

text \<open>
  Creating objects and subscriptions: what \<open>ubusd_create_object\<close> and \<open>ubus_subscribe\<close> of
  src/ubusd_obj.c do to the registry. A creation that fails on the way, whatever the reason,
  leaves the registry as it found it.
\<close>

section \<open>Subscribing\<close>

lemma subscribe_ok:
  assumes wf: "st_wf H K d" and own: "owner d oid \<noteq> None" "owner d target \<noteq> None"
    and ne: "oid \<noteq> target" and r: "ubus_subscribe E oid target d = (ret, d')"
  shows "st_wf H K d'"
    and "ret = UBUS_STATUS_OK \<and> reg d' = r_subscribe oid target (reg d) \<or>
      ret = UBUS_STATUS_NO_MEMORY \<and> reg d' = reg d"
proof -
  note w = st_wfD [OF wf]
  have objs: "objects d oid \<noteq> None" "objects d target \<noteq> None"
    using own by (auto simp: owner_def obj_field_def split: option.splits)
  then obtain tob where tob: "objects d target = Some tob" by auto
  obtain x d1 where x: "calloc_node E d = (x, d1)" by fastforce
  have "st_wf H K d' \<and> (ret = UBUS_STATUS_OK \<and> reg d' = r_subscribe oid target (reg d) \<or>
      ret = UBUS_STATUS_NO_MEMORY \<and> reg d' = reg d)"
  proof (cases x)
    case None
    with calloc_node_None [OF x [unfolded None]] r tob x w show ?thesis
      by (auto simp: ubus_subscribe_def Let_def st_wf_def)
  next
    case (Some a)
    note n = calloc_node_Some [OF x [unfolded Some]]
    define d2 where "d2 = d1\<lparr>subs := (subs d1)(a \<mapsto> \<lparr>sub_subscriber = oid, sub_target = target\<rparr>)\<rparr>"
    define d3 where "d3 = upd_obj target (\<lambda>ob. ob\<lparr>obj_subscribers := a # obj_subscribers ob\<rparr>) d2"
    define d4 where "d4 = upd_obj oid (\<lambda>ob. ob\<lparr>obj_target_list := a # obj_target_list ob\<rparr>) d3"
    have o2: "objects d2 target = Some tob" using tob n(3) by (simp add: d2_def)
    have "objects d3 oid \<noteq> None" using objs n(3) by (simp add: d3_def d2_def)
    then obtain sob where o3: "objects d3 oid = Some sob" by blast
    have r2: "reg d2 = (reg d)\<lparr>r_next := Suc a,
        r_subs := (subs d)(a \<mapsto> \<lparr>sub_subscriber = oid, sub_target = target\<rparr>)\<rparr>"
      unfolding d2_def reg_upd n(1,2,5) by simp
    have r3: "reg d3 = (reg d2)\<lparr>r_subscribers := (r_subscribers (reg d2))(target := a # r_subscribers (reg d2) target)\<rparr>"
      unfolding d3_def by (rule reg_upd_obj(4) [OF o2])
    have r4: "reg d4 = (reg d3)\<lparr>r_targets := (r_targets (reg d3))(oid := a # r_targets (reg d3) oid)\<rparr>"
      unfolding d4_def by (rule reg_upd_obj(5) [OF o3])
    have reg4: "reg d4 = r_subscribe oid target (reg d)"
      unfolding r4 r3 r2 by (simp add: r_subscribe_def Let_def n(1))
    have wf4: "reg_wf K (reg d4)" unfolding reg4
      by (rule r_subscribe_wf [OF w(2)]) (use own ne in \<open>simp_all add: owner_def\<close>)
    have n4: "net_wf H (net d4)" using n(6) [OF w(1)] o2 o3 by (simp add: d4_def d3_def d2_def)
    have "owner d4 target = owner d target"
      using arg_cong [OF reg4, of "\<lambda>r. r_owner r target"] by (simp add: owner_def r_subscribe_def Let_def)
    then have live: "live_owner d4 target"
      using owner_live [OF reg_wfD(1) [OF wf4]] own by auto
    have eq: "ret = UBUS_STATUS_OK"
      "d' = (if obj_subscribers tob = [] then ubus_notify_subscription E target d4 else d4)"
      using r tob x Some by (auto simp: ubus_subscribe_def Let_def d4_def d3_def d2_def)
    with notify_subscription_ok [OF n4 live, of E] n4 wf4 reg4 show ?thesis
      by (auto simp: st_wf_def)
  qed
  then show "st_wf H K d'" and "ret = UBUS_STATUS_OK \<and> reg d' = r_subscribe oid target (reg d) \<or>
      ret = UBUS_STATUS_NO_MEMORY \<and> reg d' = reg d" by simp_all
qed

section \<open>Types\<close>

definition hold_ty :: "u32 option \<Rightarrow> (u32 \<Rightarrow> nat) \<Rightarrow> (u32 \<Rightarrow> nat)" where
  "hold_ty ty K = (case ty of None \<Rightarrow> K | Some t \<Rightarrow> K(t := K t + 1))"

lemma reg_rnd [simp]: "reg (d\<lparr>net := n\<lparr>rnd := x\<rparr>\<rparr>) = reg (d\<lparr>net := n\<rparr>)"
  by (simp add: reg_def cl_field_def obj_field_def fun_eq_iff)

lemma net_upd_type [simp]: "obj_types d tid \<noteq> None \<Longrightarrow> net (upd_type tid f d) = net d"
  by (auto simp: upd_type_def)

lemma reg_upd_type:
  assumes "obj_types d tid = Some t"
  shows "reg (upd_type tid f d) = (reg d)\<lparr>r_types := (r_types (reg d))(tid \<mapsto> f t)\<rparr>"
    and "obj_types (upd_type tid f d) = (obj_types d)(tid \<mapsto> f t)"
  using assms by (simp_all add: upd_type_def)

text \<open>Adding the methods only extends the method list of the type.\<close>

lemma obj_type_methods_ok:
  assumes "net_wf H (net d)" and "obj_types d tid = Some t"
    and "obj_type_methods E tid ms d = (ok, d')"
  shows "net_wf H (net d') \<and> (\<exists>l. reg d' = (reg d)\<lparr>r_types := (r_types (reg d))(tid \<mapsto> t\<lparr>ty_methods := l\<rparr>)\<rparr>) \<and>
    obj_types d' tid \<noteq> None"
  using assms
proof (induction ms arbitrary: d t)
  case Nil
  then show ?case
    by (auto simp: reg_def fun_eq_iff intro!: exI [of _ "ty_methods t"])
next
  case (Cons m ms)
  obtain c n where c: "calloc E (net d) = (c, n)" by fastforce
  have n: "net_wf H n" and rn: "reg (d\<lparr>net := n\<rparr>) = reg d"
    using net_wf_calloc [OF Cons.prems(1) c] core_calloc [OF c] by (simp_all add: reg_set_net)
  have self: "(reg d)\<lparr>r_types := (r_types (reg d))(tid \<mapsto> t\<lparr>ty_methods := ty_methods t\<rparr>)\<rparr> = reg d"
    using Cons.prems(2) by (simp add: reg_def fun_upd_idem)
  show ?case
  proof (cases "blobmsg_check_attr E m \<and> c")
    case True
    let ?t = "t\<lparr>ty_methods := ty_methods t @ [m]\<rparr>"
    define d1 where "d1 = upd_type tid (\<lambda>t. t\<lparr>ty_methods := ty_methods t @ [m]\<rparr>) (d\<lparr>net := n\<rparr>)"
    have t1: "obj_types d1 tid = Some ?t" and n1: "net_wf H (net d1)"
      and r1: "reg d1 = (reg d)\<lparr>r_types := (r_types (reg d))(tid \<mapsto> ?t)\<rparr>"
      using Cons.prems(2) rn n by (simp_all add: d1_def upd_type_def)
    have "obj_type_methods E tid ms d1 = (ok, d')"
      using Cons.prems(3) True c by (simp add: ubus_create_obj_method_def d1_def)
    from Cons.IH [OF n1 t1 this] obtain l where "net_wf H (net d')" "obj_types d' tid \<noteq> None"
      and "reg d' = (reg d1)\<lparr>r_types := (r_types (reg d1))(tid \<mapsto> ?t\<lparr>ty_methods := l\<rparr>)\<rparr>"
      by blast
    then show ?thesis
      by (intro conjI exI [of _ l]) (simp_all add: r1 del: reg_sel fun_upd_apply)
  next
    case False
    then have "d' = d \<or> d' = d\<lparr>net := n\<rparr>"
      using Cons.prems(3) c by (auto simp: ubus_create_obj_method_def split: if_splits)
    then have "reg d' = reg d" "net_wf H (net d')" "obj_types d' tid \<noteq> None"
      using Cons.prems(1,2) n rn by auto
    with self show ?thesis by (metis (no_types))
  qed
qed

lemma r_new_type_wf:
  assumes wf: "reg_wf K r" and none: "r_types r tid = None"
  shows "reg_wf (K(tid := K tid + 1)) (r\<lparr>r_types := (r_types r)(tid \<mapsto> \<lparr>ty_refcount = 1, ty_methods = l\<rparr>)\<rparr>)"
proof -
  note w = reg_wfD [OF wf] and t = types_okD [OF reg_wfD(3) [OF wf]]
  let ?r = "r\<lparr>r_types := (r_types r)(tid \<mapsto> \<lparr>ty_refcount = 1, ty_methods = l\<rparr>)\<rparr>"
  have "types_ok (K(tid := K tid + 1)) ?r"
  proof (rule types_okI)
    fix i ty
    assume "r_types ?r i = Some ty"
    then show "ty_refcount ty = int (type_refs ?r i + (K(tid := K tid + 1)) i) \<and> 0 < ty_refcount ty"
      using t(3) [OF none] t(2) [of i ty] by (cases "i = tid") auto
  next
    fix i
    assume "r_types ?r i = None"
    then show "type_refs ?r i = 0 \<and> (K(tid := K tid + 1)) i = 0"
      using t(3) [of i] by (cases "i = tid") auto
  qed (use t(1) in simp)
  then show ?thesis
    unfolding reg_wf_def using w by (auto elim: reg_wf_congs)
qed

lemma create_obj_type_ok:
  assumes wf: "st_wf H K d" and r: "ubus_create_obj_type E sig d = (ty, d')"
  shows "st_wf H (hold_ty ty K) d'"
    and "case ty of None \<Rightarrow> reg d' = reg d
      | Some t \<Rightarrow> r_types (reg d) t = None \<and>
          (\<exists>l. reg d' = (reg d)\<lparr>r_types := (r_types (reg d))(t \<mapsto> \<lparr>ty_refcount = 1, ty_methods = l\<rparr>)\<rparr>)"
proof -
  note w = st_wfD [OF wf]
  let ?P = "st_wf H (hold_ty ty K) d' \<and> (case ty of None \<Rightarrow> reg d' = reg d
      | Some t \<Rightarrow> r_types (reg d) t = None \<and>
          (\<exists>l. reg d' = (reg d)\<lparr>r_types := (r_types (reg d))(t \<mapsto> \<lparr>ty_refcount = 1, ty_methods = l\<rparr>)\<rparr>))"
  obtain c n where c: "calloc E (net d) = (c, n)" by fastforce
  have n: "net_wf H n" "reg (d\<lparr>net := n\<rparr>) = reg d"
    using net_wf_calloc [OF w(1) c] core_calloc [OF c] by (simp_all add: reg_set_net)
  obtain x n1 where a: "ubus_alloc_id (obj_types d) 0 n = (x, n1)" by fastforce
  obtain rx where n1: "n1 = n\<lparr>rnd := rx\<rparr>" using ubus_alloc_id_net [OF a] by auto
  have "?P"
  proof (cases "c \<and> x \<noteq> None")
    case False
    then have "ty = None \<and> (d' = d\<lparr>net := n\<rparr> \<or> d' = d\<lparr>net := n1\<rparr>)"
      using r c a by (cases c) (auto simp: ubus_create_obj_type_def)
    with n w n1 show ?thesis by (auto simp: st_wf_def hold_ty_def)
  next
    case True
    then obtain tid where x: "x = Some tid" by auto
    have none: "obj_types d tid = None" using ubus_alloc_id_Some [of "obj_types d" 0 n tid n1] a x by simp
    let ?t = "\<lparr>ty_refcount = 1, ty_methods = []\<rparr>"
    define d1 where "d1 = d\<lparr>net := n1, obj_types := (obj_types d)(tid \<mapsto> ?t)\<rparr>"
    have nd1: "net_wf H (net d1)" and t1: "obj_types d1 tid = Some ?t"
      and r1: "reg d1 = (reg d)\<lparr>r_types := (r_types (reg d))(tid \<mapsto> ?t)\<rparr>"
      using n by (simp_all add: d1_def n1)
    obtain ok d2 where m: "obj_type_methods E tid (table_fields (Some sig)) d1 = (ok, d2)" by fastforce
    from obj_type_methods_ok [OF nd1 t1 m] obtain l where n2: "net_wf H (net d2)"
      and t2: "obj_types d2 tid \<noteq> None"
      and "reg d2 = (reg d1)\<lparr>r_types := (r_types (reg d1))(tid \<mapsto> ?t\<lparr>ty_methods := l\<rparr>)\<rparr>" by blast
    then have r2: "reg d2 = (reg d)\<lparr>r_types := (r_types (reg d))(tid \<mapsto> \<lparr>ty_refcount = 1, ty_methods = l\<rparr>)\<rparr>"
      by (simp add: r1 del: reg_sel fun_upd_apply)
    have none': "r_types (reg d) tid = None" using none by simp
    show ?thesis
    proof (cases ok)
      case ok: True
      then have "ty = Some tid" "d' = d2"
        using r c a True x m by (simp_all add: ubus_create_obj_type_def d1_def Let_def)
      moreover have "reg_wf (K(tid := K tid + 1)) (reg d2)"
        unfolding r2 by (rule r_new_type_wf [OF w(2) none'])
      ultimately show ?thesis
        using n2 r2 none' by (auto simp: st_wf_def hold_ty_def simp del: reg_sel fun_upd_apply)
    next
      case no: False
      then have d': "ty = None" "d' = ubus_unref_object_type tid d2"
        using r c a True x m by (simp_all add: ubus_create_obj_type_def d1_def Let_def)
      note u = unref_object_type_ok [OF t2]
      have "reg d' = reg d"
        unfolding d' u(1) r2 using none' by (simp add: r_unref_type_def reg_def fun_upd_idem)
      with u(2) n2 w d' show ?thesis by (simp add: st_wf_def hold_ty_def)
    qed
  qed
  then show "st_wf H (hold_ty ty K) d'" and "case ty of None \<Rightarrow> reg d' = reg d
      | Some t \<Rightarrow> r_types (reg d) t = None \<and>
          (\<exists>l. reg d' = (reg d)\<lparr>r_types := (r_types (reg d))(t \<mapsto> \<lparr>ty_refcount = 1, ty_methods = l\<rparr>)\<rparr>)"
    by simp_all
qed

lemma get_obj_type_ok:
  assumes wf: "st_wf H K d" and r: "ubus_get_obj_type tid d = (ty, d')"
  shows "st_wf H (hold_ty ty K) d'"
    and "reg d' = (case ty of None \<Rightarrow> reg d | Some t \<Rightarrow> r_ref_type t (reg d))"
    and "ty = Some t \<Longrightarrow> r_types (reg d) t \<noteq> None"
proof -
  note w = st_wfD [OF wf]
  have "st_wf H (hold_ty ty K) d' \<and> reg d' = (case ty of None \<Rightarrow> reg d | Some t \<Rightarrow> r_ref_type t (reg d)) \<and>
      (ty = Some t \<longrightarrow> r_types (reg d) t \<noteq> None)"
  proof (cases "obj_types d tid")
    case None
    with r w show ?thesis
      by (auto simp: ubus_get_obj_type_def ubus_find_id_def hold_ty_def st_wf_def)
  next
    case (Some t)
    then have d': "ty = Some tid" "d' = upd_type tid (\<lambda>t. t\<lparr>ty_refcount := ty_refcount t + 1\<rparr>) d"
      using r by (simp_all add: ubus_get_obj_type_def ubus_find_id_def)
    have r': "reg d' = r_ref_type tid (reg d)"
      unfolding d' using reg_upd_type(1) [OF Some] Some by (simp add: r_ref_type_def)
    moreover have "reg_wf (K(tid := K tid + 1)) (reg d')"
      unfolding r' by (rule r_ref_wf [OF w(2)]) (simp add: Some)
    ultimately show ?thesis
      using d' w(1) Some by (auto simp: st_wf_def hold_ty_def)
  qed
  then show "st_wf H (hold_ty ty K) d'"
    and "reg d' = (case ty of None \<Rightarrow> reg d | Some t \<Rightarrow> r_ref_type t (reg d))"
    and "ty = Some t \<Longrightarrow> r_types (reg d) t \<noteq> None" by simp_all
qed

section \<open>The object itself\<close>

lemma reg_new_object:
  assumes "objects d oid = None"
  shows "reg (d\<lparr>objects := (objects d)(oid \<mapsto> new_object ty)\<rparr>) =
    (reg d)\<lparr>r_objs := insert oid (r_objs (reg d)), r_typeof := (r_typeof (reg d))(oid := ty)\<rparr>"
  using assms by (auto simp: reg_def new_object_def obj_field_def fun_eq_iff)

lemma create_object_internal_ok:
  assumes wf: "st_wf H K d" and ty: "\<And>t. ty = Some t \<Longrightarrow> obj_types d t \<noteq> None"
    and r: "ubusd_create_object_internal E ty val d = (x, d')"
  shows "st_wf H K d'"
    and "case x of None \<Rightarrow> reg d' = reg d
      | Some oid \<Rightarrow> reg d' = r_create oid ty (reg d) \<and> oid \<notin> r_objs (reg d) \<and>
          (if val = 0 then UBUS_SYSTEM_OBJECT_MAX \<le> oid else oid = val)"
proof -
  note w = st_wfD [OF wf]
  obtain c n where c: "calloc E (net d) = (c, n)" by fastforce
  have n: "net_wf H n" "reg (d\<lparr>net := n\<rparr>) = reg d"
    using net_wf_calloc [OF w(1) c] core_calloc [OF c] by (simp_all add: reg_set_net)
  obtain y n1 where a: "ubus_alloc_id (objects d) val n = (y, n1)" by fastforce
  obtain rx where n1: "n1 = n\<lparr>rnd := rx\<rparr>" using ubus_alloc_id_net [OF a] by auto
  have "st_wf H K d' \<and> (case x of None \<Rightarrow> reg d' = reg d
      | Some oid \<Rightarrow> reg d' = r_create oid ty (reg d) \<and> oid \<notin> r_objs (reg d) \<and>
          (if val = 0 then UBUS_SYSTEM_OBJECT_MAX \<le> oid else oid = val))"
  proof (cases "c \<and> y \<noteq> None")
    case False
    then have "x = None \<and> (d' = d\<lparr>net := n\<rparr> \<or> d' = d\<lparr>net := n1\<rparr>)"
      using r c a by (cases c) (auto simp: ubusd_create_object_internal_def)
    with n w n1 show ?thesis by (auto simp: st_wf_def)
  next
    case True
    then obtain oid where y: "y = Some oid" by auto
    note al = ubus_alloc_id_Some [OF a [unfolded y]]
    define d1 where "d1 = d\<lparr>net := n1, objects := (objects d)(oid \<mapsto> new_object ty)\<rparr>"
    have r1: "reg d1 = (reg d)\<lparr>r_objs := insert oid (r_objs (reg d)), r_typeof := (r_typeof (reg d))(oid := ty)\<rparr>"
      using reg_new_object [of "d\<lparr>net := n1\<rparr>" oid ty] al n n1 by (simp add: d1_def)
    have x: "x = Some oid" "d' = (case ty of None \<Rightarrow> d1
        | Some tid \<Rightarrow> upd_type tid (\<lambda>t. t\<lparr>ty_refcount := ty_refcount t + 1\<rparr>) d1)"
      unfolding d1_def using r c a True y by (auto simp: ubusd_create_object_internal_def Let_def)
    have r': "reg d' = r_create oid ty (reg d) \<and> net d' = n1"
    proof (cases ty)
      case None
      then show ?thesis using x r1 by (simp add: r_create_def Let_def d1_def)
    next
      case (Some tid)
      with ty obtain t where t: "obj_types d tid = Some t" by auto
      then have "obj_types d1 tid = Some t" by (simp add: d1_def)
      from reg_upd_type(1) [OF this] r1 Some t x show ?thesis
        by (simp add: r_create_def r_ref_type_def Let_def d1_def upd_type_def)
    qed
    have "reg_wf K (r_create oid ty (reg d))"
      by (rule r_create_wf [OF w(2)]) (use al ty in auto)
    with r' n n1 x al show ?thesis by (auto simp: st_wf_def)
  qed
  then show "st_wf H K d'" and "case x of None \<Rightarrow> reg d' = reg d
      | Some oid \<Rightarrow> reg d' = r_create oid ty (reg d) \<and> oid \<notin> r_objs (reg d) \<and>
          (if val = 0 then UBUS_SYSTEM_OBJECT_MAX \<le> oid else oid = val)"
    by simp_all
qed

text \<open>Choosing the type takes one reference, and giving it back undoes whatever was done.\<close>

lemma r_unref_ref: "r_types r t = Some ty \<Longrightarrow> 0 < ty_refcount ty \<Longrightarrow> r_unref_type t (r_ref_type t r) = r"
  by (simp add: r_unref_type_def r_ref_type_def fun_upd_idem)

lemma r_unref_new:
  "r_types r t = None \<Longrightarrow>
   r_unref_type t (r\<lparr>r_types := (r_types r)(t \<mapsto> \<lparr>ty_refcount = 1, ty_methods = l\<rparr>)\<rparr>) = r"
  by (simp add: r_unref_type_def fun_upd_idem)

lemma obj_type_of_attrs_ok:
  assumes wf: "st_wf H K d" and r: "obj_type_of_attrs E attr d = (ty, d')"
  shows "st_wf H (hold_ty ty K) d'"
    and "case ty of None \<Rightarrow> reg d' = reg d
      | Some t \<Rightarrow> r_unref_type t (reg d') = reg d \<and> (\<exists>x. reg d' = (reg d)\<lparr>r_types := x\<rparr>)"
proof -
  have same: "\<exists>x. reg d = (reg d)\<lparr>r_types := x\<rparr>" by (rule exI [of _ "r_types (reg d)"]) (simp add: reg_def)
  have "st_wf H (hold_ty ty K) d' \<and> (case ty of None \<Rightarrow> reg d' = reg d
      | Some t \<Rightarrow> r_unref_type t (reg d') = reg d \<and> (\<exists>x. reg d' = (reg d)\<lparr>r_types := x\<rparr>))"
  proof (cases "attr UBUS_ATTR_OBJTYPE")
    case (Some a)
    then have g: "ubus_get_obj_type (blob_get_u32 E a) d = (ty, d')"
      using r by (simp add: obj_type_of_attrs_def)
    note k = get_obj_type_ok [OF wf g]
    show ?thesis
    proof (cases ty)
      case None
      with k(1,2) show ?thesis by simp
    next
      case t: (Some t)
      with k(3) obtain t' where t': "r_types (reg d) t = Some t'" by blast
      have "0 < ty_refcount t'" using types_okD(2) [OF reg_wfD(3) [OF st_wfD(2) [OF wf]] t'] by simp
      from r_unref_ref [OF t' this] k(1,2) t t' show ?thesis
        by (auto simp: r_ref_type_def simp del: reg_sel)
    qed
  next
    case None
    show ?thesis
    proof (cases "attr UBUS_ATTR_SIGNATURE")
      case s: None
      with None r wf show ?thesis by (auto simp: obj_type_of_attrs_def hold_ty_def)
    next
      case (Some sig)
      then have g: "ubus_create_obj_type E sig d = (ty, d')"
        using r None by (simp add: obj_type_of_attrs_def)
      note k = create_obj_type_ok [OF wf g]
      show ?thesis
        using k by (cases ty) (auto simp: r_unref_new simp del: reg_sel fun_upd_apply)
    qed
  qed
  then show "st_wf H (hold_ty ty K) d'" and "case ty of None \<Rightarrow> reg d' = reg d
      | Some t \<Rightarrow> r_unref_type t (reg d') = reg d \<and> (\<exists>x. reg d' = (reg d)\<lparr>r_types := x\<rparr>)"
    by simp_all
qed

text \<open>A new object that has handed its held type reference over, and its removal.\<close>

definition r_fresh :: "u32 \<Rightarrow> u32 option \<Rightarrow> registry \<Rightarrow> registry" where
  "r_fresh oid ty r = r\<lparr>r_objs := insert oid (r_objs r), r_typeof := (r_typeof r)(oid := ty)\<rparr>"

lemma r_unref_create:
  assumes "r_types r t = Some ty" and "0 < ty_refcount ty"
  shows "r_unref_type t (r_create oid (Some t) r) = r_fresh oid (Some t) r"
  using assms by (simp add: r_create_def r_ref_type_def r_unref_type_def r_fresh_def Let_def fun_upd_idem)

lemma r_remove_fresh:
  assumes wf: "reg_wf K r" and new: "oid \<notin> r_objs r" and recv: "r_recv r oid = None"
  shows "r_remove oid (r_fresh oid ty r) = (case ty of None \<Rightarrow> r | Some t \<Rightarrow> r_unref_type t r)"
proof -
  note w = reg_wfD [OF wf] and o = owners_okD [OF reg_wfD(1) [OF wf]]
  have f: "r_owner r oid = None" "r_pathof r oid = None" "r_typeof r oid = None" using o(4-6) new by blast+
  have e: "r_events r oid = []" "r_subscribers r oid = []" "r_targets r oid = []"
    using w(2) f(1) by (simp_all add: unowned_ok_def)
  have p: "filter (\<lambda>(_, i). i \<noteq> oid) (r_path r) = r_path r"
    using w(4) f(2) unfolding path_ok_def by (intro filter_id_conv [THEN iffD2]) force
  have "ev_obj ev \<noteq> oid" if "(k, ev) \<in> set (r_patterns r)" for k ev
    using events_okD(1) [OF w(6) that] e(1) by auto
  then have q: "filter (\<lambda>(_, ev). ev_obj ev \<noteq> oid) (r_patterns r) = r_patterns r"
    by (intro filter_id_conv [THEN iffD2]) auto
  have 1: "r_clear_patterns oid (r_drop_subs (set (r_targets (r_fresh oid ty r) oid) \<union>
      set (r_subscribers (r_fresh oid ty r) oid)) (r_fresh oid ty r)) = r_fresh oid ty r"
    using e q by (simp add: r_fresh_def r_clear_patterns_def fun_upd_idem)
  have 2: "(r_fresh oid ty r)\<lparr>r_path := filter (\<lambda>(_, i). i \<noteq> oid) (r_path r),
      r_pathof := (r_pathof r)(oid := None), r_owned := r_owned r, r_owner := (r_owner r)(oid := None),
      r_objs := insert oid (r_objs r) - {oid}, r_recv := (r_recv r)(oid := None),
      r_typeof := ((r_typeof r)(oid := ty))(oid := None)\<rparr> = r"
    using f p new recv by (simp add: r_fresh_def fun_upd_idem)
  show ?thesis
    unfolding r_remove_def 1 r_delete_def Let_def using 2 f(1)
    by (cases ty) (simp_all add: r_fresh_def)
qed

section \<open>Publishing and attaching\<close>

lemma publish_ok:
  assumes wf: "st_wf H K d" and E: "avl_law E" and ob: "objects d oid = Some ob" "obj_path ob = None"
    and r: "obj_publish E cl oid p d = (ok, d')"
  shows "st_wf H K d'"
    and "reg d' = (if ok then r_publish E oid p (reg d) else reg d)"
    and "ok \<Longrightarrow> ubusd_acl_check d (client_of d (Some cl)) (Some p) None UBUS_ACL_PUBLISH = 0 \<and>
      p \<notin> fst ` set (path d)"
proof -
  note w = st_wfD [OF wf]
  obtain c n where c: "calloc E (net d) = (c, n)" by fastforce
  have n: "net_wf H n" "reg (d\<lparr>net := n\<rparr>) = reg d"
    using net_wf_calloc [OF w(1) c] core_calloc [OF c] by (simp_all add: reg_set_net)
  have free: "list_ex (\<lambda>(k, _). k = p) (path d) \<longleftrightarrow> p \<in> fst ` set (path d)"
    by (force simp: list_ex_iff)
  have "st_wf H K d' \<and> reg d' = (if ok then r_publish E oid p (reg d) else reg d) \<and>
    (ok \<longrightarrow> ubusd_acl_check d (client_of d (Some cl)) (Some p) None UBUS_ACL_PUBLISH = 0 \<and>
      p \<notin> fst ` set (path d))"
  proof (cases "ubusd_acl_check d (client_of d (Some cl)) (Some p) None UBUS_ACL_PUBLISH = 0 \<and> c \<and>
      p \<notin> fst ` set (path d)")
    case False
    then have "\<not> ok \<and> (d' = d \<or> d' = d\<lparr>net := n\<rparr>)"
      using r c free by (cases c) (auto simp: obj_publish_def Let_def split: if_splits)
    with n w show ?thesis by (auto simp: st_wf_def)
  next
    case True
    define d1 where "d1 = upd_obj oid (\<lambda>ob. ob\<lparr>obj_path := Some p\<rparr>) (d\<lparr>net := n\<rparr>)"
    define d2 where "d2 = d1\<lparr>path := avl_link E p oid (path d1)\<rparr>"
    have d': "ok" "d' = ubusd_send_obj_event E oid True d2"
      using r c True free by (simp_all add: obj_publish_def Let_def d2_def d1_def)
    have o1: "objects (d\<lparr>net := n\<rparr>) oid = Some ob" using ob by simp
    have r1: "reg d1 = (reg d)\<lparr>r_pathof := (r_pathof (reg d))(oid := Some p)\<rparr>"
      unfolding d1_def reg_upd_obj(7) [OF o1] n(2) ..
    have p1: "path d1 = path d" by (simp add: d1_def)
    have r2: "reg d2 = r_publish E oid p (reg d)"
      unfolding d2_def reg_upd r1 p1 by (simp add: r_publish_def)
    have wf2: "reg_wf K (reg d2)"
      unfolding r2 by (rule r_publish_wf [OF w(2) E]) (use ob True in \<open>auto simp: obj_field_def\<close>)
    have n2: "net_wf H (net d2)" and o2: "objects d2 oid = Some (ob\<lparr>obj_path := Some p\<rparr>)"
      using n(1) ob by (simp_all add: d2_def d1_def)
    have "net_wf H (net d')"
      unfolding d' by (rule net_wf_send_obj_event [OF n2 wf2 o2]) simp
    with d' wf2 r2 True show ?thesis by (simp add: st_wf_def)
  qed
  then show "st_wf H K d'" and "reg d' = (if ok then r_publish E oid p (reg d) else reg d)"
    and "ok \<Longrightarrow> ubusd_acl_check d (client_of d (Some cl)) (Some p) None UBUS_ACL_PUBLISH = 0 \<and>
      p \<notin> fst ` set (path d)" by blast+
qed

text \<open>Up to the path: the object exists and has its type, or nothing has changed.\<close>

lemma create_object_start:
  assumes wf: "st_wf H K d" and t: "obj_type_of_attrs E attr d = (ty, d1)"
    and c: "ubusd_create_object_internal E ty 0 d1 = (x, d2)"
  defines "d3 \<equiv> (case ty of None \<Rightarrow> d2 | Some tid \<Rightarrow> ubus_unref_object_type tid d2)"
  shows "st_wf H K d3"
    and "case x of None \<Rightarrow> reg d3 = reg d
      | Some oid \<Rightarrow> reg d3 = r_fresh oid ty (reg d1) \<and> oid \<notin> r_objs (reg d) \<and>
          UBUS_SYSTEM_OBJECT_MAX \<le> oid"
proof -
  note ty = obj_type_of_attrs_ok [OF wf t]
  have held: "\<exists>t'. obj_types d1 i = Some t' \<and> 0 < ty_refcount t'" if "ty = Some i" for i
  proof -
    note tk = types_okD(2,3) [OF reg_wfD(3) [OF st_wfD(2) [OF ty(1)]], of i]
    have "0 < hold_ty ty K i" using that by (simp add: hold_ty_def)
    with tk(2) obtain t' where "r_types (reg d1) i = Some t'" by fastforce
    with tk(1) show ?thesis by auto
  qed
  then have ex: "obj_types d1 i \<noteq> None" if "ty = Some i" for i using that by auto
  note cr = create_object_internal_ok [OF ty(1) ex c]
  have objs: "r_objs (reg d1) = r_objs (reg d)"
    using ty(2) by (cases ty) (auto simp del: reg_sel)
  have "st_wf H K d3 \<and> (case x of None \<Rightarrow> reg d3 = reg d
      | Some oid \<Rightarrow> reg d3 = r_fresh oid ty (reg d1) \<and> oid \<notin> r_objs (reg d) \<and>
          UBUS_SYSTEM_OBJECT_MAX \<le> oid)"
  proof (cases ty)
    case None
    with cr ty objs show ?thesis
      by (cases x) (auto simp: d3_def hold_ty_def r_create_def r_fresh_def Let_def simp del: reg_sel)
  next
    case (Some i)
    obtain t' where t': "r_types (reg d1) i = Some t'" "0 < ty_refcount t'" using held [OF Some] by auto
    have types2: "r_types (reg d2) i \<noteq> None"
      using cr(2) t' Some by (cases x) (simp_all add: r_create_def r_ref_type_def Let_def del: reg_sel)
    then have "obj_types d2 i \<noteq> None" by simp
    note u = unref_object_type_ok [OF this]
    have d3: "d3 = ubus_unref_object_type i d2" using Some by (simp add: d3_def)
    have "reg_wf (K(i := K i + 1)) (reg d2)" using cr(1) Some by (simp add: st_wf_def hold_ty_def)
    then have "st_wf H K d3"
      using r_unref_wf u st_wfD(1) [OF cr(1)] by (simp add: st_wf_def d3)
    moreover have "reg d3 = (case x of None \<Rightarrow> reg d | Some oid \<Rightarrow> r_fresh oid ty (reg d1))"
      using cr(2) ty(2) Some u(1) r_unref_create [OF t'] by (cases x) (simp_all add: d3 del: reg_sel)
    ultimately show ?thesis
      using cr(2) objs by (cases x) (simp_all del: reg_sel)
  qed
  then show "st_wf H K d3" and "case x of None \<Rightarrow> reg d3 = reg d
      | Some oid \<Rightarrow> reg d3 = r_fresh oid ty (reg d1) \<and> oid \<notin> r_objs (reg d) \<and>
          UBUS_SYSTEM_OBJECT_MAX \<le> oid" by simp_all
qed

lemma attach_ok:
  assumes wf: "st_wf H K d" and ob: "objects d oid = Some ob" "obj_client ob = None"
    and cl: "clients (net d) cl = Some c"
  defines "d' \<equiv> on_net (upd_client cl (\<lambda>c. c\<lparr>cl_objects := oid # cl_objects c\<rparr>))
      (upd_obj oid (\<lambda>ob. ob\<lparr>obj_client := Some cl\<rparr>) d)"
  shows "reg d' = r_attach cl oid (reg d)" and "st_wf H K d'"
proof -
  note w = st_wfD [OF wf]
  let ?d1 = "upd_obj oid (\<lambda>ob. ob\<lparr>obj_client := Some cl\<rparr>) d"
  have n1: "net ?d1 = net d" using ob by simp
  have r1: "reg ?d1 = (reg d)\<lparr>r_owner := (r_owner (reg d))(oid := Some cl)\<rparr>"
    by (rule reg_upd_obj(6) [OF ob(1)])
  have c1: "clients (net ?d1) cl = Some c" using cl n1 by simp
  show r': "reg d' = r_attach cl oid (reg d)"
    unfolding d'_def reg_upd_owned [OF c1] r1 by (simp add: r_attach_def)
  have "reg_wf K (reg d')"
    unfolding r' by (rule r_attach_wf [OF w(2)]) (use ob cl in \<open>auto simp: obj_field_def\<close>)
  moreover have "net_wf H (net d')"
    using net_wf_upd_client [OF w(1) cl, of "\<lambda>c. c\<lparr>cl_objects := oid # cl_objects c\<rparr>"] n1
    by (simp add: d'_def client_refs_def)
  ultimately show "st_wf H K d'" by (simp add: st_wf_def)
qed

text \<open>The access check depends on the registry only.\<close>

lemma cl_base_fields:
  assumes "cl_base c' = cl_base c"
  shows "cl_uid c' = cl_uid c" "cl_gid c' = cl_gid c" "cl_extra_gid c' = cl_extra_gid c"
    "cl_user c' = cl_user c" "cl_group c' = cl_group c" "cl_retmsg c' = cl_retmsg c"
    "cl_cmd_queue c' = cl_cmd_queue c" "cl_pending_msg c' = cl_pending_msg c"
  using assms by (cases c; cases c'; simp add: cl_base_def cl_core_def)+

lemma acl_scan_cong:
  assumes "cl_base c' = cl_base c"
  shows "acl_scan c' name method ty m t = acl_scan c name method ty m t"
proof -
  have cred: "ubusd_acl_match_cred c' a = ubusd_acl_match_cred c a" for a
    using cl_base_fields [OF assms] by (simp add: ubusd_acl_match_cred_def)
  show ?thesis
  proof (induction t arbitrary: m)
    case (Cons ka t)
    then show ?case by (cases ka) (simp add: cred Let_def split: prod.split)
  qed simp
qed

lemma acl_check_cong:
  assumes "r_acls (reg d') = r_acls (reg d)" and "r_client (reg d') cl = r_client (reg d) cl"
  shows "ubusd_acl_check d' (client_of d' (Some cl)) name method ty =
    ubusd_acl_check d (client_of d (Some cl)) name method ty"
proof (cases "clients (net d) cl")
  case None
  with assms show ?thesis
    by (simp add: ubusd_acl_check_def client_of_def)
next
  case (Some c)
  with assms(2) obtain c' where c': "clients (net d') cl = Some c'" and eq: "cl_base c' = cl_base c"
    by auto
  note acl_scan_cong [OF eq, of _ _ _ 0 "ubusd_acls d"]
  with Some c' cl_base_fields(1) [OF eq] assms(1) show ?thesis
    by (cases name) (simp_all add: ubusd_acl_check_def client_of_def)
qed

lemma create_object_ok:
  assumes wf: "st_wf H K d" and E: "avl_law E" and cl: "clients (net d) cl = Some c"
    and r: "ubusd_create_object E cl attr d = (x, d')"
  shows "st_wf H K d'"
    and "case x of None \<Rightarrow> reg d' = reg d
      | Some oid \<Rightarrow> oid \<notin> r_objs (reg d) \<and> UBUS_SYSTEM_OBJECT_MAX \<le> oid \<and>
          (\<exists>ty T. reg d' = r_attach cl oid
             ((case attr UBUS_ATTR_OBJPATH of None \<Rightarrow> (\<lambda>r. r)
               | Some pa \<Rightarrow> r_publish E oid (blob_str E pa)) (r_fresh oid ty ((reg d)\<lparr>r_types := T\<rparr>)))) \<and>
          (\<forall>pa. attr UBUS_ATTR_OBJPATH = Some pa \<longrightarrow>
             ubusd_acl_check d (client_of d (Some cl)) (Some (blob_str E pa)) None UBUS_ACL_PUBLISH = 0 \<and>
             blob_str E pa \<notin> fst ` set (path d))"
proof -
  obtain ty d1 where t: "obj_type_of_attrs E attr d = (ty, d1)" by fastforce
  obtain y d2 where c2: "ubusd_create_object_internal E ty 0 d1 = (y, d2)" by fastforce
  define d3 where "d3 = (case ty of None \<Rightarrow> d2 | Some tid \<Rightarrow> ubus_unref_object_type tid d2)"
  have eq: "ubusd_create_object E cl attr d =
      (case y of None \<Rightarrow> (None, d3)
       | Some oid \<Rightarrow>
           (case (case attr UBUS_ATTR_OBJPATH of None \<Rightarrow> (True, d3)
                  | Some pa \<Rightarrow> obj_publish E cl oid (blob_str E pa) d3) of
              (False, d) \<Rightarrow> (None, ubusd_free_object E oid d)
            | (True, d) \<Rightarrow>
                let d = upd_obj oid (\<lambda>ob. ob\<lparr>obj_client := Some cl\<rparr>) d
                in (Some oid, on_net (upd_client cl (\<lambda>c. c\<lparr>cl_objects := oid # cl_objects c\<rparr>)) d)))"
    by (simp only: ubusd_create_object_def t c2 prod.case Let_def d3_def)
  note ty = obj_type_of_attrs_ok [OF wf t]
  note st = create_object_start [OF wf t c2, folded d3_def]
  let ?Q = "case x of None \<Rightarrow> reg d' = reg d
      | Some oid \<Rightarrow> oid \<notin> r_objs (reg d) \<and> UBUS_SYSTEM_OBJECT_MAX \<le> oid \<and>
          (\<exists>ty T. reg d' = r_attach cl oid
             ((case attr UBUS_ATTR_OBJPATH of None \<Rightarrow> (\<lambda>r. r)
               | Some pa \<Rightarrow> r_publish E oid (blob_str E pa)) (r_fresh oid ty ((reg d)\<lparr>r_types := T\<rparr>)))) \<and>
          (\<forall>pa. attr UBUS_ATTR_OBJPATH = Some pa \<longrightarrow>
             ubusd_acl_check d (client_of d (Some cl)) (Some (blob_str E pa)) None UBUS_ACL_PUBLISH = 0 \<and>
             blob_str E pa \<notin> fst ` set (path d))"
  have "st_wf H K d' \<and> ?Q"
  proof (cases y)
    case None
    then have "x = None" "d' = d3" using r eq by simp_all
    with st None show ?thesis by simp
  next
    case (Some oid)
    obtain T where T: "reg d1 = (reg d)\<lparr>r_types := T\<rparr>"
      using ty(2) by (cases ty) (auto simp: reg_def)
    have new: "oid \<notin> r_objs (reg d)" and sys: "UBUS_SYSTEM_OBJECT_MAX \<le> oid"
      and r3: "reg d3 = r_fresh oid ty ((reg d)\<lparr>r_types := T\<rparr>)"
      using st(2) Some T by simp_all
    have "oid \<in> r_objs (reg d3)" "r_owner (reg d3) oid = None" "r_pathof (reg d3) oid = None"
      using owners_okD(4,5) [OF reg_wfD(1) [OF st_wfD(2) [OF wf]] new] by (simp_all add: r3 r_fresh_def del: reg_sel)
    then obtain ob where ob: "objects d3 oid = Some ob" "obj_client ob = None" "obj_path ob = None"
      by (auto simp: obj_field_def)
    obtain ok d4 where p: "(case attr UBUS_ATTR_OBJPATH of None \<Rightarrow> (True, d3)
        | Some pa \<Rightarrow> obj_publish E cl oid (blob_str E pa) d3) = (ok, d4)" by fastforce
    have wf4: "st_wf H K d4"
      using p st(1) publish_ok(1) [OF st(1) E ob(1,3)] by (auto split: option.splits)
    have fail: "reg d4 = reg d3" if "\<not> ok"
      using p that publish_ok(2) [OF st(1) E ob(1,3)] by (auto split: option.splits)
    have r4: "reg d4 = (case attr UBUS_ATTR_OBJPATH of None \<Rightarrow> (\<lambda>r. r)
        | Some pa \<Rightarrow> r_publish E oid (blob_str E pa)) (reg d3)" if ok
      using p that publish_ok(2) [OF st(1) E ob(1,3)] by (auto split: option.splits)
    show ?thesis
    proof (cases ok)
      case False
      then have d': "x = None" "d' = ubusd_free_object E oid d4"
        using r eq Some p by simp_all
      have "objects d4 oid \<noteq> None"
        using reg_objects [OF fail [OF False], of oid] ob by simp
      note fr = free_object_ok [OF wf4 this, of E]
      have w1: "reg_wf (hold_ty ty K) (reg d1)" by (rule st_wfD(2) [OF ty(1)])
      have n1: "oid \<notin> r_objs (reg d1)" using new by (simp add: T del: reg_sel)
      have "objects d1 oid = None" using n1 by auto
      then have "r_recv (reg d1) oid = None" by (simp add: obj_field_def)
      from r_remove_fresh [OF w1 n1 this, of ty] fr(1) fail [OF False] r3 ty(2) T
      have "reg d' = reg d" by (cases ty) (simp_all add: d' del: reg_sel)
      with fr(2) d' show ?thesis by simp
    next
      case True
      have "r_client (reg d4) cl = r_client (reg d) cl" "r_owner (reg d4) oid = None" "oid \<in> r_objs (reg d4)"
        using r4 [OF True] r3 owners_okD(4) [OF reg_wfD(1) [OF st_wfD(2) [OF wf]] new]
        by (auto simp: r_fresh_def r_publish_def simp del: reg_sel split: option.splits)
      then obtain ob4 c4 where o4: "objects d4 oid = Some ob4" "obj_client ob4 = None"
        and c4: "clients (net d4) cl = Some c4"
        using cl by (auto simp: obj_field_def)
      have d': "x = Some oid" "d' = on_net (upd_client cl (\<lambda>c. c\<lparr>cl_objects := oid # cl_objects c\<rparr>))
          (upd_obj oid (\<lambda>ob. ob\<lparr>obj_client := Some cl\<rparr>) d4)"
        using r eq Some p True by simp_all
      note at = attach_ok [OF wf4 o4 c4, folded d'(2)]
      have acl: "ubusd_acl_check d (client_of d (Some cl)) (Some (blob_str E pa)) None UBUS_ACL_PUBLISH = 0 \<and>
             blob_str E pa \<notin> fst ` set (path d)" if "attr UBUS_ATTR_OBJPATH = Some pa" for pa
      proof -
        have "obj_publish E cl oid (blob_str E pa) d3 = (True, d4)" using p that True by simp
        note pb = publish_ok(3) [OF st(1) E ob(1,3) this TrueI]
        have "r_acls (reg d3) = r_acls (reg d)" "r_client (reg d3) cl = r_client (reg d) cl"
          "r_path (reg d3) = r_path (reg d)"
          by (simp_all add: r3 r_fresh_def del: reg_sel)
        with pb acl_check_cong [of d3 d cl] show ?thesis by simp
      qed
      show ?thesis
        using at r4 [OF True] r3 new sys acl d'(1) by (auto simp del: reg_sel)
    qed
  qed
  then show "st_wf H K d'" and ?Q by simp_all
qed

end
