(* ===== verification/Ubusd_Frame.thy ===== *)
theory Ubusd_Frame
  imports Ubusd_Obj_Create
begin

text \<open>
  What the operations leave alone: \<open>keeps S n n'\<close> says that between two states of the transport
  layer no address is handed out twice and every buffer that existed before is as it was, but
  for those in \<open>S\<close>. The operations of the registry only touch buffers they create.
\<close>

definition keeps :: "addr set \<Rightarrow> net \<Rightarrow> net \<Rightarrow> bool" where
  "keeps S n n' \<longleftrightarrow>
     next_addr n \<le> next_addr n' \<and> (\<forall>a < next_addr n. a \<notin> S \<longrightarrow> bufs n' a = bufs n a)"

lemma keeps_refl [simp, intro]: "keeps S n n"
  by (simp add: keeps_def)

lemma keeps_trans [trans]: "keeps S n n' \<Longrightarrow> keeps S n' n'' \<Longrightarrow> keeps S n n''"
  by (auto simp: keeps_def)

lemma keeps_mono: "keeps S n n' \<Longrightarrow> S \<subseteq> S' \<Longrightarrow> keeps S' n n'"
  by (auto simp: keeps_def)

lemma keeps_empty: "keeps {} n n' \<Longrightarrow> keeps S n n'"
  by (simp add: keeps_def)

lemma keepsD: "keeps S n n' \<Longrightarrow> a < next_addr n \<Longrightarrow> a \<notin> S \<Longrightarrow> bufs n' a = bufs n a"
  by (simp add: keeps_def)

lemma keeps_next: "keeps S n n' \<Longrightarrow> next_addr n \<le> next_addr n'"
  by (simp add: keeps_def)

lemma keeps_same: "bufs n' = bufs n \<Longrightarrow> next_addr n' = next_addr n \<Longrightarrow> keeps S n n'"
  by (simp add: keeps_def)

lemma keeps_bufs_frame: "bufs_frame ub n n' \<Longrightarrow> keeps {ub} n n'"
  by (auto simp: keeps_def bufs_frame_def)

lemma keeps_upd_client [simp]: "keeps S n (upd_client cl f n)"
  by (rule keeps_same) simp_all

lemma keeps_set_fault [simp]: "keeps S n (set_fault n)"
  by (rule keeps_same) (simp_all add: set_fault_def)

lemma keeps_close_fd [simp]: "keeps S n (close_fd fd n)"
  by (rule keeps_same) (simp_all add: close_fd_def)

lemma keeps_rnd [simp]: "keeps S n (n\<lparr>rnd := x\<rparr>)"
  by (rule keeps_same) simp_all

lemma keeps_calloc: "calloc E n = (r, n') \<Longrightarrow> keeps S n n'"
  using bufs_calloc [of E n r n'] by (auto intro: keeps_same)

lemma keeps_upd_buf: "ub \<in> S \<or> next_addr n \<le> ub \<Longrightarrow> keeps S n (upd_buf ub f n)"
  by (auto simp: keeps_def upd_buf_def set_fault_def split: option.splits)

lemma keeps_free: "ub \<in> S \<or> next_addr n \<le> ub \<Longrightarrow> keeps S n (ubus_msg_free ub n)"
  by (auto simp: keeps_def intro!: bufs_frame_free)

lemma keeps_free_one: "keeps {ub} n (ubus_msg_free ub n)"
  by (rule keeps_free) simp

lemma keeps_msg_new: "ubus_msg_new E data l s n = (r, n') \<Longrightarrow> keeps S n n'"
  by (auto simp: ubus_msg_new_def calloc_def keeps_def Let_def split: if_splits)

lemma keeps_msg_new_addr:
  "ubus_msg_new E data l s n = (Some ub, n') \<Longrightarrow> ub = next_addr n \<and> keeps S n n'"
  using ubus_msg_new_Some(1) keeps_msg_new by blast

text \<open>Work on a buffer that is new since \<open>n0\<close>.\<close>

lemma keeps_new:
  assumes "keeps S n0 n" and "keeps {ub} n n'" and "next_addr n0 \<le> ub"
  shows "keeps S n0 n'"
  using assms by (auto simp: keeps_def)

lemma keeps_monitor_loop: "keeps {ub} n (snd (monitor_loop E ub ms n))"
proof (induction ms arbitrary: n)
  case (Cons m ms)
  let ?n1 = "upd_buf ub (\<lambda>b. b\<lparr>ub_hdr := (ub_hdr b)\<lparr>hdr_seq := mon_seq m + 1\<rparr>\<rparr>) n"
  let ?n2 = "ubus_msg_xmit E (mon_cl m) ub (log_mon (mon_cl m) ub ?n1)"
  have "keeps {ub} n ?n1" by (rule keeps_upd_buf) simp
  also have "keeps {ub} ?n1 (log_mon (mon_cl m) ub ?n1)" by (rule keeps_same) simp_all
  also have "keeps {ub} (log_mon (mon_cl m) ub ?n1) ?n2" by (rule keeps_bufs_frame [OF bufs_frame_xmit])
  also have "keeps {ub} ?n2 (snd (monitor_loop E ub ms ?n2))" by (rule Cons.IH)
  finally show ?case by (simp add: Let_def case_prod_unfold)
qed simp

lemma keeps_monitor_message: "keeps S n (ubusd_monitor_message E cl ub send n)"
proof (cases "monitors n = [] \<or> bufs n ub = None")
  case False
  then obtain b where b: "bufs n ub = Some b" and ne: "monitors n \<noteq> []" by auto
  let ?data = "Built (mon_attrs E cl b send)"
  obtain r n1 where new: "ubus_msg_new E ?data (blob_raw_len E ?data) True n = (r, n1)" by fastforce
  show ?thesis
  proof (cases r)
    case None
    with b ne new show ?thesis
      by (simp add: ubusd_monitor_message_def Let_def keeps_msg_new)
  next
    case (Some mub)
    note m = keeps_msg_new_addr [OF new [unfolded Some], of S]
    let ?n2 = "upd_buf mub (\<lambda>b. b\<lparr>ub_hdr := (ub_hdr b)\<lparr>hdr_type := ubus_msg_code UBUS_MSG_MONITOR\<rparr>\<rparr>) n1"
    let ?r = "monitor_loop E mub (monitors ?n2) ?n2"
    have "keeps {mub} n1 ?n2" by (rule keeps_upd_buf) simp
    also have "keeps {mub} ?n2 (snd ?r)" by (rule keeps_monitor_loop)
    also have "keeps {mub} (snd ?r) ((snd ?r)\<lparr>monitors := fst ?r\<rparr>)" by (rule keeps_same) simp_all
    also have "keeps {mub} ((snd ?r)\<lparr>monitors := fst ?r\<rparr>)
        (ubus_msg_free mub ((snd ?r)\<lparr>monitors := fst ?r\<rparr>))" by (rule keeps_free_one)
    finally have "keeps S n (ubus_msg_free mub ((snd ?r)\<lparr>monitors := fst ?r\<rparr>))"
      using m by (auto intro: keeps_new)
    with b ne new Some show ?thesis
      by (simp add: ubusd_monitor_message_def Let_def case_prod_unfold)
  qed
qed (auto simp: ubusd_monitor_message_def)

lemma keeps_send: "keeps {ub} n (ubus_msg_send E cl ub n)"
proof -
  have l: "keeps {ub} n (log_sent cl b n)" for b by (rule keeps_same) simp_all
  have w: "keeps {ub} n' (ubus_msg_write E cl ub n')" for n'
    by (rule keeps_bufs_frame [OF bufs_frame_write])
  note mw = keeps_trans [OF keeps_monitor_message w]
  show ?thesis
    using keeps_trans [OF l w] keeps_trans [OF l mw] l
    by (auto simp: ubus_msg_send_def Let_def split: option.splits)
qed

lemma keeps_new_send_free:
  assumes "ubus_msg_from_blob E attrs s n = (Some ub, n1)"
  shows "keeps S n (ubus_msg_free ub (ubus_msg_send E cl ub (upd_buf ub f n1)))"
proof -
  note m = keeps_msg_new_addr [OF assms [unfolded ubus_msg_from_blob_def], of S]
  have "keeps {ub} n1 (upd_buf ub f n1)" by (rule keeps_upd_buf) simp
  also note keeps_send
  also note keeps_free_one
  finally show ?thesis using m by (auto intro: keeps_new)
qed

lemma keeps_from_blob: "ubus_msg_from_blob E attrs s n = (r, n') \<Longrightarrow> keeps S n n'"
  unfolding ubus_msg_from_blob_def by (rule keeps_msg_new)

lemma keeps_send_new: "send_new E cl attrs s ty seq peer n = (r, n') \<Longrightarrow> keeps S n n'"
  by (auto simp: send_new_def intro: keeps_from_blob keeps_new_send_free split: option.splits prod.splits)

lemma keeps_close: "keeps {ub} n (ubus_msg_close_fd ub n)"
proof -
  have "keeps {ub} n (upd_buf ub f (close_fd fd n))" for f fd
    using keeps_trans [OF keeps_close_fd keeps_upd_buf] by blast
  then show ?thesis by (simp add: ubus_msg_close_fd_def split: option.splits)
qed

lemma keeps_send_msg_from_blob: "keeps S n (ubus_proto_send_msg_from_blob E cl ub attrs ty n)"
proof (cases "bufs n ub")
  case (Some b)
  obtain r n1 where x: "ubus_msg_from_blob E attrs True n = (r, n1)" by fastforce
  show ?thesis
  proof (cases r)
    case None
    with Some x keeps_trans [OF keeps_from_blob [OF x] keeps_close_fd, of S "ub_fd b"]
      keeps_from_blob [OF x] show ?thesis
      by (simp add: ubus_proto_send_msg_from_blob_def ubus_reply_from_blob_def Let_def)
  next
    case (Some new)
    note m = keeps_msg_new_addr [OF x [unfolded Some ubus_msg_from_blob_def], of S]
    have u: "keeps {new} n' (upd_buf new f n')" for f n' by (rule keeps_upd_buf) simp
    note uf = keeps_trans [OF u keeps_trans [OF keeps_send keeps_free_one]]
    have "keeps {new} n1 (ubus_msg_free new (ubus_msg_send E cl new (upd_buf new f (upd_buf new g n1))))"
      and "keeps {new} n1 (ubus_msg_free new (ubus_msg_send E cl new (upd_buf new f (set_fault n1))))"
      for f g
      using keeps_trans [OF u uf] keeps_trans [OF keeps_set_fault uf] by blast+
    then have "keeps S n (ubus_msg_free new (ubus_msg_send E cl new (upd_buf new f (upd_buf new g n1))))"
      and "keeps S n (ubus_msg_free new (ubus_msg_send E cl new (upd_buf new f (set_fault n1))))" for f g
      using m by (auto intro: keeps_new)
    with \<open>bufs n ub = Some b\<close> x Some show ?thesis
      by (simp add: ubus_proto_send_msg_from_blob_def ubus_reply_from_blob_def Let_def split: option.splits)
  qed
qed (simp add: ubus_proto_send_msg_from_blob_def)

section \<open>Operations of the daemon\<close>

lemma keeps_dfault [simp]: "keeps S (net d) (net (dfault d))"
  by (simp add: dfault_def)

lemma keeps_upd_obj [simp]: "keeps S (net d) (net (upd_obj oid f d))"
  by (simp add: upd_obj_def split: option.splits)

lemma keeps_upd_type [simp]: "keeps S (net d) (net (upd_type tid f d))"
  by (simp add: upd_type_def split: option.splits)

lemma keeps_calloc_node: "calloc_node E d = (r, d') \<Longrightarrow> keeps S (net d) (net d')"
  by (auto simp: calloc_node_def intro: keeps_calloc split: prod.splits bool.splits)

lemma keeps_fold:
  assumes "\<And>x d. keeps S (net d) (net (f x d))"
  shows "keeps S (net d) (net (fold f xs d))"
proof (induction xs arbitrary: d)
  case (Cons x xs)
  show ?case using keeps_trans [OF assms Cons.IH] by simp
qed simp

text \<open>The event message is new since the loop started.\<close>

definition event_kept :: "net \<Rightarrow> ubus_msg_status \<times> addr option \<times> daemon \<Rightarrow> bool" where
  "event_kept n0 = (\<lambda>(r, ub, d). keeps {} n0 (net d) \<and> (\<forall>u. ub = Some u \<longrightarrow> next_addr n0 \<le> u))"

lemma keeps_event_fill:
  assumes "event_fill E attrs ub n = (Some u, n')" and "keeps {} n0 n"
    and "\<forall>u. ub = Some u \<longrightarrow> next_addr n0 \<le> u"
  shows "keeps {} n0 n'" and "next_addr n0 \<le> u"
proof -
  have "keeps {} n0 n' \<and> next_addr n0 \<le> u"
  proof (cases ub)
    case None
    then obtain n1 f where new: "ubus_msg_new E (Built attrs) (blob_raw_len E (Built attrs)) True n = (Some u, n1)"
      and n': "n' = upd_buf u f n1"
      using assms(1) by (auto simp: event_fill_def split: prod.splits option.splits)
    note m = keeps_msg_new_addr [OF new, of "{}"]
    have "next_addr n0 \<le> u" using keeps_next [OF assms(2)] m by simp
    moreover have "keeps {u} n1 n'" unfolding n' by (rule keeps_upd_buf) simp
    ultimately show ?thesis
      using keeps_new [OF keeps_trans [OF assms(2)]] m by blast
  qed (use assms in \<open>simp add: event_fill_def\<close>)
  then show "keeps {} n0 n'" and "next_addr n0 \<le> u" by simp_all
qed

lemma keeps_event_fill_None:
  "event_fill E attrs ub n = (None, n') \<Longrightarrow> keeps S n n'"
  by (auto simp: event_fill_def intro: keeps_msg_new split: option.splits prod.splits)

lemma event_kept_msg:
  assumes "event_kept n0 (r, ub, d)"
  shows "event_kept n0 (ubusd_send_event_msg E cl attrs oid (ub, d))"
proof -
  let ?d1 = "upd_obj oid (\<lambda>ob. ob\<lparr>obj_event_seen := obj_event_seq d\<rparr>) d"
  have k: "keeps {} n0 (net d)" and u: "\<forall>u. ub = Some u \<longrightarrow> next_addr n0 \<le> u"
    using assms by (simp_all add: event_kept_def)
  have k1: "keeps {} n0 (net ?d1)" by (rule keeps_trans [OF k]) simp
  obtain r1 n1 where f: "event_fill E attrs ub (net ?d1) = (r1, n1)" by fastforce
  show ?thesis
  proof (cases r1)
    case None
    with k k1 u f keeps_trans [OF k1 keeps_event_fill_None [OF f [unfolded None]]] keeps_trans [OF k keeps_dfault]
    show ?thesis
      by (auto simp: ubusd_send_event_msg_def event_kept_def Let_def split: option.splits)
  next
    case (Some x)
    note g = keeps_event_fill [OF f [unfolded Some] k1 u]
    have u2: "keeps {x} n (upd_buf x h n)" for h n by (rule keeps_upd_buf) simp
    note v = keeps_new [OF g(1) u2 g(2)]
    have "keeps {} n0 (set_fault (upd_buf x h n1))" "keeps {} n0 (ubus_msg_send E c x (upd_buf x h n1))" for h c
      using keeps_trans [OF v keeps_set_fault] keeps_new [OF v keeps_send g(2)] by blast+
    with k u f Some g(2) keeps_trans [OF k keeps_dfault] show ?thesis
      by (auto simp: ubusd_send_event_msg_def event_kept_def Let_def split: option.splits)
  qed
qed

lemma event_kept_loop: "event_kept n0 s \<Longrightarrow> event_kept n0 (event_loop E cl ident attrs m t s)"
proof (induction t arbitrary: m s)
  case (Cons kv t)
  obtain r ub d where s: "s = (r, ub, d)" by (cases s)
  have "event_kept n0 (ubusd_send_event_msg E cl attrs (ev_obj (snd kv)) (snd s))"
    unfolding s snd_conv by (rule event_kept_msg) (use Cons.prems s in simp)
  with Cons show ?case
    by (cases kv) (simp add: Let_def case_prod_unfold)
qed simp

lemma keeps_send_event: "keeps {} (net d) (net (snd (ubusd_send_event E cl ident attrs d)))"
proof -
  have "keeps {} (net d) (net d') \<and> keeps {} (net d) (ubus_msg_free u (net d'))"
    if "event_loop E cl ident attrs 0 t (UBUS_STATUS_OK, None, d\<lparr>obj_event_seq := q\<rparr>) = (r, Some u, d')"
    for q r u d' t
  proof -
    have "event_kept (net d) (r, Some u, d')"
      unfolding that [symmetric] by (rule event_kept_loop) (simp add: event_kept_def)
    then have k: "keeps {} (net d) (net d')" and u: "next_addr (net d) \<le> u" by (simp_all add: event_kept_def)
    show ?thesis using k keeps_new [OF k keeps_free_one u] by simp
  qed
  moreover have "keeps {} (net d) (net d')"
    if "event_loop E cl ident attrs 0 t (UBUS_STATUS_OK, None, d\<lparr>obj_event_seq := q\<rparr>) = (r, None, d')"
    for q r d' t
  proof -
    have "event_kept (net d) (r, None, d')"
      unfolding that [symmetric] by (rule event_kept_loop) (simp add: event_kept_def)
    then show ?thesis by (simp add: event_kept_def)
  qed
  ultimately show ?thesis
    by (auto simp: ubusd_send_event_def Let_def split: option.splits prod.splits)
qed

lemma keeps_send_event_any [simp]: "keeps S (net d) (net (snd (ubusd_send_event E cl ident attrs d)))"
  by (rule keeps_empty [OF keeps_send_event])

lemma keeps_send_obj_event [simp]: "keeps S (net d) (net (ubusd_send_obj_event E oid add d))"
  by (simp add: ubusd_send_obj_event_def Let_def split: option.splits)

lemma keeps_notify_subscription [simp]: "keeps S (net d) (net (ubus_notify_subscription E oid d))"
proof -
  have "keeps S (net d) (net (upd_obj oid f (d\<lparr>net := n\<rparr>)))" if "keeps S (net d) n" for f n
    using keeps_trans [OF that, of "net (upd_obj oid f (d\<lparr>net := n\<rparr>))"] keeps_upd_obj [of S "d\<lparr>net := n\<rparr>"]
    by simp
  then show ?thesis
    by (auto simp: ubus_notify_subscription_def Let_def dest: keeps_send_new
        split: option.splits prod.splits bool.splits)
qed

lemma keeps_unsubscribe [simp]: "keeps S (net d) (net (ubus_unsubscribe E a d))"
proof (cases "subs d a")
  case (Some s)
  let ?d1 = "upd_obj (sub_target s) (\<lambda>ob. ob\<lparr>obj_subscribers := remove1 a (obj_subscribers ob)\<rparr>) d"
  let ?d2 = "upd_obj (sub_subscriber s) (\<lambda>ob. ob\<lparr>obj_target_list := remove1 a (obj_target_list ob)\<rparr>) ?d1"
  let ?d3 = "?d2\<lparr>subs := (subs ?d2)(a := None)\<rparr>"
  have k: "keeps S (net d) (net ?d3)"
    using keeps_trans [OF keeps_upd_obj keeps_upd_obj] by simp
  have "ubus_unsubscribe E a d = (case objects ?d3 (sub_target s) of None \<Rightarrow> dfault ?d3
      | Some ob \<Rightarrow> if obj_subscribers ob = [] then ubus_notify_subscription E (sub_target s) ?d3 else ?d3)"
    by (simp only: ubus_unsubscribe_def Some option.simps Let_def)
  then show ?thesis
    using k keeps_trans [OF k keeps_dfault [of S ?d3]]
      keeps_trans [OF k keeps_notify_subscription [of S ?d3 E "sub_target s"]]
    by (simp split: option.splits del: objects_upd_obj fields_upd_obj)
qed (simp add: ubus_unsubscribe_def)

lemma keeps_set_net: "keeps S (net d) n \<Longrightarrow> (\<And>d. keeps S (net d) (net (f d))) \<Longrightarrow>
    keeps S (net d) (net (f (d\<lparr>net := n\<rparr>)))"
  using keeps_trans [of S "net d" n] by (metis daemon.select_convs(1) daemon.surjective daemon.update_convs(1))

lemma keeps_notify_unsubscribe [simp]: "keeps S (net d) (net (ubus_notify_unsubscribe E a d))"
proof -
  have u: "keeps S (net d) (net (ubus_unsubscribe E a (upd_obj oid f d)))" for oid f d
    by (rule keeps_trans [OF keeps_upd_obj keeps_unsubscribe])
  have v: "keeps S (net d) (net (ubus_unsubscribe E a (d\<lparr>net := n\<rparr>)))"
    "keeps S (net d) (net (ubus_unsubscribe E a (upd_obj oid f (d\<lparr>net := n\<rparr>))))"
    if "keeps S (net d) n" for n oid f
    using keeps_set_net [OF that, of "ubus_unsubscribe E a"]
      keeps_set_net [OF that, of "\<lambda>d. ubus_unsubscribe E a (upd_obj oid f d)"] u by simp_all
  show ?thesis
    by (auto simp: ubus_notify_unsubscribe_def Let_def intro!: v elim: keeps_send_new
        split: option.splits prod.splits bool.splits)
qed

lemma keeps_event_cleanup [simp]: "keeps S (net d) (net (ubusd_event_cleanup_object oid d))"
proof -
  have d: "keeps S (net d) (net (ubusd_delete_event_source ev d))" for ev d
    by (simp add: ubusd_delete_event_source_def Let_def)
  have "keeps S (net d) (net (event_cleanup_loop as d))" for as
  proof (induction as arbitrary: d)
    case (Cons a as)
    show ?case
      using keeps_trans [OF keeps_dfault Cons.IH] keeps_trans [OF d Cons.IH]
      by (simp split: option.splits)
  qed simp
  then show ?thesis by (simp add: ubusd_event_cleanup_object_def split: option.splits)
qed

lemma keeps_unref_type [simp]: "keeps S (net d) (net (ubus_unref_object_type tid d))"
  by (simp add: ubus_unref_object_type_def Let_def split: option.splits)

lemma keeps_on_net: "(\<And>n. keeps S n (f n)) \<Longrightarrow> keeps S (net d) (net (on_net f d))"
  by simp

lemma keeps_free_object [simp]: "keeps S (net d) (net (ubusd_free_object E oid d))"
proof -
  have u: "keeps S (net d) (net (obj_unpublish E oid ob d))" for ob d
    by (simp add: obj_unpublish_def Let_def split: option.splits)
  have l: "keeps S (net d) (net (obj_unlist oid ob d))" for ob d
    by (simp add: obj_unlist_def split: option.splits)
  let ?d1 = "fold (ubus_unsubscribe E) (obj_field [] obj_target_list d oid) d"
  let ?d2 = "fold (ubus_notify_unsubscribe E) (obj_field [] obj_subscribers ?d1 oid) ?d1"
  let ?d3 = "ubusd_event_cleanup_object oid ?d2"
  have "keeps S (net d) (net ?d1)" by (rule keeps_fold) simp
  also have "keeps S (net ?d1) (net ?d2)" by (rule keeps_fold) simp
  also have "keeps S (net ?d2) (net ?d3)" by simp
  finally have k: "keeps S (net d) (net ?d3)" .
  note k4 = keeps_trans [OF k keeps_trans [OF u l]]
  have "keeps S (net d) (net (ubus_unref_object_type tid (d4\<lparr>objects := x\<rparr>)))"
    if "keeps S (net d) (net d4)" for tid d4 x
    using keeps_trans [OF that, of "net (ubus_unref_object_type tid (d4\<lparr>objects := x\<rparr>))"]
      keeps_unref_type [of S "d4\<lparr>objects := x\<rparr>" tid] by simp
  with k k4 keeps_trans [OF k keeps_dfault] show ?thesis
    by (simp add: ubusd_free_object_def Let_def split: option.splits)
qed

lemma keeps_alloc_id: "ubus_alloc_id t v n = (r, n') \<Longrightarrow> keeps S n n'"
  by (auto dest!: ubus_alloc_id_net)

lemma keeps_subscribe: "ubus_subscribe E oid target d = (r, d') \<Longrightarrow> keeps S (net d) (net d')"
proof -
  have *: "keeps S (net d) (net (upd_obj oid g (upd_obj target f (d1\<lparr>subs := x\<rparr>))))"
    "keeps S (net d) (net (ubus_notify_subscription E target (upd_obj oid g (upd_obj target f (d1\<lparr>subs := x\<rparr>)))))"
    if "keeps S (net d) (net d1)" for f g x d1
  proof -
    have "keeps S (net d) (net (d1\<lparr>subs := x\<rparr>))" using that by simp
    also note keeps_upd_obj
    also note keeps_upd_obj
    finally show k: "keeps S (net d) (net (upd_obj oid g (upd_obj target f (d1\<lparr>subs := x\<rparr>))))" .
    show "keeps S (net d) (net (ubus_notify_subscription E target (upd_obj oid g (upd_obj target f (d1\<lparr>subs := x\<rparr>)))))"
      by (rule keeps_trans [OF k keeps_notify_subscription])
  qed
  assume "ubus_subscribe E oid target d = (r, d')"
  then show ?thesis
    by (auto simp: ubus_subscribe_def Let_def dest: keeps_calloc_node intro!: *
        split: option.splits prod.splits if_splits)
qed

lemma keeps_create_obj_method:
  "ubus_create_obj_method E tid attr d = (r, d') \<Longrightarrow> keeps S (net d) (net d')"
  by (auto simp: ubus_create_obj_method_def intro: keeps_calloc keeps_set_net [OF keeps_calloc keeps_upd_type]
      split: prod.splits bool.splits)

lemma keeps_obj_type_methods: "obj_type_methods E tid ms d = (r, d') \<Longrightarrow> keeps S (net d) (net d')"
proof (induction ms arbitrary: d)
  case (Cons m ms)
  then show ?case
    by (auto dest: keeps_create_obj_method [where S = S] intro: keeps_trans
        split: if_splits prod.splits bool.splits)
qed simp

lemma keeps_create_obj_type:
  assumes "ubus_create_obj_type E sig d = (r, d')"
  shows "keeps S (net d) (net d')"
proof -
  obtain ok n where c: "calloc E (net d) = (ok, n)" by fastforce
  note k = keeps_calloc [OF c, of S]
  obtain t n' where a: "ubus_alloc_id (obj_types d) 0 n = (t, n')" by fastforce
  note k' = keeps_trans [OF k keeps_alloc_id [OF a]]
  show ?thesis
  proof (cases "ok \<and> t \<noteq> None")
    case False
    with assms c a k k' show ?thesis
      by (auto simp: ubus_create_obj_type_def split: bool.splits option.splits)
  next
    case True
    then obtain tid where t: "t = Some tid" by auto
    let ?d = "d\<lparr>net := n', obj_types := (obj_types d)(tid \<mapsto> \<lparr>ty_refcount = 1, ty_methods = []\<rparr>)\<rparr>"
    obtain b d2 where m: "obj_type_methods E tid (table_fields (Some sig)) ?d = (b, d2)" by fastforce
    have "keeps S (net ?d) (net d2)" by (rule keeps_obj_type_methods [OF m])
    then have "keeps S (net d) (net d2)" using keeps_trans [OF k'] by simp
    with assms c a m True t keeps_trans [OF this keeps_unref_type] show ?thesis
      by (auto simp: ubus_create_obj_type_def Let_def split: bool.splits)
  qed
qed

lemma keeps_create_object_internal:
  assumes "ubusd_create_object_internal E ty v d = (r, d')"
  shows "keeps S (net d) (net d')"
proof -
  obtain ok n where c: "calloc E (net d) = (ok, n)" by fastforce
  note k = keeps_calloc [OF c, of S]
  obtain t n' where a: "ubus_alloc_id (objects d) v n = (t, n')" by fastforce
  note k' = keeps_trans [OF k keeps_alloc_id [OF a]]
  have "keeps S (net d) (net (upd_type tid f (d\<lparr>net := n', objects := x\<rparr>)))" for tid f x
    using keeps_trans [OF k', of "net (upd_type tid f (d\<lparr>net := n', objects := x\<rparr>))"]
      keeps_upd_type [of S "d\<lparr>net := n', objects := x\<rparr>" tid f] by simp
  with assms c a k k' show ?thesis
    by (auto simp: ubusd_create_object_internal_def Let_def split: bool.splits option.splits)
qed

lemma keeps_publish: "obj_publish E cl oid p d = (r, d') \<Longrightarrow> keeps S (net d) (net d')"
proof -
  have p: "keeps S (net d) (net (ubusd_send_obj_event E oid True
      ((upd_obj oid f (d\<lparr>net := n\<rparr>))\<lparr>path := x\<rparr>)))" if "keeps S (net d) n" for n f x
  proof -
    let ?d = "(upd_obj oid f (d\<lparr>net := n\<rparr>))\<lparr>path := x\<rparr>"
    have "keeps S (net d) (net ?d)" using keeps_set_net [OF that keeps_upd_obj] by simp
    also note keeps_send_obj_event
    finally show ?thesis .
  qed
  assume "obj_publish E cl oid p d = (r, d')"
  then show ?thesis
    by (auto simp: obj_publish_def Let_def intro: keeps_calloc p
        split: if_splits prod.splits bool.splits)
qed

lemma keeps_type_of_attrs: "obj_type_of_attrs E attr d = (r, d') \<Longrightarrow> keeps S (net d) (net d')"
  by (auto simp: obj_type_of_attrs_def ubus_get_obj_type_def intro: keeps_create_obj_type
      split: option.splits)

lemma keeps_create_object:
  assumes "ubusd_create_object E cl attr d = (r, d')"
  shows "keeps S (net d) (net d')"
proof -
  obtain ty d1 where t: "obj_type_of_attrs E attr d = (ty, d1)" by fastforce
  obtain ob d2 where i: "ubusd_create_object_internal E ty 0 d1 = (ob, d2)" by fastforce
  let ?d3 = "case ty of None \<Rightarrow> d2 | Some tid \<Rightarrow> ubus_unref_object_type tid d2"
  have "keeps S (net d) (net d1)" by (rule keeps_type_of_attrs [OF t])
  also have "keeps S (net d1) (net d2)" by (rule keeps_create_object_internal [OF i])
  also have "keeps S (net d2) (net ?d3)" by (simp split: option.splits)
  finally have k: "keeps S (net d) (net ?d3)" .
  show ?thesis
  proof (cases ob)
    case None
    with assms t i k show ?thesis by (simp add: ubusd_create_object_def Let_def)
  next
    case (Some oid)
    obtain b d4 where p: "(case attr UBUS_ATTR_OBJPATH of None \<Rightarrow> (True, ?d3)
        | Some pa \<Rightarrow> obj_publish E cl oid (blob_str E pa) ?d3) = (b, d4)" by fastforce
    have "keeps S (net ?d3) (net d4)"
      using p by (auto elim: keeps_publish split: option.splits)
    with k have k4: "keeps S (net d) (net d4)" by (rule keeps_trans)
    have "keeps S (net d) (net (on_net (upd_client cl f) (upd_obj oid g d4)))" for f g
      using keeps_trans [OF keeps_trans [OF k4 keeps_upd_obj] keeps_upd_client] by simp
    with k4 keeps_trans [OF k4 keeps_free_object] assms t i p Some show ?thesis
      by (auto simp: ubusd_create_object_def Let_def split: bool.splits)
  qed
qed

lemma keeps_event_recv:
  assumes "ubusd_event_recv E cl ub m msg d = (r, d')"
  shows "keeps S (net d) (net d')"
proof -
  have a: "keeps S (net d) (net d')" if "ubusd_alloc_event_pattern E cl msg d = (r, d')"
  proof -
    have u: "keeps S (net d) (net (upd_obj oid f d1))" if "keeps S (net d) (net d1)" for d1 oid f
      by (rule keeps_trans [OF that keeps_upd_obj])
    from that show ?thesis
      by (auto simp: ubusd_alloc_event_pattern_def Let_def dest!: keeps_calloc_node [where S = S] intro: u
          split: option.splits list.splits if_splits prod.splits)
  qed
  have f: "keeps S (net d) (net d')" if "ubusd_forward_event E cl msg d = (r, d')"
  proof -
    have "keeps S (net d) (net d')" if "ubusd_send_event E c i as d = (r, d')" for c i as
      using keeps_send_event_any [of S d E c i as] that by simp
    with that show ?thesis
      by (auto simp: ubusd_forward_event_def Let_def split: option.splits list.splits if_splits)
  qed
  from assms a f show ?thesis by (auto simp: ubusd_event_recv_def split: if_splits)
qed

end
