(* ===== verification/Ubusd_Monitor.thy ===== *)
theory Ubusd_Monitor
  imports Ubusd_Frame
begin

text \<open>
  The monitor object (src/ubusd_monitor.c): clients that receive a copy of every message. The
  copies themselves are made in theory \<open>Ubusd_Msg\<close> (\<open>ubusd_monitor_message\<close>), as every message
  that is sent passes there.
\<close>

section \<open>Definitions\<close>

definition ubusd_monitor_free :: "ubus_monitor \<Rightarrow> net \<Rightarrow> net" where
  "ubusd_monitor_free m n = n\<lparr>monitors := remove1 m (monitors n)\<rparr>"

definition ubusd_monitor_find :: "u32 \<Rightarrow> net \<Rightarrow> ubus_monitor option" where
  "ubusd_monitor_find cl n = find (\<lambda>m. mon_cl m = cl) (monitors n)"

definition ubusd_monitor_disconnect :: "u32 \<Rightarrow> net \<Rightarrow> net" where
  "ubusd_monitor_disconnect cl n =
     (case ubusd_monitor_find cl n of None \<Rightarrow> n | Some m \<Rightarrow> ubusd_monitor_free m n)"

definition ubusd_monitor_connect :: "env \<Rightarrow> u32 \<Rightarrow> net \<Rightarrow> bool \<times> net" where
  "ubusd_monitor_connect E cl n =
     (case calloc E (ubusd_monitor_disconnect cl n) of
        (False, n) \<Rightarrow> (False, n)
      | (True, n) \<Rightarrow> (True, n\<lparr>monitors := monitors n @ [\<lparr>mon_cl = cl, mon_seq = 0\<rparr>]\<rparr>))"

definition ubusd_monitor_recv ::
  "env \<Rightarrow> u32 \<Rightarrow> addr \<Rightarrow> string \<Rightarrow> blob_attr option \<Rightarrow> daemon \<Rightarrow> ubus_msg_status \<times> daemon" where
  "ubusd_monitor_recv E cl ub meth msg d =
     (case clients (net d) cl of
        None \<Rightarrow> (UBUS_STATUS_UNKNOWN_ERROR, dfault d)
      | Some c \<Rightarrow>
          if cl_uid c \<noteq> 0 \<or> cl_gid c \<noteq> 0 then (UBUS_STATUS_PERMISSION_DENIED, d)
          else if meth = ''add'' then
            (case ubusd_monitor_connect E cl (net d) of
               (False, n) \<Rightarrow> (UBUS_STATUS_UNKNOWN_ERROR, d\<lparr>net := n\<rparr>)
             | (True, n) \<Rightarrow> (UBUS_STATUS_OK, d\<lparr>net := n\<rparr>))
          else if meth = ''remove'' then
            (UBUS_STATUS_OK, on_net (ubusd_monitor_disconnect cl) d)
          else (UBUS_STATUS_METHOD_NOT_FOUND, d))"

text \<open>The objects of the daemon itself: created without a client and given a method handler.\<close>

definition init_internal :: "env \<Rightarrow> u32 \<Rightarrow> recv_msg \<Rightarrow> daemon \<Rightarrow> daemon" where
  "init_internal E ident h d =
     (case ubusd_create_object_internal E None ident d of
        (None, d) \<Rightarrow> d
      | (Some oid, d) \<Rightarrow> upd_obj oid (\<lambda>ob. ob\<lparr>obj_recv_msg := Some h\<rparr>) d)"

definition ubusd_monitor_init :: "env \<Rightarrow> daemon \<Rightarrow> daemon" where
  "ubusd_monitor_init E = init_internal E UBUS_SYSTEM_OBJECT_MONITOR Monitor_recv"

definition ubusd_event_init :: "env \<Rightarrow> daemon \<Rightarrow> daemon" where
  "ubusd_event_init E d =
     init_internal E UBUS_SYSTEM_OBJECT_EVENT Event_recv (d\<lparr>patterns := []\<rparr>)"

definition ubusd_acl_init :: "env \<Rightarrow> daemon \<Rightarrow> daemon" where
  "ubusd_acl_init E d =
     init_internal E UBUS_SYSTEM_OBJECT_ACL Acl_recv (d\<lparr>ubusd_acls := []\<rparr>)"

definition ubusd_obj_init :: "env \<Rightarrow> daemon \<Rightarrow> daemon" where
  "ubusd_obj_init E d =
     ubusd_monitor_init E (ubusd_acl_init E (ubusd_event_init E
       (d\<lparr>objects := Map.empty, obj_types := Map.empty, path := []\<rparr>)))"

section \<open>Effect on the registry\<close>

definition r_monitor :: "bool \<Rightarrow> u32 \<Rightarrow> registry \<Rightarrow> registry" where
  "r_monitor on cl r =
     r\<lparr>r_monitors := filter (\<lambda>c. c \<noteq> cl) (r_monitors r) @ (if on then [cl] else [])\<rparr>"

lemma r_monitor_wf: "reg_wf K r \<Longrightarrow> reg_wf K (r_monitor on cl r)"
proof -
  assume "reg_wf K r"
  note wf = reg_wfD [OF this]
  have "clients_ok (r_monitor on cl r)" using wf(7) by (auto simp: clients_ok_def r_monitor_def)
  with wf show ?thesis
    unfolding reg_wf_def by (auto simp: r_monitor_def elim!: reg_wf_congs)
qed

lemma filter_monitors:
  "distinct (map mon_cl ms) \<Longrightarrow>
   map mon_cl (case find (\<lambda>m. mon_cl m = cl) ms of None \<Rightarrow> ms | Some m \<Rightarrow> remove1 m ms) =
     filter (\<lambda>c. c \<noteq> cl) (map mon_cl ms)"
proof (induction ms)
  case (Cons m ms)
  have id: "filter (\<lambda>c. c \<noteq> cl) (map mon_cl ms) = map mon_cl ms" if "cl \<notin> mon_cl ` set ms"
    using that by (force intro: filter_True)
  from Cons id show ?case
    by (auto split: option.splits dest: find_SomeD)
qed simp

lemma net_wf_monitors:
  "net_wf H n \<Longrightarrow> mon_cl ` set ms \<subseteq> dom (clients n) \<Longrightarrow> net_wf H (n\<lparr>monitors := ms\<rparr>)"
proof -
  assume wf: "net_wf H n" and ms: "mon_cl ` set ms \<subseteq> dom (clients n)"
  have "buf_ok H (n\<lparr>monitors := ms\<rparr>) a" for a
    by (rule buf_ok_cong [OF net_wfD(3) [OF wf]]) simp_all
  with wf ms show ?thesis by (simp add: net_wf_def)
qed

lemma reg_monitors: "reg (d\<lparr>net := (net d)\<lparr>monitors := ms\<rparr>\<rparr>) = (reg d)\<lparr>r_monitors := map mon_cl ms\<rparr>"
  by (simp add: reg_def cl_field_def fun_eq_iff)

lemma monitor_disconnect_eq:
  "ubusd_monitor_disconnect cl n = n\<lparr>monitors :=
     (case find (\<lambda>m. mon_cl m = cl) (monitors n) of None \<Rightarrow> monitors n | Some m \<Rightarrow> remove1 m (monitors n))\<rparr>"
  by (simp add: ubusd_monitor_disconnect_def ubusd_monitor_find_def ubusd_monitor_free_def split: option.splits)

lemma monitor_disconnect_ok:
  assumes wf: "net_wf H (net d)" and dist: "distinct (map mon_cl (monitors (net d)))"
  shows "net_wf H (ubusd_monitor_disconnect cl (net d))"
    and "reg (on_net (ubusd_monitor_disconnect cl) d) = r_monitor False cl (reg d)"
proof -
  let ?ms = "case find (\<lambda>m. mon_cl m = cl) (monitors (net d)) of None \<Rightarrow> monitors (net d)
    | Some m \<Rightarrow> remove1 m (monitors (net d))"
  have "set ?ms \<subseteq> set (monitors (net d))" by (auto split: option.splits dest: set_mp [OF set_remove1_subset])
  then have "mon_cl ` set ?ms \<subseteq> dom (clients (net d))"
    by (rule subset_trans [OF image_mono]) (use wf in \<open>simp add: net_wf_def\<close>)
  then show "net_wf H (ubusd_monitor_disconnect cl (net d))"
    unfolding monitor_disconnect_eq by (rule net_wf_monitors [OF wf])
  show "reg (on_net (ubusd_monitor_disconnect cl) d) = r_monitor False cl (reg d)"
    unfolding on_net_def monitor_disconnect_eq reg_monitors filter_monitors [OF dist]
    by (simp add: r_monitor_def)
qed

lemma keeps_monitor_disconnect [simp]: "keeps S n (ubusd_monitor_disconnect cl n)"
  unfolding monitor_disconnect_eq by (rule keeps_same) simp_all

lemma clients_monitor_disconnect [simp]: "clients (ubusd_monitor_disconnect cl n) = clients n"
  by (simp add: monitor_disconnect_eq)

lemma monitor_connect_ok:
  assumes wf: "net_wf H (net d)" and dist: "distinct (map mon_cl (monitors (net d)))"
    and cl: "clients (net d) cl = Some c" and r: "ubusd_monitor_connect E cl (net d) = (ok, n')"
  shows "net_wf H n'" and "reg (d\<lparr>net := n'\<rparr>) = r_monitor ok cl (reg d)" and "keeps S (net d) n'"
proof -
  let ?n1 = "ubusd_monitor_disconnect cl (net d)"
  let ?n2 = "?n1\<lparr>n_calloc := Suc (n_calloc ?n1)\<rparr>"
  let ?d1 = "on_net (ubusd_monitor_disconnect cl) d"
  note dis = monitor_disconnect_ok [OF wf dist, of cl]
  have n': "n' = (if ok then ?n2\<lparr>monitors := monitors ?n1 @ [\<lparr>mon_cl = cl, mon_seq = 0\<rparr>]\<rparr> else ?n2)"
    using r by (auto simp: ubusd_monitor_connect_def calloc_def split: bool.splits)
  have wf2: "net_wf H ?n2" using dis(1) by (rule net_wf_cong) simp_all
  have "net_wf H (?n2\<lparr>monitors := monitors ?n1 @ [\<lparr>mon_cl = cl, mon_seq = 0\<rparr>]\<rparr>)"
    by (rule net_wf_monitors [OF wf2]) (use dis(1) cl in \<open>auto simp: net_wf_def\<close>)
  with wf2 n' show "net_wf H n'" by simp
  have 2: "reg (d\<lparr>net := ?n2\<rparr>) = r_monitor False cl (reg d)"
    using dis(2) reg_set_net [of ?n2 ?d1] by (simp add: on_net_def)
  have "reg (d\<lparr>net := ?n2\<lparr>monitors := monitors ?n1 @ [\<lparr>mon_cl = cl, mon_seq = 0\<rparr>]\<rparr>\<rparr>) =
      (reg (d\<lparr>net := ?n2\<rparr>))\<lparr>r_monitors := r_monitors (reg (d\<lparr>net := ?n2\<rparr>)) @ [cl]\<rparr>"
    using reg_monitors [where d = "d\<lparr>net := ?n2\<rparr>"] by simp
  then have "reg (d\<lparr>net := ?n2\<lparr>monitors := monitors ?n1 @ [\<lparr>mon_cl = cl, mon_seq = 0\<rparr>]\<rparr>\<rparr>) =
      r_monitor True cl (reg d)"
    unfolding 2 by (simp add: r_monitor_def)
  with 2 n' show "reg (d\<lparr>net := n'\<rparr>) = r_monitor ok cl (reg d)" by simp
  show "keeps S (net d) n'"
    by (rule keeps_trans [OF keeps_monitor_disconnect [of _ _ cl]]) (simp add: n' keeps_same)
qed

lemma monitors_distinct: "reg_wf K (reg d) \<Longrightarrow> distinct (map mon_cl (monitors (net d)))"
  by (drule reg_wfD(7)) (simp add: clients_ok_def)

lemma monitor_recv_ok:
  assumes wf: "st_wf H K d" and cl: "clients (net d) cl = Some c"
    and r: "ubusd_monitor_recv E cl ub meth msg d = (ret, d')"
  shows "net_wf H (net d')" and "reg d' = reg d \<or> (\<exists>on. reg d' = r_monitor on cl (reg d))"
    and "keeps S (net d) (net d')"
proof -
  note w = st_wfD [OF wf] and dist = monitors_distinct [OF st_wfD(2) [OF wf]]
  obtain ok n where n: "ubusd_monitor_connect E cl (net d) = (ok, n)" by fastforce
  note con = monitor_connect_ok [OF w(1) dist cl n] and dis = monitor_disconnect_ok [OF w(1) dist, of cl]
  have "net_wf H (net d') \<and> (reg d' = reg d \<or> (\<exists>on. reg d' = r_monitor on cl (reg d))) \<and> keeps S (net d) (net d')"
    using r cl n w(1) con dis
    by (auto simp: ubusd_monitor_recv_def split: if_splits bool.splits)
  then show "net_wf H (net d')" and "reg d' = reg d \<or> (\<exists>on. reg d' = r_monitor on cl (reg d))"
    and "keeps S (net d) (net d')" by blast+
qed

end
