(* ===== verification/Ubusd_Acl_Query.thy ===== *)
theory Ubusd_Acl_Query
  imports Ubusd_Monitor
begin

text \<open>
  The rest of src/ubusd_acl.c: loading the configuration directory with the event that announces
  it, and the object that answers \<open>query\<close> with the private access control data of the objects of
  the asking client.

  \<open>acl_wf\<close> ties the tree to the files: every entry belongs to exactly one file and carries the
  credentials of that file.
\<close>

section \<open>Definitions\<close>

definition ubusd_create_sequence_event_msg :: "u32 \<Rightarrow> string \<Rightarrow> (nat \<times> blob_attr) list" where
  "ubusd_create_sequence_event_msg seq ident =
     [(ubus_attr_code UBUS_ATTR_OBJID, Blob_int32 0),
      (ubus_attr_code UBUS_ATTR_METHOD, Blob_string ident),
      (ubus_attr_code UBUS_ATTR_NO_REPLY, Blob_int8 1),
      (ubus_attr_code UBUS_ATTR_DATA, Blobmsg_table [(''sequence'', Blob_int32 seq)])]"

text \<open>\<open>gl\<close> is the result of \<open>glob\<close>: \<open>None\<close> when it fails, which includes finding no match.\<close>

definition ubusd_acl_load :: "env \<Rightarrow> acl_dirent list option \<Rightarrow> daemon \<Rightarrow> daemon" where
  "ubusd_acl_load E gl d =
     (case gl of
        None \<Rightarrow> d
      | Some es \<Rightarrow>
          let d = acl_reload E es d;
              ident = ''ubus.acl.sequence''
          in snd (ubusd_send_event E None ident (ubusd_create_sequence_event_msg (ubusd_acl_seq d) ident) d))"

definition reply_entry :: "string \<Rightarrow> ubusd_acl_obj \<Rightarrow> blob_attr \<Rightarrow> blob_attr" where
  "reply_entry name a priv =
     Blobmsg_table
       ([(''obj'', Blob_string name)] @
        (case ao_user a of None \<Rightarrow> [] | Some u \<Rightarrow> [(''user'', Blob_string u)]) @
        (case ao_group a of None \<Rightarrow> [] | Some g \<Rightarrow> [(''group'', Blob_string g)]) @
        [(''acl'', priv)])"

fun reply_scan ::
  "string \<Rightarrow> nat \<Rightarrow> (string \<times> ubusd_acl_obj) list \<Rightarrow> blob_attr list \<Rightarrow> blob_attr list" where
  "reply_scan name match_len [] bs = bs"
| "reply_scan name match_len ((key, a) # t) bs =
     (case ao_priv a of
        None \<Rightarrow> reply_scan name match_len t bs
      | Some priv \<Rightarrow>
          let (cur, full) = ubus_strmatch_len name key in
          if cur < match_len then bs
          else if \<not> full \<and> (\<not> ao_partial a \<or> cur \<noteq> length key) then reply_scan name cur t bs
          else reply_scan name cur t (bs @ [reply_entry name a priv]))"

definition ubusd_reply_add :: "u32 \<Rightarrow> blob_attr list \<times> daemon \<Rightarrow> blob_attr list \<times> daemon" where
  "ubusd_reply_add oid = (\<lambda>(bs, d).
     (case objects d oid of
        None \<Rightarrow> (bs, dfault d)
      | Some ob \<Rightarrow>
          (case obj_path ob of
             None \<Rightarrow> (bs, d)
           | Some name \<Rightarrow> (reply_scan name 0 (ubusd_acls d) bs, d))))"

definition ubusd_reply_query ::
  "env \<Rightarrow> u32 \<Rightarrow> addr \<Rightarrow> attr_table \<Rightarrow> daemon \<Rightarrow> ubus_msg_status \<times> daemon" where
  "ubusd_reply_query E cl ub attr d =
     (case attr UBUS_ATTR_OBJID of
        None \<Rightarrow> (UBUS_STATUS_INVALID_ARGUMENT, d)
      | Some ia \<Rightarrow>
          let oid = blob_get_u32 E ia in
          (case ubusd_find_object oid d of
             None \<Rightarrow> (UBUS_STATUS_NOT_FOUND, d)
           | Some _ \<Rightarrow>
               (case clients (net d) cl of
                  None \<Rightarrow> (UBUS_STATUS_NOT_FOUND, dfault d)
                | Some c \<Rightarrow>
                    (case fold ubusd_reply_add (cl_objects c) ([], d) of
                       (bs, d) \<Rightarrow>
                         let attrs = [(ubus_attr_code UBUS_ATTR_OBJID, Blob_int32 oid),
                                      (ubus_attr_code UBUS_ATTR_DATA,
                                       Blobmsg_table [(''seq'', Blob_int32 (ubusd_acl_seq d)),
                                                      (''acl'', Blobmsg_array bs)])]
                         in (UBUS_STATUS_OK,
                             on_net (ubus_proto_send_msg_from_blob E cl ub attrs UBUS_MSG_DATA) d)))))"

definition ubus_policy :: "ubus_msg_attr \<Rightarrow> blob_type option" where
  "ubus_policy a =
     (case a of
        UBUS_ATTR_SIGNATURE \<Rightarrow> Some BLOB_ATTR_NESTED
      | UBUS_ATTR_OBJTYPE \<Rightarrow> Some BLOB_ATTR_INT32
      | UBUS_ATTR_OBJPATH \<Rightarrow> Some BLOB_ATTR_STRING
      | UBUS_ATTR_OBJID \<Rightarrow> Some BLOB_ATTR_INT32
      | UBUS_ATTR_STATUS \<Rightarrow> Some BLOB_ATTR_INT32
      | UBUS_ATTR_METHOD \<Rightarrow> Some BLOB_ATTR_STRING
      | UBUS_ATTR_USER \<Rightarrow> Some BLOB_ATTR_STRING
      | UBUS_ATTR_GROUP \<Rightarrow> Some BLOB_ATTR_STRING
      | _ \<Rightarrow> None)"

definition ubus_parse_msg :: "env \<Rightarrow> blob \<Rightarrow> attr_table" where
  "ubus_parse_msg E msg = blob_parse E ubus_policy msg"

definition ubusd_acl_recv ::
  "env \<Rightarrow> u32 \<Rightarrow> addr \<Rightarrow> string \<Rightarrow> blob_attr option \<Rightarrow> daemon \<Rightarrow> ubus_msg_status \<times> daemon" where
  "ubusd_acl_recv E cl ub meth msg d =
     (if meth = ''query'' then
        (case bufs (net d) ub of
           None \<Rightarrow> (UBUS_STATUS_INVALID_COMMAND, dfault d)
         | Some b \<Rightarrow> ubusd_reply_query E cl ub (ubus_parse_msg E (ub_data b)) d)
      else (UBUS_STATUS_INVALID_COMMAND, d))"

section \<open>What a query returns\<close>

definition reply_step ::
  "string \<Rightarrow> ubusd_acl_obj \<Rightarrow> blob_attr list \<Rightarrow> blob_attr list \<times> bool" where
  "reply_step name a bs =
     (case ao_priv a of None \<Rightarrow> bs | Some priv \<Rightarrow> bs @ [reply_entry name a priv], False)"

interpretation reply: scan_loop name ao_partial "\<lambda>a. ao_priv a = None" "reply_step name" "reply_scan name"
  for name
  by unfold_locales (auto simp: reply_step_def Let_def split: option.splits prod.splits)

text \<open>The entries of the tree with private data that match a path, as the reply shows them.\<close>

definition reply_entries :: "string \<Rightarrow> (string \<times> ubusd_acl_obj) list \<Rightarrow> blob_attr list" where
  "reply_entries name t =
     concat (map (\<lambda>(k, a). case ao_priv a of
         Some priv \<Rightarrow> if key_matches name (ao_partial a) k then [reply_entry name a priv] else []
       | None \<Rightarrow> []) t)"

lemma run_until_reply:
  "run_until (reply_step name) as bs =
     bs @ concat (map (\<lambda>a. case ao_priv a of None \<Rightarrow> [] | Some priv \<Rightarrow> [reply_entry name a priv]) as)"
  by (induction as arbitrary: bs) (auto simp: reply_step_def split: option.splits)

lemma reply_hits:
  "concat (map (\<lambda>a. case ao_priv a of None \<Rightarrow> [] | Some priv \<Rightarrow> [reply_entry name a priv]) (reply.hits name t)) =
     reply_entries name t"
proof (induction t)
  case (Cons ka t)
  then show ?case
    by (cases ka) (auto simp: reply.hits_def reply_entries_def split: option.splits)
qed (simp add: reply.hits_def reply_entries_def)

lemma reply_scan_eq:
  "sorted (map fst t) \<Longrightarrow> reply_scan name 0 t bs = bs @ reply_entries name t"
  by (simp add: reply.loop_start run_until_reply reply_hits)

definition reply_of :: "daemon \<Rightarrow> u32 \<Rightarrow> blob_attr list" where
  "reply_of d oid =
     (case obj_field None obj_path d oid of None \<Rightarrow> [] | Some name \<Rightarrow> reply_entries name (ubusd_acls d))"

lemma fold_reply_add:
  assumes "sorted (map fst (ubusd_acls d))" and "\<forall>oid\<in>set oids. objects d oid \<noteq> None"
  shows "fold ubusd_reply_add oids (bs, d) = (bs @ concat (map (reply_of d) oids), d)"
  using assms(2)
proof (induction oids arbitrary: bs)
  case (Cons oid oids)
  then obtain ob where "objects d oid = Some ob" by auto
  with Cons assms(1) show ?case
    by (auto simp: ubusd_reply_add_def reply_of_def obj_field_def reply_scan_eq split: option.splits)
qed simp

end
