(* ===== verification/Ubusd_Acl_Load.thy ===== *)
theory Ubusd_Acl_Load
  imports Ubusd_Acl_Query
begin

text \<open>
  What loading the configuration directory leaves behind: the tree stays sorted, each entry
  belongs to exactly one file and has its credentials, and after a load every entry comes from a
  file that passed the ownership and permission tests.
\<close>

section \<open>Frame\<close>

text \<open>Loading only counts allocations and changes the access control fields.\<close>

definition acl_rest :: "daemon \<Rightarrow> daemon" where
  "acl_rest d = d\<lparr>net := (net d)\<lparr>n_calloc := 0\<rparr>, ubusd_acls := [], ubusd_acl_files := [],
                  ubusd_acl_seq := 0, next_node := 0\<rparr>"

definition acl_frame :: "daemon \<Rightarrow> daemon \<Rightarrow> bool" where
  "acl_frame d d' \<longleftrightarrow> next_node d \<le> next_node d' \<and> acl_rest d' = acl_rest d"

lemma acl_frame_refl [simp, intro]: "acl_frame d d"
  by (simp add: acl_frame_def)

lemma acl_frame_trans [trans]: "acl_frame d d' \<Longrightarrow> acl_frame d' d'' \<Longrightarrow> acl_frame d d''"
  by (simp add: acl_frame_def)

lemma acl_rest_fields:
  assumes "acl_rest d' = acl_rest d"
  shows "clients (net d') = clients (net d)" "bufs (net d') = bufs (net d)"
    "next_addr (net d') = next_addr (net d)" "monitors (net d') = monitors (net d)"
    "fault (net d') = fault (net d)" "sent (net d') = sent (net d)" "rnd (net d') = rnd (net d)"
    and "client_tree d' = client_tree d" "objects d' = objects d" "obj_types d' = obj_types d"
    "path d' = path d" "subs d' = subs d" "patterns d' = patterns d"
proof -
  have n: "(net d')\<lparr>n_calloc := 0\<rparr> = (net d)\<lparr>n_calloc := 0\<rparr>"
    using arg_cong [OF assms, of net] by (simp add: acl_rest_def)
  show "clients (net d') = clients (net d)" "bufs (net d') = bufs (net d)"
    "next_addr (net d') = next_addr (net d)" "monitors (net d') = monitors (net d)"
    "fault (net d') = fault (net d)" "sent (net d') = sent (net d)" "rnd (net d') = rnd (net d)"
    using arg_cong [OF n, of clients] arg_cong [OF n, of bufs] arg_cong [OF n, of next_addr]
      arg_cong [OF n, of monitors] arg_cong [OF n, of fault] arg_cong [OF n, of sent]
      arg_cong [OF n, of rnd] by simp_all
  show "client_tree d' = client_tree d" "objects d' = objects d" "obj_types d' = obj_types d"
    "path d' = path d" "subs d' = subs d" "patterns d' = patterns d"
    using arg_cong [OF assms, of client_tree] arg_cong [OF assms, of objects]
      arg_cong [OF assms, of obj_types] arg_cong [OF assms, of path] arg_cong [OF assms, of subs]
      arg_cong [OF assms, of patterns] by (simp_all add: acl_rest_def)
qed

lemma acl_frame_fields:
  assumes "acl_frame d d'"
  shows "reg d' = (reg d)\<lparr>r_acls := ubusd_acls d', r_next := next_node d', r_files := ubusd_acl_files d'\<rparr>"
    and "net_wf H (net d) \<Longrightarrow> net_wf H (net d')" and "keeps S (net d) (net d')"
    and "next_node d \<le> next_node d'" and "clients (net d') = clients (net d)"
    and "sent (net d') = sent (net d)"
proof -
  have le: "next_node d \<le> next_node d'" and eq: "acl_rest d' = acl_rest d"
    using assms by (simp_all add: acl_frame_def)
  note f = acl_rest_fields [OF eq]
  show "reg d' = (reg d)\<lparr>r_acls := ubusd_acls d', r_next := next_node d', r_files := ubusd_acl_files d'\<rparr>"
    by (simp add: reg_def obj_field_def cl_field_def fun_eq_iff f)
  show "net_wf H (net d) \<Longrightarrow> net_wf H (net d')" by (rule net_wf_cong) (simp_all add: f)
  show "keeps S (net d) (net d')" by (rule keeps_same) (simp_all add: f)
  show "next_node d \<le> next_node d'" "clients (net d') = clients (net d)" "sent (net d') = sent (net d)"
    using le f by simp_all
qed

lemma acl_frame_wf:
  assumes "acl_frame d d'" and "sorted (map fst (ubusd_acls d'))" and "daemon_wf H d"
  shows "daemon_wf H d'"
proof -
  note f = acl_frame_fields [OF assms(1)] and w = daemon_wfD [OF assms(3)]
  note c = reg_wfD [OF w(2)]
  have "clients_ok (reg d')" using c(7) assms(2) by (simp add: f(1) clients_ok_def del: reg_sel)
  moreover have le: "r_next (reg d) \<le> r_next (reg d')" using f(4) by simp
  ultimately have "reg_wf (\<lambda>_. 0) (reg d')"
    unfolding reg_wf_def using c
    by (auto simp: f(1) simp del: reg_sel elim!: reg_wf_congs)
  moreover have "served_ok (reg d')" using w(3) by (simp add: f(1) served_ok_def del: reg_sel)
  ultimately show ?thesis using f(2) [OF w(1)] by (simp add: daemon_wf_def)
qed

section \<open>Entries and files\<close>

definition acl_addrs :: "daemon \<Rightarrow> addr set" where
  "acl_addrs d = (\<lambda>(k, a). ao_addr a) ` set (ubusd_acls d)"

definition acl_owned :: "ubusd_acl_file list \<Rightarrow> daemon \<Rightarrow> bool" where
  "acl_owned fs d \<longleftrightarrow>
     sorted (map fst (ubusd_acls d)) \<and> distinct (map (ao_addr \<circ> snd) (ubusd_acls d)) \<and>
     (\<forall>a\<in>acl_addrs d. a < next_node d) \<and>
     distinct (concat (map af_acl fs)) \<and> acl_addrs d = set (concat (map af_acl fs)) \<and>
     (\<forall>(k, a)\<in>set (ubusd_acls d). \<forall>f\<in>set fs. ao_addr a \<in> set (af_acl f) \<longrightarrow>
        ao_uid a = af_uid f \<and> ao_gid a = af_gid f)"

definition acl_wf :: "daemon \<Rightarrow> bool" where
  "acl_wf d \<longleftrightarrow> distinct (map fst (ubusd_acl_files d)) \<and> acl_owned (map snd (ubusd_acl_files d)) d"

lemma acl_addrs_map: "acl_addrs d = set (map (ao_addr \<circ> snd) (ubusd_acls d))"
  by (simp add: acl_addrs_def case_prod_unfold comp_def)

lemma acl_owned_mid: "acl_owned (xs @ f # ys) d = acl_owned (f # xs @ ys) d"
  by (auto simp: acl_owned_def)

lemma acl_owned_fields:
  assumes "acl_owned fs d" and "ubusd_acls d' = ubusd_acls d" and "next_node d \<le> next_node d'"
  shows "acl_owned fs d'"
proof -
  have ad: "acl_addrs d' = acl_addrs d" by (simp add: acl_addrs_def assms(2))
  have "\<forall>a\<in>acl_addrs d. a < next_node d'"
    using assms(1,3) less_le_trans unfolding acl_owned_def by blast
  with assms(1) show ?thesis unfolding acl_owned_def ad assms(2) by blast
qed

lemma acl_owned_sorted: "acl_owned fs d \<Longrightarrow> sorted (map fst (ubusd_acls d))"
  by (simp add: acl_owned_def)

text \<open>Building a file: \<open>builds\<close> relates the file and the state before and after.\<close>

definition builds :: "ubusd_acl_file list \<Rightarrow> ubusd_acl_file \<times> daemon \<Rightarrow> ubusd_acl_file \<times> daemon \<Rightarrow> bool" where
  "builds fs s s' \<longleftrightarrow>
     (acl_owned (fst s # fs) (snd s) \<longrightarrow> acl_owned (fst s' # fs) (snd s')) \<and>
     acl_frame (snd s) (snd s') \<and> ubusd_acl_files (snd s') = ubusd_acl_files (snd s) \<and>
     af_blob (fst s') = af_blob (fst s)"

lemma builds_refl [simp, intro]: "builds fs s s"
  by (simp add: builds_def)

lemma builds_trans [trans]: "builds fs s s' \<Longrightarrow> builds fs s' s'' \<Longrightarrow> builds fs s s''"
  by (auto simp: builds_def intro: acl_frame_trans)

lemma builds_fold:
  assumes "\<And>x s. builds fs s (f x s)"
  shows "builds fs s (fold f xs s)"
proof (induction xs arbitrary: s)
  case (Cons x xs)
  show ?case using builds_trans [OF assms Cons.IH] by simp
qed simp

lemma calloc_node_cases:
  obtains d' where "calloc_node E d = (None, d')" and "d' = d\<lparr>net := (net d)\<lparr>n_calloc := Suc (n_calloc (net d))\<rparr>\<rparr>"
  | d' where "calloc_node E d = (Some (next_node d), d')" and
      "d' = d\<lparr>net := (net d)\<lparr>n_calloc := Suc (n_calloc (net d))\<rparr>, next_node := Suc (next_node d)\<rparr>"
  by (cases "calloc_ok E (n_calloc (net d))") (simp_all add: calloc_node_def calloc_def)

lemma acl_owned_link:
  assumes "acl_owned (f # fs) d" and "avl_law E"
    and "ao_addr ao = next_node d" and "ao_uid ao = af_uid f" and "ao_gid ao = af_gid f"
  shows "acl_owned (f\<lparr>af_acl := next_node d # af_acl f\<rparr> # fs)
    (d\<lparr>net := n, next_node := Suc (next_node d), ubusd_acls := avl_link E key ao (ubusd_acls d)\<rparr>)"
proof -
  have fresh: "next_node d \<notin> acl_addrs d" using assms(1) by (auto simp: acl_owned_def)
  then have "(ao_addr \<circ> snd) (key, ao) \<notin> (ao_addr \<circ> snd) ` set (ubusd_acls d)"
    using assms(3) by (auto simp: acl_addrs_def)
  moreover let ?d = "d\<lparr>net := n, next_node := Suc (next_node d), ubusd_acls := avl_link E key ao (ubusd_acls d)\<rparr>"
  have "acl_addrs ?d = insert (next_node d) (acl_addrs d)"
    using assms(3) by (simp add: acl_addrs_def)
  moreover have "x \<noteq> next_node d" if "(k, b) \<in> set (ubusd_acls d)" "ao_addr b = x" for k b x
    using fresh that by (force simp: acl_addrs_def)
  ultimately show ?thesis
    using assms fresh unfolding acl_owned_def
    by (auto simp: sorted_avl_link distinct_avl_link less_Suc_eq)
qed

lemma acl_alloc_builds:
  assumes law: "avl_law E" and r: "ubusd_acl_alloc_obj E name (f, d) = (a, f', d')"
  shows "builds fs (f, d) (f', d')" and "af_uid f' = af_uid f" and "af_gid f' = af_gid f"
proof -
  have "builds fs (f, d) (f', d') \<and> af_uid f' = af_uid f \<and> af_gid f' = af_gid f"
  proof (cases "name = []")
    case False
    show ?thesis
    proof (cases rule: calloc_node_cases [of E d])
      case (1 d1)
      have "acl_owned (f # fs) d \<longrightarrow> acl_owned (f # fs) d1"
        by (rule impI, erule acl_owned_fields) (simp_all add: 1)
      moreover have "acl_frame d d1" by (simp add: 1(2) acl_frame_def acl_rest_def)
      moreover have "ubusd_acl_files d1 = ubusd_acl_files d" by (simp add: 1(2))
      ultimately show ?thesis using r False 1(1)
        by (simp add: ubusd_acl_alloc_obj_def Let_def builds_def)
    next
      case (2 d1)
      let ?key = "if last name = CHR ''*'' then butlast name else name"
      let ?ao = "\<lparr>ao_addr = next_node d, ao_partial = (last name = CHR ''*''), ao_user = af_user f,
        ao_group = af_group f, ao_uid = af_uid f, ao_gid = af_gid f,
        ao_methods = None, ao_tags = None, ao_priv = None, ao_subscribe = False,
        ao_publish = False, ao_listen = False, ao_send = False\<rparr>"
      have r': "f' = f\<lparr>af_acl := next_node d # af_acl f\<rparr>"
        "d' = d1\<lparr>ubusd_acls := avl_link E ?key ?ao (ubusd_acls d1)\<rparr>"
        using r False 2(1) by (auto simp: ubusd_acl_alloc_obj_def Let_def)
      have "acl_frame d d'" by (simp add: r' 2(2) acl_frame_def acl_rest_def)
      then show ?thesis
        using acl_owned_link [OF _ law, of f fs d ?ao] by (simp add: builds_def r' 2(2))
    qed
  qed (use r in \<open>simp add: ubusd_acl_alloc_obj_def\<close>)
  then show "builds fs (f, d) (f', d')" and "af_uid f' = af_uid f" and "af_gid f' = af_gid f"
    by simp_all
qed

text \<open>Filling in an entry keeps its key, its address and its credentials.\<close>

lemma upd_acl_builds:
  assumes "\<And>ao. ao_addr (g ao) = ao_addr ao \<and> ao_uid (g ao) = ao_uid ao \<and> ao_gid (g ao) = ao_gid ao"
  shows "builds fs (f, d) (f, upd_acl a g d)"
proof -
  let ?m = "\<lambda>(k, ao). if ao_addr ao = a then (k, g ao) else (k, ao)"
  have k: "map fst (map ?m t) = map fst t" "map (ao_addr \<circ> snd) (map ?m t) = map (ao_addr \<circ> snd) t" for t
    using assms by (induction t) auto
  have ad: "acl_addrs (upd_acl a g d) = acl_addrs d"
    unfolding acl_addrs_map using k(2) [of "ubusd_acls d"] by (simp add: upd_acl_def del: map_map)
  have cr: "(\<forall>(k, ao)\<in>set (map ?m t). \<forall>f\<in>F. ao_addr ao \<in> set (af_acl f) \<longrightarrow> ao_uid ao = af_uid f \<and> ao_gid ao = af_gid f)
      \<longleftrightarrow> (\<forall>(k, ao)\<in>set t. \<forall>f\<in>F. ao_addr ao \<in> set (af_acl f) \<longrightarrow> ao_uid ao = af_uid f \<and> ao_gid ao = af_gid f)" for t F
    using assms by (induction t) (auto split: if_splits)
  have "acl_owned fs d \<longrightarrow> acl_owned fs (upd_acl a g d)" for fs
    unfolding acl_owned_def ad using cr [of "ubusd_acls d" "set fs"] k [of "ubusd_acls d"]
    by (simp add: upd_acl_def del: map_map)
  moreover have "acl_frame d (upd_acl a g d)"
    by (simp add: upd_acl_def acl_frame_def acl_rest_def)
  ultimately show ?thesis by (simp add: builds_def upd_acl_def)
qed

lemma acl_flag_builds:
  assumes "avl_law E"
    and "\<And>ao. ao_addr (g ao) = ao_addr ao \<and> ao_uid (g ao) = ao_uid ao \<and> ao_gid (g ao) = ao_gid ao"
  shows "builds fs s (acl_add_flag E g name s)"
proof -
  obtain f d where s: "s = (f, d)" by (cases s)
  obtain a f' d' where r: "ubusd_acl_alloc_obj E name (f, d) = (a, f', d')" by (rule prod_cases3)
  note b = acl_alloc_builds(1) [OF assms(1) r, of fs]
  show ?thesis
    using b builds_trans [OF b upd_acl_builds [OF assms(2)]] r
    by (auto simp: s acl_add_flag_def split: option.splits)
qed

lemma acl_access_builds:
  assumes "avl_law E"
  shows "builds fs s (ubusd_acl_add_access E ob s)"
proof -
  obtain f d where s: "s = (f, d)" by (cases s)
  obtain a f' d' where r: "ubusd_acl_alloc_obj E (fst ob) (f, d) = (a, f', d')" by (rule prod_cases3)
  note b = acl_alloc_builds(1) [OF assms(1) r, of fs]
  have ok: "builds fs (f', d') (f'\<lparr>af_ok := x\<rparr>, d')" for x
    by (auto simp: builds_def acl_owned_def)
  let ?g = "\<lambda>m t p ao. ao\<lparr>ao_methods := m, ao_tags := t, ao_priv := p\<rparr>"
  have u: "builds fs (f1, d1) (f1, upd_acl x (?g m t p) d1)" for f1 d1 x m t p
    by (rule upd_acl_builds) simp
  have "builds fs (f, d) (f', upd_acl x (?g m t p) d')"
    "builds fs (f, d) (f'\<lparr>af_ok := y\<rparr>, upd_acl x (?g m t p) d')" for x y m t p
    using builds_trans [OF b u] builds_trans [OF builds_trans [OF b ok] u] by simp_all
  with b r show ?thesis
    by (auto simp: s ubusd_acl_add_access_def split: option.splits list.splits)
qed

lemma acl_file_add_builds:
  assumes law: "avl_law E" and f: "af_acl f = []"
  shows "builds fs (f, d) (ubusd_acl_file_add E (f, d))"
proof -
  have ids: "builds fs (f, d) (f', d)" if "af_acl f' = []" "af_blob f' = af_blob f" for f'
    using f that by (simp add: builds_def acl_owned_def)
  have ids': "af_acl f' = [] \<and> af_blob f' = af_blob f" if "acl_file_ids E u g f = Some f'" for u g f'
    using that f by (auto simp: acl_file_ids_def Let_def split: option.splits)
  have r: "builds fs (f', d) (fold (ubusd_acl_add_send E) sends
      (fold (ubusd_acl_add_listen E) listens (fold (ubusd_acl_add_publish E) pubs
        (fold (ubusd_acl_add_subscribe E) subss (fold (ubusd_acl_add_access E) accs (f', d))))))"
    for f' sends listens pubs subss accs
  proof -
    have "builds fs (f', d) (fold (ubusd_acl_add_access E) accs (f', d))"
      by (rule builds_fold) (rule acl_access_builds [OF law])
    also have "builds fs \<dots> (fold (ubusd_acl_add_subscribe E) subss \<dots>)"
      by (rule builds_fold) (simp add: ubusd_acl_add_subscribe_def acl_flag_builds [OF law])
    also have "builds fs \<dots> (fold (ubusd_acl_add_publish E) pubs \<dots>)"
      by (rule builds_fold) (simp add: ubusd_acl_add_publish_def acl_flag_builds [OF law])
    also have "builds fs \<dots> (fold (ubusd_acl_add_listen E) listens \<dots>)"
      by (rule builds_fold) (simp add: ubusd_acl_add_listen_def acl_flag_builds [OF law])
    also have "builds fs \<dots> (fold (ubusd_acl_add_send E) sends \<dots>)"
      by (rule builds_fold) (simp add: ubusd_acl_add_send_def acl_flag_builds [OF law])
    finally show ?thesis .
  qed
  have "builds fs (f, d) (f\<lparr>af_uid := - 1, af_gid := - 1\<rparr>, d)" by (rule ids) (simp_all add: f)
  moreover have "builds fs (f, d) (fold (ubusd_acl_add_send E) sends
      (fold (ubusd_acl_add_listen E) listens (fold (ubusd_acl_add_publish E) pubs
        (fold (ubusd_acl_add_subscribe E) subss (fold (ubusd_acl_add_access E) accs (f', d))))))"
    if "acl_file_ids E u g f = Some f'" for u g f' sends listens pubs subss accs
    using builds_trans [OF ids r] ids' [OF that] by blast
  ultimately show ?thesis
    by (auto simp: ubusd_acl_file_add_def split: list.splits option.splits)
qed

section \<open>Files come and go\<close>

lemma acl_frame_file_free [simp]: "acl_frame d (ubusd_acl_file_free f d)"
  by (simp add: ubusd_acl_file_free_def acl_frame_def acl_rest_def)

lemma acl_file_free_owned:
  assumes "acl_owned (f # fs) d"
  shows "acl_owned fs (ubusd_acl_file_free f d)"
proof -
  let ?P = "\<lambda>(k, ao). ao_addr ao \<notin> set (af_acl f)"
  have "acl_addrs (ubusd_acl_file_free f d) = acl_addrs d - set (af_acl f)"
    by (auto simp: acl_addrs_def ubusd_acl_file_free_def)
  moreover have "acl_addrs d = set (af_acl f) \<union> set (concat (map af_acl fs))"
    and "set (af_acl f) \<inter> set (concat (map af_acl fs)) = {}"
    using assms by (simp_all add: acl_owned_def)
  ultimately have "acl_addrs (ubusd_acl_file_free f d) = set (concat (map af_acl fs))" by blast
  moreover have "sorted (map fst (filter ?P (ubusd_acls d)))"
    by (rule sorted_filter_fst) (use assms in \<open>simp add: acl_owned_def\<close>)
  moreover have "distinct (map (ao_addr \<circ> snd) (filter ?P (ubusd_acls d)))"
    by (rule distinct_map_filter) (use assms in \<open>simp add: acl_owned_def\<close>)
  ultimately show ?thesis
    using assms \<open>acl_addrs d = _\<close> unfolding acl_owned_def by (auto simp: ubusd_acl_file_free_def)
qed

lemma split_file:
  assumes "map_of fs k = Some f" and "distinct (map fst fs)"
  obtains xs ys where "fs = xs @ (k, f) # ys" and "filter (\<lambda>(k', _). k' \<noteq> k) fs = xs @ ys"
proof -
  obtain xs ys where fs: "fs = xs @ (k, f) # ys" using split_list [OF map_of_SomeD [OF assms(1)]] by blast
  with assms(2) have "k \<notin> fst ` set xs" "k \<notin> fst ` set ys" by auto
  then have "filter (\<lambda>(k', _). k' \<noteq> k) xs = xs" "filter (\<lambda>(k', _). k' \<noteq> k) ys = ys"
    by (force intro: filter_True)+
  with fs that show ?thesis by simp
qed

lemma filter_absent:
  assumes "map_of fs k = None"
  shows "filter (\<lambda>(k', _). k' \<noteq> k) fs = fs"
  using assms by (force simp: map_of_eq_None_iff intro: filter_True)

text \<open>Taking a file out of the list frees its entries.\<close>

lemma acl_drop_old:
  assumes "acl_wf d"
  shows "acl_owned (map snd (filter (\<lambda>(k', _). k' \<noteq> k) (ubusd_acl_files d)))
    (case map_of (ubusd_acl_files d) k of None \<Rightarrow> d | Some f \<Rightarrow> ubusd_acl_file_free f d)"
proof (cases "map_of (ubusd_acl_files d) k")
  case None
  with assms show ?thesis by (simp add: acl_wf_def filter_absent)
next
  case (Some f)
  obtain xs ys where fs: "ubusd_acl_files d = xs @ (k, f) # ys"
    and flt: "filter (\<lambda>(k', _). k' \<noteq> k) (ubusd_acl_files d) = xs @ ys"
    using split_file [OF Some] assms by (auto simp: acl_wf_def)
  have "acl_owned (f # map snd (xs @ ys)) d"
    using assms acl_owned_mid [of "map snd xs" f "map snd ys" d] by (simp add: acl_wf_def fs)
  from acl_file_free_owned [OF this] show ?thesis unfolding flt Some by simp
qed

definition from_dir :: "acl_dirent list \<Rightarrow> string \<times> ubusd_acl_file \<Rightarrow> bool" where
  "from_dir gl kf \<longleftrightarrow>
     (\<exists>e\<in>set gl. de_name e = fst kf \<and> acl_dirent_ok e \<and> de_json e = Some (af_blob (snd kf)))"

lemma distinct_filter_keys: "distinct (map fst fs) \<Longrightarrow> distinct (map fst (filter P fs))"
  by (rule distinct_map_filter)

lemma acl_load_file_ok:
  assumes law: "avl_law E" and wf: "acl_wf d" and r: "ubusd_acl_load_file E e d = (ret, d')"
  shows "acl_wf d'" and "acl_frame d d'"
    and "set (ubusd_acl_files d') \<subseteq> set (ubusd_acl_files d) \<union> {kf. fst kf = de_name e \<and> de_json e = Some (af_blob (snd kf))}"
    and "ret = 0 \<Longrightarrow> \<exists>f. ubusd_acl_files d' =
      (de_name e, f) # filter (\<lambda>(k', _). k' \<noteq> de_name e) (ubusd_acl_files d) \<and> de_json e = Some (af_blob f)"
proof -
  have "acl_wf d' \<and> acl_frame d d' \<and> (if ret = 0 then \<exists>f. ubusd_acl_files d' =
      (de_name e, f) # filter (\<lambda>(k', _). k' \<noteq> de_name e) (ubusd_acl_files d) \<and> de_json e = Some (af_blob f)
      else ubusd_acl_files d' = ubusd_acl_files d)"
  proof (cases "de_json e")
    case None
    with r wf show ?thesis by (simp add: ubusd_acl_load_file_def)
  next
    case (Some blob)
    let ?d1 = "d\<lparr>net := (net d)\<lparr>n_calloc := Suc (n_calloc (net d))\<rparr>\<rparr>"
    let ?file = "\<lparr>af_user = None, af_group = None, af_uid = 0, af_gid = 0, af_blob = blob, af_acl = [], af_ok = False\<rparr>"
    let ?old = "filter (\<lambda>(k', _). k' \<noteq> de_name e) (ubusd_acl_files d)"
    have wf1: "acl_wf ?d1"
      using wf acl_owned_fields [of "map snd (ubusd_acl_files d)" d ?d1] by (simp add: acl_wf_def)
    have f1: "acl_frame d ?d1" by (simp add: acl_frame_def acl_rest_def)
    show ?thesis
    proof (cases "calloc_ok E (n_calloc (net d))")
      case False
      with Some r wf1 f1 show ?thesis by (auto simp: ubusd_acl_load_file_def calloc_def)
    next
      case True
      let ?d2 = "case map_of (ubusd_acl_files d) (de_name e) of None \<Rightarrow> ?d1 | Some f \<Rightarrow> ubusd_acl_file_free f ?d1"
      obtain f d3 where add: "ubusd_acl_file_add E (?file, ?d2) = (f, d3)" by fastforce
      have o2: "acl_owned (map snd ?old) ?d2" using acl_drop_old [OF wf1, of "de_name e"] by simp
      have f2: "acl_frame ?d1 ?d2" "ubusd_acl_files ?d2 = ubusd_acl_files d"
        by (simp_all add: ubusd_acl_file_free_def acl_frame_def acl_rest_def split: option.splits)
      have b: "builds (map snd ?old) (?file, ?d2) (f, d3)"
        using acl_file_add_builds [OF law, of ?file "map snd ?old" ?d2] add by simp
      have "acl_owned (?file # map snd ?old) ?d2" using o2 by (simp add: acl_owned_def)
      with b have o3: "acl_owned (f # map snd ?old) d3" and f3: "acl_frame ?d2 d3"
        and fs3: "ubusd_acl_files d3 = ubusd_acl_files d" and bl: "af_blob f = blob"
        using f2(2) by (simp_all add: builds_def)
      have res: "ret = 0" "d' = d3\<lparr>ubusd_acl_files := (de_name e, f) # ?old\<rparr>"
        using r Some True add fs3
        by (auto simp: ubusd_acl_load_file_def calloc_def ubusd_acl_update_cb_def Let_def)
      have "acl_owned (f # map snd ?old) d'"
        by (rule acl_owned_fields [OF o3]) (simp_all add: res)
      moreover have "de_name e \<notin> fst ` set ?old" by auto
      moreover have "distinct (map fst ?old)" by (rule distinct_filter_keys) (use wf in \<open>simp add: acl_wf_def\<close>)
      ultimately have "acl_wf d'" by (simp add: acl_wf_def res)
      moreover have "acl_frame d d'"
        using acl_frame_trans [OF acl_frame_trans [OF f1 f2(1)] f3]
        by (simp add: res acl_frame_def acl_rest_def)
      ultimately show ?thesis using res Some bl by simp
    qed
  qed
  then show "acl_wf d'" and "acl_frame d d'"
    and "set (ubusd_acl_files d') \<subseteq> set (ubusd_acl_files d) \<union> {kf. fst kf = de_name e \<and> de_json e = Some (af_blob (snd kf))}"
    and "ret = 0 \<Longrightarrow> \<exists>f. ubusd_acl_files d' =
      (de_name e, f) # filter (\<lambda>(k', _). k' \<noteq> de_name e) (ubusd_acl_files d) \<and> de_json e = Some (af_blob f)"
    by (auto split: if_splits)
qed

lemma acl_load_loop_ok:
  assumes law: "avl_law E"
  shows "acl_wf d \<Longrightarrow> set es \<subseteq> set gl \<Longrightarrow>
     (\<forall>kf\<in>set (ubusd_acl_files d). fst kf \<in> set added \<longrightarrow> from_dir gl kf) \<Longrightarrow>
     acl_load_loop E es (added, d) = (added', d') \<Longrightarrow>
     acl_wf d' \<and> acl_frame d d' \<and>
     (\<forall>kf\<in>set (ubusd_acl_files d'). fst kf \<in> set added' \<longrightarrow> from_dir gl kf)"
proof (induction es arbitrary: added d)
  case (Cons e es)
  show ?case
  proof (cases "acl_dirent_ok e")
    case False
    with Cons show ?thesis by simp
  next
    case True
    obtain ret d1 where r: "ubusd_acl_load_file E e d = (ret, d1)" by fastforce
    note l = acl_load_file_ok [OF law Cons.prems(1) r]
    let ?added = "if ret = 0 then de_name e # added else added"
    have dir: "\<forall>kf\<in>set (ubusd_acl_files d1). fst kf \<in> set ?added \<longrightarrow> from_dir gl kf"
    proof (intro ballI impI)
      fix kf assume kf: "kf \<in> set (ubusd_acl_files d1)" and k: "fst kf \<in> set ?added"
      show "from_dir gl kf"
      proof (cases "fst kf = de_name e \<and> de_json e = Some (af_blob (snd kf))")
        case True
        with \<open>acl_dirent_ok e\<close> Cons.prems(2) show ?thesis by (auto simp: from_dir_def)
      next
        case False
        then have "kf \<in> set (ubusd_acl_files d)" using l(3) kf by blast
        moreover have "fst kf \<in> set added"
          using k False kf l(4) by (auto split: if_splits)
        ultimately show ?thesis using Cons.prems(3) by blast
      qed
    qed
    have "acl_load_loop E es (?added, d1) = (added', d')" using Cons.prems(4) True r by simp
    from Cons.IH [OF l(1) _ dir this] Cons.prems(2) acl_frame_trans [OF l(2)] show ?thesis by auto
  qed
qed auto

lemma acl_flush_one_ok:
  assumes "acl_wf d"
  shows "acl_wf (acl_flush_one E k d)" and "acl_frame d (acl_flush_one E k d)"
    and "ubusd_acl_files (acl_flush_one E k d) = filter (\<lambda>(k', _). k' \<noteq> k) (ubusd_acl_files d)"
proof -
  let ?fs = "filter (\<lambda>(k', _). k' \<noteq> k) (ubusd_acl_files d)"
  let ?d2 = "case map_of (ubusd_acl_files d) k of None \<Rightarrow> d | Some f \<Rightarrow> ubusd_acl_file_free f d"
  have eq: "acl_flush_one E k d = ?d2\<lparr>ubusd_acl_files := ?fs\<rparr>"
    by (simp add: acl_flush_one_def ubusd_acl_update_cb_def ubusd_acl_file_free_def Let_def
        split: option.splits)
  show fs: "ubusd_acl_files (acl_flush_one E k d) = ?fs" unfolding eq by simp
  have "acl_owned (map snd ?fs) (acl_flush_one E k d)"
    by (rule acl_owned_fields [OF acl_drop_old [OF assms, of k]]) (simp_all add: eq)
  then show "acl_wf (acl_flush_one E k d)"
    unfolding acl_wf_def fs using assms by (auto simp: acl_wf_def intro: distinct_filter_keys)
  show "acl_frame d (acl_flush_one E k d)"
    unfolding eq by (simp add: acl_frame_def acl_rest_def ubusd_acl_file_free_def split: option.splits)
qed

lemma acl_flush_ok:
  "acl_wf d \<Longrightarrow> acl_wf (fold (acl_flush_one E) ks d) \<and> acl_frame d (fold (acl_flush_one E) ks d) \<and>
     ubusd_acl_files (fold (acl_flush_one E) ks d) = filter (\<lambda>(k, _). k \<notin> set ks) (ubusd_acl_files d)"
proof (induction ks arbitrary: d)
  case (Cons k ks)
  note f = acl_flush_one_ok [OF Cons.prems, of E k]
  have "filter (\<lambda>(k', _). k' \<notin> set ks) (filter (\<lambda>(k', _). k' \<noteq> k) fs) =
      filter (\<lambda>(k', _). k' \<notin> set (k # ks)) fs" for fs :: "(string \<times> ubusd_acl_file) list"
    by (auto simp: filter_filter intro!: filter_cong)
  with Cons.IH [OF f(1)] f acl_frame_trans [OF f(2)] show ?case by simp
qed simp

lemma acl_reload_ok:
  assumes law: "avl_law E" "vlist_law E" and wf: "acl_wf d"
  shows "acl_wf (acl_reload E gl d)" and "acl_frame d (acl_reload E gl d)"
    and "\<forall>kf\<in>set (ubusd_acl_files (acl_reload E gl d)). from_dir gl kf"
proof -
  obtain added d1 where l: "acl_load_loop E gl ([], d) = (added, d1)" by fastforce
  have 1: "acl_wf d1" "acl_frame d d1" "\<forall>kf\<in>set (ubusd_acl_files d1). fst kf \<in> set added \<longrightarrow> from_dir gl kf"
    using acl_load_loop_ok [OF law(1) wf _ _ l, of gl] by simp_all
  let ?ks = "vlist_stale E (map fst (ubusd_acl_files d1)) added"
  define d2 where "d2 = fold (acl_flush_one E) ?ks d1"
  have ks: "set ?ks = set (map fst (ubusd_acl_files d1)) - set added" using law(2) by (simp add: vlist_law_def)
  have wf2: "acl_wf d2" and fr2: "acl_frame d1 d2"
    and fs2: "ubusd_acl_files d2 = filter (\<lambda>(k, _). k \<notin> set ?ks) (ubusd_acl_files d1)"
    using acl_flush_ok [OF 1(1), of E ?ks] by (simp_all add: d2_def)
  have eq: "acl_reload E gl d = d2\<lparr>ubusd_acl_seq := ubusd_acl_seq d2 + 1\<rparr>"
    by (simp add: acl_reload_def l Let_def d2_def)
  have "acl_owned (map snd (ubusd_acl_files d2)) (acl_reload E gl d)"
    by (rule acl_owned_fields [of _ d2]) (use wf2 in \<open>simp_all add: acl_wf_def eq\<close>)
  then show "acl_wf (acl_reload E gl d)" using wf2 by (simp add: acl_wf_def eq)
  show "acl_frame d (acl_reload E gl d)"
    using acl_frame_trans [OF 1(2) fr2] by (simp add: eq acl_frame_def acl_rest_def)
  have "kf \<in> set (ubusd_acl_files d1) \<and> fst kf \<in> set added" if "kf \<in> set (ubusd_acl_files d2)" for kf
  proof -
    obtain k f where kf: "kf = (k, f)" by fastforce
    with that have "kf \<in> set (ubusd_acl_files d1)" "k \<notin> set ?ks" by (simp_all add: fs2)
    moreover from this(1) kf have "k \<in> set (map fst (ubusd_acl_files d1))" by force
    ultimately show ?thesis using ks kf by simp
  qed
  then show "\<forall>kf\<in>set (ubusd_acl_files (acl_reload E gl d)). from_dir gl kf" using 1(3) by (simp add: eq)
qed

text \<open>The tree and the files are part of the registry, so whatever does not change the registry
  keeps the invariant.\<close>

lemma acl_wf_reg:
  assumes "acl_wf d" and "r_acls (reg d') = r_acls (reg d)" and "r_files (reg d') = r_files (reg d)"
    and "r_next (reg d) \<le> r_next (reg d')"
  shows "acl_wf d'"
  using assms acl_owned_fields [of "map snd (ubusd_acl_files d)" d d'] by (simp add: acl_wf_def)

lemma acl_load_ok:
  assumes "lib_ok E" and "acl_wf d" and "daemon_wf H d"
  shows "acl_wf (ubusd_acl_load E gl d)" and "daemon_wf H (ubusd_acl_load E gl d)"
    and "gl = Some es \<Longrightarrow> \<forall>kf\<in>set (ubusd_acl_files (ubusd_acl_load E gl d)). from_dir es kf"
    and "keeps S (net d) (net (ubusd_acl_load E gl d))"
proof -
  have law: "avl_law E" "vlist_law E" using assms(1) by (simp_all add: lib_ok_def)
  have "acl_wf (ubusd_acl_load E gl d) \<and> daemon_wf H (ubusd_acl_load E gl d) \<and>
    (gl = Some es \<longrightarrow> (\<forall>kf\<in>set (ubusd_acl_files (ubusd_acl_load E gl d)). from_dir es kf)) \<and>
    keeps S (net d) (net (ubusd_acl_load E gl d))"
  proof (cases gl)
    case None
    with assms show ?thesis by (simp add: ubusd_acl_load_def)
  next
    case (Some es')
    note l = acl_reload_ok [OF law assms(2), of es']
    let ?d = "acl_reload E es' d" and ?i = "''ubus.acl.sequence''"
    let ?d' = "snd (ubusd_send_event E None ?i (ubusd_create_sequence_event_msg (ubusd_acl_seq ?d) ?i) ?d)"
    have wf: "daemon_wf H ?d"
      by (rule acl_frame_wf [OF l(2) _ assms(3)]) (use l(1) in \<open>simp add: acl_wf_def acl_owned_def\<close>)
    have r: "reg ?d' = reg ?d" by simp
    have "net_wf H (net ?d')" using daemon_wfD [OF wf] by (intro net_wf_send_event) simp_all
    then have "daemon_wf H ?d'" using r wf by (rule daemon_wf_net)
    moreover have "acl_wf ?d'" by (rule acl_wf_reg [OF l(1)]) (simp_all only: r)
    moreover have "ubusd_acl_files ?d' = ubusd_acl_files ?d" by (metis r reg_sel(19))
    moreover have "keeps S (net d) (net ?d')"
      by (rule keeps_trans [OF acl_frame_fields(3) [OF l(2)] keeps_send_event_any])
    moreover have "ubusd_acl_load E gl d = ?d'" using Some by (simp add: ubusd_acl_load_def Let_def)
    ultimately show ?thesis using Some l(3) by (metis option.inject)
  qed
  then show "acl_wf (ubusd_acl_load E gl d)" and "daemon_wf H (ubusd_acl_load E gl d)"
    and "gl = Some es \<Longrightarrow> \<forall>kf\<in>set (ubusd_acl_files (ubusd_acl_load E gl d)). from_dir es kf"
    and "keeps S (net d) (net (ubusd_acl_load E gl d))"
    by blast+
qed

end
