(* ===== verification/Ubusd_Proto.thy ===== *)
theory Ubusd_Proto
  imports Ubusd_Acl_Load
begin

text \<open>
  The protocol (src/ubusd_proto.c): one definition per message handler, the handler table,
  \<open>ubusd_proto_receive_message\<close>, and the creation and removal of clients.

  A handler returns a status, which is sent to the client, \<open>No_reply\<close> (\<open>-1\<close> in the source) or
  \<open>Queued\<close> (\<open>-2\<close>), in which case the command now holds the message. Following an invalid pointer
  sets \<open>fault\<close>.
\<close>

datatype cmd_ret = Status ubus_msg_status | No_reply | Queued

section \<open>Greeting, ping, and objects\<close>

definition ubusd_send_hello :: "env \<Rightarrow> u32 \<Rightarrow> net \<Rightarrow> bool \<times> net" where
  "ubusd_send_hello E cl n = send_new E cl [] True UBUS_MSG_HELLO 0 cl n"

definition ubusd_send_pong ::
  "env \<Rightarrow> u32 \<Rightarrow> addr \<Rightarrow> attr_table \<Rightarrow> daemon \<Rightarrow> cmd_ret \<times> daemon" where
  "ubusd_send_pong E cl ub attr d =
     (Status UBUS_STATUS_OK,
      on_net (\<lambda>n. ubus_msg_send E cl ub
        (upd_buf ub (\<lambda>b. b\<lparr>ub_hdr := (ub_hdr b)\<lparr>hdr_type := ubus_msg_code UBUS_MSG_DATA\<rparr>\<rparr>) n)) d)"

text \<open>The type of an object, when removing the object removes the type as well. The second
  component is false when the type pointer is invalid.\<close>

definition last_type :: "daemon \<Rightarrow> ubus_object \<Rightarrow> u32 option \<times> bool" where
  "last_type d ob =
     (case obj_type ob of
        None \<Rightarrow> (None, True)
      | Some tid \<Rightarrow>
          (case obj_types d tid of
             None \<Rightarrow> (None, False)
           | Some t \<Rightarrow> (if ty_refcount t = 1 then Some tid else None, True)))"

definition objtype_attr :: "u32 option \<Rightarrow> (nat \<times> blob_attr) list" where
  "objtype_attr ty =
     (case ty of None \<Rightarrow> [] | Some tid \<Rightarrow> [(ubus_attr_code UBUS_ATTR_OBJTYPE, Blob_int32 tid)])"

definition ubusd_handle_remove_object ::
  "env \<Rightarrow> u32 \<Rightarrow> addr \<Rightarrow> attr_table \<Rightarrow> daemon \<Rightarrow> cmd_ret \<times> daemon" where
  "ubusd_handle_remove_object E cl ub attr d =
     (case attr UBUS_ATTR_OBJID of
        None \<Rightarrow> (Status UBUS_STATUS_INVALID_ARGUMENT, d)
      | Some ia \<Rightarrow>
          let oid = blob_get_u32 E ia in
          (case ubusd_find_object oid d of
             None \<Rightarrow> (Status UBUS_STATUS_NOT_FOUND, d)
           | Some ob \<Rightarrow>
               if obj_client ob \<noteq> Some cl then (Status UBUS_STATUS_PERMISSION_DENIED, d)
               else
                 (case last_type d ob of
                    (ty, ok) \<Rightarrow>
                      let d = (if ok then d else dfault d);
                          attrs = [(ubus_attr_code UBUS_ATTR_OBJID, Blob_int32 oid)] @ objtype_attr ty;
                          d = on_net (ubus_proto_send_msg_from_blob E cl ub attrs UBUS_MSG_DATA) d
                      in (Status UBUS_STATUS_OK, ubusd_free_object E oid d))))"

definition ubusd_handle_add_object ::
  "env \<Rightarrow> u32 \<Rightarrow> addr \<Rightarrow> attr_table \<Rightarrow> daemon \<Rightarrow> cmd_ret \<times> daemon" where
  "ubusd_handle_add_object E cl ub attr d =
     (case ubusd_create_object E cl attr d of
        (None, d) \<Rightarrow> (Status UBUS_STATUS_INVALID_ARGUMENT, d)
      | (Some oid, d) \<Rightarrow>
          let ty = (if attr UBUS_ATTR_SIGNATURE = None then None else obj_field None obj_type d oid);
              attrs = [(ubus_attr_code UBUS_ATTR_OBJID, Blob_int32 oid)] @ objtype_attr ty
          in (Status UBUS_STATUS_OK,
              on_net (ubus_proto_send_msg_from_blob E cl ub attrs UBUS_MSG_DATA) d))"

section \<open>Lookup\<close>

definition ubusd_send_obj :: "env \<Rightarrow> u32 \<Rightarrow> addr \<Rightarrow> u32 \<Rightarrow> daemon \<Rightarrow> daemon" where
  "ubusd_send_obj E cl ub oid d =
     (case objects d oid of
        None \<Rightarrow> dfault d
      | Some ob \<Rightarrow>
          (case obj_type ob of
             None \<Rightarrow> d
           | Some tid \<Rightarrow>
               (case (obj_types d tid, obj_path ob) of
                  (Some t, Some p) \<Rightarrow>
                    let ms = filter (\<lambda>(m, _).
                               ubusd_acl_check d (client_of d (Some cl)) (Some p) (Some m) UBUS_ACL_ACCESS = 0)
                               (ty_methods t);
                        attrs = [(ubus_attr_code UBUS_ATTR_OBJPATH, Blob_string p),
                                 (ubus_attr_code UBUS_ATTR_OBJID, Blob_int32 oid),
                                 (ubus_attr_code UBUS_ATTR_OBJTYPE, Blob_int32 tid),
                                 (ubus_attr_code UBUS_ATTR_SIGNATURE, Blobmsg_table ms)]
                    in if ms \<noteq> [] \<or> ty_methods t = []
                       then on_net (ubus_proto_send_msg_from_blob E cl ub attrs UBUS_MSG_DATA) d
                       else d
                | _ \<Rightarrow> dfault d)))"

text \<open>\<open>key\<close> is the path of the object to resume at, if one is given.\<close>

definition ubus_client_cmd_queue_add ::
  "env \<Rightarrow> u32 \<Rightarrow> addr \<Rightarrow> string option \<Rightarrow> daemon \<Rightarrow> cmd_ret \<times> daemon" where
  "ubus_client_cmd_queue_add E cl msg key d =
     (case calloc E (net d) of
        (False, n) \<Rightarrow> (Status UBUS_STATUS_UNKNOWN_ERROR, d\<lparr>net := n\<rparr>)
      | (True, n) \<Rightarrow>
          (case (if key = None then (True, n) else calloc E n) of
             (False, n) \<Rightarrow> (Status UBUS_STATUS_UNKNOWN_ERROR, d\<lparr>net := n\<rparr>)
           | (True, n) \<Rightarrow>
               (Queued,
                d\<lparr>net := upd_client cl
                     (\<lambda>c. c\<lparr>cl_cmd_queue := cl_cmd_queue c @ [\<lparr>cmd_msg = msg, cmd_lookup_path = key\<rparr>]\<rparr>) n\<rparr>)))"

text \<open>The queue is run from its head and each command is freed before the next one is run, so
  the command that a lookup resumes is the head of the queue.\<close>

definition set_cmd_path :: "env \<Rightarrow> u32 \<Rightarrow> string \<Rightarrow> daemon \<Rightarrow> daemon" where
  "set_cmd_path E cl key d =
     (case calloc E (net d) of
        (ok, n) \<Rightarrow>
          d\<lparr>net := upd_client cl
               (\<lambda>c. c\<lparr>cl_cmd_queue :=
                  (case cl_cmd_queue c of
                     [] \<Rightarrow> []
                   | cmd # q \<Rightarrow> cmd\<lparr>cmd_lookup_path := (if ok then Some key else None)\<rparr> # q)\<rparr>) n\<rparr>)"

fun lookup_range ::
  "env \<Rightarrow> u32 \<Rightarrow> addr \<Rightarrow> bool \<Rightarrow> (string \<times> u32) list \<Rightarrow> daemon \<Rightarrow> cmd_ret \<times> daemon" where
  "lookup_range E cl ub resumed [] d = (Status UBUS_STATUS_OK, d)"
| "lookup_range E cl ub resumed ((key, oid) # t) d =
     (case clients (net d) cl of
        None \<Rightarrow> (Status UBUS_STATUS_OK, dfault d)
      | Some c \<Rightarrow>
          if cl_tx_queue c = [] then lookup_range E cl ub resumed t (ubusd_send_obj E cl ub oid d)
          else if resumed then (Queued, set_cmd_path E cl key d)
          else ubus_client_cmd_queue_add E cl ub (Some key) d)"

fun lookup_prefix ::
  "env \<Rightarrow> u32 \<Rightarrow> addr \<Rightarrow> string \<Rightarrow> bool \<Rightarrow> (string \<times> u32) list \<Rightarrow> daemon \<Rightarrow> bool \<times> daemon" where
  "lookup_prefix E cl ub objpath found [] d = (found, d)"
| "lookup_prefix E cl ub objpath found ((key, oid) # t) d =
     (if take (length objpath) key = objpath
      then lookup_prefix E cl ub objpath True t (ubusd_send_obj E cl ub oid d)
      else (found, d))"

text \<open>\<open>avl_find_ge_element\<close>: the tree from the first key that is not below the given one.\<close>

definition path_from :: "string \<Rightarrow> (string \<times> u32) list \<Rightarrow> (string \<times> u32) list" where
  "path_from key t = dropWhile (\<lambda>(k, _). k < key) t"

definition do_lookup ::
  "env \<Rightarrow> u32 \<Rightarrow> addr \<Rightarrow> attr_table \<Rightarrow> ubus_client_cmd option \<Rightarrow> daemon \<Rightarrow> cmd_ret \<times> daemon" where
  "do_lookup E cl ub attr cmd d =
     (case attr UBUS_ATTR_OBJPATH of
        None \<Rightarrow>
          let t = (case cmd of
                     Some c \<Rightarrow> (case cmd_lookup_path c of None \<Rightarrow> path d | Some key \<Rightarrow> path_from key (path d))
                   | None \<Rightarrow> path d)
          in lookup_range E cl ub (cmd \<noteq> None) t d
      | Some pa \<Rightarrow>
          let objpath = blob_str E pa in
          if objpath = [] then (Status UBUS_STATUS_INVALID_ARGUMENT, d)
          else if last objpath \<noteq> CHR ''*'' then
            (case map_of (path d) objpath of
               None \<Rightarrow> (Status UBUS_STATUS_NOT_FOUND, d)
             | Some oid \<Rightarrow> (Status UBUS_STATUS_OK, ubusd_send_obj E cl ub oid d))
          else
            (case lookup_prefix E cl ub (butlast objpath) False (path_from (butlast objpath) (path d)) d of
               (found, d) \<Rightarrow> (Status (if found then UBUS_STATUS_OK else UBUS_STATUS_NOT_FOUND), d)))"

definition ubusd_handle_lookup ::
  "env \<Rightarrow> u32 \<Rightarrow> addr \<Rightarrow> attr_table \<Rightarrow> daemon \<Rightarrow> cmd_ret \<times> daemon" where
  "ubusd_handle_lookup E cl ub attr d =
     (case clients (net d) cl of
        None \<Rightarrow> (Status UBUS_STATUS_OK, dfault d)
      | Some c \<Rightarrow>
          if cl_tx_queue c = [] then do_lookup E cl ub attr None d
          else ubus_client_cmd_queue_add E cl ub None d)"

text \<open>The status message of a client: \<open>retmsg_hdr\<close> copies sequence number and peer of a request
  into it, \<open>retmsg_send\<close> writes the status into its data and sends it.\<close>

definition retmsg_hdr :: "addr \<Rightarrow> ubus_msg_buf \<Rightarrow> net \<Rightarrow> net" where
  "retmsg_hdr ret b =
     upd_buf ret (\<lambda>r. r\<lparr>ub_hdr := (ub_hdr r)\<lparr>hdr_seq := hdr_seq (ub_hdr b), hdr_peer := hdr_peer (ub_hdr b)\<rparr>\<rparr>)"

definition retmsg_send :: "env \<Rightarrow> u32 \<Rightarrow> addr \<Rightarrow> ubus_msg_status \<Rightarrow> net \<Rightarrow> net" where
  "retmsg_send E cl ret st n =
     ubus_msg_send E cl ret (upd_buf ret (\<lambda>r. r\<lparr>ub_data := blob_patch32 (ubus_status_code st) (ub_data r)\<rparr>) n)"

definition ubusd_cmd_lookup :: "env \<Rightarrow> u32 \<Rightarrow> ubus_client_cmd \<Rightarrow> daemon \<Rightarrow> cmd_ret \<times> daemon" where
  "ubusd_cmd_lookup E cl cmd d =
     (case bufs (net d) (cmd_msg cmd) of
        None \<Rightarrow> (Queued, dfault d)
      | Some b \<Rightarrow>
          (case do_lookup E cl (cmd_msg cmd) (ubus_parse_msg E (ub_data b)) (Some cmd) d of
             (Status st, d) \<Rightarrow>
               (Status st,
                case clients (net d) cl of
                  None \<Rightarrow> dfault d
                | Some c \<Rightarrow> on_net (\<lambda>n. retmsg_send E cl (cl_retmsg c) st (retmsg_hdr (cl_retmsg c) b n)) d)
           | (r, d) \<Rightarrow> (r, d)))"

section \<open>Invoke and notify\<close>

text \<open>\<open>pre\<close> is what the caller has already put into the shared blob buffer.\<close>

definition ubusd_forward_invoke ::
  "env \<Rightarrow> (nat \<times> blob_attr) list \<Rightarrow> u32 \<Rightarrow> u32 \<Rightarrow> string \<Rightarrow> addr \<Rightarrow> blob_attr option \<Rightarrow> daemon \<Rightarrow> daemon" where
  "ubusd_forward_invoke E pre cl oid meth ub data d =
     (case (clients (net d) cl, objects d oid) of
        (Some c, Some ob) \<Rightarrow>
          let attrs = pre @
                [(ubus_attr_code UBUS_ATTR_OBJID, Blob_int32 oid),
                 (ubus_attr_code UBUS_ATTR_METHOD, Blob_string meth)] @
                (case cl_user c of None \<Rightarrow> [] | Some u \<Rightarrow> [(ubus_attr_code UBUS_ATTR_USER, Blob_string u)]) @
                (case cl_group c of None \<Rightarrow> [] | Some g \<Rightarrow> [(ubus_attr_code UBUS_ATTR_GROUP, Blob_string g)]) @
                (case data of None \<Rightarrow> [] | Some a \<Rightarrow> [(ubus_attr_code UBUS_ATTR_DATA, a)])
          in (case obj_client ob of
                None \<Rightarrow> dfault d
              | Some oc \<Rightarrow> on_net (ubus_proto_send_msg_from_blob E oc ub attrs UBUS_MSG_INVOKE) d)
      | _ \<Rightarrow> dfault d)"

definition set_peer :: "addr \<Rightarrow> u32 \<Rightarrow> net \<Rightarrow> net" where
  "set_peer ub p = upd_buf ub (\<lambda>b. b\<lparr>ub_hdr := (ub_hdr b)\<lparr>hdr_peer := p\<rparr>\<rparr>)"

definition recv_internal ::
  "env \<Rightarrow> recv_msg \<Rightarrow> u32 \<Rightarrow> addr \<Rightarrow> string \<Rightarrow> blob_attr option \<Rightarrow> daemon \<Rightarrow> ubus_msg_status \<times> daemon" where
  "recv_internal E h =
     (case h of
        Event_recv \<Rightarrow> ubusd_event_recv E
      | Acl_recv \<Rightarrow> ubusd_acl_recv E
      | Monitor_recv \<Rightarrow> ubusd_monitor_recv E)"

definition ubusd_handle_invoke ::
  "env \<Rightarrow> u32 \<Rightarrow> addr \<Rightarrow> attr_table \<Rightarrow> daemon \<Rightarrow> cmd_ret \<times> daemon" where
  "ubusd_handle_invoke E cl ub attr d =
     (case (attr UBUS_ATTR_METHOD, attr UBUS_ATTR_OBJID) of
        (Some ma, Some ia) \<Rightarrow>
          let oid = blob_get_u32 E ia; meth = blob_str E ma in
          (case ubus_find_id (objects d) oid of
             None \<Rightarrow> (Status UBUS_STATUS_NOT_FOUND, d)
           | Some ob \<Rightarrow>
               if ubusd_acl_check d (client_of d (Some cl)) (obj_path ob) (Some meth) UBUS_ACL_ACCESS \<noteq> 0
               then (Status UBUS_STATUS_PERMISSION_DENIED, d)
               else
                 (case obj_client ob of
                    None \<Rightarrow>
                      (case obj_recv_msg ob of
                         None \<Rightarrow> (No_reply, dfault d)
                       | Some h \<Rightarrow>
                           (case recv_internal E h cl ub meth (attr UBUS_ATTR_DATA) d of
                              (st, d) \<Rightarrow> (Status st, d)))
                  | Some _ \<Rightarrow>
                      let d = on_net (set_peer ub cl) d;
                          d = ubusd_forward_invoke E [] cl oid meth ub (attr UBUS_ATTR_DATA) d
                      in (No_reply, on_net (upd_buf ub (\<lambda>b. b\<lparr>ub_fd := - 1\<rparr>)) d)))
      | _ \<Rightarrow> (Status UBUS_STATUS_INVALID_ARGUMENT, d))"

fun notify_loop ::
  "env \<Rightarrow> (nat \<times> blob_attr) list \<Rightarrow> u32 \<Rightarrow> string \<Rightarrow> addr \<Rightarrow> blob_attr option \<Rightarrow> addr list \<Rightarrow> daemon \<Rightarrow> daemon" where
  "notify_loop E pre cl meth ub data [] d = d"
| "notify_loop E pre cl meth ub data (a # as) d =
     notify_loop E pre cl meth ub data as
       (case subs d a of
          None \<Rightarrow> dfault d
        | Some s \<Rightarrow> ubusd_forward_invoke E pre cl (sub_subscriber s) meth ub data d)"

definition sub_ids :: "daemon \<Rightarrow> addr list \<Rightarrow> u32 list" where
  "sub_ids d as = concat (map (\<lambda>a. case subs d a of None \<Rightarrow> [] | Some s \<Rightarrow> [sub_subscriber s]) as)"

definition ubusd_handle_notify ::
  "env \<Rightarrow> u32 \<Rightarrow> addr \<Rightarrow> attr_table \<Rightarrow> daemon \<Rightarrow> cmd_ret \<times> daemon" where
  "ubusd_handle_notify E cl ub attr d =
     (case (attr UBUS_ATTR_METHOD, attr UBUS_ATTR_OBJID) of
        (Some ma, Some ia) \<Rightarrow>
          let no_reply = (case attr UBUS_ATTR_NO_REPLY of None \<Rightarrow> False | Some a \<Rightarrow> blob_get_u8 E a \<noteq> 0);
              oid = blob_get_u32 E ia in
          (case ubus_find_id (objects d) oid of
             None \<Rightarrow> (Status UBUS_STATUS_NOT_FOUND, d)
           | Some ob \<Rightarrow>
               if obj_client ob \<noteq> Some cl then (Status UBUS_STATUS_PERMISSION_DENIED, d)
               else
                 let d = (if no_reply then d
                          else
                            let attrs = [(ubus_attr_code UBUS_ATTR_OBJID, Blob_int32 oid),
                                         (ubus_attr_code UBUS_ATTR_SUBSCRIBERS,
                                          Blob_nest (map (\<lambda>i. (0, Blob_int32 i)) (sub_ids d (obj_subscribers ob)))),
                                         (ubus_attr_code UBUS_ATTR_STATUS, Blob_int32 0)]
                            in on_net (ubus_proto_send_msg_from_blob E cl ub attrs UBUS_MSG_STATUS) d);
                     d = on_net (set_peer ub cl) d;
                     pre = (if no_reply then [(ubus_attr_code UBUS_ATTR_NO_REPLY, Blob_int8 1)] else [])
                 in (No_reply,
                     notify_loop E pre cl (blob_str E ma) ub (attr UBUS_ATTR_DATA) (obj_subscribers ob) d))
      | _ \<Rightarrow> (Status UBUS_STATUS_INVALID_ARGUMENT, d))"

definition ubusd_get_client_by_id :: "u32 \<Rightarrow> daemon \<Rightarrow> u32 option" where
  "ubusd_get_client_by_id i d = (if i \<in> client_tree d then Some i else None)"

definition ubusd_handle_response ::
  "env \<Rightarrow> u32 \<Rightarrow> addr \<Rightarrow> attr_table \<Rightarrow> daemon \<Rightarrow> cmd_ret \<times> daemon" where
  "ubusd_handle_response E cl ub attr d =
     (case (bufs (net d) ub, attr UBUS_ATTR_OBJID) of
        (None, _) \<Rightarrow> (No_reply, dfault d)
      | (Some b, None) \<Rightarrow> (No_reply, d)
      | (Some b, Some ia) \<Rightarrow>
          if hdr_type (ub_hdr b) = ubus_msg_code UBUS_MSG_STATUS \<and> attr UBUS_ATTR_STATUS = None \<or>
             hdr_type (ub_hdr b) = ubus_msg_code UBUS_MSG_DATA \<and> attr UBUS_ATTR_DATA = None
          then (No_reply, d)
          else
            let oid = blob_get_u32 E ia in
            (case ubusd_find_object oid d of
               None \<Rightarrow> (No_reply, d)
             | Some ob \<Rightarrow>
                 if obj_client ob \<noteq> Some cl then (No_reply, d)
                 else
                   (case ubusd_get_client_by_id (hdr_peer (ub_hdr b)) d of
                      None \<Rightarrow> (No_reply, d)
                    | Some dest \<Rightarrow>
                        (No_reply, on_net (\<lambda>n. ubus_msg_send E dest ub (set_peer ub oid n)) d))))"

section \<open>Subscriptions\<close>

definition same_name :: "string option \<Rightarrow> string option \<Rightarrow> bool" where
  "same_name x y = (case (x, y) of (Some s, Some t) \<Rightarrow> s = t | _ \<Rightarrow> False)"

definition ubusd_handle_add_watch ::
  "env \<Rightarrow> u32 \<Rightarrow> addr \<Rightarrow> attr_table \<Rightarrow> daemon \<Rightarrow> cmd_ret \<times> daemon" where
  "ubusd_handle_add_watch E cl ub attr d =
     (case (attr UBUS_ATTR_OBJID, attr UBUS_ATTR_TARGET) of
        (Some ia, Some ta) \<Rightarrow>
          let oid = blob_get_u32 E ia; tid = blob_get_u32 E ta in
          (case ubusd_find_object oid d of
             None \<Rightarrow> (Status UBUS_STATUS_NOT_FOUND, d)
           | Some ob \<Rightarrow>
               if obj_client ob \<noteq> Some cl then (Status UBUS_STATUS_INVALID_ARGUMENT, d)
               else
                 (case ubusd_find_object tid d of
                    None \<Rightarrow> (Status UBUS_STATUS_NOT_FOUND, d)
                  | Some tob \<Rightarrow>
                      (case obj_client tob of
                         None \<Rightarrow> (Status UBUS_STATUS_NOT_FOUND, d)
                       | Some tc \<Rightarrow>
                           if cl = tc then (Status UBUS_STATUS_INVALID_ARGUMENT, d)
                           else
                             (case (clients (net d) cl, clients (net d) tc) of
                                (Some c, Some tcl) \<Rightarrow>
                                  if (case obj_path tob of
                                        None \<Rightarrow> \<not> same_name (cl_user tcl) (cl_user c) \<and>
                                                \<not> same_name (cl_group tcl) (cl_group c)
                                      | Some p \<Rightarrow> ubusd_acl_check d (Some c) (Some p) None UBUS_ACL_SUBSCRIBE \<noteq> 0)
                                  then (Status UBUS_STATUS_NOT_FOUND, d)
                                  else (case ubus_subscribe E oid tid d of (st, d) \<Rightarrow> (Status st, d))
                              | _ \<Rightarrow> (Status UBUS_STATUS_NOT_FOUND, dfault d)))))
      | _ \<Rightarrow> (Status UBUS_STATUS_INVALID_ARGUMENT, d))"

fun unwatch_loop :: "env \<Rightarrow> u32 \<Rightarrow> addr list \<Rightarrow> daemon \<Rightarrow> ubus_msg_status \<times> daemon" where
  "unwatch_loop E target [] d = (UBUS_STATUS_NOT_FOUND, d)"
| "unwatch_loop E target (a # as) d =
     (case subs d a of
        None \<Rightarrow> (UBUS_STATUS_NOT_FOUND, dfault d)
      | Some s \<Rightarrow>
          if sub_target s \<noteq> target then unwatch_loop E target as d
          else (UBUS_STATUS_OK, ubus_unsubscribe E a d))"

definition ubusd_handle_remove_watch ::
  "env \<Rightarrow> u32 \<Rightarrow> addr \<Rightarrow> attr_table \<Rightarrow> daemon \<Rightarrow> cmd_ret \<times> daemon" where
  "ubusd_handle_remove_watch E cl ub attr d =
     (case (attr UBUS_ATTR_OBJID, attr UBUS_ATTR_TARGET) of
        (Some ia, Some ta) \<Rightarrow>
          (case ubusd_find_object (blob_get_u32 E ia) d of
             None \<Rightarrow> (Status UBUS_STATUS_NOT_FOUND, d)
           | Some ob \<Rightarrow>
               if obj_client ob \<noteq> Some cl then (Status UBUS_STATUS_INVALID_ARGUMENT, d)
               else
                 (case unwatch_loop E (blob_get_u32 E ta) (obj_target_list ob) d of
                    (st, d) \<Rightarrow> (Status st, d)))
      | _ \<Rightarrow> (Status UBUS_STATUS_INVALID_ARGUMENT, d))"

section \<open>Dispatch\<close>

definition handlers ::
  "ubus_msg_type \<Rightarrow> (env \<Rightarrow> u32 \<Rightarrow> addr \<Rightarrow> attr_table \<Rightarrow> daemon \<Rightarrow> cmd_ret \<times> daemon) option" where
  "handlers ty =
     (case ty of
        UBUS_MSG_PING \<Rightarrow> Some ubusd_send_pong
      | UBUS_MSG_ADD_OBJECT \<Rightarrow> Some ubusd_handle_add_object
      | UBUS_MSG_REMOVE_OBJECT \<Rightarrow> Some ubusd_handle_remove_object
      | UBUS_MSG_LOOKUP \<Rightarrow> Some ubusd_handle_lookup
      | UBUS_MSG_INVOKE \<Rightarrow> Some ubusd_handle_invoke
      | UBUS_MSG_STATUS \<Rightarrow> Some ubusd_handle_response
      | UBUS_MSG_DATA \<Rightarrow> Some ubusd_handle_response
      | UBUS_MSG_SUBSCRIBE \<Rightarrow> Some ubusd_handle_add_watch
      | UBUS_MSG_UNSUBSCRIBE \<Rightarrow> Some ubusd_handle_remove_watch
      | UBUS_MSG_NOTIFY \<Rightarrow> Some ubusd_handle_notify
      | _ \<Rightarrow> None)"

definition handler_of ::
  "u8 \<Rightarrow> (env \<Rightarrow> u32 \<Rightarrow> addr \<Rightarrow> attr_table \<Rightarrow> daemon \<Rightarrow> cmd_ret \<times> daemon) option" where
  "handler_of code = (case ubus_msg_of_code code of None \<Rightarrow> None | Some ty \<Rightarrow> handlers ty)"

definition ubusd_proto_receive_message :: "env \<Rightarrow> u32 \<Rightarrow> addr \<Rightarrow> daemon \<Rightarrow> daemon" where
  "ubusd_proto_receive_message E cl ub d =
     (case (clients (net d) cl, bufs (net d) ub) of
        (Some c, Some b) \<Rightarrow>
          let ty = hdr_type (ub_hdr b);
              d = on_net (retmsg_hdr (cl_retmsg c) b) d;
              d = (if ty \<noteq> ubus_msg_code UBUS_MSG_STATUS \<and> ty \<noteq> ubus_msg_code UBUS_MSG_INVOKE
                   then on_net (ubus_msg_close_fd ub) d else d)
          in (case (case handler_of ty of
                      None \<Rightarrow> (Status UBUS_STATUS_INVALID_COMMAND, d)
                    | Some h \<Rightarrow> h E cl ub (ubus_parse_msg E (ub_data b)) d) of
                (Queued, d) \<Rightarrow> d
              | (No_reply, d) \<Rightarrow> on_net (ubus_msg_free ub) d
              | (Status st, d) \<Rightarrow> on_net (\<lambda>n. retmsg_send E cl (cl_retmsg c) st (ubus_msg_free ub n)) d)
      | _ \<Rightarrow> dfault d)"

section \<open>Clients\<close>

definition ubusd_proto_init_retmsg :: "env \<Rightarrow> net \<Rightarrow> addr option \<times> net" where
  "ubusd_proto_init_retmsg E n =
     (case calloc E n of
        (False, n) \<Rightarrow> (None, n)
      | (True, n) \<Rightarrow>
          let data = Built [(ubus_attr_code UBUS_ATTR_STATUS, Blob_int32 0)] in
          (case ubus_msg_new E data (blob_raw_len E data) True n of
             (None, n) \<Rightarrow> (None, n)
           | (Some r, n) \<Rightarrow>
               (Some r, upd_buf r
                  (\<lambda>b. b\<lparr>ub_hdr := (ub_hdr b)\<lparr>hdr_type := ubus_msg_code UBUS_MSG_STATUS\<rparr>\<rparr>) n)))"

definition id_tree :: "daemon \<Rightarrow> u32 \<rightharpoonup> unit" where
  "id_tree d i = (if i \<in> client_tree d then Some () else None)"

definition new_client :: "int \<Rightarrow> addr \<Rightarrow> int \<times> int \<times> string \<times> string \<times> int list \<Rightarrow> ubus_client" where
  "new_client fd ret = (\<lambda>(uid, gid, user, grp, gids).
     \<lparr>cl_fd = fd, cl_eof = False, cl_write_ev = False, cl_uid = uid, cl_gid = gid,
      cl_extra_gid = gids, cl_user = Some user, cl_group = Some grp, cl_objects = [],
      cl_cmd_queue = [], cl_tx_queue = [], cl_txq_ofs = 0, cl_txq_len = 0, cl_pending_msg = None,
      cl_retmsg = ret, cl_pending_msg_offset = 0, cl_pending_msg_fd = - 1,
      cl_hdrbuf = replicate 12 0\<rparr>)"

text \<open>A client struct becomes part of the state with its id; before that it is not reachable.\<close>

definition ubusd_proto_new_client ::
  "env \<Rightarrow> int \<Rightarrow> peer_cred \<Rightarrow> daemon \<Rightarrow> u32 option \<times> daemon" where
  "ubusd_proto_new_client E fd peer d =
     (case calloc E (net d) of
        (False, n) \<Rightarrow> (None, d\<lparr>net := n\<rparr>)
      | (True, n) \<Rightarrow>
          (case ubusd_acl_init_client E peer n of
             (None, n) \<Rightarrow> (None, d\<lparr>net := n\<rparr>)
           | (Some cred, n) \<Rightarrow>
               (case ubus_alloc_id (id_tree d) 0 n of
                  (None, n) \<Rightarrow> (None, d\<lparr>net := n\<rparr>)
                | (Some cl, n) \<Rightarrow>
                    (case ubusd_proto_init_retmsg E n of
                       (None, n) \<Rightarrow> (None, d\<lparr>net := n\<rparr>)
                     | (Some r, n) \<Rightarrow>
                         let n = n\<lparr>clients := (clients n)(cl \<mapsto> new_client fd r cred)\<rparr> in
                         (case ubusd_send_hello E cl n of
                            (True, n) \<Rightarrow> (Some cl, d\<lparr>net := n, client_tree := insert cl (client_tree d)\<rparr>)
                          | (False, n) \<Rightarrow>
                              (None, d\<lparr>net := (ubus_msg_free r n)\<lparr>clients := (clients n)(cl := None)\<rparr>\<rparr>))))))"

definition ubusd_proto_free_client :: "env \<Rightarrow> u32 \<Rightarrow> daemon \<Rightarrow> daemon" where
  "ubusd_proto_free_client E cl d =
     (case clients (net d) cl of
        None \<Rightarrow> dfault d
      | Some c \<Rightarrow>
          let d = fold (ubusd_free_object E) (cl_objects c) d;
              d = on_net (ubus_msg_free (cl_retmsg c)) d
          in d\<lparr>client_tree := client_tree d - {cl}\<rparr>)"

end
