(* ===== verification/Ubusd_Main.thy ===== *)
theory Ubusd_Main
  imports Ubusd_Proto
begin

text \<open>
  The event loop callbacks (src/ubusd_main.c): the transmit and receive paths of a client, its
  disconnection, new connections, reloading on SIGHUP, and the step relation of the daemon.

  What the kernel returns is given to a callback as arguments. \<open>rx_pass\<close> holds the results of the
  calls that one pass of the receive loop makes: \<open>recvmsg\<close> for the header (with its control
  messages) and \<open>read\<close> for the body, \<open>None\<close> being a failure. When the list of passes ends, the
  next call fails. The kernel never returns more bytes than were asked for, which \<open>take\<close> expresses.
\<close>

section \<open>Queued commands\<close>

definition ubus_client_cmd_free :: "u32 \<Rightarrow> ubus_client_cmd \<Rightarrow> net \<Rightarrow> net" where
  "ubus_client_cmd_free cl cmd n =
     ubus_msg_free (cmd_msg cmd)
       (upd_client cl (\<lambda>c. c\<lparr>cl_cmd_queue := remove1 cmd (cl_cmd_queue c)\<rparr>) n)"

fun cmd_queue_loop :: "env \<Rightarrow> u32 \<Rightarrow> ubus_client_cmd list \<Rightarrow> daemon \<Rightarrow> daemon" where
  "cmd_queue_loop E cl [] d = d"
| "cmd_queue_loop E cl (cmd # cmds) d =
     (case ubusd_cmd_lookup E cl cmd d of
        (Queued, d) \<Rightarrow> d
      | (_, d) \<Rightarrow> cmd_queue_loop E cl cmds (on_net (ubus_client_cmd_free cl cmd) d))"

definition ubus_client_cmd_queue_process :: "env \<Rightarrow> u32 \<Rightarrow> daemon \<Rightarrow> daemon" where
  "ubus_client_cmd_queue_process E cl d =
     (case clients (net d) cl of
        None \<Rightarrow> dfault d
      | Some c \<Rightarrow> cmd_queue_loop E cl (cl_cmd_queue c) d)"

section \<open>Disconnecting\<close>

text \<open>The end of \<open>handle_client_disconnect\<close>, after the objects of the client are gone: the transmit
  queue, the message being received, the descriptors, and the client itself.\<close>

definition client_release :: "u32 \<Rightarrow> net \<Rightarrow> net" where
  "client_release cl n =
     (case clients n cl of
        None \<Rightarrow> set_fault n
      | Some c \<Rightarrow>
          let n = fold (ubus_msg_list_free cl) (cl_tx_queue c) n;
              n = (if 0 \<le> cl_pending_msg_fd c then close_fd (cl_pending_msg_fd c) n else n);
              n = (case cl_pending_msg c of None \<Rightarrow> n | Some a \<Rightarrow> ubus_msg_free a n);
              n = close_fd (cl_fd c) n
          in n\<lparr>clients := (clients n)(cl := None)\<rparr>)"

definition handle_client_disconnect :: "env \<Rightarrow> u32 \<Rightarrow> daemon \<Rightarrow> daemon" where
  "handle_client_disconnect E cl d =
     (case clients (net d) cl of
        None \<Rightarrow> dfault d
      | Some c \<Rightarrow>
          let d = on_net (fold (ubus_client_cmd_free cl) (cl_cmd_queue c)) d;
              d = on_net (ubusd_monitor_disconnect cl) d;
              d = ubusd_proto_free_client E cl d
          in on_net (client_release cl) d)"

section \<open>Transmitting\<close>

text \<open>
  The transmit loop of \<open>client_cb\<close>. The result is false when the client must be disconnected. A
  \<open>sendmsg\<close> that keeps returning 0 would make the loop run forever, so the function is partial.
\<close>

partial_function (option) tx_flush :: "env \<Rightarrow> u32 \<Rightarrow> net \<Rightarrow> (bool \<times> net) option" where
  "tx_flush E cl n =
     (case clients n cl of
        None \<Rightarrow> Some (True, set_fault n)
      | Some c \<Rightarrow>
          (case cl_tx_queue c of
             [] \<Rightarrow> Some (True, n)
           | ub # _ \<Rightarrow>
               (case bufs n ub of
                  None \<Rightarrow> Some (True, set_fault n)
                | Some b \<Rightarrow>
                    (case ubus_msg_writev E cl ub (cl_txq_ofs c) n of
                       (Send_again, n) \<Rightarrow> Some (True, n)
                     | (Send_fail, n) \<Rightarrow> Some (False, n)
                     | (Sent m, n) \<Rightarrow>
                         let ofs = cl_txq_ofs c + m;
                             n = upd_client cl (\<lambda>c. c\<lparr>cl_txq_ofs := ofs, cl_txq_len := cl_txq_len c - int m\<rparr>) n
                         in if ofs < ub_len b + HDR_SIZE then tx_flush E cl n
                            else tx_flush E cl
                                   (ubus_msg_list_free cl ub (upd_client cl (\<lambda>c. c\<lparr>cl_txq_ofs := 0\<rparr>) n))))))"

section \<open>Receiving\<close>

record cmsg =
  cm_rights :: bool
  cm_len_ok :: bool
  cm_fd :: int

fun ubusd_recv_fd :: "cmsg list \<Rightarrow> int" where
  "ubusd_recv_fd [] = - 1"
| "ubusd_recv_fd (c # cs) =
     (if \<not> cm_rights c then ubusd_recv_fd cs
      else if \<not> cm_len_ok c then ubusd_recv_fd cs
      else cm_fd c)"

record rx_pass =
  rp_hdr :: "(u8 list \<times> cmsg list) option"
  rp_body :: "u8 list option"

datatype rx_step = Go | Out | Disconnect

definition HDRBUF_SIZE :: nat where
  "HDRBUF_SIZE = 12"

text \<open>Writing bytes at an offset; past the end of the buffer this is a fault.\<close>

definition splice :: "nat \<Rightarrow> 'a list \<Rightarrow> 'a list \<Rightarrow> 'a list" where
  "splice ofs new old = take ofs old @ new @ drop (ofs + length new) old"

definition buf_store :: "env \<Rightarrow> addr \<Rightarrow> nat \<Rightarrow> u8 list \<Rightarrow> net \<Rightarrow> net" where
  "buf_store E ub ofs bs n =
     (case bufs n ub of
        None \<Rightarrow> set_fault n
      | Some b \<Rightarrow>
          if ub_len b < ofs + length bs then set_fault n
          else upd_buf ub (\<lambda>b. b\<lparr>ub_data := Raw (splice ofs bs (blob_image E (ub_data b)))\<rparr>) n)"

text \<open>A complete header: the length is checked and the message allocated.\<close>

definition rx_start :: "env \<Rightarrow> u32 \<Rightarrow> u8 list \<Rightarrow> net \<Rightarrow> rx_step \<times> net" where
  "rx_start E cl hdrbuf n =
     (let raw_len = blob_hdr_raw_len E (drop HDR_SIZE hdrbuf) in
      if raw_len < 4 then (Disconnect, n)
      else if blob_hdr_pad_len E (drop HDR_SIZE hdrbuf) > UBUS_MAX_MSGLEN then (Disconnect, n)
      else
        (case ubus_msg_new E (Raw (replicate raw_len 0)) raw_len False n of
           (None, n) \<Rightarrow> (Disconnect, n)
         | (Some ub, n) \<Rightarrow>
             (case hdr_of_bytes (take HDR_SIZE hdrbuf) of
                None \<Rightarrow> (Disconnect, set_fault n)
              | Some h \<Rightarrow>
                  (Go, buf_store E ub 0 (drop HDR_SIZE hdrbuf)
                         (upd_buf ub (\<lambda>b. b\<lparr>ub_hdr := h\<rparr>)
                           (upd_client cl (\<lambda>c. c\<lparr>cl_pending_msg := Some ub\<rparr>) n))))))"

definition rx_header :: "env \<Rightarrow> (u8 list \<times> cmsg list) option \<Rightarrow> u32 \<Rightarrow> net \<Rightarrow> rx_step \<times> net" where
  "rx_header E r cl n =
     (case clients n cl of
        None \<Rightarrow> (Out, set_fault n)
      | Some c \<Rightarrow>
          if cl_eof c \<or> HDRBUF_SIZE \<le> cl_pending_msg_offset c then (Go, n)
          else
            (case r of
               None \<Rightarrow> (Out, n)
             | Some (bytes, cmsgs) \<Rightarrow>
                 let ofs = cl_pending_msg_offset c;
                     bs = take (HDRBUF_SIZE - ofs) bytes;
                     hdrbuf = splice ofs bs (cl_hdrbuf c);
                     fd = (if cl_pending_msg_fd c < 0 \<and> 0 \<le> ubusd_recv_fd cmsgs
                           then ubusd_recv_fd cmsgs else cl_pending_msg_fd c);
                     n = upd_client cl (\<lambda>c. c\<lparr>cl_hdrbuf := hdrbuf, cl_pending_msg_fd := fd,
                                              cl_pending_msg_offset := ofs + length bs\<rparr>) n
                 in if ofs + length bs < HDRBUF_SIZE then (Out, n) else rx_start E cl hdrbuf n))"

text \<open>\<open>Go\<close> means that the message is complete.\<close>

definition rx_body :: "env \<Rightarrow> u8 list option \<Rightarrow> u32 \<Rightarrow> addr \<Rightarrow> net \<Rightarrow> rx_step \<times> net" where
  "rx_body E r cl ub n =
     (case (clients n cl, bufs n ub) of
        (Some c, Some b) \<Rightarrow>
          let ofs = cl_pending_msg_offset c - HDR_SIZE;
              len = blob_hdr_raw_len E (take 4 (blob_image E (ub_data b))) - ofs in
          if len = 0 then (Go, n)
          else
            (case r of
               None \<Rightarrow> (Out, n)
             | Some bytes \<Rightarrow>
                 let bs = take len bytes in
                 if bs = [] then (Out, n)
                 else
                   let n = buf_store E ub ofs bs n in
                   if length bs < len
                   then (Out, upd_client cl (\<lambda>c. c\<lparr>cl_pending_msg_offset := cl_pending_msg_offset c + length bs\<rparr>) n)
                   else (Go, n))
      | _ \<Rightarrow> (Out, set_fault n))"

definition rx_accept :: "env \<Rightarrow> u32 \<Rightarrow> addr \<Rightarrow> daemon \<Rightarrow> daemon" where
  "rx_accept E cl ub d =
     (case clients (net d) cl of
        None \<Rightarrow> dfault d
      | Some c \<Rightarrow>
          let n = upd_buf ub (\<lambda>b. b\<lparr>ub_fd := cl_pending_msg_fd c\<rparr>) (net d);
              n = upd_client cl (\<lambda>c. c\<lparr>cl_pending_msg_fd := - 1, cl_pending_msg_offset := 0,
                                       cl_pending_msg := None\<rparr>) n;
              n = ubusd_monitor_message E cl ub False n
          in ubusd_proto_receive_message E cl ub (d\<lparr>net := n\<rparr>))"

definition rx_out :: "env \<Rightarrow> u32 \<Rightarrow> daemon \<Rightarrow> daemon" where
  "rx_out E cl d =
     (case clients (net d) cl of
        None \<Rightarrow> dfault d
      | Some c \<Rightarrow>
          if \<not> cl_eof c \<or> cl_tx_queue c \<noteq> [] then d else handle_client_disconnect E cl d)"

fun rx_loop :: "env \<Rightarrow> u32 \<Rightarrow> rx_pass list \<Rightarrow> daemon \<Rightarrow> daemon" where
  "rx_loop E cl [] d = rx_out E cl d"
| "rx_loop E cl (p # ps) d =
     (case rx_header E (rp_hdr p) cl (net d) of
        (Out, n) \<Rightarrow> rx_out E cl (d\<lparr>net := n\<rparr>)
      | (Disconnect, n) \<Rightarrow> handle_client_disconnect E cl (d\<lparr>net := n\<rparr>)
      | (Go, n) \<Rightarrow>
          (case clients n cl of
             None \<Rightarrow> dfault d
           | Some c \<Rightarrow>
               (case cl_pending_msg c of
                  None \<Rightarrow> rx_out E cl (d\<lparr>net := n\<rparr>)
                | Some ub \<Rightarrow>
                    (case rx_body E (rp_body p) cl ub n of
                       (Go, n) \<Rightarrow> rx_loop E cl ps (rx_accept E cl ub (d\<lparr>net := n\<rparr>))
                     | (_, n) \<Rightarrow> rx_out E cl (d\<lparr>net := n\<rparr>)))))"

section \<open>Callbacks\<close>

text \<open>An event of a client: whether the socket is writable, and whether the event loop has seen
  the end of the stream, in which case it sets \<open>eof\<close> before the callback.\<close>

record client_ev =
  ce_write :: bool
  ce_eof :: bool

definition tx_done :: "env \<Rightarrow> bool \<Rightarrow> u32 \<Rightarrow> daemon \<Rightarrow> daemon" where
  "tx_done E writable cl d =
     (case clients (net d) cl of
        None \<Rightarrow> dfault d
      | Some c \<Rightarrow>
          if cl_tx_queue c = [] \<and> writable then
            let d = ubus_client_cmd_queue_process E cl d in
            on_net (upd_client cl (\<lambda>c. c\<lparr>cl_write_ev := (cl_write_ev c \<and> cl_tx_queue c \<noteq> [])\<rparr>)) d
          else d)"

definition client_cb :: "env \<Rightarrow> client_ev \<Rightarrow> u32 \<Rightarrow> rx_pass list \<Rightarrow> daemon \<Rightarrow> daemon option" where
  "client_cb E ev cl passes d =
     (let n = upd_client cl (\<lambda>c. c\<lparr>cl_eof := cl_eof c \<or> ce_eof ev\<rparr>) (net d) in
      case tx_flush E cl n of
        None \<Rightarrow> None
      | Some (False, n) \<Rightarrow> Some (handle_client_disconnect E cl (d\<lparr>net := n\<rparr>))
      | Some (True, n) \<Rightarrow> Some (rx_loop E cl passes (tx_done E (ce_write ev) cl (d\<lparr>net := n\<rparr>))))"

datatype accept_res = Accepted int peer_cred | Accept_retry | Accept_stop

definition get_next_connection :: "env \<Rightarrow> accept_res \<Rightarrow> daemon \<Rightarrow> bool \<times> daemon" where
  "get_next_connection E a d =
     (case a of
        Accept_stop \<Rightarrow> (False, d)
      | Accept_retry \<Rightarrow> (True, d)
      | Accepted fd peer \<Rightarrow>
          (case ubusd_proto_new_client E fd peer d of
             (Some cl, d) \<Rightarrow> (True, d)
           | (None, d) \<Rightarrow> (True, on_net (close_fd fd) d)))"

fun server_cb :: "env \<Rightarrow> accept_res list \<Rightarrow> daemon \<Rightarrow> daemon" where
  "server_cb E [] d = d"
| "server_cb E (a # as) d =
     (case get_next_connection E a d of (next, d) \<Rightarrow> if next then server_cb E as d else d)"

definition sighup_fd_cb :: "env \<Rightarrow> acl_dirent list option \<Rightarrow> daemon \<Rightarrow> daemon" where
  "sighup_fd_cb E gl d = ubusd_acl_load E gl d"

section \<open>The daemon\<close>

definition net0 :: "u32 option list \<Rightarrow> net" where
  "net0 r =
     \<lparr>clients = Map.empty, bufs = Map.empty, next_addr = 0, monitors = [], fault = False,
      n_calloc = 0, n_sendmsg = 0, rnd = r, wire = (\<lambda>_. []), sent_fds = [], closed_fds = [],
      sent = [], mon_sent = []\<rparr>"

definition daemon0 :: "u32 option list \<Rightarrow> daemon" where
  "daemon0 r =
     \<lparr>net = net0 r, client_tree = {}, objects = Map.empty, obj_types = Map.empty, path = [],
      subs = Map.empty, patterns = [], event_seq = 0, obj_event_seq = 1, ubusd_acls = [],
      ubusd_acl_files = [], ubusd_acl_seq = 0, next_node = 0\<rparr>"

text \<open>The constructors run before \<open>main\<close>, which loads the access control files once.\<close>

definition ubusd_start :: "env \<Rightarrow> u32 option list \<Rightarrow> acl_dirent list option \<Rightarrow> daemon" where
  "ubusd_start E r gl = ubusd_acl_load E gl (ubusd_obj_init E (daemon0 r))"

inductive ubusd_step :: "env \<Rightarrow> daemon \<Rightarrow> daemon \<Rightarrow> bool" for E :: env where
  server: "ubusd_step E d (server_cb E as d)"
| client: "cl \<in> dom (clients (net d)) \<Longrightarrow> client_cb E ev cl passes d = Some d' \<Longrightarrow> ubusd_step E d d'"
| sighup: "ubusd_step E d (sighup_fd_cb E gl d)"

inductive ubusd_reach :: "env \<Rightarrow> daemon \<Rightarrow> bool" for E :: env where
  start: "ubusd_reach E (ubusd_start E r gl)"
| step: "ubusd_reach E d \<Longrightarrow> ubusd_step E d d' \<Longrightarrow> ubusd_reach E d'"

end
