(* ===== verification/Ubusd_Step.thy ===== *)
theory Ubusd_Step
  imports Ubusd_Main
begin

text \<open>
  What one operation of the daemon keeps: \<open>step_ok H S d d'\<close> says that after it the state is well
  formed with references \<open>H\<close>, no buffer outside \<open>S\<close> was touched, the receive state and the
  credentials of all clients are as before, and so is the access control tree. The operations of
  the registry are shown to be such steps.
\<close>

section \<open>Frames\<close>

definition cl_rx :: "ubus_client \<Rightarrow> ubus_client" where
  "cl_rx c = c\<lparr>cl_eof := False, cl_write_ev := False, cl_objects := [], cl_cmd_queue := [],
               cl_tx_queue := [], cl_txq_ofs := 0, cl_txq_len := 0\<rparr>"

definition rx_same :: "net \<Rightarrow> net \<Rightarrow> bool" where
  "rx_same n n' \<longleftrightarrow> (\<forall>i. map_option cl_rx (clients n' i) = map_option cl_rx (clients n i))"

definition acl_kept :: "daemon \<Rightarrow> daemon \<Rightarrow> bool" where
  "acl_kept d d' \<longleftrightarrow>
     r_acls (reg d') = r_acls (reg d) \<and> r_files (reg d') = r_files (reg d) \<and>
     r_next (reg d) \<le> r_next (reg d')"

definition step_ok :: "(addr \<Rightarrow> nat) \<Rightarrow> addr set \<Rightarrow> daemon \<Rightarrow> daemon \<Rightarrow> bool" where
  "step_ok H S d d' \<longleftrightarrow>
     daemon_wf H d' \<and> rx_same (net d) (net d') \<and> keeps S (net d) (net d') \<and> acl_kept d d'"

lemma rx_same_refl [simp, intro]: "rx_same n n"
  by (simp add: rx_same_def)

lemma rx_same_trans [trans]: "rx_same n n' \<Longrightarrow> rx_same n' n'' \<Longrightarrow> rx_same n n''"
  by (simp add: rx_same_def)

lemma rx_same_dom: "rx_same n n' \<Longrightarrow> dom (clients n') = dom (clients n)"
  unfolding rx_same_def set_eq_iff domIff by (metis option.map_disc_iff)

lemma rx_same_client:
  assumes "rx_same n n'" and "clients n i = Some c"
  obtains c' where "clients n' i = Some c'" and "cl_rx c' = cl_rx c"
  using assms unfolding rx_same_def by (metis (no_types, lifting) map_option_eq_Some option.simps(9))

lemma cl_rx_fields:
  assumes "cl_rx c' = cl_rx c"
  shows "cl_fd c' = cl_fd c" "cl_uid c' = cl_uid c" "cl_gid c' = cl_gid c"
    "cl_extra_gid c' = cl_extra_gid c" "cl_user c' = cl_user c" "cl_group c' = cl_group c"
    "cl_pending_msg c' = cl_pending_msg c" "cl_retmsg c' = cl_retmsg c"
    "cl_pending_msg_offset c' = cl_pending_msg_offset c"
    "cl_pending_msg_fd c' = cl_pending_msg_fd c" "cl_hdrbuf c' = cl_hdrbuf c"
  using assms by (cases c; cases c'; simp add: cl_rx_def)+

lemma cl_rx_base: "cl_base c' = cl_base c \<Longrightarrow> cl_rx c' = cl_rx c"
  by (cases c; cases c') (simp add: cl_rx_def cl_base_def cl_core_def)

lemma rx_same_reg: "r_client (reg d') = r_client (reg d) \<Longrightarrow> rx_same (net d) (net d')"
  unfolding rx_same_def
proof
  fix i assume "r_client (reg d') = r_client (reg d)"
  then have "map_option cl_base (clients (net d') i) = map_option cl_base (clients (net d) i)"
    by (simp add: fun_eq_iff)
  then show "map_option cl_rx (clients (net d') i) = map_option cl_rx (clients (net d) i)"
    by (cases "clients (net d') i"; cases "clients (net d) i") (auto intro: cl_rx_base)
qed

lemma acl_kept_refl [simp, intro]: "acl_kept d d"
  by (simp add: acl_kept_def)

lemma acl_kept_trans [trans]: "acl_kept d d' \<Longrightarrow> acl_kept d' d'' \<Longrightarrow> acl_kept d d''"
  by (simp add: acl_kept_def)

lemma acl_kept_wf: "acl_kept d d' \<Longrightarrow> acl_wf d \<Longrightarrow> acl_wf d'"
  unfolding acl_kept_def by (elim conjE) (rule acl_wf_reg)

lemma step_okD:
  assumes "step_ok H S d d'"
  shows "daemon_wf H d'" "rx_same (net d) (net d')" "keeps S (net d) (net d')" "acl_kept d d'"
  using assms by (simp_all add: step_ok_def)

lemma step_ok_refl: "daemon_wf H d \<Longrightarrow> step_ok H S d d"
  by (simp add: step_ok_def)

lemma step_ok_trans:
  "step_ok H S d d' \<Longrightarrow> step_ok H' S d' d'' \<Longrightarrow> step_ok H' S d d''"
  unfolding step_ok_def by (blast intro: rx_same_trans keeps_trans acl_kept_trans)

lemma step_ok_net:
  assumes "daemon_wf H d" and "reg d' = reg d" and "net_wf H' (net d')" and "keeps S (net d) (net d')"
  shows "step_ok H' S d d'"
  using assms daemon_wf_net [OF assms(3,2,1)] rx_same_reg [of d' d]
  by (simp add: step_ok_def acl_kept_def del: reg_sel)

text \<open>An operation on the transport layer that does not change its core.\<close>

lemma step_ok_on_net:
  assumes "daemon_wf H d" and "core (f (net d)) = core (net d)" and "net_wf H' (f (net d))"
    and "keeps S (net d) (f (net d))"
  shows "step_ok H' S d (on_net f d)"
  by (rule step_ok_net [OF assms(1)]) (use assms in simp_all)

lemma step_ok_dom: "step_ok H S d d' \<Longrightarrow> dom (clients (net d')) = dom (clients (net d))"
  by (rule rx_same_dom [OF step_okD(2)])

lemma step_ok_client:
  assumes "step_ok H S d d'" and "clients (net d) i = Some c"
  obtains c' where "clients (net d') i = Some c'" and "cl_rx c' = cl_rx c"
  using rx_same_client [OF step_okD(2) [OF assms(1)] assms(2)] .

section \<open>Operations of the registry\<close>

lemma r_remove_fields [simp]:
  "r_client (r_remove oid r) = r_client r" "r_acls (r_remove oid r) = r_acls r"
  "r_files (r_remove oid r) = r_files r" "r_next (r_remove oid r) = r_next r"
  "r_monitors (r_remove oid r) = r_monitors r" "r_tree (r_remove oid r) = r_tree r"
  "r_objs (r_remove oid r) = r_objs r - {oid}" "r_owner (r_remove oid r) = (r_owner r)(oid := None)"
  "r_recv (r_remove oid r) = (r_recv r)(oid := None)"
  "r_pathof (r_remove oid r) = (r_pathof r)(oid := None)"
  "r_owned (r_remove oid r) = (case r_owner r oid of
     None \<Rightarrow> r_owned r | Some c \<Rightarrow> (r_owned r)(c := remove1 oid (r_owned r c)))"
  by (simp_all add: r_remove_def r_delete_def r_clear_patterns_def r_drop_subs_def r_unref_type_def
      Let_def split: option.splits)

lemma served_remove: "served_ok r \<Longrightarrow> served_ok (r_remove oid r)"
  by (simp add: served_ok_def)

lemma daemon_st_wf: "daemon_wf H d \<longleftrightarrow> st_wf H (\<lambda>_. 0) d \<and> served_ok (reg d)"
  by (simp add: daemon_wf_def st_wf_def)

lemma step_ok_reg:
  assumes "st_wf H (\<lambda>_. 0) d'" and "served_ok (reg d')" and "r_client (reg d') = r_client (reg d)"
    and "acl_kept d d'" and "keeps S (net d) (net d')"
  shows "step_ok H S d d'"
  using assms rx_same_reg [OF assms(3)] by (simp add: step_ok_def daemon_st_wf)

lemma step_free_object:
  assumes "daemon_wf H d" and "objects d oid \<noteq> None"
  shows "step_ok H S d (ubusd_free_object E oid d)"
proof -
  have wf: "st_wf H (\<lambda>_. 0) d" and s: "served_ok (reg d)" using assms(1) by (simp_all add: daemon_st_wf)
  note f = free_object_ok [OF wf assms(2), of E]
  show ?thesis
    by (rule step_ok_reg [OF f(2)])
      (simp_all add: f(1) s served_remove acl_kept_def del: reg_sel)
qed

lemma step_create_object:
  assumes "daemon_wf H d" and "avl_law E" and "clients (net d) cl = Some c"
    and "ubusd_create_object E cl attr d = (x, d')"
  shows "step_ok H S d d'"
proof -
  have wf: "st_wf H (\<lambda>_. 0) d" and s: "served_ok (reg d)" using assms(1) by (simp_all add: daemon_st_wf)
  note f = create_object_ok [OF wf assms(2,3,4)] and k = keeps_create_object [OF assms(4), of S]
  show ?thesis
  proof (cases x)
    case None
    with f(2) have r: "reg d' = reg d" by simp
    show ?thesis
      by (rule step_ok_net [OF assms(1) r _ k]) (rule st_wfD(1) [OF f(1)])
  next
    case (Some oid)
    with f(2) obtain ty T where r: "reg d' = r_attach cl oid
       ((case attr UBUS_ATTR_OBJPATH of None \<Rightarrow> (\<lambda>r. r)
         | Some pa \<Rightarrow> r_publish E oid (blob_str E pa)) (r_fresh oid ty ((reg d)\<lparr>r_types := T\<rparr>)))" by auto
    have "served_ok (reg d')" "r_client (reg d') = r_client (reg d)" "acl_kept d d'"
      unfolding r acl_kept_def using s
      by (auto simp: served_ok_def r_attach_def r_publish_def r_fresh_def simp del: reg_sel split: option.splits)
    with f(1) k show ?thesis by (intro step_ok_reg)
  qed
qed

lemma step_subscribe:
  assumes "daemon_wf H d" and "owner d oid \<noteq> None" "owner d target \<noteq> None" "oid \<noteq> target"
    and "ubus_subscribe E oid target d = (ret, d')"
  shows "step_ok H S d d'"
proof -
  have wf: "st_wf H (\<lambda>_. 0) d" and s: "served_ok (reg d)" using assms(1) by (simp_all add: daemon_st_wf)
  note f = subscribe_ok [OF wf assms(2-5)]
  have "served_ok (reg d')" "r_client (reg d') = r_client (reg d)" "acl_kept d d'"
    using f(2) s by (auto simp: served_ok_def r_subscribe_def acl_kept_def Let_def simp del: reg_sel)
  with f(1) keeps_subscribe [OF assms(5)] show ?thesis by (intro step_ok_reg)
qed

lemma step_unsubscribe:
  assumes "daemon_wf H d" and "subs d a = Some s"
  shows "step_ok H S d (ubus_unsubscribe E a d)"
proof -
  have wf: "st_wf H (\<lambda>_. 0) d" and sv: "served_ok (reg d)" using assms(1) by (simp_all add: daemon_st_wf)
  note f = unsubscribe_ok [OF wf assms(2), of E]
  have "served_ok (reg (ubus_unsubscribe E a d))"
    "r_client (reg (ubus_unsubscribe E a d)) = r_client (reg d)" "acl_kept d (ubus_unsubscribe E a d)"
    using sv by (auto simp: f(1) served_ok_def r_unsubscribe_def acl_kept_def simp del: reg_sel split: option.splits)
  with f(2) show ?thesis by (intro step_ok_reg) simp_all
qed

section \<open>The daemon's own objects\<close>

lemma step_send_event:
  assumes "daemon_wf H d"
  shows "step_ok H S d (snd (ubusd_send_event E cl ident attrs d))"
  by (rule step_ok_net [OF assms])
    (use daemon_wfD [OF assms] in \<open>simp_all add: net_wf_send_event\<close>)

lemma step_alloc_event_pattern:
  assumes "daemon_wf H d" and "avl_law E" and "ubusd_alloc_event_pattern E cl msg d = (ret, d')"
    and "keeps S (net d) (net d')"
  shows "step_ok H S d d'"
proof -
  note w = daemon_wfD [OF assms(1)] and f = alloc_event_pattern_cases [OF assms(3)]
  have "reg_wf (\<lambda>_. 0) (reg d') \<and> served_ok (reg d') \<and> r_client (reg d') = r_client (reg d) \<and> acl_kept d d'"
  proof (cases "reg d' = reg d")
    case True
    with w show ?thesis by (simp add: acl_kept_def del: reg_sel)
  next
    case False
    then obtain oid partial key where r: "reg d' = r_add_pattern E oid partial key (reg d)"
      and o: "owner d oid = Some cl"
      using f(2) by blast
    have "reg_wf (\<lambda>_. 0) (reg d')"
      unfolding r by (rule r_add_pattern_wf [OF w(2) assms(2)]) (use o in \<open>simp_all add: owner_def\<close>)
    then show ?thesis
      unfolding r acl_kept_def using w(3) by (auto simp: r_add_pattern_def served_ok_def Let_def simp del: reg_sel)
  qed
  with f(1) [OF w(1)] assms(4) show ?thesis by (intro step_ok_reg) (simp_all add: st_wf_def)
qed

lemma step_event_recv:
  assumes "daemon_wf H d" and "avl_law E" and r: "ubusd_event_recv E cl ub meth msg d = (ret, d')"
  shows "step_ok H S d d'"
proof -
  have fw: "step_ok H S d d'" if "ubusd_forward_event E cl msg d = (ret, d')"
  proof -
    have "step_ok H S d d1" if "ubusd_send_event E c i as d = (x, d1)" for c i as x d1
      using step_send_event [OF assms(1), of S E c i as] that by simp
    with that step_ok_refl [OF assms(1)] show ?thesis
      by (auto simp: ubusd_forward_event_def Let_def split: option.splits list.splits if_splits)
  qed
  have "step_ok H S d d'" if "ubusd_alloc_event_pattern E cl msg d = (ret, d')"
    by (rule step_alloc_event_pattern [OF assms(1,2) that])
      (rule keeps_event_recv [of E cl ub "''register''" msg d ret d'], simp add: ubusd_event_recv_def that)
  with r fw step_ok_refl [OF assms(1)] show ?thesis
    by (auto simp: ubusd_event_recv_def split: if_splits)
qed

lemma step_monitor_recv:
  assumes "daemon_wf H d" and "clients (net d) cl = Some c"
    and "ubusd_monitor_recv E cl ub meth msg d = (ret, d')"
  shows "step_ok H S d d'"
proof -
  have wf: "st_wf H (\<lambda>_. 0) d" and s: "served_ok (reg d)" using assms(1) by (simp_all add: daemon_st_wf)
  note f = monitor_recv_ok [OF wf assms(2,3)] and w = st_wfD [OF wf]
  have "reg_wf (\<lambda>_. 0) (reg d')"
    using f(2) w(2) r_monitor_wf [OF w(2)] by (auto simp del: reg_sel)
  moreover have "served_ok (reg d')" "r_client (reg d') = r_client (reg d)" "acl_kept d d'"
    using f(2) s by (auto simp: r_monitor_def served_ok_def acl_kept_def simp del: reg_sel)
  ultimately show ?thesis using f(1,3) by (intro step_ok_reg) (simp_all add: st_wf_def)
qed

lemma step_send_msg_from_blob:
  assumes "daemon_wf H d" and "clients (net d) cl = Some c" and "bufs (net d) ub = Some b"
  shows "step_ok H S d (on_net (ubus_proto_send_msg_from_blob E cl ub attrs ty) d)"
  by (rule step_ok_on_net [OF assms(1)])
    (use assms in \<open>simp_all add: send_msg_from_blob_ok(1) daemon_wfD(1) keeps_send_msg_from_blob\<close>)

lemma owned_objects:
  assumes "daemon_wf H d" and "clients (net d) cl = Some c" and "oid \<in> set (cl_objects c)"
  shows "objects d oid \<noteq> None" and "owner d oid = Some cl"
proof -
  note o = owners_okD [OF reg_wfD(1) [OF daemon_wfD(2) [OF assms(1)]]]
  have ow: "r_owner (reg d) oid = Some cl"
    unfolding o(1) using assms(2,3) by (simp add: cl_field_def)
  then show "owner d oid = Some cl" by (simp add: owner_def)
  from ow o(4) [of oid] show "objects d oid \<noteq> None" by (auto simp: obj_field_def split: option.splits)
qed

lemma acls_sorted: "daemon_wf H d \<Longrightarrow> sorted (map fst (ubusd_acls d))"
  by (drule daemon_wfD(2), drule reg_wfD(7)) (simp add: clients_ok_def)

lemma reply_query_eq:
  assumes wf: "daemon_wf H d" and cl: "clients (net d) cl = Some c"
    and ia: "attr UBUS_ATTR_OBJID = Some ia" and ob: "objects d (blob_get_u32 E ia) \<noteq> None"
  shows "ubusd_reply_query E cl ub attr d =
    (UBUS_STATUS_OK, on_net (ubus_proto_send_msg_from_blob E cl ub
      [(ubus_attr_code UBUS_ATTR_OBJID, Blob_int32 (blob_get_u32 E ia)),
       (ubus_attr_code UBUS_ATTR_DATA, Blobmsg_table [(''seq'', Blob_int32 (ubusd_acl_seq d)),
          (''acl'', Blobmsg_array (concat (map (reply_of d) (cl_objects c))))])] UBUS_MSG_DATA) d)"
proof -
  have "\<forall>oid\<in>set (cl_objects c). objects d oid \<noteq> None" using owned_objects(1) [OF wf cl] by blast
  with fold_reply_add [OF acls_sorted [OF wf], of "cl_objects c" "[]"] cl ia ob show ?thesis
    by (auto simp: ubusd_reply_query_def ubusd_find_object_def ubus_find_id_def Let_def)
qed

lemma step_acl_recv:
  assumes "daemon_wf H d" and "clients (net d) cl = Some c" and "bufs (net d) ub = Some b"
    and r: "ubusd_acl_recv E cl ub meth msg d = (ret, d')"
  shows "step_ok H S d d'"
proof -
  note snd = step_send_msg_from_blob [OF assms(1,2,3)]
  let ?attr = "ubus_parse_msg E (ub_data b)"
  show ?thesis
  proof (cases "meth = ''query'' \<and> (\<exists>ia. ?attr UBUS_ATTR_OBJID = Some ia \<and> objects d (blob_get_u32 E ia) \<noteq> None)")
    case True
    then obtain ia where "?attr UBUS_ATTR_OBJID = Some ia" "objects d (blob_get_u32 E ia) \<noteq> None" by blast
    from reply_query_eq [OF assms(1,2), where attr = ?attr, OF this] True r assms(3) show ?thesis
      by (auto simp: ubusd_acl_recv_def snd)
  next
    case False
    then have "d' = d" using r assms(3)
      by (auto simp: ubusd_acl_recv_def ubusd_reply_query_def ubusd_find_object_def ubus_find_id_def Let_def
          split: if_splits option.splits)
    with step_ok_refl [OF assms(1)] show ?thesis by simp
  qed
qed

end
