(* ===== verification/Ubusd_Handlers.thy ===== *)
theory Ubusd_Handlers
  imports Ubusd_Step
begin

text \<open>
  The contract of the message handlers, and that every handler of the table keeps it. A handler is
  called with one reference to the message; unless it queues the message it leaves that reference
  to its caller. It keeps the state well formed, follows no invalid pointer, and touches no
  message buffer but the one it was given.
\<close>

definition owns1 :: "net \<Rightarrow> addr \<Rightarrow> bool" where
  "owns1 n ub \<longleftrightarrow> (\<exists>b. bufs n ub = Some b \<and> ub_refcount b = 1)"

definition handled :: "(addr \<Rightarrow> nat) \<Rightarrow> addr \<Rightarrow> cmd_ret \<Rightarrow> daemon \<Rightarrow> daemon \<Rightarrow> bool" where
  "handled H ub ret d d' \<longleftrightarrow> step_ok (if ret = Queued then H(ub := 0) else H) {ub} d d'"

lemma owns1_sendable: "owns1 n ub \<Longrightarrow> sendable n ub"
  by (auto simp: owns1_def sendable_def)

lemma owns1_keeps:
  assumes "owns1 n ub" and "keeps {} n n'" and "net_wf H n"
  shows "owns1 n' ub"
proof -
  obtain b where b: "bufs n ub = Some b" "ub_refcount b = 1" using assms(1) by (auto simp: owns1_def)
  have "bufs n' ub = bufs n ub" by (rule keepsD [OF assms(2) net_wf_ub_less [OF assms(3) b(1)]]) simp
  with b show ?thesis by (simp add: owns1_def)
qed

lemma step_ok_any: "step_ok H {} d d' \<Longrightarrow> step_ok H S d d'"
  by (simp add: step_ok_def keeps_empty)

lemma handled_same: "daemon_wf H d \<Longrightarrow> ret \<noteq> Queued \<Longrightarrow> handled H ub ret d d"
  by (simp add: handled_def step_ok_refl)

lemma handled_step: "step_ok H {ub} d d' \<Longrightarrow> ret \<noteq> Queued \<Longrightarrow> handled H ub ret d d'"
  by (simp add: handled_def)

lemma handled_trans: "step_ok H {ub} d d' \<Longrightarrow> handled H ub ret d' d'' \<Longrightarrow> handled H ub ret d d''"
  unfolding handled_def by (rule step_ok_trans)

lemma step_buf:
  assumes "daemon_wf H d" and "owns1 (net d) ub" and "\<And>b. ub_refcount (f b) = ub_refcount b"
  shows "step_ok H {ub} d (on_net (upd_buf ub f) d)" and "owns1 (net (on_net (upd_buf ub f) d)) ub"
proof -
  obtain b where b: "bufs (net d) ub = Some b" "ub_refcount b = 1" using assms(2) by (auto simp: owns1_def)
  show "step_ok H {ub} d (on_net (upd_buf ub f) d)"
    by (rule step_ok_on_net [OF assms(1)])
      (use daemon_wfD(1) [OF assms(1)] b assms(3) in \<open>simp_all add: keeps_upd_buf net_wf_upd_buf\<close>)
  show "owns1 (net (on_net (upd_buf ub f) d)) ub"
    using b assms(3) by (simp add: owns1_def upd_buf_def)
qed

lemma step_send:
  assumes "daemon_wf H d" and "owns1 (net d) ub" and "clients (net d) cl = Some c"
  shows "step_ok H {ub} d (on_net (ubus_msg_send E cl ub) d)"
  by (rule step_ok_on_net [OF assms(1)])
    (use assms in \<open>simp_all add: keeps_send net_wf_send(1) daemon_wfD(1) owns1_sendable\<close>)

section \<open>Changing a client\<close>

lemma reg_set_client:
  assumes "clients (net d) cl = Some c" and "cl_objects (f c) = cl_objects c"
  shows "reg (on_net (upd_client cl f) d) = (reg d)\<lparr>r_client := (r_client (reg d))(cl \<mapsto> cl_base (f c))\<rparr>"
  using assms by (auto simp: reg_def upd_client_def cl_field_def obj_field_def fun_eq_iff)

lemma reg_wf_client:
  assumes "reg_wf K r" and "r_client r cl \<noteq> None"
  shows "reg_wf K (r\<lparr>r_client := (r_client r)(cl \<mapsto> x)\<rparr>)"
proof -
  note w = reg_wfD [OF assms(1)]
  have "owners_ok (r\<lparr>r_client := (r_client r)(cl \<mapsto> x)\<rparr>)"
    using w(1) unfolding owners_ok_def by simp
  moreover have "clients_ok (r\<lparr>r_client := (r_client r)(cl \<mapsto> x)\<rparr>)"
    using w(7) assms(2) by (auto simp: clients_ok_def)
  ultimately show ?thesis
    unfolding reg_wf_def using w by (auto elim!: reg_wf_congs)
qed

lemma step_client:
  assumes wf: "daemon_wf H d" and c: "clients (net d) cl = Some c"
    and f: "cl_objects (f c) = cl_objects c" "cl_rx (f c) = cl_rx c"
    and n: "net_wf H' (upd_client cl f (net d))"
  shows "step_ok H' S d (on_net (upd_client cl f) d)"
proof -
  note w = daemon_wfD [OF wf] and r = reg_set_client [OF c, of f, OF f(1)]
  have "r_client (reg d) cl \<noteq> None" using c by simp
  from reg_wf_client [OF w(2) this] have "reg_wf (\<lambda>_. 0) (reg (on_net (upd_client cl f) d))"
    unfolding r .
  moreover have "served_ok (reg (on_net (upd_client cl f) d))"
    unfolding r using w(3) by (simp add: served_ok_def del: reg_sel)
  moreover have "rx_same (net d) (net (on_net (upd_client cl f) d))"
    using c f(2) by (simp add: rx_same_def upd_client_def)
  moreover have "acl_kept d (on_net (upd_client cl f) d)"
    unfolding acl_kept_def r by (simp del: reg_sel)
  ultimately show ?thesis using n by (simp add: step_ok_def daemon_wf_def)
qed

section \<open>Ping\<close>

lemma pong_handled:
  assumes "daemon_wf H d" and "clients (net d) cl = Some c" and "owns1 (net d) ub"
    and "ubusd_send_pong E cl ub attr d = (ret, d')"
  shows "handled H ub ret d d'"
proof -
  let ?f = "\<lambda>b. b\<lparr>ub_hdr := (ub_hdr b)\<lparr>hdr_type := ubus_msg_code UBUS_MSG_DATA\<rparr>\<rparr>"
  let ?d = "on_net (upd_buf ub ?f) d"
  have s: "step_ok H {ub} d ?d" "owns1 (net ?d) ub" by (rule step_buf [OF assms(1,3)], simp)+
  obtain c' where "clients (net ?d) cl = Some c'" using step_ok_client [OF s(1) assms(2)] by auto
  with s have "step_ok H {ub} ?d (on_net (ubus_msg_send E cl ub) ?d)"
    by (intro step_send) (simp_all add: step_okD(1))
  from step_ok_trans [OF s(1) this] show ?thesis
    using assms(4) by (auto simp: ubusd_send_pong_def on_net_def intro!: handled_step)
qed

section \<open>Objects\<close>

lemma last_type_ok:
  assumes "daemon_wf H d" and "objects d oid = Some ob"
  shows "snd (last_type d ob)"
proof (cases "obj_type ob")
  case (Some tid)
  then have "r_typeof (reg d) oid = Some tid" using assms(2) by (simp add: obj_field_def)
  then have "r_types (reg d) tid \<noteq> None" using typeof_exists [of "\<lambda>_. 0" "reg d"] daemon_wfD(2) [OF assms(1)] by blast
  with Some show ?thesis by (auto simp: last_type_def)
qed (simp add: last_type_def)

lemma remove_object_handled:
  assumes wf: "daemon_wf H d" and cl: "clients (net d) cl = Some c" and ub: "owns1 (net d) ub"
    and r: "ubusd_handle_remove_object E cl ub attr d = (ret, d')"
  shows "handled H ub ret d d'"
proof (cases "\<exists>ia ob. attr UBUS_ATTR_OBJID = Some ia \<and> objects d (blob_get_u32 E ia) = Some ob \<and> obj_client ob = Some cl")
  case False
  with r have "d' = d \<and> ret \<noteq> Queued"
    by (auto simp: ubusd_handle_remove_object_def ubusd_find_object_def ubus_find_id_def Let_def
        split: option.splits if_splits prod.splits)
  with wf show ?thesis by (simp add: handled_same)
next
  case True
  then obtain ia ob where ia: "attr UBUS_ATTR_OBJID = Some ia"
    and ob: "objects d (blob_get_u32 E ia) = Some ob" "obj_client ob = Some cl" by blast
  let ?oid = "blob_get_u32 E ia"
  let ?d = "on_net (ubus_proto_send_msg_from_blob E cl ub
     ([(ubus_attr_code UBUS_ATTR_OBJID, Blob_int32 ?oid)] @ objtype_attr (fst (last_type d ob))) UBUS_MSG_DATA) d"
  have eq: "d' = ubusd_free_object E ?oid ?d" "ret \<noteq> Queued"
    using r ia ob last_type_ok [OF wf ob(1)]
    by (auto simp: ubusd_handle_remove_object_def ubusd_find_object_def ubus_find_id_def Let_def
        split: prod.splits)
  obtain b where "bufs (net d) ub = Some b" using ub by (auto simp: owns1_def)
  note s = step_send_msg_from_blob [OF wf cl this, of "{ub}"]
  have "step_ok H {ub} ?d d'"
    unfolding eq by (rule step_free_object [OF step_okD(1) [OF s]]) (simp add: ob)
  from step_ok_trans [OF s this] eq(2) show ?thesis by (intro handled_step)
qed

lemma add_object_handled:
  assumes wf: "daemon_wf H d" and law: "avl_law E" and cl: "clients (net d) cl = Some c"
    and ub: "owns1 (net d) ub" and r: "ubusd_handle_add_object E cl ub attr d = (ret, d')"
  shows "handled H ub ret d d'"
proof -
  obtain x d1 where x: "ubusd_create_object E cl attr d = (x, d1)" by fastforce
  note s = step_create_object [OF wf law cl x, of "{}"]
  obtain c' where c': "clients (net d1) cl = Some c'" using step_ok_client [OF s cl] by auto
  have "owns1 (net d1) ub" by (rule owns1_keeps [OF ub step_okD(3) [OF s] daemon_wfD(1) [OF wf]])
  then obtain b where b: "bufs (net d1) ub = Some b" by (auto simp: owns1_def)
  note t = step_ok_trans [OF step_ok_any [OF s] step_send_msg_from_blob [OF step_okD(1) [OF s] c' b, of "{ub}"]]
  from r x s t show ?thesis
    by (auto simp: ubusd_handle_add_object_def Let_def intro!: handled_step intro: step_ok_any split: option.splits)
qed

section \<open>Lookup\<close>

lemma step_send_obj:
  assumes wf: "daemon_wf H d" and cl: "clients (net d) cl = Some c" and b: "bufs (net d) ub = Some b"
    and p: "(key, oid) \<in> set (path d)"
  shows "step_ok H S d (ubusd_send_obj E cl ub oid d)" and "path (ubusd_send_obj E cl ub oid d) = path d"
proof -
  note w = daemon_wfD [OF wf]
  have pt: "r_pathof (reg d) oid = Some key"
    using reg_wfD(4) [OF w(2)] p by (auto simp: path_ok_def)
  then obtain ob where ob: "objects d oid = Some ob" "obj_path ob = Some key"
    by (auto simp: obj_field_def split: option.splits)
  have ty: "obj_types d tid \<noteq> None" if "obj_type ob = Some tid" for tid
    using typeof_exists [OF w(2), of oid tid] that ob by (simp add: obj_field_def)
  note s = step_send_msg_from_blob [OF wf cl b, of S]
  show "step_ok H S d (ubusd_send_obj E cl ub oid d)"
    using ob ty s step_ok_refl [OF wf]
    by (auto simp: ubusd_send_obj_def Let_def split: option.splits)
  show "path (ubusd_send_obj E cl ub oid d) = path d"
    by (simp add: ubusd_send_obj_def dfault_def Let_def split: option.splits)
qed

text \<open>A lookup leaves the message it answers untouched.\<close>

lemma live_keeps:
  assumes "net_wf H n" and "keeps {} n n'" and "bufs n ub = Some b"
  shows "bufs n' ub = Some b"
  using keepsD [OF assms(2) net_wf_ub_less [OF assms(1,3)]] assms(3) by simp

lemma step_calloc:
  assumes "daemon_wf H d" and "calloc E (net d) = (ok, n)"
  shows "step_ok H S d (d\<lparr>net := n\<rparr>)"
proof (rule step_ok_net [OF assms(1)])
  show "net_wf H (net (d\<lparr>net := n\<rparr>))"
    using net_wf_calloc [OF daemon_wfD(1) [OF assms(1)] assms(2)] by simp
qed (use assms(2) in \<open>simp_all add: reg_set_net core_calloc keeps_calloc\<close>)

lemma step_set_cmd_path:
  assumes wf: "daemon_wf H d" and cl: "clients (net d) cl = Some c"
  shows "step_ok H {} d (set_cmd_path E cl key d)"
proof -
  obtain ok n where n: "calloc E (net d) = (ok, n)" by fastforce
  let ?d = "d\<lparr>net := n\<rparr>"
  let ?f = "\<lambda>c. c\<lparr>cl_cmd_queue := (case cl_cmd_queue c of [] \<Rightarrow> []
      | cmd # q \<Rightarrow> cmd\<lparr>cmd_lookup_path := (if ok then Some key else None)\<rparr> # q)\<rparr>"
  have s: "step_ok H {} d ?d" by (rule step_calloc [OF wf n])
  have c: "clients (net ?d) cl = Some c" using cl bufs_calloc [OF n] by simp
  have "step_ok H {} ?d (on_net (upd_client cl ?f) ?d)"
    by (rule step_client [OF step_okD(1) [OF s] c])
      (use daemon_wfD(1) [OF step_okD(1) [OF s]] c in \<open>auto simp: cl_rx_def client_refs_def
         intro!: net_wf_upd_client split: list.splits\<close>)
  with step_ok_trans [OF s] n show ?thesis by (simp add: set_cmd_path_def on_net_def)
qed

lemma queue_add_handled:
  assumes wf: "daemon_wf H d" and cl: "clients (net d) cl = Some c" and ub: "owns1 (net d) ub" "H ub = 1"
    and r: "ubus_client_cmd_queue_add E cl ub key d = (ret, d')"
  shows "handled H ub ret d d'"
proof -
  obtain ok n where n: "calloc E (net d) = (ok, n)" by fastforce
  obtain ok2 n2 where n2: "(if key = None then (True, n) else calloc E n) = (ok2, n2)" by fastforce
  have c: "clients n = clients (net d)" "bufs n = bufs (net d)" using bufs_calloc [OF n] by simp_all
  have c2: "clients n2 = clients (net d)" "bufs n2 = bufs (net d)"
    using n2 c bufs_calloc [of E n ok2 n2] by (auto split: if_splits)
  have s: "step_ok H {} d (d\<lparr>net := n\<rparr>)" by (rule step_calloc [OF wf n])
  have s2: "step_ok H {} d (d\<lparr>net := n2\<rparr>)"
  proof (cases "key = None")
    case False
    with n2 have "calloc E (net (d\<lparr>net := n\<rparr>)) = (ok2, n2)" by simp
    from step_ok_trans [OF s step_calloc [OF step_okD(1) [OF s] this]] show ?thesis by simp
  qed (use n2 s in simp)
  let ?f = "\<lambda>c. c\<lparr>cl_cmd_queue := cl_cmd_queue c @ [\<lparr>cmd_msg = ub, cmd_lookup_path = key\<rparr>]\<rparr>"
  have "net_wf (H(ub := 0)) (upd_client cl ?f n2)"
    by (rule net_wf_move [where H = H])
      (use cl c2 ub daemon_wfD(1) [OF step_okD(1) [OF s2]] in \<open>auto simp: client_refs_def owns1_def not_external [symmetric]\<close>)
  then have "step_ok (H(ub := 0)) {} (d\<lparr>net := n2\<rparr>) (on_net (upd_client cl ?f) (d\<lparr>net := n2\<rparr>))"
    by (intro step_client [OF step_okD(1) [OF s2]]) (use cl c2 in \<open>simp_all add: cl_rx_def\<close>)
  from step_ok_trans [OF s2 this] s s2 r n n2 show ?thesis
    by (auto simp: ubus_client_cmd_queue_add_def handled_def on_net_def intro: step_ok_any
        split: bool.splits)
qed

lemma lookup_range_handled:
  assumes "daemon_wf H d" and "clients (net d) cl = Some c" and "bufs (net d) ub = Some b"
    and "\<not> resumed \<Longrightarrow> ub_refcount b = 1 \<and> H ub = 1"
    and "set t \<subseteq> set (path d)" and "lookup_range E cl ub resumed t d = (ret, d')"
  shows "if resumed then step_ok H {} d d' else handled H ub ret d d'"
  using assms
proof (induction t arbitrary: d c)
  case Nil
  then show ?case by (auto simp: handled_same step_ok_refl)
next
  case (Cons ko t)
  obtain key oid where ko: "ko = (key, oid)" by fastforce
  show ?case
  proof (cases "cl_tx_queue c = []")
    case True
    let ?d = "ubusd_send_obj E cl ub oid d"
    have p: "(key, oid) \<in> set (path d)" using Cons.prems(5) ko by simp
    note s = step_send_obj [OF Cons.prems(1,2,3) p, where E = E]
    obtain c' where c': "clients (net ?d) cl = Some c'" using step_ok_client [OF s(1) Cons.prems(2)] by auto
    have b': "bufs (net ?d) ub = Some b"
      by (rule live_keeps [OF daemon_wfD(1) [OF Cons.prems(1)] step_okD(3) [OF s(1)] Cons.prems(3)])
    have "if resumed then step_ok H {} ?d d' else handled H ub ret ?d d'"
      by (rule Cons.IH [OF step_okD(1) [OF s(1)] c' b' Cons.prems(4)])
        (use Cons.prems(2,5,6) True ko s(2) in simp_all)
    with step_ok_trans [OF s(1)] handled_trans [OF s(1)] show ?thesis by (auto split: if_splits)
  next
    case False
    have "owns1 (net d) ub" if "\<not> resumed" using Cons.prems(3,4) that by (simp add: owns1_def)
    with Cons.prems False ko queue_add_handled [OF Cons.prems(1,2)] step_set_cmd_path [OF Cons.prems(1,2)]
    show ?thesis by auto
  qed
qed

lemma lookup_prefix_step:
  assumes "daemon_wf H d" and "clients (net d) cl = Some c" and "bufs (net d) ub = Some b"
    and "set t \<subseteq> set (path d)"
  shows "step_ok H {} d (snd (lookup_prefix E cl ub p found t d))"
  using assms
proof (induction t arbitrary: d c found)
  case (Cons ko t)
  obtain key oid where ko: "ko = (key, oid)" by fastforce
  let ?d = "ubusd_send_obj E cl ub oid d"
  have p: "(key, oid) \<in> set (path d)" using Cons.prems(4) ko by simp
  note s = step_send_obj [OF Cons.prems(1,2,3) p, where E = E]
  obtain c' where c': "clients (net ?d) cl = Some c'" using step_ok_client [OF s(1) Cons.prems(2)] by auto
  have b': "bufs (net ?d) ub = Some b"
    by (rule live_keeps [OF daemon_wfD(1) [OF Cons.prems(1)] step_okD(3) [OF s(1)] Cons.prems(3)])
  have "step_ok H {} ?d (snd (lookup_prefix E cl ub p f t ?d))" for f
    using Cons.IH [OF step_okD(1) [OF s(1)] c' b'] Cons.prems(4) s(2) by simp
  from step_ok_trans [OF s(1) this] step_ok_refl [OF Cons.prems(1)] show ?case by (simp add: ko)
qed (simp add: step_ok_refl)

lemma set_path_from: "set (path_from key t) \<subseteq> set t"
  by (auto simp: path_from_def dest: set_dropWhileD)

lemma do_lookup_handled:
  assumes wf: "daemon_wf H d" and cl: "clients (net d) cl = Some c" and b: "bufs (net d) ub = Some b"
    and new: "cmd = None \<Longrightarrow> ub_refcount b = 1 \<and> H ub = 1"
    and r: "do_lookup E cl ub attr cmd d = (ret, d')"
  shows "if cmd = None then handled H ub ret d d' else step_ok H {} d d'"
proof (cases "attr UBUS_ATTR_OBJPATH")
  case None
  let ?t = "case cmd of Some c \<Rightarrow> (case cmd_lookup_path c of None \<Rightarrow> path d | Some key \<Rightarrow> path_from key (path d))
    | None \<Rightarrow> path d"
  have "lookup_range E cl ub (cmd \<noteq> None) ?t d = (ret, d')" using r None by (simp add: do_lookup_def)
  from lookup_range_handled [OF wf cl b _ _ this] new set_path_from show ?thesis
    by (auto split: option.splits if_splits)
next
  case (Some pa)
  have so: "step_ok H S d (ubusd_send_obj E cl ub oid d)" if "map_of (path d) k = Some oid" for oid k S
    using step_send_obj(1) [OF wf cl b map_of_SomeD [OF that]] .
  note pre = lookup_prefix_step [OF wf cl b set_path_from]
  have "ret \<noteq> Queued \<and> step_ok H {} d d'"
    using r Some so step_ok_refl [OF wf] pre [where E = E]
    by (auto simp: do_lookup_def Let_def case_prod_unfold split: option.splits if_splits)
  then show ?thesis by (auto intro: handled_step step_ok_any)
qed

lemma lookup_handled:
  assumes "daemon_wf H d" and "clients (net d) cl = Some c" and "owns1 (net d) ub" "H ub = 1"
    and "ubusd_handle_lookup E cl ub attr d = (ret, d')"
  shows "handled H ub ret d d'"
proof -
  obtain b where b: "bufs (net d) ub = Some b" "ub_refcount b = 1" using assms(3) by (auto simp: owns1_def)
  from assms queue_add_handled [OF assms(1-4)] do_lookup_handled [OF assms(1,2) b(1), of None] b(2)
  show ?thesis by (auto simp: ubusd_handle_lookup_def split: if_splits)
qed

section \<open>Invoke, notify and responses\<close>

lemma set_peer_step:
  assumes "daemon_wf H d" and "owns1 (net d) ub"
  shows "step_ok H {ub} d (on_net (set_peer ub p) d)" and "owns1 (net (on_net (set_peer ub p) d)) ub"
  unfolding set_peer_def by (rule step_buf [OF assms], simp)+

lemma forward_invoke_step:
  assumes wf: "daemon_wf H d" and cl: "clients (net d) cl = Some c" and b: "bufs (net d) ub = Some b"
    and o: "owner d oid \<noteq> None"
  shows "step_ok H S d (ubusd_forward_invoke E pre cl oid meth ub data d)"
proof -
  obtain oc where oc: "owner d oid = Some oc" using o by auto
  have "live_owner d oid" by (rule owner_live [OF reg_wfD(1) [OF daemon_wfD(2) [OF wf]] oc])
  then obtain ob oc' ocl where ob: "objects d oid = Some ob" "obj_client ob = Some oc'" "clients (net d) oc' = Some ocl"
    by (auto simp: live_owner_def)
  from step_send_msg_from_blob [OF wf ob(3) b] cl ob(1,2) show ?thesis
    by (simp add: ubusd_forward_invoke_def Let_def)
qed

lemma invoke_handled:
  assumes wf: "daemon_wf H d" and law: "avl_law E" and cl: "clients (net d) cl = Some c"
    and ub: "owns1 (net d) ub" and r: "ubusd_handle_invoke E cl ub attr d = (ret, d')"
  shows "handled H ub ret d d'"
proof (cases "\<exists>ia ob. attr UBUS_ATTR_OBJID = Some ia \<and> objects d (blob_get_u32 E ia) = Some ob \<and> d' \<noteq> d")
  case False
  with r have "d' = d \<and> ret \<noteq> Queued"
    by (auto simp: ubusd_handle_invoke_def ubus_find_id_def Let_def split: option.splits if_splits prod.splits)
  with wf show ?thesis by (simp add: handled_same)
next
  case True
  then obtain ia ob where ia: "attr UBUS_ATTR_OBJID = Some ia"
    and ob: "objects d (blob_get_u32 E ia) = Some ob" and ne: "d' \<noteq> d" by blast
  let ?oid = "blob_get_u32 E ia"
  obtain ma where ma: "attr UBUS_ATTR_METHOD = Some ma"
    using r ne by (auto simp: ubusd_handle_invoke_def split: option.splits)
  obtain b where b: "bufs (net d) ub = Some b" using ub by (auto simp: owns1_def)
  show ?thesis
  proof (cases "obj_client ob")
    case None
    have "r_recv (reg d) ?oid \<noteq> None"
      using daemon_wfD(3) [OF wf] ob None by (auto simp: served_ok_def obj_field_def)
    then obtain h where h: "obj_recv_msg ob = Some h" using ob by (auto simp: obj_field_def)
    obtain st where "recv_internal E h cl ub (blob_str E ma) (attr UBUS_ATTR_DATA) d = (st, d')" "ret = Status st"
      using r ia ob ma None h ne
      by (auto simp: ubusd_handle_invoke_def ubus_find_id_def Let_def split: if_splits prod.splits)
    with step_event_recv [OF wf law] step_acl_recv [OF wf cl b] step_monitor_recv [OF wf cl] show ?thesis
      by (auto simp: recv_internal_def intro!: handled_step split: recv_msg.splits)
  next
    case (Some oc)
    let ?d1 = "on_net (set_peer ub cl) d"
    let ?d2 = "ubusd_forward_invoke E [] cl ?oid (blob_str E ma) ub (attr UBUS_ATTR_DATA) ?d1"
    have eq: "d' = on_net (upd_buf ub (\<lambda>b. b\<lparr>ub_fd := - 1\<rparr>)) ?d2" "ret \<noteq> Queued"
      using r ia ob ma Some ne by (auto simp: ubusd_handle_invoke_def ubus_find_id_def Let_def split: if_splits)
    note s1 = set_peer_step [OF wf ub, of cl]
    obtain c1 where c1: "clients (net ?d1) cl = Some c1" using step_ok_client [OF s1(1) cl] by auto
    obtain b1 where b1: "bufs (net ?d1) ub = Some b1" using s1(2) by (auto simp: owns1_def)
    have "owner ?d1 ?oid \<noteq> None" using ob Some by (simp add: owner_def obj_field_def)
    note s2 = forward_invoke_step [OF step_okD(1) [OF s1(1)] c1 b1 this]
    have o2: "owns1 (net ?d2) ub"
      by (rule owns1_keeps [OF s1(2) step_okD(3) [OF s2] daemon_wfD(1) [OF step_okD(1) [OF s1(1)]]])
    have "step_ok H {ub} ?d2 d'" unfolding eq by (rule step_buf(1) [OF step_okD(1) [OF s2] o2]) simp
    from handled_step [OF step_ok_trans [OF step_ok_trans [OF s1(1) s2] this] eq(2)] show ?thesis .
  qed
qed

lemma step_ok_owner: "reg d' = reg d \<Longrightarrow> owner d' = owner d"
  by (rule reg_owner)

lemma reg_forward_invoke [simp]: "reg (ubusd_forward_invoke E pre cl oid meth ub data d) = reg d"
  by (simp add: ubusd_forward_invoke_def Let_def split: option.splits)

lemma notify_loop_step:
  assumes "daemon_wf H d" and "clients (net d) cl = Some c" and "bufs (net d) ub = Some b"
    and "\<forall>a\<in>set as. subs d a \<noteq> None"
  shows "step_ok H {} d (notify_loop E pre cl meth ub data as d)"
  using assms
proof (induction as arbitrary: d c)
  case (Cons a as)
  obtain s where s: "subs d a = Some s" using Cons.prems(4) by auto
  let ?d = "ubusd_forward_invoke E pre cl (sub_subscriber s) meth ub data d"
  have "owner d (sub_subscriber s) \<noteq> None"
    using live_objects(2) [OF daemon_wfD(2) [OF Cons.prems(1)] s] by (auto simp: live_owner_def owner_def obj_field_def)
  note f = forward_invoke_step [OF Cons.prems(1,2,3) this, where E = E and pre = pre and meth = meth and data = data]
  obtain c' where c': "clients (net ?d) cl = Some c'" using step_ok_client [OF f Cons.prems(2)] by auto
  have b': "bufs (net ?d) ub = Some b"
    by (rule live_keeps [OF daemon_wfD(1) [OF Cons.prems(1)] step_okD(3) [OF f] Cons.prems(3)])
  have sd: "subs ?d = subs d" by (metis reg_forward_invoke reg_sel(15))
  have "step_ok H {} ?d (notify_loop E pre cl meth ub data as ?d)"
    by (rule Cons.IH [OF step_okD(1) [OF f] c' b']) (use Cons.prems(4) sd in simp)
  from step_ok_trans [OF f this] s show ?case by simp
qed (simp add: step_ok_refl)

lemma subscribers_live:
  assumes "daemon_wf H d" and "objects d oid = Some ob"
  shows "\<forall>a\<in>set (obj_subscribers ob). subs d a \<noteq> None"
proof
  fix a assume "a \<in> set (obj_subscribers ob)"
  then have "a \<in> set (r_subscribers (reg d) oid)" using assms(2) by (simp add: obj_field_def)
  then show "subs d a \<noteq> None" using subs_okD(7) [OF reg_wfD(5) [OF daemon_wfD(2) [OF assms(1)]]] by fastforce
qed

lemma notify_handled:
  assumes wf: "daemon_wf H d" and cl: "clients (net d) cl = Some c"
    and ub: "owns1 (net d) ub" and r: "ubusd_handle_notify E cl ub attr d = (ret, d')"
  shows "handled H ub ret d d'"
proof (cases "\<exists>ma ia ob. attr UBUS_ATTR_METHOD = Some ma \<and> attr UBUS_ATTR_OBJID = Some ia \<and>
    objects d (blob_get_u32 E ia) = Some ob \<and> obj_client ob = Some cl")
  case False
  with r have "d' = d \<and> ret \<noteq> Queued"
    by (auto simp: ubusd_handle_notify_def ubus_find_id_def Let_def split: option.splits if_splits)
  with wf show ?thesis by (simp add: handled_same)
next
  case True
  then obtain ma ia ob where at: "attr UBUS_ATTR_METHOD = Some ma" "attr UBUS_ATTR_OBJID = Some ia"
    and ob: "objects d (blob_get_u32 E ia) = Some ob" "obj_client ob = Some cl" by blast
  let ?nr = "case attr UBUS_ATTR_NO_REPLY of None \<Rightarrow> False | Some a \<Rightarrow> blob_get_u8 E a \<noteq> 0"
  let ?attrs = "[(ubus_attr_code UBUS_ATTR_OBJID, Blob_int32 (blob_get_u32 E ia)),
     (ubus_attr_code UBUS_ATTR_SUBSCRIBERS, Blob_nest (map (\<lambda>i. (0, Blob_int32 i)) (sub_ids d (obj_subscribers ob)))),
     (ubus_attr_code UBUS_ATTR_STATUS, Blob_int32 0)]"
  define d1 where "d1 = (if ?nr then d
    else on_net (ubus_proto_send_msg_from_blob E cl ub ?attrs UBUS_MSG_STATUS) d)"
  define d2 where "d2 = on_net (set_peer ub cl) d1"
  obtain b where b: "bufs (net d) ub = Some b" using ub by (auto simp: owns1_def)
  have s1: "step_ok H {} d d1" and sb1: "subs d1 = subs d"
    using step_send_msg_from_blob [OF wf cl b] step_ok_refl [OF wf] by (auto simp: d1_def)
  have o1: "owns1 (net d1) ub" by (rule owns1_keeps [OF ub step_okD(3) [OF s1] daemon_wfD(1) [OF wf]])
  have s2: "step_ok H {ub} d1 d2" "owns1 (net d2) ub"
    using set_peer_step [OF step_okD(1) [OF s1] o1, of cl] by (simp_all add: d2_def)
  note s12 = step_ok_trans [OF step_ok_any [OF s1] s2(1)]
  obtain c2 where c2: "clients (net d2) cl = Some c2" using step_ok_client [OF s12 cl] by auto
  obtain b2 where b2: "bufs (net d2) ub = Some b2" using s2(2) by (auto simp: owns1_def)
  have lv: "\<forall>a\<in>set (obj_subscribers ob). subs d2 a \<noteq> None"
    using subscribers_live [OF wf ob(1)] sb1 by (simp add: d2_def)
  note s3 = notify_loop_step [OF step_okD(1) [OF s2(1)] c2 b2 lv, THEN step_ok_any]
  let ?pre = "if ?nr then [(ubus_attr_code UBUS_ATTR_NO_REPLY, Blob_int8 1)] else []"
  have "d' = notify_loop E ?pre cl (blob_str E ma) ub (attr UBUS_ATTR_DATA) (obj_subscribers ob) d2"
    and "ret \<noteq> Queued"
    using r at ob by (auto simp: ubusd_handle_notify_def ubus_find_id_def Let_def d2_def d1_def)
  with step_ok_trans [OF s12 s3] show ?thesis by (auto intro!: handled_step)
qed

lemma response_handled:
  assumes wf: "daemon_wf H d" and cl: "clients (net d) cl = Some c"
    and ub: "owns1 (net d) ub" and r: "ubusd_handle_response E cl ub attr d = (ret, d')"
  shows "handled H ub ret d d'"
proof (cases "d' = d")
  case True
  moreover have "ret \<noteq> Queued"
    using r by (auto simp: ubusd_handle_response_def Let_def split: option.splits if_splits)
  ultimately show ?thesis using wf by (simp add: handled_same)
next
  case False
  obtain b where b: "bufs (net d) ub = Some b" using ub by (auto simp: owns1_def)
  obtain p dest where d': "d' = on_net (ubus_msg_send E dest ub) (on_net (set_peer ub p) d)"
    and dest: "dest \<in> client_tree d" and ret: "ret = No_reply"
    using r False b
    by (auto simp: ubusd_handle_response_def ubusd_get_client_by_id_def Let_def on_net_def
        split: option.splits if_splits)
  note s = set_peer_step [OF wf ub, of p]
  have "dest \<in> dom (r_client (reg d))"
    using dest reg_wfD(7) [OF daemon_wfD(2) [OF wf]] by (simp add: clients_ok_def)
  then obtain dc where "clients (net d) dest = Some dc" by auto
  from step_ok_client [OF s(1) this] obtain dc' where "clients (net (on_net (set_peer ub p) d)) dest = Some dc'" by auto
  from step_ok_trans [OF s(1) step_send [OF step_okD(1) [OF s(1)] s(2) this]] show ?thesis
    unfolding d' ret by (intro handled_step) simp_all
qed

section \<open>Subscriptions\<close>

lemma add_watch_handled:
  assumes wf: "daemon_wf H d" and cl: "clients (net d) cl = Some c"
    and r: "ubusd_handle_add_watch E cl ub attr d = (ret, d')"
  shows "handled H ub ret d d'"
proof (cases "d' = d")
  case True
  moreover have "ret \<noteq> Queued"
    using r by (auto simp: ubusd_handle_add_watch_def Let_def split: option.splits if_splits prod.splits)
  ultimately show ?thesis using wf by (simp add: handled_same)
next
  case False
  note o = owners_okD [OF reg_wfD(1) [OF daemon_wfD(2) [OF wf]]]
  have lv: "clients (net d) tc \<noteq> None" if "objects d i = Some ob" "obj_client ob = Some tc" for i ob tc
    using o(7) [of i tc] that by (simp add: obj_field_def)
  obtain ia ta ob tob tc st where ob: "objects d (blob_get_u32 E ia) = Some ob" "obj_client ob = Some cl"
    and tob: "objects d (blob_get_u32 E ta) = Some tob" "obj_client tob = Some tc" "cl \<noteq> tc"
    and s: "ubus_subscribe E (blob_get_u32 E ia) (blob_get_u32 E ta) d = (st, d')" and ret: "ret = Status st"
    using r False cl lv
    by (fastforce simp: ubusd_handle_add_watch_def ubusd_find_object_def ubus_find_id_def Let_def
        split: option.splits if_splits prod.splits)
  have "step_ok H {ub} d d'"
    by (rule step_subscribe [OF wf _ _ _ s]) (use ob tob in \<open>auto simp: owner_def obj_field_def\<close>)
  then show ?thesis unfolding ret by (intro handled_step) simp_all
qed

lemma unwatch_step:
  assumes "daemon_wf H d" and "\<forall>a\<in>set as. subs d a \<noteq> None" and "unwatch_loop E t as d = (st, d')"
  shows "step_ok H S d d'"
  using assms
proof (induction as)
  case (Cons a as)
  then obtain s where s: "subs d a = Some s" by auto
  with Cons step_unsubscribe [OF Cons.prems(1) s] show ?case by (auto split: if_splits)
qed (simp add: step_ok_refl)

lemma targets_live:
  assumes "daemon_wf H d" and "objects d oid = Some ob"
  shows "\<forall>a\<in>set (obj_target_list ob). subs d a \<noteq> None"
proof
  fix a assume "a \<in> set (obj_target_list ob)"
  then have "a \<in> set (r_targets (reg d) oid)" using assms(2) by (simp add: obj_field_def)
  then show "subs d a \<noteq> None" using subs_okD(8) [OF reg_wfD(5) [OF daemon_wfD(2) [OF assms(1)]]] by fastforce
qed

lemma remove_watch_handled:
  assumes wf: "daemon_wf H d" and r: "ubusd_handle_remove_watch E cl ub attr d = (ret, d')"
  shows "handled H ub ret d d'"
proof -
  have u: "step_ok H {ub} d d'" if "objects d i = Some ob" "unwatch_loop E t (obj_target_list ob) d = (st, d')" for i ob t st
    by (rule unwatch_step [OF wf targets_live [OF wf that(1)] that(2)])
  from r u step_ok_refl [OF wf] show ?thesis
    by (auto simp: ubusd_handle_remove_watch_def ubusd_find_object_def ubus_find_id_def Let_def
        intro!: handled_step split: option.splits if_splits prod.splits)
qed

section \<open>The contract\<close>

locale msg_handler =
  fixes h :: "env \<Rightarrow> u32 \<Rightarrow> addr \<Rightarrow> attr_table \<Rightarrow> daemon \<Rightarrow> cmd_ret \<times> daemon"
  assumes contract: "lib_ok E \<Longrightarrow> daemon_wf H d \<Longrightarrow> clients (net d) cl = Some c \<Longrightarrow> owns1 (net d) ub \<Longrightarrow>
    H ub = 1 \<Longrightarrow> h E cl ub attr d = (ret, d') \<Longrightarrow> handled H ub ret d d'"

interpretation ping: msg_handler ubusd_send_pong
  by unfold_locales (rule pong_handled)

interpretation add_object: msg_handler ubusd_handle_add_object
  by unfold_locales (rule add_object_handled, simp_all add: lib_ok_def)

interpretation remove_object: msg_handler ubusd_handle_remove_object
  by unfold_locales (rule remove_object_handled)

interpretation lookup: msg_handler ubusd_handle_lookup
  by unfold_locales (rule lookup_handled)

interpretation invoke: msg_handler ubusd_handle_invoke
  by unfold_locales (rule invoke_handled, simp_all add: lib_ok_def)

interpretation response: msg_handler ubusd_handle_response
  by unfold_locales (rule response_handled)

interpretation add_watch: msg_handler ubusd_handle_add_watch
  by unfold_locales (rule add_watch_handled)

interpretation remove_watch: msg_handler ubusd_handle_remove_watch
  by unfold_locales (rule remove_watch_handled)

interpretation notify: msg_handler ubusd_handle_notify
  by unfold_locales (rule notify_handled)

lemma handlers_contract: "handlers ty = Some h \<Longrightarrow> msg_handler h"
  by (cases ty) (auto simp: handlers_def intro: ping.msg_handler_axioms add_object.msg_handler_axioms
      remove_object.msg_handler_axioms lookup.msg_handler_axioms invoke.msg_handler_axioms
      response.msg_handler_axioms add_watch.msg_handler_axioms remove_watch.msg_handler_axioms
      notify.msg_handler_axioms)

lemma handler_of_contract: "handler_of code = Some h \<Longrightarrow> msg_handler h"
  by (auto simp: handler_of_def intro: handlers_contract split: option.splits)

end
