(* ===== verification/Ubusd_Run.thy ===== *)
theory Ubusd_Run
  imports Ubusd_Handlers
begin

text \<open>
  The invariant of the daemon: the state is well formed, the access control tree belongs to its
  files, and the receive state of every client is consistent (a message that is being received
  has the length its header announced, is referenced by nobody else, and the bytes received so
  far lie within it).
  Every callback of the event loop keeps it.
\<close>

section \<open>The receive state\<close>

definition pending_ok :: "env \<Rightarrow> (addr \<rightharpoonup> ubus_msg_buf) \<Rightarrow> nat \<Rightarrow> addr \<Rightarrow> bool" where
  "pending_ok E B ofs a \<longleftrightarrow>
     HDRBUF_SIZE \<le> ofs \<and>
     (\<exists>b bs. B a = Some b \<and> ub_refcount b = 1 \<and> ub_data b = Raw bs \<and> length bs = ub_len b \<and>
        blob_hdr_raw_len E (take 4 bs) = ub_len b \<and> 4 \<le> ub_len b \<and> ofs - HDR_SIZE \<le> ub_len b)"

definition rx_ok :: "env \<Rightarrow> (addr \<rightharpoonup> ubus_msg_buf) \<Rightarrow> ubus_client \<Rightarrow> bool" where
  "rx_ok E B c \<longleftrightarrow>
     length (cl_hdrbuf c) = HDRBUF_SIZE \<and>
     (case cl_pending_msg c of
        None \<Rightarrow> cl_pending_msg_offset c \<le> HDRBUF_SIZE
      | Some a \<Rightarrow> pending_ok E B (cl_pending_msg_offset c) a)"

definition rx_inv :: "env \<Rightarrow> net \<Rightarrow> bool" where
  "rx_inv E n \<longleftrightarrow> (\<forall>i c. clients n i = Some c \<longrightarrow> rx_ok E (bufs n) c)"

definition daemon_inv :: "env \<Rightarrow> daemon \<Rightarrow> bool" where
  "daemon_inv E d \<longleftrightarrow> daemon_wf (\<lambda>_. 0) d \<and> acl_wf d \<and> rx_inv E (net d)"

lemma invD:
  assumes "daemon_inv E d"
  shows "daemon_wf (\<lambda>_. 0) d" "acl_wf d" "rx_inv E (net d)"
  using assms by (simp_all add: daemon_inv_def)

lemma rx_invD: "rx_inv E n \<Longrightarrow> clients n i = Some c \<Longrightarrow> rx_ok E (bufs n) c"
  by (simp add: rx_inv_def)

text \<open>A buffer with one reference that is being received is referenced by nobody else.\<close>

lemma refs_others:
  assumes fin: "finite (dom C)" and i: "C i = Some c" and j: "C j = Some c'" and ne: "i \<noteq> j"
  shows "client_refs c a + client_refs c' a \<le> refs C a"
proof -
  let ?c0 = "c\<lparr>cl_tx_queue := [], cl_cmd_queue := [], cl_pending_msg := None\<rparr>"
  have "refs (C(i \<mapsto> ?c0)) a + client_refs c a = refs C a"
    using refs_update [OF fin i, of ?c0 a] by (simp add: client_refs_def)
  moreover have "client_refs c' a \<le> refs (C(i \<mapsto> ?c0)) a"
    by (rule client_refs_le [where i = j]) (use fin j ne in simp_all)
  ultimately show ?thesis by simp
qed

lemma pending_unique:
  assumes wf: "net_wf H n" and c: "clients n i = Some c" and a: "cl_pending_msg c = Some a"
    and b: "bufs n a = Some b" "ub_refcount b = 1"
  shows "H a = 0" and "clients n j = Some c' \<Longrightarrow> cl_retmsg c' \<noteq> a"
    and "clients n j = Some c' \<Longrightarrow> a \<notin> set (cl_tx_queue c') \<and> a \<notin> cmd_msg ` set (cl_cmd_queue c')"
    and "clients n j = Some c' \<Longrightarrow> cl_pending_msg c' = Some a \<Longrightarrow> j = i"
proof -
  note fin = net_wfD(2) [OF wf]
  have bo: "ret_refs (clients n) a = 0" "refs (clients n) a + H a = 1"
    using net_wfD(3) [OF wf, of a] b by (simp_all add: buf_ok_def not_external)
  have 1: "1 \<le> client_refs c a" using a by (simp add: client_refs_def)
  with client_refs_le [OF fin c, of a] bo(2) have eq: "refs (clients n) a = 1" and H: "H a = 0" by linarith+
  show "H a = 0" by (rule H)
  show "cl_retmsg c' \<noteq> a" if "clients n j = Some c'"
    using retmsg_ret_refs [OF fin that] bo(1) by auto
  have z: "client_refs c' a = 0" if "clients n j = Some c'" "j \<noteq> i" for j c'
    using refs_others [OF fin c that(1), of a] that(2) eq 1 by simp
  have "client_refs c a = 1" using client_refs_le [OF fin c, of a] eq 1 by simp
  then have "count_list (cl_tx_queue c) a = 0" "count_list (map cmd_msg (cl_cmd_queue c)) a = 0"
    using a by (simp_all add: client_refs_def)
  moreover have "count_list (cl_tx_queue c') a = 0" "count_list (map cmd_msg (cl_cmd_queue c')) a = 0"
    if "clients n j = Some c'" "j \<noteq> i" for j c'
    using z [OF that] by (simp_all add: client_refs_def)
  ultimately show "a \<notin> set (cl_tx_queue c') \<and> a \<notin> cmd_msg ` set (cl_cmd_queue c')" if "clients n j = Some c'"
    using that c by (cases "j = i") (auto simp: count_list_0_iff)
  show "j = i" if "clients n j = Some c'" "cl_pending_msg c' = Some a"
    using z [OF that(1)] that(2) by (auto simp: client_refs_def)
qed

definition not_pending :: "net \<Rightarrow> addr set \<Rightarrow> bool" where
  "not_pending n S \<longleftrightarrow> (\<forall>i c a. clients n i = Some c \<longrightarrow> cl_pending_msg c = Some a \<longrightarrow> a \<notin> S)"

lemma rx_okD:
  assumes "rx_ok E B c" and "cl_pending_msg c = Some a"
  obtains b where "B a = Some b" and "ub_refcount b = 1" and "pending_ok E B (cl_pending_msg_offset c) a"
  using assms by (auto simp: rx_ok_def pending_ok_def)

lemma not_pendingI:
  assumes rx: "rx_inv E n" and wf: "net_wf H n"
  shows "H ub \<noteq> 0 \<Longrightarrow> not_pending n {ub}" and "clients n j = Some c' \<Longrightarrow> not_pending n {cl_retmsg c'}"
    and "clients n j = Some c' \<Longrightarrow> not_pending n (set (cl_tx_queue c') \<union> cmd_msg ` set (cl_cmd_queue c'))"
proof -
  have u: "H a = 0 \<and> (\<forall>j c'. clients n j = Some c' \<longrightarrow> cl_retmsg c' \<noteq> a \<and>
      a \<notin> set (cl_tx_queue c') \<and> a \<notin> cmd_msg ` set (cl_cmd_queue c'))"
    if c: "clients n i = Some c" "cl_pending_msg c = Some a" for i c a
  proof -
    obtain b where b: "bufs n a = Some b" "ub_refcount b = 1" by (rule rx_okD [OF rx_invD [OF rx c(1)] c(2)])
    show ?thesis using pending_unique(1-3) [OF wf c b] by blast
  qed
  show "H ub \<noteq> 0 \<Longrightarrow> not_pending n {ub}" and "clients n j = Some c' \<Longrightarrow> not_pending n {cl_retmsg c'}"
    and "clients n j = Some c' \<Longrightarrow> not_pending n (set (cl_tx_queue c') \<union> cmd_msg ` set (cl_cmd_queue c'))"
    unfolding not_pending_def by (intro allI impI; use u in fastforce)+
qed

lemma not_pending_Un: "not_pending n (S \<union> T) \<longleftrightarrow> not_pending n S \<and> not_pending n T"
  unfolding not_pending_def by blast

lemma rx_ok_frame:
  assumes ok: "rx_ok E B c" and eq: "cl_rx c' = cl_rx c"
    and B: "\<And>a b. cl_pending_msg c = Some a \<Longrightarrow> B a = Some b \<Longrightarrow> B' a = Some b"
  shows "rx_ok E B' c'"
proof -
  note f = cl_rx_fields [OF eq]
  have "pending_ok E B' k a" if "cl_pending_msg c = Some a" "pending_ok E B k a" for k a
    using that B by (auto simp: pending_ok_def)
  with ok show ?thesis by (auto simp: rx_ok_def f split: option.splits)
qed

lemma rx_inv_frame:
  assumes rx: "rx_inv E n" and wf: "net_wf H n" and np: "not_pending n S"
    and k: "keeps S n n'" and same: "\<And>i c'. i \<in> D \<Longrightarrow> clients n' i = Some c' \<Longrightarrow> \<exists>c. clients n i = Some c \<and> cl_rx c' = cl_rx c"
    and i: "i \<in> D" and c': "clients n' i = Some c'"
  shows "rx_ok E (bufs n') c'"
proof -
  obtain c where c: "clients n i = Some c" and eq: "cl_rx c' = cl_rx c" using same [OF i c'] by blast
  show ?thesis
  proof (rule rx_ok_frame [OF rx_invD [OF rx c] eq])
    fix a b assume a: "cl_pending_msg c = Some a" and b: "bufs n a = Some b"
    have "a \<notin> S" using np c a by (simp add: not_pending_def)
    with keepsD [OF k net_wf_ub_less [OF wf b]] b show "bufs n' a = Some b" by simp
  qed
qed

lemma rx_inv_step:
  assumes "rx_inv E (net d)" and "net_wf H (net d)" and "not_pending (net d) S" and "step_ok H' S d d'"
  shows "rx_inv E (net d')"
  unfolding rx_inv_def
proof (intro allI impI)
  fix i c' assume c': "clients (net d') i = Some c'"
  have s: "rx_same (net d) (net d')" by (rule step_okD(2) [OF assms(4)])
  show "rx_ok E (bufs (net d')) c'"
  proof (rule rx_inv_frame [OF assms(1-3) step_okD(3) [OF assms(4)] _ UNIV_I c'])
    fix i c' assume "clients (net d') i = Some c'"
    with s show "\<exists>c. clients (net d) i = Some c \<and> cl_rx c' = cl_rx c"
      unfolding rx_same_def by (metis (no_types, lifting) map_option_eq_Some option.simps(9))
  qed
qed

lemma not_pending_same:
  assumes "not_pending n S" and "rx_same n n'"
  shows "not_pending n' S"
  unfolding not_pending_def
proof (intro allI impI)
  fix i c' a assume c': "clients n' i = Some c'" and a: "cl_pending_msg c' = Some a"
  obtain c where c: "clients n i = Some c" and eq: "cl_rx c' = cl_rx c"
    using assms(2) c' unfolding rx_same_def by (metis (no_types, lifting) map_option_eq_Some option.simps(9))
  from a cl_rx_fields(7) [OF eq] have "cl_pending_msg c = Some a" by simp
  with assms(1) c show "a \<notin> S" by (simp add: not_pending_def)
qed

lemma step_ok_mono: "step_ok H S d d' \<Longrightarrow> S \<subseteq> T \<Longrightarrow> step_ok H T d d'"
  by (auto simp: step_ok_def intro: keeps_mono)

section \<open>Dispatch\<close>

lemma retmsg_external:
  assumes "net_wf H n" and "clients n cl = Some c"
  obtains r where "bufs n (cl_retmsg c) = Some r" and "ub_refcount r = USES_EXTERNAL_BUFFER"
proof -
  have pos: "0 < ret_refs (clients n) (cl_retmsg c)" by (rule retmsg_ret_refs [OF net_wfD(2) [OF assms(1)] assms(2)])
  with net_wfD(3) [OF assms(1), of "cl_retmsg c"] that show ?thesis
    by (auto simp: buf_ok_def split: option.splits if_splits)
qed

lemma step_retmsg_buf:
  assumes "daemon_wf H d" and "clients (net d) cl = Some c" and "\<And>b. ub_refcount (f b) = ub_refcount b"
  shows "step_ok H {cl_retmsg c} d (on_net (upd_buf (cl_retmsg c) f) d)"
proof -
  note w = daemon_wfD(1) [OF assms(1)]
  obtain r where r: "bufs (net d) (cl_retmsg c) = Some r" by (rule retmsg_external [OF w assms(2)])
  show ?thesis
    by (rule step_ok_on_net [OF assms(1)])
      (use w r assms(3) in \<open>simp_all add: keeps_upd_buf net_wf_upd_buf\<close>)
qed

lemma step_retmsg_send:
  assumes "daemon_wf H d" and "clients (net d) cl = Some c"
  shows "step_ok H {cl_retmsg c} d (on_net (retmsg_send E cl (cl_retmsg c) st) d)"
proof -
  let ?f = "\<lambda>r. r\<lparr>ub_data := blob_patch32 (ubus_status_code st) (ub_data r)\<rparr>"
  let ?d = "on_net (upd_buf (cl_retmsg c) ?f) d"
  have s: "step_ok H {cl_retmsg c} d ?d" by (rule step_retmsg_buf [OF assms]) simp
  note w = daemon_wfD(1) [OF step_okD(1) [OF s]]
  obtain c' where c': "clients (net ?d) cl = Some c'" and eq: "cl_rx c' = cl_rx c"
    by (rule step_ok_client [OF s assms(2)])
  obtain r where r: "bufs (net ?d) (cl_retmsg c') = Some r" "ub_refcount r = USES_EXTERNAL_BUFFER"
    by (rule retmsg_external [OF w c'])
  then have sd: "sendable (net ?d) (cl_retmsg c)" using cl_rx_fields(8) [OF eq] by (simp add: sendable_def)
  have "step_ok H {cl_retmsg c} ?d (on_net (ubus_msg_send E cl (cl_retmsg c)) ?d)"
    by (rule step_ok_on_net [OF step_okD(1) [OF s]])
      (use net_wf_send(1) [OF w c' sd] in \<open>simp_all add: keeps_send\<close>)
  from step_ok_trans [OF s this] show ?thesis by (simp add: on_net_def retmsg_send_def)
qed

lemma step_free:
  assumes "daemon_wf H d" and "0 < H ub"
  shows "step_ok (H(ub := H ub - 1)) {ub} d (on_net (ubus_msg_free ub) d)"
  by (rule step_ok_on_net [OF assms(1)])
    (use net_wf_free [OF daemon_wfD(1) [OF assms(1)] assms(2)] in \<open>simp_all add: keeps_free_one\<close>)

lemma receive_message_step:
  assumes lib: "lib_ok E" and wf: "daemon_wf H d" and cl: "clients (net d) cl = Some c"
    and ub: "owns1 (net d) ub" and H: "H ub = 1"
  shows "step_ok (H(ub := 0)) {ub, cl_retmsg c} d (ubusd_proto_receive_message E cl ub d)"
proof -
  let ?S = "{ub, cl_retmsg c}"
  obtain b where b: "bufs (net d) ub = Some b" "ub_refcount b = 1" using ub by (auto simp: owns1_def)
  have ne: "ub \<noteq> cl_retmsg c"
    using retmsg_external [OF daemon_wfD(1) [OF wf] cl] b not_external by (metis option.inject)
  define ty where "ty = hdr_type (ub_hdr b)"
  define d1 where "d1 = on_net (retmsg_hdr (cl_retmsg c) b) d"
  define d2 where "d2 = (if ty \<noteq> ubus_msg_code UBUS_MSG_STATUS \<and> ty \<noteq> ubus_msg_code UBUS_MSG_INVOKE
                   then on_net (ubus_msg_close_fd ub) d1 else d1)"
  have s1: "step_ok H {cl_retmsg c} d d1"
    unfolding d1_def retmsg_hdr_def by (rule step_retmsg_buf [OF wf cl]) simp
  note w1 = step_okD(1) [OF s1]
  have b1: "bufs (net d1) ub = Some b"
    using keepsD [OF step_okD(3) [OF s1] net_wf_ub_less [OF daemon_wfD(1) [OF wf] b(1)]] ne b(1) by simp
  have s2: "step_ok H {ub} d1 d2"
    unfolding d2_def using step_ok_refl [OF w1] net_wf_msg_close_fd [OF daemon_wfD(1) [OF w1] b1]
    by (auto intro!: step_ok_on_net [OF w1] simp: keeps_close)
  have o2: "owns1 (net d2) ub"
    using b1 b(2) by (simp add: d2_def owns1_def ubus_msg_close_fd_def upd_buf_def close_fd_def)
  have s12: "step_ok H ?S d d2"
    by (rule step_ok_trans [OF step_ok_mono [OF s1] step_ok_mono [OF s2]]) auto
  obtain c2 where c2: "clients (net d2) cl = Some c2" by (rule step_ok_client [OF s12 cl])
  obtain ret d3 where h: "(case handler_of ty of None \<Rightarrow> (Status UBUS_STATUS_INVALID_COMMAND, d2)
      | Some h \<Rightarrow> h E cl ub (ubus_parse_msg E (ub_data b)) d2) = (ret, d3)" by fastforce
  have hd: "handled H ub ret d2 d3"
  proof (cases "handler_of ty")
    case None
    with h handled_same [OF step_okD(1) [OF s2]] show ?thesis by auto
  next
    case (Some k)
    with h msg_handler.contract [OF handler_of_contract [OF Some] lib step_okD(1) [OF s2] c2 o2 H] show ?thesis by auto
  qed
  have eq: "ubusd_proto_receive_message E cl ub d = (case ret of Queued \<Rightarrow> d3
      | No_reply \<Rightarrow> on_net (ubus_msg_free ub) d3
      | Status st \<Rightarrow> on_net (retmsg_send E cl (cl_retmsg c) st) (on_net (ubus_msg_free ub) d3))"
  proof -
    have "ubusd_proto_receive_message E cl ub d =
        (case (case handler_of ty of None \<Rightarrow> (Status UBUS_STATUS_INVALID_COMMAND, d2)
            | Some h \<Rightarrow> h E cl ub (ubus_parse_msg E (ub_data b)) d2) of
           (Queued, d) \<Rightarrow> d
         | (No_reply, d) \<Rightarrow> on_net (ubus_msg_free ub) d
         | (Status st, d) \<Rightarrow> on_net (\<lambda>n. retmsg_send E cl (cl_retmsg c) st (ubus_msg_free ub n)) d)"
      by (simp only: ubusd_proto_receive_message_def cl b(1) option.case prod.case Let_def ty_def d2_def d1_def)
    then show ?thesis unfolding h by (cases ret) (simp_all add: on_net_def)
  qed
  show ?thesis
  proof (cases "ret = Queued")
    case True
    with hd have "step_ok (H(ub := 0)) {ub} d2 d3" by (simp add: handled_def)
    from step_ok_trans [OF s12 step_ok_mono [OF this]] True eq show ?thesis by simp
  next
    case False
    with hd have s3: "step_ok H {ub} d2 d3" by (simp add: handled_def)
    let ?d4 = "on_net (ubus_msg_free ub) d3"
    have s4: "step_ok (H(ub := 0)) {ub} d3 ?d4" using step_free [OF step_okD(1) [OF s3], of ub] H by simp
    have s14: "step_ok (H(ub := 0)) ?S d ?d4"
      by (rule step_ok_trans [OF s12 step_ok_trans [OF step_ok_mono [OF s3] step_ok_mono [OF s4]]]) auto
    obtain c4 where c4: "clients (net ?d4) cl = Some c4" and e4: "cl_rx c4 = cl_rx c"
      by (rule step_ok_client [OF s14 cl])
    note s5 = step_retmsg_send [OF step_okD(1) [OF s4] c4, of E, unfolded cl_rx_fields(8) [OF e4]]
    have "step_ok (H(ub := 0)) ?S d (on_net (retmsg_send E cl (cl_retmsg c) st) ?d4)" for st
      by (rule step_ok_trans [OF s14 step_ok_mono [OF s5]]) auto
    with s14 eq False show ?thesis by (cases ret) simp_all
  qed
qed

lemma inv_step:
  assumes "daemon_inv E d" and "step_ok (\<lambda>_. 0) S d d'" and "not_pending (net d) S"
  shows "daemon_inv E d'"
  using assms rx_inv_step [OF invD(3) [OF assms(1)] daemon_wfD(1) [OF invD(1) [OF assms(1)]] assms(3,2)]
    acl_kept_wf [OF step_okD(4) [OF assms(2)] invD(2) [OF assms(1)]]
  by (simp add: daemon_inv_def step_okD(1))

section \<open>Queued commands\<close>

lemma reg_send_obj [simp]: "reg (ubusd_send_obj E cl ub oid d) = reg d"
  by (simp add: ubusd_send_obj_def Let_def split: option.splits)

lemma reg_lookup_range: "lookup_range E cl ub True t d = (ret, d') \<Longrightarrow> ret \<noteq> Queued \<Longrightarrow> reg d' = reg d"
proof (induction t arbitrary: d)
  case (Cons ko t)
  then show ?case by (cases ko) (fastforce split: option.splits if_splits)
qed simp

lemma reg_lookup_prefix: "reg (snd (lookup_prefix E cl ub p found t d)) = reg d"
proof (induction t arbitrary: d found)
  case (Cons ko t)
  then show ?case by (cases ko) simp
qed simp

lemma reg_do_lookup:
  assumes "do_lookup E cl ub attr (Some cmd) d = (ret, d')" and "ret \<noteq> Queued"
  shows "reg d' = reg d"
  using assms reg_lookup_range [of E cl ub _ d ret d'] reg_lookup_prefix [of E cl ub]
  by (auto simp: do_lookup_def Let_def case_prod_unfold split: option.splits if_splits)

lemma live_cmd:
  assumes "net_wf H n" and "clients n cl = Some c" and "cmd \<in> set (cl_cmd_queue c)"
  obtains b where "bufs n (cmd_msg cmd) = Some b" and "ub_refcount b \<noteq> USES_EXTERNAL_BUFFER"
proof -
  have "count_list (map cmd_msg (cl_cmd_queue c)) (cmd_msg cmd) \<noteq> 0"
    using assms(3) by (simp add: count_list_0_iff)
  then have "0 < client_refs c (cmd_msg cmd)" by (simp add: client_refs_def)
  with client_refs_le [OF net_wfD(2) [OF assms(1)] assms(2)] have r: "0 < refs (clients n) (cmd_msg cmd)"
    by (meson less_le_trans)
  with net_wfD(3) [OF assms(1), of "cmd_msg cmd"] that show ?thesis
    by (auto simp: buf_ok_def split: option.splits if_splits)
qed

lemma cmd_lookup_step:
  assumes wf: "daemon_wf H d" and cl: "clients (net d) cl = Some c" and cmd: "cmd \<in> set (cl_cmd_queue c)"
    and r: "ubusd_cmd_lookup E cl cmd d = (ret, d')"
  shows "step_ok H {cl_retmsg c} d d'" and "ret \<noteq> Queued \<Longrightarrow> reg d' = reg d"
proof -
  obtain b where b: "bufs (net d) (cmd_msg cmd) = Some b" by (rule live_cmd [OF daemon_wfD(1) [OF wf] cl cmd])
  obtain x d1 where x: "do_lookup E cl (cmd_msg cmd) (ubus_parse_msg E (ub_data b)) (Some cmd) d = (x, d1)" by fastforce
  have s: "step_ok H {} d d1" using do_lookup_handled [OF wf cl b _ x] by simp
  obtain c1 where c1: "clients (net d1) cl = Some c1" and e: "cl_rx c1 = cl_rx c" by (rule step_ok_client [OF s cl])
  note f = cl_rx_fields(8) [OF e] and w1 = step_okD(1) [OF s]
  have "step_ok H {cl_retmsg c} d d' \<and> (ret \<noteq> Queued \<longrightarrow> reg d' = reg d)"
  proof (cases x)
    case (Status st)
    let ?d2 = "on_net (retmsg_hdr (cl_retmsg c) b) d1"
    have s2: "step_ok H {cl_retmsg c} d1 ?d2"
      unfolding retmsg_hdr_def using step_retmsg_buf [OF w1 c1] f by simp
    obtain c2 where c2: "clients (net ?d2) cl = Some c2" and e2: "cl_rx c2 = cl_rx c1" by (rule step_ok_client [OF s2 c1])
    have "step_ok H {cl_retmsg c} ?d2 (on_net (retmsg_send E cl (cl_retmsg c) st) ?d2)"
      using step_retmsg_send [OF step_okD(1) [OF s2] c2, of E st] cl_rx_fields(8) [OF e2] f by simp
    note s3 = step_ok_trans [OF step_ok_trans [OF step_ok_any [OF s] s2] this]
    have d': "d' = on_net (retmsg_send E cl (cl_retmsg c) st) ?d2"
      using r x b c1 f Status by (simp add: ubusd_cmd_lookup_def on_net_def)
    have "reg d' = reg d1" unfolding d' by (simp add: retmsg_send_def retmsg_hdr_def)
    with s3 d' reg_do_lookup [OF x] Status show ?thesis by simp
  next
    case No_reply
    with r x b s reg_do_lookup [OF x] show ?thesis by (auto simp: ubusd_cmd_lookup_def intro: step_ok_any)
  next
    case Queued
    with r x b s show ?thesis by (auto simp: ubusd_cmd_lookup_def intro: step_ok_any)
  qed
  then show "step_ok H {cl_retmsg c} d d'" and "ret \<noteq> Queued \<Longrightarrow> reg d' = reg d" by blast+
qed

lemma count_remove1_map:
  "x \<in> set xs \<Longrightarrow> count_list (map f (remove1 x xs)) a + (if f x = a then 1 else 0) = count_list (map f xs) a"
  by (induction xs) auto

lemma cmd_free_step:
  assumes wf: "daemon_wf H d" and cl: "clients (net d) cl = Some c" and cmd: "cmd \<in> set (cl_cmd_queue c)"
  shows "step_ok H {cmd_msg cmd} d (on_net (ubus_client_cmd_free cl cmd) d)"
    and "\<exists>c'. clients (net (on_net (ubus_client_cmd_free cl cmd) d)) cl = Some c' \<and> cl_rx c' = cl_rx c \<and>
      cl_cmd_queue c' = remove1 cmd (cl_cmd_queue c) \<and> cl_objects c' = cl_objects c"
proof -
  let ?f = "\<lambda>c. c\<lparr>cl_cmd_queue := remove1 cmd (cl_cmd_queue c)\<rparr>" and ?m = "cmd_msg cmd"
  let ?H = "H(?m := H ?m + 1)" and ?d = "on_net (upd_client cl ?f) d"
  obtain b where b: "bufs (net d) ?m = Some b" "ub_refcount b \<noteq> USES_EXTERNAL_BUFFER"
    by (rule live_cmd [OF daemon_wfD(1) [OF wf] cl cmd])
  note cnt = count_remove1_map [OF cmd, of cmd_msg]
  have n: "net_wf ?H (upd_client cl ?f (net d))"
  proof (rule net_wf_move [OF daemon_wfD(1) [OF wf] cl])
    show "client_refs (?f c) a + ?H a = client_refs c a + H a" for a
      using cnt [of a] by (simp add: client_refs_def split: if_splits)
    show "client_refs (?f c) a = client_refs c a" if "bufs (net d) a = Some b'" "ub_refcount b' = USES_EXTERNAL_BUFFER" for a b'
      using that b cnt [of a] by (auto simp: client_refs_def split: if_splits)
  qed simp
  have s: "step_ok ?H {?m} d ?d"
    by (rule step_client [OF wf cl _ _ n]) (simp_all add: cl_rx_def)
  have "step_ok H {?m} ?d (on_net (ubus_msg_free ?m) ?d)" using step_free [OF step_okD(1) [OF s], of ?m] by simp
  from step_ok_trans [OF s this] show "step_ok H {?m} d (on_net (ubus_client_cmd_free cl cmd) d)"
    by (simp add: ubus_client_cmd_free_def on_net_def)
  have "core (ubus_msg_free ?m (net ?d)) = core (net ?d)" by simp
  moreover have "clients (net ?d) cl = Some (?f c)" using cl by (simp add: upd_client_def)
  ultimately obtain c' where "clients (ubus_msg_free ?m (net ?d)) cl = Some c'" "cl_core c' = cl_core (?f c)"
    by (rule core_client)
  moreover have "cl_rx c' = cl_rx c" if "cl_core c' = cl_core (?f c)" for c'
    using that by (cases c; cases c') (simp add: cl_core_def cl_rx_def)
  ultimately show "\<exists>c'. clients (net (on_net (ubus_client_cmd_free cl cmd) d)) cl = Some c' \<and> cl_rx c' = cl_rx c \<and>
      cl_cmd_queue c' = remove1 cmd (cl_cmd_queue c) \<and> cl_objects c' = cl_objects c"
    using cl_core_fields [of c' "?f c"] by (auto simp: ubus_client_cmd_free_def)
qed

lemma inv_cmd_lookup:
  assumes "daemon_inv E d" and "clients (net d) cl = Some c" and "cmd \<in> set (cl_cmd_queue c)"
    and "ubusd_cmd_lookup E cl cmd d = (ret, d')"
  shows "daemon_inv E d'"
  by (rule inv_step [OF assms(1) cmd_lookup_step(1) [OF invD(1) [OF assms(1)] assms(2-4)]])
    (rule not_pendingI(2) [OF invD(3) [OF assms(1)] daemon_wfD(1) [OF invD(1) [OF assms(1)]] assms(2)])

lemma inv_cmd_free:
  assumes "daemon_inv E d" and "clients (net d) cl = Some c" and "cmd \<in> set (cl_cmd_queue c)"
  shows "daemon_inv E (on_net (ubus_client_cmd_free cl cmd) d)"
proof -
  have "not_pending (net d) (set (cl_tx_queue c) \<union> cmd_msg ` set (cl_cmd_queue c))"
    by (rule not_pendingI(3) [OF invD(3) [OF assms(1)] daemon_wfD(1) [OF invD(1) [OF assms(1)]] assms(2)])
  with assms(3) have "not_pending (net d) {cmd_msg cmd}" by (auto simp: not_pending_def)
  with inv_step [OF assms(1) cmd_free_step(1) [OF invD(1) [OF assms(1)] assms(2,3)]] show ?thesis .
qed

lemma inv_cmd_queue_loop:
  assumes "daemon_inv E d" and "clients (net d) cl = Some c" and "cl_cmd_queue c = cmds"
  shows "daemon_inv E (cmd_queue_loop E cl cmds d) \<and> cl \<in> dom (clients (net (cmd_queue_loop E cl cmds d)))"
  using assms
proof (induction cmds arbitrary: d c)
  case (Cons cmd cmds)
  have cmd: "cmd \<in> set (cl_cmd_queue c)" using Cons.prems(3) by simp
  obtain ret d1 where r: "ubusd_cmd_lookup E cl cmd d = (ret, d1)" by fastforce
  note s = cmd_lookup_step [OF invD(1) [OF Cons.prems(1)] Cons.prems(2) cmd r]
  have i1: "daemon_inv E d1" by (rule inv_cmd_lookup [OF Cons.prems(1,2) cmd r])
  obtain c0 where c0: "clients (net d1) cl = Some c0" by (rule step_ok_client [OF s(1) Cons.prems(2)])
  show ?case
  proof (cases "ret = Queued")
    case True
    with r i1 c0 show ?thesis by auto
  next
    case False
    obtain c1 where c1: "clients (net d1) cl = Some c1" and e: "cl_core c1 = cl_core c"
      by (rule reg_client [OF s(2) [OF False] Cons.prems(2)])
    have q: "cl_cmd_queue c1 = cmd # cmds" using cl_core_fields(7) [OF e] Cons.prems(3) by simp
    have cmd1: "cmd \<in> set (cl_cmd_queue c1)" by (simp add: q)
    note i2 = inv_cmd_free [OF i1 c1 cmd1]
    obtain c2 where c2: "clients (net (on_net (ubus_client_cmd_free cl cmd) d1)) cl = Some c2" "cl_cmd_queue c2 = cmds"
      using cmd_free_step(2) [OF invD(1) [OF i1] c1 cmd1] q by auto
    from Cons.IH [OF i2 c2] False r show ?thesis by (cases ret) auto
  qed
qed auto

lemma inv_cmd_queue_process:
  assumes "daemon_inv E d" and "cl \<in> dom (clients (net d))"
  shows "daemon_inv E (ubus_client_cmd_queue_process E cl d) \<and>
    cl \<in> dom (clients (net (ubus_client_cmd_queue_process E cl d)))"
proof -
  obtain c where c: "clients (net d) cl = Some c" using assms(2) by auto
  with inv_cmd_queue_loop [OF assms(1) c refl] show ?thesis by (simp add: ubus_client_cmd_queue_process_def)
qed

end
