(* ===== verification/Ubusd_Tx.thy ===== *)
theory Ubusd_Tx
  imports Ubusd_Run
begin

text \<open>The transmit side of client\_cb and the release of a client (ubusd_main.c): flushing the
  transmit queue keeps every reference count exact, and so does disconnecting.\<close>

section \<open>Transmitting\<close>

lemma clients_free [simp]: "clients (ubus_msg_free ub n) = clients n"
  by (simp add: ubus_msg_free_def Let_def close_fd_def upd_buf_def set_fault_def split: option.splits)

lemma clients_upd_same: "clients n cl = Some c \<Longrightarrow> clients (upd_client cl f n) cl = Some (f c)"
  by (simp add: upd_client_def)

lemma live_tx:
  assumes "net_wf H n" and "clients n cl = Some c" and "ub \<in> set (cl_tx_queue c)"
  obtains b where "bufs n ub = Some b" and "ub_refcount b \<noteq> USES_EXTERNAL_BUFFER"
proof -
  have "count_list (cl_tx_queue c) ub \<noteq> 0" using assms(3) by (simp add: count_list_0_iff)
  then have "0 < client_refs c ub" by (simp add: client_refs_def)
  with client_refs_le [OF net_wfD(2) [OF assms(1)] assms(2)] have r: "0 < refs (clients n) ub"
    by (meson less_le_trans)
  with net_wfD(3) [OF assms(1), of ub] that show ?thesis
    by (auto simp: buf_ok_def split: option.splits if_splits)
qed

lemma net_wf_list_free:
  assumes wf: "net_wf H n" and cl: "clients n cl = Some c" and ub: "ub \<in> set (cl_tx_queue c)"
  shows "net_wf H (ubus_msg_list_free cl ub n)"
proof -
  let ?f = "\<lambda>c. c\<lparr>cl_tx_queue := remove1 ub (cl_tx_queue c)\<rparr>" and ?H = "H(ub := H ub + 1)"
  obtain b where b: "bufs n ub = Some b" "ub_refcount b \<noteq> USES_EXTERNAL_BUFFER"
    by (rule live_tx [OF wf cl ub])
  note cnt = count_remove1_map [OF ub, of "\<lambda>x. x", simplified]
  have "net_wf ?H (upd_client cl ?f n)"
  proof (rule net_wf_move [OF wf cl])
    show "client_refs (?f c) a + ?H a = client_refs c a + H a" for a
      using cnt [of a] by (simp add: client_refs_def split: if_splits)
    show "client_refs (?f c) a = client_refs c a" if "bufs n a = Some b'" "ub_refcount b' = USES_EXTERNAL_BUFFER" for a b'
      using that b cnt [of a] by (auto simp: client_refs_def split: if_splits)
  qed simp
  from net_wf_free [OF this, of ub] show ?thesis by (simp add: ubus_msg_list_free_def)
qed

lemma net_wf_tx_fields:
  assumes "net_wf H n" and "clients n cl = Some c"
  shows "net_wf H (upd_client cl (\<lambda>c. c\<lparr>cl_txq_ofs := g c, cl_txq_len := h c\<rparr>) n)"
    and "net_wf H (upd_client cl (\<lambda>c. c\<lparr>cl_txq_ofs := g c\<rparr>) n)"
    and "net_wf H (upd_client cl (\<lambda>c. c\<lparr>cl_eof := e c\<rparr>) n)"
    and "net_wf H (upd_client cl (\<lambda>c. c\<lparr>cl_write_ev := e c\<rparr>) n)"
  by (rule net_wf_upd_client [OF assms], simp_all add: client_refs_def)+

lemma core_tx_fields:
  "core (upd_client cl (\<lambda>c. c\<lparr>cl_txq_ofs := g c, cl_txq_len := h c\<rparr>) n) = core n"
  "core (upd_client cl (\<lambda>c. c\<lparr>cl_txq_ofs := g c\<rparr>) n) = core n"
  "core (upd_client cl (\<lambda>c. c\<lparr>cl_eof := e c\<rparr>) n) = core n"
  "core (upd_client cl (\<lambda>c. c\<lparr>cl_write_ev := e c\<rparr>) n) = core n"
  by (rule core_upd_client, simp add: cl_core_def)+

text \<open>One successful write: the offset moves on, and a finished message leaves the queue.\<close>

lemma tx_advance_ok:
  assumes wf: "net_wf H n" and cl: "clients n cl = Some c"
    and n2: "n2 = upd_client cl (\<lambda>c'. c'\<lparr>cl_txq_ofs := ofs, cl_txq_len := cl_txq_len c' - int m\<rparr>) n"
  shows "net_wf H n2" and "core n2 = core n" and "keeps S n n2"
    and "clients n2 cl = Some (c\<lparr>cl_txq_ofs := ofs, cl_txq_len := cl_txq_len c - int m\<rparr>)"
  unfolding n2 using cl
  by (simp_all add: net_wf_tx_fields(1) [OF wf cl] core_tx_fields(1)) (simp add: upd_client_def)

lemma tx_finish_ok:
  assumes wf: "net_wf H n" and cl: "clients n cl = Some c" and q: "cl_tx_queue c = ub # q" and S: "ub \<in> S"
    and n2: "n2 = ubus_msg_list_free cl ub (upd_client cl (\<lambda>c. c\<lparr>cl_txq_ofs := 0\<rparr>) n)"
  shows "net_wf H n2" and "core n2 = core n" and "keeps S n n2"
    and "clients n2 cl = Some (c\<lparr>cl_txq_ofs := 0, cl_tx_queue := q\<rparr>)"
proof -
  let ?n1 = "upd_client cl (\<lambda>c. c\<lparr>cl_txq_ofs := 0\<rparr>) n"
  have cl1: "clients ?n1 cl = Some (c\<lparr>cl_txq_ofs := 0\<rparr>)" using cl by (simp add: upd_client_def)
  show "net_wf H n2" unfolding n2
    by (rule net_wf_list_free [OF net_wf_tx_fields(2) [OF wf cl] cl1]) (simp add: q)
  show "core n2 = core n" by (simp add: n2 core_tx_fields(2))
  show "keeps S n n2" unfolding n2 ubus_msg_list_free_def
    by (rule keeps_trans [OF keeps_upd_client keeps_trans [OF keeps_upd_client keeps_free]]) (simp add: S)
  show "clients n2 cl = Some (c\<lparr>cl_txq_ofs := 0, cl_tx_queue := q\<rparr>)"
    using clients_upd_same [OF cl1] q by (simp add: n2 ubus_msg_list_free_def)
qed

definition tx_kept :: "(addr \<Rightarrow> nat) \<Rightarrow> u32 \<Rightarrow> net \<Rightarrow> bool \<times> net \<Rightarrow> bool" where
  "tx_kept H cl n r \<longleftrightarrow>
     (\<forall>c S. net_wf H n \<longrightarrow> clients n cl = Some c \<longrightarrow> set (cl_tx_queue c) \<subseteq> S \<longrightarrow>
        net_wf H (snd r) \<and> core (snd r) = core n \<and> keeps S n (snd r))"

lemma tx_keptI:
  "(\<And>c S. net_wf H n \<Longrightarrow> clients n cl = Some c \<Longrightarrow> set (cl_tx_queue c) \<subseteq> S \<Longrightarrow>
      net_wf H (snd r) \<and> core (snd r) = core n \<and> keeps S n (snd r)) \<Longrightarrow> tx_kept H cl n r"
  by (simp add: tx_kept_def)

lemma tx_keptD:
  assumes "tx_kept H cl n1 r" and "net_wf H n1" and "clients n1 cl = Some c" and "set (cl_tx_queue c) \<subseteq> S"
    and "core n1 = core n" and "keeps S n n1"
  shows "net_wf H (snd r) \<and> core (snd r) = core n \<and> keeps S n (snd r)"
  using assms keeps_trans [OF assms(6)] unfolding tx_kept_def by metis

lemma tx_flush_kept: "tx_flush E cl n = Some r \<Longrightarrow> tx_kept H cl n r"
proof (rule tx_flush.raw_induct [where P = "\<lambda>E cl n r. tx_kept H cl n r", rotated])
  fix f E cl n r
  assume IH: "\<And>E cl n r. f E cl n = Some r \<Longrightarrow> tx_kept H cl n r"
    and r: "(case clients n cl of
        None \<Rightarrow> Some (True, set_fault n)
      | Some c \<Rightarrow>
          (case cl_tx_queue c of
             [] \<Rightarrow> Some (True, n)
           | ub # _ \<Rightarrow>
               (case bufs n ub of
                  None \<Rightarrow> Some (True, set_fault n)
                | Some b \<Rightarrow>
                    (case ubus_msg_writev E cl ub (cl_txq_ofs c) n of
                       (Send_again, n) \<Rightarrow> Some (True, n)
                     | (Send_fail, n) \<Rightarrow> Some (False, n)
                     | (Sent m, n) \<Rightarrow>
                         let ofs = cl_txq_ofs c + m;
                             n = upd_client cl (\<lambda>c. c\<lparr>cl_txq_ofs := ofs, cl_txq_len := cl_txq_len c - int m\<rparr>) n
                         in if ofs < ub_len b + HDR_SIZE then f E cl n
                            else f E cl
                                   (ubus_msg_list_free cl ub (upd_client cl (\<lambda>c. c\<lparr>cl_txq_ofs := 0\<rparr>) n)))))) = Some r"
  show "tx_kept H cl n r"
  proof (rule tx_keptI)
    fix c S assume wf: "net_wf H n" and cl: "clients n cl = Some c" and S: "set (cl_tx_queue c) \<subseteq> S"
    show "net_wf H (snd r) \<and> core (snd r) = core n \<and> keeps S n (snd r)"
    proof (cases "cl_tx_queue c")
      case Nil
      with r cl wf show ?thesis by auto
    next
      case (Cons ub q)
      then obtain b where b: "bufs n ub = Some b" using live_tx [OF wf cl, of ub] by auto
      obtain w n1 where w: "ubus_msg_writev E cl ub (cl_txq_ofs c) n = (w, n1)" by fastforce
      have wf1: "net_wf H n1" by (rule net_wf_writev [OF wf b w])
      note same = bufs_writev [OF w] and core1 = core_writev [OF w]
      have k1: "keeps S n n1" and cl1: "clients n1 cl = Some c" using same cl by (auto intro: keeps_same)
      show ?thesis
      proof (cases w)
        case (Sent m)
        define n2 where "n2 = upd_client cl (\<lambda>c'. c'\<lparr>cl_txq_ofs := cl_txq_ofs c + m, cl_txq_len := cl_txq_len c' - int m\<rparr>) n1"
        define n3 where "n3 = ubus_msg_list_free cl ub (upd_client cl (\<lambda>c. c\<lparr>cl_txq_ofs := 0\<rparr>) n2)"
        note a = tx_advance_ok [OF wf1 cl1 n2_def]
        have q2: "cl_tx_queue (c\<lparr>cl_txq_ofs := cl_txq_ofs c + m, cl_txq_len := cl_txq_len c - int m\<rparr>) = ub # q"
          and ub: "ub \<in> S" using Cons S by auto
        note g = tx_finish_ok [OF a(1,4) q2 ub n3_def]
        from r have "f E cl n2 = Some r \<or> f E cl n3 = Some r"
          by (simp add: cl Cons b w Sent Let_def n2_def n3_def split: if_splits)
        with IH have "tx_kept H cl n2 r \<or> tx_kept H cl n3 r" by blast
        then show ?thesis
        proof
          assume "tx_kept H cl n2 r"
          from tx_keptD [OF this a(1,4)] a core1 keeps_trans [OF k1] S show ?thesis by simp
        next
          assume "tx_kept H cl n3 r"
          from tx_keptD [OF this g(1,4)] g a core1 keeps_trans [OF k1] keeps_trans Cons S show ?thesis by simp metis
        qed
      qed (use r wf1 core1 k1 in \<open>auto simp: cl Cons b w\<close>)
    qed
  qed
qed

end
