(* ===== verification/Ubusd_Close.thy ===== *)
theory Ubusd_Close
  imports Ubusd_Tx
begin

text \<open>
  Disconnecting a client (\<open>handle_client_disconnect\<close> and \<open>ubusd_proto_free_client\<close>): the registry
  afterwards is the one before without the client, its objects and its monitor, every reference
  the client held is given back, and the invariant of the daemon holds.
\<close>

section \<open>The references of a client that goes away\<close>

definition drop_client :: "u32 \<Rightarrow> net \<Rightarrow> net" where
  "drop_client cl n = n\<lparr>clients := (clients n)(cl := None)\<rparr>"

lemma drop_client_fields [simp]:
  "clients (drop_client cl n) = (clients n)(cl := None)" "bufs (drop_client cl n) = bufs n"
  "next_addr (drop_client cl n) = next_addr n" "monitors (drop_client cl n) = monitors n"
  "fault (drop_client cl n) = fault n" "rnd (drop_client cl n) = rnd n"
  by (simp_all add: drop_client_def)

lemma net_wf_drop:
  assumes wf: "net_wf H n" and c: "clients n cl = Some c" and mon: "cl \<notin> mon_cl ` set (monitors n)"
  shows "net_wf (\<lambda>a. H a + client_refs c a + (if cl_retmsg c = a then 1 else 0)) (drop_client cl n)"
proof -
  note fin = net_wfD(2) [OF wf]
  have r: "refs ((clients n)(cl := None)) a + client_refs c a = refs (clients n) a" for a
    unfolding refs_def by (rule msum_delete [OF fin c])
  have q: "ret_refs ((clients n)(cl := None)) a + (if cl_retmsg c = a then 1 else 0) = ret_refs (clients n) a" for a
    unfolding ret_refs_def by (rule msum_delete [OF fin c])
  have "buf_ok (\<lambda>a. H a + client_refs c a + (if cl_retmsg c = a then 1 else 0)) (drop_client cl n) a" for a
    using net_wfD(3) [OF wf, of a] r [of a] q [of a]
    by (auto simp: buf_ok_def split: option.splits if_splits)
  then show ?thesis using wf mon by (auto simp: net_wf_def)
qed

lemma drop_client_free: "drop_client cl (ubus_msg_free a n) = ubus_msg_free a (drop_client cl n)"
  by (simp add: drop_client_def ubus_msg_free_def Let_def close_fd_def upd_buf_def set_fault_def split: option.splits)

lemma drop_client_close: "drop_client cl (close_fd fd n) = close_fd fd (drop_client cl n)"
  by (simp add: drop_client_def close_fd_def)

lemma drop_client_upd: "clients n cl \<noteq> None \<Longrightarrow> drop_client cl (upd_client cl f n) = drop_client cl n"
  by (auto simp: drop_client_def upd_client_def)

lemma drop_list_free:
  assumes "clients n cl \<noteq> None"
  shows "drop_client cl (ubus_msg_list_free cl a n) = ubus_msg_free a (drop_client cl n)"
    and "clients (ubus_msg_list_free cl a n) cl \<noteq> None"
  using assms by (auto simp: ubus_msg_list_free_def drop_client_free drop_client_upd clients_upd_same)

lemma drop_list_free_fold:
  "clients n cl \<noteq> None \<Longrightarrow>
   drop_client cl (fold (ubus_msg_list_free cl) xs n) = fold ubus_msg_free xs (drop_client cl n)"
proof (induction xs arbitrary: n)
  case (Cons a xs)
  from Cons.IH [OF drop_list_free(2) [OF Cons.prems]] drop_list_free(1) [OF Cons.prems] show ?case by simp
qed simp

lemma fold_free_ok:
  assumes "net_wf H n" and "rx_inv E n" and "\<And>a. H a = H' a + count_list xs a"
  shows "net_wf H' (fold ubus_msg_free xs n) \<and> rx_inv E (fold ubus_msg_free xs n) \<and>
    clients (fold ubus_msg_free xs n) = clients n \<and> monitors (fold ubus_msg_free xs n) = monitors n \<and>
    core (fold ubus_msg_free xs n) = core n"
  using assms
proof (induction xs arbitrary: n H)
  case Nil
  then have "H = H'" by (simp add: fun_eq_iff)
  with Nil show ?case by simp
next
  case (Cons x xs)
  have pos: "0 < H x" using Cons.prems(3) [of x] by simp
  have wf: "net_wf (H(x := H x - 1)) (ubus_msg_free x n)" by (rule net_wf_free [OF Cons.prems(1) pos])
  have "not_pending n {x}" by (rule not_pendingI(1) [OF Cons.prems(2,1)]) (use pos in simp)
  from rx_inv_frame [OF Cons.prems(2,1) this keeps_free_one, of UNIV]
  have rx: "rx_inv E (ubus_msg_free x n)" by (simp add: rx_inv_def)
  have H: "(H(x := H x - 1)) a = H' a + count_list xs a" for a
    using Cons.prems(3) [of a] by (simp split: if_splits)
  from Cons.IH [OF wf rx H] show ?case by simp
qed

lemma close_fd_ok:
  "net_wf H (close_fd fd n) \<longleftrightarrow> net_wf H n" "rx_inv E (close_fd fd n) \<longleftrightarrow> rx_inv E n"
proof -
  have "net_wf H n \<Longrightarrow> net_wf H (close_fd fd n)" "net_wf H (close_fd fd n) \<Longrightarrow> net_wf H n"
    by (erule net_wf_cong, simp_all add: close_fd_def)+
  then show "net_wf H (close_fd fd n) \<longleftrightarrow> net_wf H n" by blast
qed (simp add: rx_inv_def close_fd_def)

lemma client_release_eq:
  assumes "clients n cl = Some c"
  shows "client_release cl n = close_fd (cl_fd c) (fold ubus_msg_free (case cl_pending_msg c of None \<Rightarrow> [] | Some a \<Rightarrow> [a])
    ((if 0 \<le> cl_pending_msg_fd c then close_fd (cl_pending_msg_fd c) else (\<lambda>n. n))
      (fold ubus_msg_free (cl_tx_queue c) (drop_client cl n))))"
  using assms drop_list_free_fold [of n cl "cl_tx_queue c"]
  by (simp add: client_release_def Let_def drop_client_def [symmetric] drop_client_free drop_client_close
      split: option.splits)

lemma client_release_ok:
  assumes wf: "net_wf H n" and rx: "rx_inv E n" and c: "clients n cl = Some c"
    and mon: "cl \<notin> mon_cl ` set (monitors n)" and cmds: "cl_cmd_queue c = []"
  shows "net_wf H (client_release cl (ubus_msg_free (cl_retmsg c) n))"
    and "rx_inv E (client_release cl (ubus_msg_free (cl_retmsg c) n))"
    and "core (client_release cl (ubus_msg_free (cl_retmsg c) n)) = core (drop_client cl n)"
proof -
  let ?p = "case cl_pending_msg c of None \<Rightarrow> [] | Some a \<Rightarrow> [a]"
  let ?n0 = "drop_client cl n"
  let ?n1 = "fold ubus_msg_free (cl_retmsg c # cl_tx_queue c) ?n0"
  let ?n2 = "(if 0 \<le> cl_pending_msg_fd c then close_fd (cl_pending_msg_fd c) else (\<lambda>n. n)) ?n1"
  have rx0: "rx_inv E ?n0" using rx by (simp add: rx_inv_def)
  have "net_wf (\<lambda>a. H a + count_list ?p a) ?n1 \<and> rx_inv E ?n1 \<and>
    clients ?n1 = clients ?n0 \<and> monitors ?n1 = monitors ?n0 \<and> core ?n1 = core ?n0"
    by (rule fold_free_ok [OF net_wf_drop [OF wf c mon] rx0])
      (simp add: client_refs_def cmds split: option.splits)
  then have "net_wf (\<lambda>a. H a + count_list ?p a) ?n2" and "rx_inv E ?n2" and "core ?n2 = core ?n0"
    by (simp_all add: close_fd_ok)
  from fold_free_ok [OF this(1,2), of H ?p] this(3)
  have "net_wf H (fold ubus_msg_free ?p ?n2) \<and> rx_inv E (fold ubus_msg_free ?p ?n2) \<and>
    core (fold ubus_msg_free ?p ?n2) = core ?n0" by simp
  moreover have "client_release cl (ubus_msg_free (cl_retmsg c) n) = close_fd (cl_fd c) (fold ubus_msg_free ?p ?n2)"
    using client_release_eq [of "ubus_msg_free (cl_retmsg c) n" cl c] c by (simp add: drop_client_free)
  ultimately show "net_wf H (client_release cl (ubus_msg_free (cl_retmsg c) n))"
    and "rx_inv E (client_release cl (ubus_msg_free (cl_retmsg c) n))"
    and "core (client_release cl (ubus_msg_free (cl_retmsg c) n)) = core ?n0"
    by (simp_all add: close_fd_ok)
qed

section \<open>The registry of a client that goes away\<close>

definition r_leave :: "u32 \<Rightarrow> registry \<Rightarrow> registry" where
  "r_leave cl r = r\<lparr>r_client := (r_client r)(cl := None), r_owned := (r_owned r)(cl := []),
                    r_tree := r_tree r - {cl}\<rparr>"

lemma r_leave_wf:
  assumes "reg_wf K r" and "r_owned r cl = []"
  shows "reg_wf K (r_leave cl r)"
proof -
  note wf = reg_wfD [OF assms(1)]
  have "owners_ok (r_leave cl r)" using wf(1) assms(2) by (auto simp: owners_ok_def r_leave_def)
  moreover have "clients_ok (r_leave cl r)" using wf(7) by (auto simp: clients_ok_def r_leave_def)
  ultimately show ?thesis using wf unfolding reg_wf_def by (auto simp: r_leave_def elim!: reg_wf_congs)
qed

lemma reg_leave:
  assumes "core n = core (drop_client cl (net d))"
  shows "reg (d\<lparr>net := n, client_tree := client_tree d - {cl}\<rparr>) = r_leave cl (reg d)"
proof -
  let ?d = "d\<lparr>net := drop_client cl (net d), client_tree := client_tree d - {cl}\<rparr>"
  have "reg (?d\<lparr>net := n\<rparr>) = reg ?d" by (rule reg_set_net) (simp add: assms)
  moreover have "reg ?d = r_leave cl (reg d)"
    by (simp add: reg_def r_leave_def fun_eq_iff cl_field_def obj_field_def)
  moreover have "d\<lparr>net := n, client_tree := client_tree d - {cl}\<rparr> = ?d\<lparr>net := n\<rparr>" by simp
  ultimately show ?thesis by (simp only:)
qed

lemma free_objects_step:
  assumes "daemon_wf H d" and "clients (net d) cl = Some c" and "cl_objects c = xs"
  shows "step_ok H S d (fold (ubusd_free_object E) xs d) \<and>
    reg (fold (ubusd_free_object E) xs d) = fold r_remove xs (reg d) \<and>
    r_owned (fold r_remove xs (reg d)) cl = []"
  using assms
proof (induction xs arbitrary: d c)
  case Nil
  then show ?case by (simp add: step_ok_refl cl_field_def)
next
  case (Cons x xs)
  have x: "x \<in> set (cl_objects c)" using Cons.prems(3) by simp
  note o = owned_objects [OF Cons.prems(1,2) x]
  let ?d = "ubusd_free_object E x d"
  have s: "step_ok H S d ?d" by (rule step_free_object [OF Cons.prems(1) o(1)])
  have st: "st_wf H (\<lambda>_. 0) d" using Cons.prems(1) by (simp add: daemon_st_wf)
  have r: "reg ?d = r_remove x (reg d)" by (rule free_object_ok(1) [OF st o(1)])
  obtain c1 where c1: "clients (net ?d) cl = Some c1" by (rule step_ok_client [OF s Cons.prems(2)])
  have "r_owned (reg ?d) cl = xs"
    unfolding r using o(2) Cons.prems(2,3) by (simp add: owner_def cl_field_def)
  then have "cl_objects c1 = xs" using c1 by (simp add: cl_field_def)
  from Cons.IH [OF step_okD(1) [OF s] c1 this] step_ok_trans [OF s] show ?case by (simp add: r)
qed

text \<open>The queued commands go first. What is left of the registry once the client is forgotten is
  not changed by that.\<close>

definition r_forget :: "u32 \<Rightarrow> registry \<Rightarrow> registry" where
  "r_forget cl r = r\<lparr>r_client := (r_client r)(cl := None)\<rparr>"

lemma r_forget_sel [simp]:
  "r_owned (r_forget cl r) = r_owned r" "r_owner (r_forget cl r) = r_owner r"
  "r_typeof (r_forget cl r) = r_typeof r" "r_types (r_forget cl r) = r_types r"
  "r_targets (r_forget cl r) = r_targets r" "r_subscribers (r_forget cl r) = r_subscribers r"
  by (simp_all add: r_forget_def)

lemma r_forget_remove: "r_remove oid (r_forget cl r) = r_forget cl (r_remove oid r)"
proof -
  have u: "r_unref_type tid (r_forget cl r) = r_forget cl (r_unref_type tid r)" for tid r
    by (simp add: r_unref_type_def r_forget_def split: option.split)
  have d: "r_delete oid (r_forget cl r) = r_forget cl (r_delete oid r)" for r
    unfolding r_delete_def Let_def
    by (cases "r_typeof r oid"; cases "r_owner r oid"; simp add: u [symmetric];
        (rule arg_cong [where f = "r_unref_type _"])?; simp add: r_forget_def)
  have "r_clear_patterns oid (r_drop_subs S (r_forget cl r)) = r_forget cl (r_clear_patterns oid (r_drop_subs S r))" for S
    by (simp add: r_forget_def r_clear_patterns_def r_drop_subs_def cong: if_cong)
  then show ?thesis by (simp add: r_remove_def d)
qed

lemma r_forget_removes: "fold r_remove xs (r_forget cl r) = r_forget cl (fold r_remove xs r)"
  by (induction xs arbitrary: r) (simp_all add: r_forget_remove)

lemma r_forget_monitor: "r_monitor on cl (r_forget cl r) = r_forget cl (r_monitor on cl r)"
  by (simp add: r_forget_def r_monitor_def)

lemma r_forget_leave: "r_leave cl (r_forget cl r) = r_leave cl r"
  by (simp add: r_forget_def r_leave_def)

lemma r_forget_cmd_free:
  assumes "clients (net d) cl = Some c"
  shows "r_forget cl (reg (on_net (ubus_client_cmd_free cl cmd) d)) = r_forget cl (reg d)"
proof -
  let ?d = "on_net (upd_client cl (\<lambda>c. c\<lparr>cl_cmd_queue := remove1 cmd (cl_cmd_queue c)\<rparr>)) d"
  have "reg (on_net (ubus_client_cmd_free cl cmd) d) = reg (on_net (ubus_msg_free (cmd_msg cmd)) ?d)"
    by (simp add: ubus_client_cmd_free_def on_net_def)
  also have "\<dots> = reg ?d" by simp
  finally show ?thesis
    using assms reg_set_client [OF assms, of "\<lambda>c. c\<lparr>cl_cmd_queue := remove1 cmd (cl_cmd_queue c)\<rparr>"]
    by (simp add: r_forget_def del: reg_sel)
qed

lemma free_cmds_ok:
  assumes "daemon_inv E d" and "clients (net d) cl = Some c" and "cl_cmd_queue c = cmds"
    and "d' = on_net (fold (ubus_client_cmd_free cl) cmds) d"
  shows "daemon_inv E d' \<and> r_forget cl (reg d') = r_forget cl (reg d) \<and>
    (\<exists>c'. clients (net d') cl = Some c' \<and> cl_cmd_queue c' = [] \<and> cl_objects c' = cl_objects c)"
  using assms
proof (induction cmds arbitrary: d c)
  case (Cons cmd cmds)
  have cmd: "cmd \<in> set (cl_cmd_queue c)" using Cons.prems(3) by simp
  let ?d = "on_net (ubus_client_cmd_free cl cmd) d"
  have i: "daemon_inv E ?d" by (rule inv_cmd_free [OF Cons.prems(1,2) cmd])
  obtain c1 where c1: "clients (net ?d) cl = Some c1" "cl_cmd_queue c1 = cmds" and o: "cl_objects c1 = cl_objects c"
    using cmd_free_step(2) [OF invD(1) [OF Cons.prems(1)] Cons.prems(2) cmd] Cons.prems(3) by auto
  have "d' = on_net (fold (ubus_client_cmd_free cl) cmds) ?d" using Cons.prems(4) by (simp add: on_net_def)
  from Cons.IH [OF i c1 this] o r_forget_cmd_free [OF Cons.prems(2)] show ?case by simp
qed (auto simp: on_net_def)

lemma monitor_disconnect_inv:
  assumes i: "daemon_inv E d" and c: "clients (net d) cl = Some c" and d': "d' = on_net (ubusd_monitor_disconnect cl) d"
  shows "daemon_inv E d'" and "reg d' = r_monitor False cl (reg d)" and "clients (net d') cl = Some c"
proof -
  note w = daemon_wfD [OF invD(1) [OF i]]
  have dist: "distinct (map mon_cl (monitors (net d)))"
    using reg_wfD(7) [OF w(2)] by (simp add: clients_ok_def)
  note m = monitor_disconnect_ok [OF w(1) dist, of cl]
  show r: "reg d' = r_monitor False cl (reg d)" unfolding d' by (rule m(2))
  show "clients (net d') cl = Some c" unfolding d' using c clients_monitor_disconnect by simp
  have "st_wf (\<lambda>_. 0) (\<lambda>_. 0) d'" using m(1) r_monitor_wf [OF w(2)] r by (simp add: st_wf_def d' del: reg_sel)
  then have "step_ok (\<lambda>_. 0) {} d d'"
    by (rule step_ok_reg) (use w(3) in \<open>simp_all add: r r_monitor_def served_ok_def acl_kept_def del: reg_sel\<close>,
        simp add: d' keeps_monitor_disconnect)
  from inv_step [OF i this] show "daemon_inv E d'" by (simp add: not_pending_def)
qed

lemma r_removes_fields:
  "r_client (fold r_remove xs r) = r_client r" "r_monitors (fold r_remove xs r) = r_monitors r"
  "r_objs (fold r_remove xs r) = r_objs r - set xs" "r_tree (fold r_remove xs r) = r_tree r"
  by (induction xs arbitrary: r) auto

lemma cl_base_queue:
  assumes "cl_base c' = cl_base c"
  shows "cl_cmd_queue c' = cl_cmd_queue c" "cl_retmsg c' = cl_retmsg c"
  using assms by (cases c; cases c'; simp add: cl_base_def cl_core_def)+

theorem disconnect_ok:
  assumes i: "daemon_inv E d" and c: "clients (net d) cl = Some c" and d': "d' = handle_client_disconnect E cl d"
  shows "daemon_inv E d'"
    and "reg d' = r_leave cl (fold r_remove (cl_objects c) (r_monitor False cl (reg d)))"
proof -
  define d1 where "d1 = on_net (fold (ubus_client_cmd_free cl) (cl_cmd_queue c)) d"
  define d2 where "d2 = on_net (ubusd_monitor_disconnect cl) d1"
  define d3 where "d3 = fold (ubusd_free_object E) (cl_objects c) d2"
  obtain c1 where i1: "daemon_inv E d1" and r1: "r_forget cl (reg d1) = r_forget cl (reg d)"
    and c1: "clients (net d1) cl = Some c1" "cl_cmd_queue c1 = []" "cl_objects c1 = cl_objects c"
    using free_cmds_ok [OF i c refl d1_def] by blast
  note m = monitor_disconnect_inv [OF i1 c1(1) d2_def]
  note f = free_objects_step [OF invD(1) [OF m(1)] m(3) c1(3), of "{}" E, folded d3_def]
  have s3: "step_ok (\<lambda>_. 0) {} d2 d3" and r3: "reg d3 = fold r_remove (cl_objects c) (reg d2)"
    and o3: "r_owned (reg d3) cl = []" using f by (simp_all del: reg_sel)
  have i3: "daemon_inv E d3" by (rule inv_step [OF m(1) s3]) (simp add: not_pending_def)
  obtain c3 where c3: "clients (net d3) cl = Some c3" by (rule step_ok_client [OF s3 m(3)])
  have "map_option cl_base (clients (net d3) cl) = map_option cl_base (clients (net d2) cl)"
    using arg_cong [OF r3, of "\<lambda>r. r_client r cl"] by (simp only: r_removes_fields reg_sel(1))
  then have b3: "cl_base c3 = cl_base c1" using c3 m(3) by simp
  have q3: "cl_cmd_queue c3 = []" using cl_base_queue(1) [OF b3] c1(2) by simp
  have "map mon_cl (monitors (net d3)) = filter (\<lambda>c. c \<noteq> cl) (r_monitors (reg d1))"
    using arg_cong [OF r3, of r_monitors] by (simp only: r_removes_fields reg_sel(3) [symmetric] m(2)) (simp add: r_monitor_def)
  then have "set (map mon_cl (monitors (net d3))) = set (filter (\<lambda>c. c \<noteq> cl) (r_monitors (reg d1)))" by simp
  then have m3: "cl \<notin> mon_cl ` set (monitors (net d3))" by simp
  note rel = client_release_ok [OF daemon_wfD(1) [OF invD(1) [OF i3]] invD(3) [OF i3] c3 m3 q3]
  define n where "n = client_release cl (ubus_msg_free (cl_retmsg c3) (net d3))"
  have e: "d' = d3\<lparr>net := n, client_tree := client_tree d3 - {cl}\<rparr>"
    using c m(3) c1(3) cl_base_queue(2) [OF b3]
    by (simp add: d' handle_client_disconnect_def ubusd_proto_free_client_def Let_def n_def on_net_def
        d3_def d2_def d1_def)
  have r: "reg d' = r_leave cl (reg d3)" unfolding e by (rule reg_leave) (simp add: rel(3) n_def)
  have "r_forget cl (reg d2) = r_forget cl (r_monitor False cl (reg d))"
    using r1 m(2) by (metis r_forget_monitor)
  then have "r_forget cl (reg d3) = r_forget cl (fold r_remove (cl_objects c) (r_monitor False cl (reg d)))"
    unfolding r3 by (metis r_forget_removes)
  then show "reg d' = r_leave cl (fold r_remove (cl_objects c) (r_monitor False cl (reg d)))"
    unfolding r by (metis r_forget_leave)
  have "reg_wf (\<lambda>_. 0) (reg d')" unfolding r by (rule r_leave_wf [OF daemon_wfD(2) [OF invD(1) [OF i3]] o3])
  moreover have "served_ok (reg d')" unfolding r
    using daemon_wfD(3) [OF invD(1) [OF i3]] by (simp add: served_ok_def r_leave_def del: reg_sel)
  moreover have "acl_wf d'" by (rule acl_wf_reg [OF invD(2) [OF i3]]) (simp_all add: r r_leave_def del: reg_sel)
  ultimately show "daemon_inv E d'" using rel(1,2) by (simp add: daemon_inv_def daemon_wf_def e n_def)
qed

end
