(* ===== verification/Ubusd_Rx.thy ===== *)
theory Ubusd_Rx
  imports Ubusd_Close
begin

text \<open>
  The receive side of \<open>client_cb\<close> (ubusd_main.c): reading a header, allocating the message, reading
  its body and dispatching it keep the invariant of the daemon. In particular no byte is written
  outside of the buffer, whatever the peer sends.
\<close>

section \<open>Frames\<close>

text \<open>A change of the transport state that touches the record of one client only, and not its
  list of objects.\<close>

definition rx_frame :: "u32 \<Rightarrow> net \<Rightarrow> net \<Rightarrow> bool" where
  "rx_frame cl n n' \<longleftrightarrow>
     (\<exists>c c'. clients n cl = Some c \<and> clients n' cl = Some c' \<and> cl_objects c' = cl_objects c) \<and>
     core (drop_client cl n') = core (drop_client cl n)"

lemma rx_frame_reg:
  assumes "rx_frame cl n n'" and "net d = n"
  obtains x where "reg (d\<lparr>net := n'\<rparr>) = (reg d)\<lparr>r_client := (r_client (reg d))(cl \<mapsto> x)\<rparr>"
    and "r_client (reg d) cl \<noteq> None"
proof -
  obtain c c' where c: "clients n cl = Some c" "clients n' cl = Some c'" "cl_objects c' = cl_objects c"
    and core: "core (drop_client cl n') = core (drop_client cl n)" using assms(1) by (auto simp: rx_frame_def)
  have cc: "map_option cl_core (clients n' i) = map_option cl_core (clients n i)" if "i \<noteq> cl" for i
    using arg_cong [OF core, of "\<lambda>x. fst x i"] that by (simp add: core_def)
  have b: "map_option cl_base (clients n' i) = map_option cl_base (clients n i)"
    and o: "cl_field [] cl_objects n' i = cl_field [] cl_objects n i" if "i \<noteq> cl" for i
    using cc [OF that]
    by (cases "clients n' i"; cases "clients n i"; auto simp: cl_base_def cl_field_def intro: cl_core_fields(1))+
  have m: "map mon_cl (monitors n') = map mon_cl (monitors n)" using core by (simp add: core_def)
  have "reg (d\<lparr>net := n'\<rparr>) = (reg d)\<lparr>r_client := (r_client (reg d))(cl \<mapsto> cl_base c')\<rparr>"
  proof -
    have "(\<lambda>i. map_option cl_base (clients n' i)) = (\<lambda>i. map_option cl_base (clients n i))(cl \<mapsto> cl_base c')"
      using b c by (simp add: fun_eq_iff)
    moreover have "cl_field [] cl_objects n' = cl_field [] cl_objects n"
    proof
      show "cl_field [] cl_objects n' i = cl_field [] cl_objects n i" for i
        using o [of i] c by (cases "i = cl") (simp_all add: cl_field_def)
    qed
    ultimately show ?thesis using m by (simp add: reg_def assms(2) obj_field_def)
  qed
  then show ?thesis using that c(1) assms(2) by simp
qed

lemma rx_frame_wf:
  assumes wf: "daemon_wf H d" and fr: "rx_frame cl (net d) n" and n: "net_wf H' n"
  shows "daemon_wf H' (d\<lparr>net := n\<rparr>)" and "acl_wf d \<Longrightarrow> acl_wf (d\<lparr>net := n\<rparr>)"
proof -
  obtain x where r: "reg (d\<lparr>net := n\<rparr>) = (reg d)\<lparr>r_client := (r_client (reg d))(cl \<mapsto> x)\<rparr>"
    and x: "r_client (reg d) cl \<noteq> None" by (rule rx_frame_reg [OF fr refl])
  note w = daemon_wfD [OF wf]
  have "reg_wf (\<lambda>_. 0) (reg (d\<lparr>net := n\<rparr>))" unfolding r by (rule reg_wf_client [OF w(2) x])
  moreover have "served_ok (reg (d\<lparr>net := n\<rparr>))" unfolding r using w(3) by (simp add: served_ok_def del: reg_sel)
  ultimately show "daemon_wf H' (d\<lparr>net := n\<rparr>)" using n by (simp add: daemon_wf_def del: reg_sel)
  show "acl_wf d \<Longrightarrow> acl_wf (d\<lparr>net := n\<rparr>)" by (erule acl_wf_reg) (simp_all add: r del: reg_sel)
qed

lemma rx_frame_refl: "clients n cl \<noteq> None \<Longrightarrow> rx_frame cl n n"
  by (auto simp: rx_frame_def)

lemma rx_frame_direct:
  assumes "clients n cl = Some c" and "clients n' = (clients n)(cl \<mapsto> c')" and "cl_objects c' = cl_objects c"
    and "monitors n' = monitors n" and "rnd n' = rnd n"
  shows "rx_frame cl n n'"
  using assms by (auto simp: rx_frame_def core_def)

text \<open>The receive state of the other clients.\<close>

lemma rx_inv_one:
  assumes wf: "net_wf H n" and rx: "rx_inv E n"
    and others: "\<And>i. i \<noteq> cl \<Longrightarrow> clients n' i = clients n i"
    and bufs: "\<And>a. a < next_addr n \<Longrightarrow> a \<noteq> ub \<Longrightarrow> bufs n' a = bufs n a"
    and ub: "\<And>i c. i \<noteq> cl \<Longrightarrow> clients n i = Some c \<Longrightarrow> cl_pending_msg c \<noteq> Some ub"
    and own: "\<And>c. clients n' cl = Some c \<Longrightarrow> rx_ok E (bufs n') c"
  shows "rx_inv E n'"
  unfolding rx_inv_def
proof (intro allI impI)
  fix i c assume c: "clients n' i = Some c"
  show "rx_ok E (bufs n') c"
  proof (cases "i = cl")
    case False
    then have c0: "clients n i = Some c" using c others by simp
    show ?thesis
    proof (rule rx_ok_frame [OF rx_invD [OF rx c0] refl])
      fix a b assume a: "cl_pending_msg c = Some a" and b: "bufs n a = Some b"
      with bufs [OF net_wf_ub_less [OF wf b]] ub [OF False c0] show "bufs n' a = Some b" by auto
    qed
  qed (use own c in simp)
qed

lemma splice_length: "ofs + length bs \<le> length old \<Longrightarrow> length (splice ofs bs old) = length old"
  by (simp add: splice_def)

lemma splice_take: "k \<le> ofs \<Longrightarrow> ofs \<le> length old \<Longrightarrow> take k (splice ofs bs old) = take k old"
  by (simp add: splice_def min_def)

section \<open>The header\<close>

lemma hdr_of_bytes_Some: "length bs = 8 \<Longrightarrow> \<exists>h. hdr_of_bytes bs = Some h"
  by (auto simp: numeral_eq_Suc length_Suc_conv)

text \<open>The message of the announced length, once it is allocated.\<close>

lemma rx_start_go:
  assumes i: "daemon_inv E d" and c: "clients (net d) cl = Some c"
    and idle: "cl_pending_msg c = None" "cl_pending_msg_offset c = HDRBUF_SIZE"
    and raw: "blob_hdr_raw_len E hdr = raw" "4 \<le> raw" "length hdr = 4"
    and new: "ubus_msg_new E (Raw (replicate raw 0)) raw False (net d) = (Some ub, n1)"
    and n: "n = buf_store E ub 0 hdr (upd_buf ub (\<lambda>b. b\<lparr>ub_hdr := h\<rparr>)
        (upd_client cl (\<lambda>c. c\<lparr>cl_pending_msg := Some ub\<rparr>) n1))"
  shows "net_wf (\<lambda>_. 0) n" and "rx_frame cl (net d) n" and "rx_inv E n"
proof -
  let ?n = "net d" and ?data = "splice 0 hdr (replicate raw 0)"
  note rx = invD(3) [OF i] and nwf = daemon_wfD(1) [OF invD(1) [OF i]]
  note n1 = ubus_msg_new_Some [OF new] and w1 = net_wf_msg_new [OF nwf new]
  define n2 where "n2 = upd_client cl (\<lambda>c. c\<lparr>cl_pending_msg := Some ub\<rparr>) n1"
  define n3 where "n3 = upd_buf ub (\<lambda>b. b\<lparr>ub_hdr := h\<rparr>) n2"
  have c1: "clients n1 cl = Some c" using c n1(2) by simp
  have w2: "net_wf (\<lambda>_. 0) n2" unfolding n2_def
    by (rule net_wf_move [OF w1(1) c1]) (use idle n1(2) in \<open>auto simp: client_refs_def split: if_splits\<close>)
  have b2: "bufs n2 ub = Some \<lparr>ub_refcount = 1, ub_hdr = zero_hdr, ub_data = Raw (replicate raw 0), ub_fd = - 1, ub_len = raw\<rparr>"
    using n1(2) by (simp add: n2_def)
  have w3: "net_wf (\<lambda>_. 0) n3" unfolding n3_def by (rule net_wf_upd_buf [OF w2 b2]) simp
  have n': "n = upd_buf ub (\<lambda>b. b\<lparr>ub_data := Raw ?data\<rparr>) n3"
    using b2 raw unfolding n n2_def [symmetric] n3_def [symmetric] buf_store_def
    by (simp add: n3_def upd_buf_def blob_image_def)
  show "net_wf (\<lambda>_. 0) n"
    unfolding n' by (rule net_wf_upd_buf [OF w3]) (use b2 in \<open>simp_all add: n3_def upd_buf_def\<close>)
  have cl': "clients n = (clients ?n)(cl \<mapsto> c\<lparr>cl_pending_msg := Some ub\<rparr>)" "monitors n = monitors ?n" "rnd n = rnd ?n"
    "bufs n = (bufs ?n)(ub \<mapsto> \<lparr>ub_refcount = 1, ub_hdr = h, ub_data = Raw ?data, ub_fd = - 1, ub_len = raw\<rparr>)"
    using b2 c1 n1(2) by (simp_all add: n' n3_def upd_buf_def n2_def upd_client_def)
  show "rx_frame cl ?n n" by (rule rx_frame_direct [OF c cl'(1)]) (use cl' in simp_all)
  have dl: "length ?data = raw" "take 4 ?data = hdr" using raw by (simp_all add: splice_def)
  show "rx_inv E n"
  proof (rule rx_inv_one [OF nwf rx, where cl = cl and ub = ub])
    show "cl_pending_msg c' \<noteq> Some ub" if "clients ?n i = Some c'" for i c'
      using rx_okD [OF rx_invD [OF rx that]] w1(3) by force
    show "rx_ok E (bufs n) c'" if "clients n cl = Some c'" for c'
      using that idle cl' dl raw rx_invD [OF rx c]
      by (auto simp: rx_ok_def pending_ok_def HDRBUF_SIZE_def HDR_SIZE_def)
  qed (use cl' in auto)
qed

lemma rx_frame_inv:
  assumes "daemon_inv E d" and "rx_frame cl (net d) n" and "net_wf (\<lambda>_. 0) n" and "rx_inv E n"
  shows "daemon_inv E (d\<lparr>net := n\<rparr>) \<and> cl \<in> dom (clients n)"
  using rx_frame_wf [OF invD(1) [OF assms(1)] assms(2,3)] invD(2) [OF assms(1)] assms(2,4)
  by (auto simp: daemon_inv_def rx_frame_def)

lemma rx_start_ok:
  assumes i: "daemon_inv E d" and c: "clients (net d) cl = Some c"
    and idle: "cl_pending_msg c = None" "cl_pending_msg_offset c = HDRBUF_SIZE"
    and len: "length hdrbuf = HDRBUF_SIZE"
    and r: "rx_start E cl hdrbuf (net d) = (st, n)"
  shows "daemon_inv E (d\<lparr>net := n\<rparr>) \<and> cl \<in> dom (clients n)"
proof -
  let ?raw = "blob_hdr_raw_len E (drop HDR_SIZE hdrbuf)"
  note nwf = daemon_wfD(1) [OF invD(1) [OF i]]
  have d4: "length (drop HDR_SIZE hdrbuf) = 4" using len by (simp add: HDRBUF_SIZE_def HDR_SIZE_def)
  obtain h where h: "hdr_of_bytes (take HDR_SIZE hdrbuf) = Some h"
    using hdr_of_bytes_Some [of "take HDR_SIZE hdrbuf"] len by (auto simp: HDRBUF_SIZE_def HDR_SIZE_def)
  obtain m n1 where new: "ubus_msg_new E (Raw (replicate ?raw 0)) ?raw False (net d) = (m, n1)" by fastforce
  consider (bad) "n = net d" | (oom) "m = None" "n = n1"
    | (go) ub where "m = Some ub" "4 \<le> ?raw" "n = buf_store E ub 0 (drop HDR_SIZE hdrbuf)
         (upd_buf ub (\<lambda>b. b\<lparr>ub_hdr := h\<rparr>) (upd_client cl (\<lambda>c. c\<lparr>cl_pending_msg := Some ub\<rparr>) n1))"
    using r new h by (auto simp: rx_start_def Let_def split: if_splits option.splits)
  then show ?thesis
  proof cases
    case bad
    with i c show ?thesis by auto
  next
    case oom
    then have same: "clients n = clients (net d)" "bufs n = bufs (net d)" "monitors n = monitors (net d)" "rnd n = rnd (net d)"
      and w: "net_wf (\<lambda>_. 0) n" using new net_wf_msg_new_None [OF nwf]
      by (auto simp: ubus_msg_new_def calloc_def Let_def split: if_splits)
    have "rx_frame cl (net d) n"
      by (rule rx_frame_direct [OF c, of _ c]) (use c same in \<open>auto simp: fun_upd_idem\<close>)
    with rx_frame_inv [OF i _ w] same invD(3) [OF i] show ?thesis by (simp add: rx_inv_def)
  next
    case (go ub)
    note g = rx_start_go [OF i c idle refl go(2) d4 new [unfolded go(1)] go(3)]
    show ?thesis by (rule rx_frame_inv [OF i g(2,1,3)])
  qed
qed

lemma rx_header_ok:
  assumes i: "daemon_inv E d" and c: "clients (net d) cl = Some c"
    and r: "rx_header E p cl (net d) = (st, n)"
  shows "daemon_inv E (d\<lparr>net := n\<rparr>) \<and> cl \<in> dom (clients n)"
proof (cases "cl_eof c \<or> HDRBUF_SIZE \<le> cl_pending_msg_offset c \<or> p = None")
  case True
  then have "n = net d" using r c by (auto simp: rx_header_def split: if_splits)
  with i c show ?thesis by auto
next
  case False
  then obtain bytes cmsgs where p: "p = Some (bytes, cmsgs)" by auto
  define ofs where "ofs = cl_pending_msg_offset c"
  define bs where "bs = take (HDRBUF_SIZE - ofs) bytes"
  define hdrbuf where "hdrbuf = splice ofs bs (cl_hdrbuf c)"
  define fd where "fd = (if cl_pending_msg_fd c < 0 \<and> 0 \<le> ubusd_recv_fd cmsgs
                         then ubusd_recv_fd cmsgs else cl_pending_msg_fd c)"
  define f where "f = (\<lambda>c :: ubus_client. c\<lparr>cl_hdrbuf := hdrbuf, cl_pending_msg_fd := fd, cl_pending_msg_offset := ofs + length bs\<rparr>)"
  let ?n = "upd_client cl f (net d)"
  note rx = rx_invD [OF invD(3) [OF i] c] and nwf = daemon_wfD(1) [OF invD(1) [OF i]]
  have ofs: "ofs < HDRBUF_SIZE" "ofs + length bs \<le> HDRBUF_SIZE" using False by (auto simp: ofs_def bs_def)
  have none: "cl_pending_msg c = None" using rx ofs(1) by (auto simp: rx_ok_def pending_ok_def ofs_def split: option.splits)
  have len: "length hdrbuf = HDRBUF_SIZE" using rx ofs(2) by (simp add: hdrbuf_def rx_ok_def splice_length)
  have w: "net_wf (\<lambda>_. 0) ?n" by (rule net_wf_upd_client [OF nwf c]) (simp_all add: f_def client_refs_def)
  have fr: "rx_frame cl (net d) ?n"
    by (rule rx_frame_direct [OF c, of _ "f c"]) (use c in \<open>simp_all add: upd_client_def f_def\<close>)
  have "rx_inv E ?n"
  proof (rule rx_inv_one [OF nwf invD(3) [OF i], where cl = cl and ub = "next_addr (net d)"])
    show "cl_pending_msg c' \<noteq> Some (next_addr (net d))" if "clients (net d) i = Some c'" for i c'
      using rx_okD [OF rx_invD [OF invD(3) [OF i] that]] net_wf_ub_less [OF nwf] by (metis less_irrefl)
    show "rx_ok E (bufs ?n) c'" if "clients ?n cl = Some c'" for c'
      using that clients_upd_same [OF c, of f] ofs len none by (simp add: rx_ok_def f_def)
    show "clients ?n i = clients (net d) i" if "i \<noteq> cl" for i using that c by (simp add: upd_client_def)
  qed simp
  from rx_frame_inv [OF i fr w this] have i1: "daemon_inv E (d\<lparr>net := ?n\<rparr>)" and c1: "cl \<in> dom (clients ?n)" by simp_all
  have r': "(if ofs + length bs < HDRBUF_SIZE then (Out, ?n) else rx_start E cl hdrbuf ?n) = (st, n)"
    using r False unfolding rx_header_def c p
    by (simp only: option.case prod.case Let_def de_Morgan_disj simp_thms if_False ofs_def bs_def hdrbuf_def fd_def f_def)
  show ?thesis
  proof (cases "ofs + length bs < HDRBUF_SIZE")
    case True
    with r' i1 c1 show ?thesis by simp
  next
    case full: False
    have "clients (net (d\<lparr>net := ?n\<rparr>)) cl = Some (f c)" using c by (simp add: clients_upd_same)
    from rx_start_ok [OF i1 this _ _ len] full r' none ofs show ?thesis by (simp add: f_def)
  qed
qed

section \<open>The body\<close>

lemma buf_store_ok:
  assumes i: "daemon_inv E d" and c: "clients (net d) cl = Some c" and ub: "cl_pending_msg c = Some ub"
    and b: "bufs (net d) ub = Some b" and fits: "ofs + length bs \<le> ub_len b" and ofs: "4 \<le> ofs"
    and f: "cl_pending_msg (f c) = Some ub" "cl_hdrbuf (f c) = cl_hdrbuf c" "cl_objects (f c) = cl_objects c"
      "HDRBUF_SIZE \<le> cl_pending_msg_offset (f c)" "cl_pending_msg_offset (f c) - HDR_SIZE \<le> ub_len b"
      "cl_tx_queue (f c) = cl_tx_queue c" "cl_cmd_queue (f c) = cl_cmd_queue c" "cl_retmsg (f c) = cl_retmsg c"
    and n: "n = upd_client cl f (buf_store E ub ofs bs (net d))"
  shows "daemon_inv E (d\<lparr>net := n\<rparr>) \<and> cl \<in> dom (clients n)"
proof (rule rx_frame_inv [OF i])
  note rx = invD(3) [OF i] and nwf = daemon_wfD(1) [OF invD(1) [OF i]]
  obtain data where data: "ub_data b = Raw data" "length data = ub_len b" "ub_refcount b = 1"
    "blob_hdr_raw_len E (take 4 data) = ub_len b" "4 \<le> ub_len b"
    using rx_okD [OF rx_invD [OF rx c] ub] b by (auto simp: pending_ok_def)
  let ?g = "\<lambda>b. b\<lparr>ub_data := Raw (splice ofs bs (blob_image E (ub_data b)))\<rparr>"
  have n1: "n = upd_client cl f (upd_buf ub ?g (net d))" using n b fits by (simp add: buf_store_def)
  have w1: "net_wf (\<lambda>_. 0) (upd_buf ub ?g (net d))" by (rule net_wf_upd_buf [OF nwf b]) simp
  have c1: "clients (upd_buf ub ?g (net d)) cl = Some c" using c b by (simp add: upd_buf_def)
  show "net_wf (\<lambda>_. 0) n" unfolding n1
    by (rule net_wf_upd_client [OF w1 c1]) (simp_all add: client_refs_def f ub)
  have e: "clients n = (clients (net d))(cl \<mapsto> f c)" "bufs n = (bufs (net d))(ub \<mapsto> ?g b)"
    "monitors n = monitors (net d)" "rnd n = rnd (net d)"
    using c b by (simp_all add: n1 upd_client_def upd_buf_def)
  show "rx_frame cl (net d) n" by (rule rx_frame_direct [OF c e(1)]) (use e f in simp_all)
  have t: "take 4 (splice ofs bs data) = take 4 data" "length (splice ofs bs data) = ub_len b"
    using ofs fits data by (simp_all add: splice_take splice_length)
  show "rx_inv E n"
  proof (rule rx_inv_one [OF nwf rx, where cl = cl and ub = ub])
    show "cl_pending_msg c' \<noteq> Some ub" if "i \<noteq> cl" "clients (net d) i = Some c'" for i c'
      using pending_unique(4) [OF nwf c ub b data(3) that(2)] that(1) by blast
    show "rx_ok E (bufs n) c'" if "clients n cl = Some c'" for c'
      using that e f data t rx_invD [OF rx c] by (auto simp: rx_ok_def pending_ok_def blob_image_def)
  qed (use e in auto)
qed

lemma rx_body_ok:
  assumes i: "daemon_inv E d" and c: "clients (net d) cl = Some c" and ub: "cl_pending_msg c = Some ub"
    and r: "rx_body E p cl ub (net d) = (st, n)"
  shows "daemon_inv E (d\<lparr>net := n\<rparr>) \<and> (\<exists>c'. clients n cl = Some c' \<and> cl_pending_msg c' = Some ub)"
proof -
  obtain b where b: "bufs (net d) ub = Some b" and p: "pending_ok E (bufs (net d)) (cl_pending_msg_offset c) ub"
    by (rule rx_okD [OF rx_invD [OF invD(3) [OF i] c] ub])
  define ofs where "ofs = cl_pending_msg_offset c - HDR_SIZE"
  define len where "len = ub_len b - ofs"
  have raw: "blob_hdr_raw_len E (take 4 (blob_image E (ub_data b))) = ub_len b" and ofs: "4 \<le> ofs" "ofs \<le> ub_len b"
    and off: "HDRBUF_SIZE \<le> cl_pending_msg_offset c"
    using p b by (auto simp: pending_ok_def ofs_def HDRBUF_SIZE_def HDR_SIZE_def blob_image_def)
  have r': "(if len = 0 then (Go, net d) else case p of None \<Rightarrow> (Out, net d) | Some bytes \<Rightarrow>
      if take len bytes = [] then (Out, net d)
      else if length (take len bytes) < len
      then (Out, upd_client cl (\<lambda>c. c\<lparr>cl_pending_msg_offset := cl_pending_msg_offset c + length (take len bytes)\<rparr>)
              (buf_store E ub ofs (take len bytes) (net d)))
      else (Go, buf_store E ub ofs (take len bytes) (net d))) = (st, n)"
    using r unfolding rx_body_def c b by (simp only: option.case prod.case raw ofs_def [symmetric] len_def [symmetric] Let_def)
  consider (same) "n = net d"
    | (more) bs where "length bs < len" "n = upd_client cl (\<lambda>c. c\<lparr>cl_pending_msg_offset := cl_pending_msg_offset c + length bs\<rparr>)
              (buf_store E ub ofs bs (net d))"
    | (full) bs where "length bs = len" "n = buf_store E ub ofs bs (net d)"
  proof (cases p)
    case (Some bytes)
    define bs where "bs = take len bytes"
    have "length bs \<le> len" by (simp add: bs_def)
    with r' [unfolded Some option.case bs_def [symmetric]] that(1) that(2) [of bs] that(3) [of bs] show thesis
      by (cases "length bs = len") (auto split: if_splits)
  qed (use r' that in \<open>auto split: if_splits\<close>)
  then show ?thesis
  proof cases
    case same
    with i c ub show ?thesis by auto
  next
    case (more bs)
    have s: "clients (buf_store E ub ofs bs (net d)) cl = Some c"
      using c b more(1) by (simp add: buf_store_def len_def upd_buf_def set_fault_def)
    have "daemon_inv E (d\<lparr>net := n\<rparr>) \<and> cl \<in> dom (clients n)"
      by (rule buf_store_ok [OF i c ub b _ ofs(1) _ _ _ _ _ _ _ _ more(2)])
        (use more(1) ofs off ub in \<open>simp_all add: len_def ofs_def\<close>)
    with s ub more(2) show ?thesis by (auto simp: clients_upd_same)
  next
    case (full bs)
    have s: "clients (buf_store E ub ofs bs (net d)) cl = Some c"
      using c b full(1) ofs by (simp add: buf_store_def len_def upd_buf_def)
    then have n: "n = upd_client cl (\<lambda>c. c) (buf_store E ub ofs bs (net d))"
      using full(2) by (simp add: upd_client_def fun_upd_idem)
    have "daemon_inv E (d\<lparr>net := n\<rparr>) \<and> cl \<in> dom (clients n)"
      by (rule buf_store_ok [OF i c ub b _ ofs(1) _ _ _ _ _ _ _ _ n])
        (use full(1) ofs off ub in \<open>simp_all add: len_def ofs_def\<close>)
    with s ub full(2) show ?thesis by auto
  qed
qed

section \<open>Accepting a message\<close>

lemma rx_accept_ok:
  assumes lib: "lib_ok E" and i: "daemon_inv E d" and c: "clients (net d) cl = Some c" and ub: "cl_pending_msg c = Some ub"
  shows "daemon_inv E (rx_accept E cl ub d) \<and> cl \<in> dom (clients (net (rx_accept E cl ub d)))"
proof -
  note rx = invD(3) [OF i] and nwf = daemon_wfD(1) [OF invD(1) [OF i]]
  obtain b where b: "bufs (net d) ub = Some b" "ub_refcount b = 1" by (rule rx_okD [OF rx_invD [OF rx c] ub])
  define n1 where "n1 = upd_buf ub (\<lambda>b. b\<lparr>ub_fd := cl_pending_msg_fd c\<rparr>) (net d)"
  define f where "f = (\<lambda>c :: ubus_client. c\<lparr>cl_pending_msg_fd := - 1, cl_pending_msg_offset := 0, cl_pending_msg := None\<rparr>)"
  define n2 where "n2 = upd_client cl f n1"
  let ?H = "(\<lambda>_. 0)(ub := 1)" and ?b = "b\<lparr>ub_fd := cl_pending_msg_fd c\<rparr>"
  have w1: "net_wf (\<lambda>_. 0) n1" unfolding n1_def by (rule net_wf_upd_buf [OF nwf b(1)]) simp
  have c1: "clients n1 cl = Some c" and b1: "bufs n1 = (bufs (net d))(ub \<mapsto> ?b)"
    using c b by (simp_all add: n1_def upd_buf_def)
  have w2: "net_wf ?H n2" unfolding n2_def
  proof (rule net_wf_move [OF w1 c1])
    show "client_refs (f c) a + ?H a = client_refs c a + 0" for a by (simp add: client_refs_def f_def ub)
    show "client_refs (f c) a = client_refs c a" if "bufs n1 a = Some b'" "ub_refcount b' = USES_EXTERNAL_BUFFER" for a b'
      using that b b1 ub by (auto simp: client_refs_def f_def)
  qed (simp add: f_def)
  have e: "clients n2 = (clients (net d))(cl \<mapsto> f c)" "bufs n2 = (bufs (net d))(ub \<mapsto> ?b)"
    "monitors n2 = monitors (net d)" "rnd n2 = rnd (net d)"
    using c b by (simp_all add: n2_def n1_def upd_client_def upd_buf_def)
  have fr: "rx_frame cl (net d) n2" by (rule rx_frame_direct [OF c e(1)]) (use e in \<open>simp_all add: f_def\<close>)
  have rx2: "rx_inv E n2"
  proof (rule rx_inv_one [OF nwf rx, where cl = cl and ub = ub])
    show "cl_pending_msg c' \<noteq> Some ub" if "i \<noteq> cl" "clients (net d) i = Some c'" for i c'
      using pending_unique(4) [OF nwf c ub b that(2)] that(1) by blast
    show "rx_ok E (bufs n2) c'" if "clients n2 cl = Some c'" for c'
      using that e rx_invD [OF rx c] by (auto simp: rx_ok_def f_def)
  qed (use e in auto)
  define d2 where "d2 = d\<lparr>net := n2\<rparr>"
  define d3 where "d3 = on_net (ubusd_monitor_message E cl ub False) d2"
  have wf2: "daemon_wf ?H d2" and a2: "acl_wf d2"
    using rx_frame_wf [OF invD(1) [OF i] fr w2] invD(2) [OF i] by (simp_all add: d2_def)
  have b2: "bufs (net d2) ub = Some ?b" using e by (simp add: d2_def)
  note mm = net_wf_monitor_message [OF daemon_wfD(1) [OF wf2] b2, where E = E and cl = cl and send = False]
  have s3: "step_ok ?H {} d2 d3"
    unfolding d3_def
    by (rule step_ok_on_net [OF wf2]) (rule core_monitor_message mm(1) keeps_monitor_message)+
  obtain c3 where c3: "clients (net d3) cl = Some c3"
    by (rule step_ok_client [OF s3, of cl "f c"]) (simp add: d2_def e)
  have "bufs (net d3) ub = Some ?b" using mm(2) [OF net_wf_ub_less [OF daemon_wfD(1) [OF wf2] b2]] b2 by (simp add: d3_def)
  then have o: "owns1 (net d3) ub" using b(2) by (simp add: owns1_def)
  have z: "?H(ub := 0) = (\<lambda>_. 0)" by auto
  have s4: "step_ok (\<lambda>_. 0) {ub, cl_retmsg c3} d3 (ubusd_proto_receive_message E cl ub d3)"
    using receive_message_step [OF lib step_okD(1) [OF s3] c3 o] unfolding z by simp
  have rx3: "rx_inv E (net d3)"
    by (rule rx_inv_step [OF _ daemon_wfD(1) [OF wf2] _ s3]) (use rx2 in \<open>simp_all add: d2_def not_pending_def\<close>)
  have np: "not_pending (net d3) {ub, cl_retmsg c3}"
    using not_pendingI(1,2) [OF rx3 daemon_wfD(1) [OF step_okD(1) [OF s3]]] c3
      not_pending_Un [of "net d3" "{ub}" "{cl_retmsg c3}"] by (simp add: insert_commute)
  let ?d = "ubusd_proto_receive_message E cl ub d3"
  have "rx_inv E (net ?d)" by (rule rx_inv_step [OF rx3 daemon_wfD(1) [OF step_okD(1) [OF s3]] np s4])
  moreover have "acl_wf ?d" by (rule acl_kept_wf [OF acl_kept_trans [OF step_okD(4) [OF s3] step_okD(4) [OF s4]] a2])
  moreover have "cl \<in> dom (clients (net ?d))" using step_ok_dom [OF s4] c3 by auto
  moreover have "rx_accept E cl ub d = ?d"
    using c by (simp add: rx_accept_def Let_def d3_def d2_def n2_def n1_def f_def on_net_def)
  ultimately show ?thesis using step_okD(1) [OF s4] by (simp add: daemon_inv_def)
qed

lemma rx_out_ok: "daemon_inv E d \<Longrightarrow> cl \<in> dom (clients (net d)) \<Longrightarrow> daemon_inv E (rx_out E cl d)"
  by (auto simp: rx_out_def disconnect_ok(1) [OF _ _ refl])

lemma rx_loop_ok:
  assumes "lib_ok E" and "daemon_inv E d" and "cl \<in> dom (clients (net d))"
  shows "daemon_inv E (rx_loop E cl ps d)"
  using assms(2,3)
proof (induction ps arbitrary: d)
  case (Cons p ps)
  obtain c where c: "clients (net d) cl = Some c" using Cons.prems(2) by auto
  obtain st n where h: "rx_header E (rp_hdr p) cl (net d) = (st, n)" by fastforce
  obtain i1: "daemon_inv E (d\<lparr>net := n\<rparr>)" and "cl \<in> dom (clients n)" using rx_header_ok [OF Cons.prems(1) c h] by blast
  then obtain c1 where c1: "clients (net (d\<lparr>net := n\<rparr>)) cl = Some c1" by auto
  have out: "daemon_inv E (rx_out E cl (d\<lparr>net := n\<rparr>))" by (rule rx_out_ok [OF i1]) (use c1 in auto)
  show ?case
  proof (cases st)
    case Go
    show ?thesis
    proof (cases "cl_pending_msg c1")
      case None
      with Go h c1 out show ?thesis by simp
    next
      case (Some ub)
      obtain st' n' where r: "rx_body E (rp_body p) cl ub n = (st', n')" by fastforce
      obtain c2 where i2: "daemon_inv E (d\<lparr>net := n'\<rparr>)" and c2: "clients n' cl = Some c2" "cl_pending_msg c2 = Some ub"
        using rx_body_ok [OF i1 c1 Some, of "rp_body p" st' n'] r by auto
      have "daemon_inv E (rx_accept E cl ub (d\<lparr>net := n'\<rparr>))"
        and "cl \<in> dom (clients (net (rx_accept E cl ub (d\<lparr>net := n'\<rparr>))))"
        using rx_accept_ok [OF assms(1) i2, of cl c2 ub] c2 by simp_all
      from Cons.IH [OF this] rx_out_ok [OF i2] c1 c2 Go h r Some show ?thesis by (cases st') auto
    qed
  next
    case Disconnect
    with h disconnect_ok(1) [OF i1 c1 refl] show ?thesis by simp
  qed (use h out in simp)
qed (simp add: rx_out_ok)

end
