(* ===== verification/Ubusd_Reach.thy ===== *)
theory Ubusd_Reach
  imports Ubusd_Rx
begin

text \<open>
  New connections, the start of the daemon, and the invariant of all reachable states: whatever
  clients send, in whatever pieces, and whatever \<open>sendmsg\<close>, the allocator and the random device
  return, every state the event loop reaches satisfies \<open>daemon_inv\<close>.
\<close>

section \<open>New connections\<close>

lemma reg_same_net: "clients n = clients (net d) \<Longrightarrow> monitors n = monitors (net d) \<Longrightarrow> reg (d\<lparr>net := n\<rparr>) = reg d"
  by (simp add: reg_def cl_field_def obj_field_def fun_eq_iff)

lemma net_wf_add_client:
  assumes wf: "net_wf H n" and cl: "clients n cl = None" and H: "H (cl_retmsg c) = 1"
    and b: "bufs n (cl_retmsg c) = Some b" "ub_refcount b = USES_EXTERNAL_BUFFER"
    and c: "\<And>a. client_refs c a = 0"
  shows "net_wf (H(cl_retmsg c := 0)) (n\<lparr>clients := (clients n)(cl \<mapsto> c)\<rparr>)"
proof -
  note fin = net_wfD(2) [OF wf]
  have r: "refs ((clients n)(cl \<mapsto> c)) a = refs (clients n) a" for a
    unfolding refs_def using msum_insert [OF fin cl] c by simp
  have q: "ret_refs ((clients n)(cl \<mapsto> c)) a = ret_refs (clients n) a + (if cl_retmsg c = a then 1 else 0)" for a
    unfolding ret_refs_def by (rule msum_insert [OF fin cl])
  have "buf_ok (H(cl_retmsg c := 0)) (n\<lparr>clients := (clients n)(cl \<mapsto> c)\<rparr>) a" for a
    using net_wfD(3) [OF wf, of a] r [of a] q [of a] H b
    by (auto simp: buf_ok_def split: option.splits if_splits)
  then show ?thesis using wf by (auto simp: net_wf_def)
qed

definition r_join :: "u32 \<Rightarrow> ubus_client \<Rightarrow> registry \<Rightarrow> registry" where
  "r_join cl x r = r\<lparr>r_client := (r_client r)(cl \<mapsto> x), r_tree := insert cl (r_tree r)\<rparr>"

lemma r_join_wf:
  assumes "reg_wf K r" and "r_client r cl = None"
  shows "reg_wf K (r_join cl x r)"
proof -
  note wf = reg_wfD [OF assms(1)]
  have "owners_ok (r_join cl x r)" using wf(1) by (auto simp: owners_ok_def r_join_def)
  moreover have "clients_ok (r_join cl x r)" using wf(7) by (auto simp: clients_ok_def r_join_def)
  ultimately show ?thesis using wf unfolding reg_wf_def by (auto simp: r_join_def elim!: reg_wf_congs)
qed

lemma reg_join:
  assumes "clients n = (clients (net d))(cl \<mapsto> c)" and "monitors n = monitors (net d)"
    and "clients (net d) cl = None" and "cl_objects c = []"
  shows "reg (d\<lparr>net := n, client_tree := insert cl (client_tree d)\<rparr>) = r_join cl (cl_base c) (reg d)"
  using assms by (simp add: reg_def r_join_def fun_eq_iff cl_field_def obj_field_def)

text \<open>What the steps before the client is entered do to the transport state.\<close>

definition quiet :: "net \<Rightarrow> net \<Rightarrow> bool" where
  "quiet n n' \<longleftrightarrow> clients n' = clients n \<and> monitors n' = monitors n \<and> keeps {} n n'"

lemma quiet_trans: "quiet n n' \<Longrightarrow> quiet n' n'' \<Longrightarrow> quiet n n''"
  using keeps_trans by (auto simp: quiet_def)

lemma quiet_calloc: "calloc E n = (r, n') \<Longrightarrow> quiet n n' \<and> (net_wf H n \<longrightarrow> net_wf H n')"
  using net_wf_calloc by (auto simp: quiet_def calloc_def intro: keeps_same)

lemma quiet_acl_init: "ubusd_acl_init_client E p n = (r, n') \<Longrightarrow> quiet n n' \<and> (net_wf H n \<longrightarrow> net_wf H n')"
proof -
  have 0: "quiet n n" by (simp add: quiet_def)
  have g: "quiet n n' \<and> (net_wf H n \<longrightarrow> net_wf H n')" if "ubusd_acl_load_extra_gids E p n = (r, n')" for n n' r
    using that by (auto simp: ubusd_acl_load_extra_gids_def dest: quiet_calloc split: prod.splits bool.splits)
  show "ubusd_acl_init_client E p n = (r, n') \<Longrightarrow> quiet n n' \<and> (net_wf H n \<longrightarrow> net_wf H n')"
    unfolding ubusd_acl_init_client_def
    using 0 g by (auto dest!: quiet_calloc split: option.splits prod.splits bool.splits intro: quiet_trans)
qed

lemma init_retmsg_ok:
  assumes wf: "net_wf H n" and r: "ubusd_proto_init_retmsg E n = (x, n')"
  shows "case x of None \<Rightarrow> quiet n n' \<and> net_wf H n'
    | Some a \<Rightarrow> quiet n n' \<and> H a = 0 \<and> net_wf (H(a := 1)) n' \<and> next_addr n \<le> a \<and>
        (\<exists>b. bufs n' a = Some b \<and> ub_refcount b = USES_EXTERNAL_BUFFER)"
proof -
  let ?data = "Built [(ubus_attr_code UBUS_ATTR_STATUS, Blob_int32 0)]"
  obtain ok n1 where c: "calloc E n = (ok, n1)" by fastforce
  note q = quiet_calloc [OF c, of H] and w1 = net_wf_calloc [OF wf c]
  obtain m n2 where m: "ubus_msg_new E ?data (blob_raw_len E ?data) True n1 = (m, n2)" by fastforce
  show ?thesis
  proof (cases "ok \<and> m \<noteq> None")
    case False
    have "quiet n1 n2 \<and> net_wf H n2" if "m = None"
      using m that net_wf_msg_new_None [OF w1, of E] by (auto simp: quiet_def ubus_msg_new_def calloc_def Let_def keeps_same split: if_splits)
    with False r c m q wf show ?thesis
      by (cases ok) (auto simp: ubusd_proto_init_retmsg_def Let_def intro: quiet_trans)
  next
    case True
    then obtain a where a: "m = Some a" by auto
    note n2 = ubus_msg_new_Some [OF m [unfolded a]] and w2 = net_wf_msg_new [OF w1 m [unfolded a]]
    let ?f = "\<lambda>b. b\<lparr>ub_hdr := (ub_hdr b)\<lparr>hdr_type := ubus_msg_code UBUS_MSG_STATUS\<rparr>\<rparr>"
    have n': "n' = upd_buf a ?f n2" "x = Some a" using r c m a True by (auto simp: ubusd_proto_init_retmsg_def Let_def)
    obtain b where b: "bufs n2 a = Some b" "ub_refcount b = USES_EXTERNAL_BUFFER" using n2 by simp
    have "net_wf (H(a := 1)) n'" unfolding n' by (rule net_wf_upd_buf [OF w2(1) b(1)]) simp
    moreover have "quiet n1 n'"
      using n2 b by (auto simp: n' quiet_def keeps_def upd_buf_def)
    moreover have "next_addr n = a" using n2(1) c by (auto simp: calloc_def)
    ultimately show ?thesis using q w2(2) b n' quiet_trans by (auto simp: upd_buf_def)
  qed
qed

lemma quiet_inv:
  assumes i: "daemon_inv E d" and q: "quiet (net d) n" and wf: "net_wf (\<lambda>_. 0) n"
  shows "daemon_inv E (d\<lparr>net := n\<rparr>)"
proof -
  have r: "reg (d\<lparr>net := n\<rparr>) = reg d" by (rule reg_same_net) (use q in \<open>simp_all add: quiet_def\<close>)
  have "step_ok (\<lambda>_. 0) {} d (d\<lparr>net := n\<rparr>)"
    by (rule step_ok_net [OF invD(1) [OF i] r]) (use q wf in \<open>simp_all add: quiet_def\<close>)
  from inv_step [OF i this] show ?thesis by (simp add: not_pending_def)
qed

lemma client_ids: "daemon_wf H d \<Longrightarrow> client_tree d = dom (clients (net d))"
  by (drule daemon_wfD(2), drule reg_wfD(7)) (auto simp: clients_ok_def dom_def)

text \<open>The client is entered with an empty record.\<close>

lemma join_inv:
  assumes i: "daemon_inv E d" and q: "quiet (net d) n" and wf: "net_wf ((\<lambda>_. 0)(r := 1)) n"
    and r: "next_addr (net d) \<le> r" "bufs n r = Some b" "ub_refcount b = USES_EXTERNAL_BUFFER"
    and cl: "clients (net d) cl = None" and c: "c = new_client fd r cred"
    and d': "d' = d\<lparr>net := n\<lparr>clients := (clients n)(cl \<mapsto> c)\<rparr>, client_tree := insert cl (client_tree d)\<rparr>"
  shows "daemon_inv E d'"
proof -
  note w = daemon_wfD [OF invD(1) [OF i]] and rx = invD(3) [OF i]
  let ?n = "n\<lparr>clients := (clients n)(cl \<mapsto> c)\<rparr>"
  have c': "cl_retmsg c = r" "cl_objects c = []" "client_refs c a = 0" "rx_ok E B c" for a B
    by (simp_all add: c new_client_def client_refs_def rx_ok_def HDRBUF_SIZE_def split: prod.splits)
  have n: "net_wf (\<lambda>_. 0) ?n"
    using net_wf_add_client [OF wf, of cl c b] cl q r c' by (simp add: quiet_def fun_upd_idem)
  have rg: "reg d' = r_join cl (cl_base c) (reg d)"
    unfolding d' by (rule reg_join) (use q cl c' in \<open>simp_all add: quiet_def\<close>)
  have "reg_wf (\<lambda>_. 0) (reg d')" unfolding rg by (rule r_join_wf [OF w(2)]) (simp add: cl)
  moreover have "served_ok (reg d')" unfolding rg using w(3) by (simp add: served_ok_def r_join_def del: reg_sel)
  moreover have "acl_wf d'" by (rule acl_wf_reg [OF invD(2) [OF i]]) (simp_all add: rg r_join_def del: reg_sel)
  moreover have "rx_inv E ?n"
  proof (rule rx_inv_one [OF w(1) rx, where cl = cl and ub = r])
    show "cl_pending_msg x \<noteq> Some r" if "clients (net d) j = Some x" for j x
      using rx_okD [OF rx_invD [OF rx that]] net_wf_ub_less [OF w(1)] r(1) by (metis not_le)
    show "bufs ?n a = bufs (net d) a" if "a < next_addr (net d)" for a
      using q that by (simp add: quiet_def keeps_def)
  qed (use q c' in \<open>auto simp: quiet_def\<close>)
  ultimately show ?thesis using n by (simp add: daemon_inv_def daemon_wf_def d' del: reg_sel)
qed

lemma hello_fail_inv:
  assumes i: "daemon_inv E d" and q: "quiet (net d) n" and i5: "daemon_inv E d5" and cl: "clients (net d) cl = None"
    and c: "clients n6 = (clients n)(cl \<mapsto> new_client fd r cred)" and m: "monitors n6 = monitors n"
    and w: "net_wf (\<lambda>_. 0) n6" and rx: "rx_inv E n6"
  shows "daemon_inv E (d\<lparr>net := ubus_msg_free r (drop_client cl n6)\<rparr>)"
proof -
  note wd = daemon_wfD [OF invD(1) [OF i]]
  let ?c = "new_client fd r cred" and ?n0 = "drop_client cl n6"
  have mon: "cl \<notin> mon_cl ` set (monitors n6)" using wd(1) cl q m by (auto simp: net_wf_def quiet_def)
  have c': "cl_retmsg ?c = r" "client_refs ?c a = 0" for a
    by (simp_all add: new_client_def client_refs_def split: prod.splits)
  have w0: "net_wf (\<lambda>a. if r = a then 1 else 0) ?n0" using net_wf_drop [OF w _ mon, of ?c] c c' by simp
  have rx0: "rx_inv E ?n0" using rx by (simp add: rx_inv_def)
  from fold_free_ok [OF w0 rx0, of "\<lambda>_. 0" "[r]"]
  have n: "net_wf (\<lambda>_. 0) (ubus_msg_free r ?n0)" "rx_inv E (ubus_msg_free r ?n0)"
    "monitors (ubus_msg_free r ?n0) = monitors (net d)" using m q by (simp_all add: quiet_def)
  have rg: "reg (d\<lparr>net := ubus_msg_free r ?n0\<rparr>) = reg d"
    by (rule reg_same_net [OF _ n(3)]) (use c q cl in \<open>simp add: quiet_def fun_upd_idem\<close>)
  have "acl_wf (d\<lparr>net := ubus_msg_free r ?n0\<rparr>)" by (rule acl_wf_reg [OF invD(2) [OF i]]) (simp_all only: rg order_refl)
  with n daemon_wf_net [OF _ rg invD(1) [OF i]] show ?thesis by (simp add: daemon_inv_def)
qed

lemma new_client_ok:
  assumes i: "daemon_inv E d" and r: "ubusd_proto_new_client E fd peer d = (x, d')"
  shows "daemon_inv E d'"
proof -
  let ?n = "net d"
  note w0 = daemon_wfD(1) [OF invD(1) [OF i]]
  obtain ok n1 where 1: "calloc E ?n = (ok, n1)" by fastforce
  obtain cred n2 where 2: "ubusd_acl_init_client E peer n1 = (cred, n2)" by fastforce
  obtain y n3 where 3: "ubus_alloc_id (id_tree d) 0 n2 = (y, n3)" by fastforce
  obtain z n4 where 4: "ubusd_proto_init_retmsg E n3 = (z, n4)" by fastforce
  have q1: "quiet ?n n1" "net_wf (\<lambda>_. 0) n1" using quiet_calloc [OF 1] w0 by blast+
  have q2: "quiet ?n n2" "net_wf (\<lambda>_. 0) n2" using quiet_acl_init [OF 2] q1 quiet_trans by blast+
  obtain rn where "n3 = n2\<lparr>rnd := rn\<rparr>" using ubus_alloc_id_net [OF 3] by blast
  then have "quiet n2 n3" "net_wf (\<lambda>_. 0) n3" using q2(2) by (simp_all add: quiet_def keeps_same)
  then have q3: "quiet ?n n3" "net_wf (\<lambda>_. 0) n3" using quiet_trans [OF q2(1)] by blast+
  note q4 = init_retmsg_ok [OF q3(2) 4]
  consider (early) n where "d' = d\<lparr>net := n\<rparr>" "quiet ?n n" "net_wf (\<lambda>_. 0) n"
    | (entered) cr cl a where "ok" "cred = Some cr" "y = Some cl" "z = Some a"
  proof (cases "ok \<and> cred \<noteq> None \<and> y \<noteq> None \<and> z \<noteq> None")
    case False
    have "quiet ?n n4 \<and> net_wf (\<lambda>_. 0) n4" if "z = None" using q4 that quiet_trans [OF q3(1)] by simp
    with False r 1 2 3 4 q1 q2 q3 that(1) show thesis
      by (cases ok; cases cred; cases y; cases z) (auto simp: ubusd_proto_new_client_def)
  qed (use that(2) in auto)
  then show ?thesis
  proof cases
    case early
    with quiet_inv [OF i] show ?thesis by simp
  next
    case (entered cr cl a)
    let ?c = "new_client fd a cr"
    define n5 where "n5 = n4\<lparr>clients := (clients n4)(cl \<mapsto> ?c)\<rparr>"
    define d5 where "d5 = d\<lparr>net := n5, client_tree := insert cl (client_tree d)\<rparr>"
    obtain ok6 n6 where 6: "ubusd_send_hello E cl n5 = (ok6, n6)" by fastforce
    obtain b where q': "quiet n3 n4" "net_wf ((\<lambda>_. 0)(a := 1)) n4" "next_addr n3 \<le> a" "bufs n4 a = Some b"
      "ub_refcount b = USES_EXTERNAL_BUFFER"
      using q4 unfolding entered(4) option.case by blast
    have "next_addr ?n \<le> a" using q3(1) q'(3) by (simp add: quiet_def keeps_def)
    note q = quiet_trans [OF q3(1) q'(1)] q'(2) this q'(4,5)
    have "id_tree d cl = None" using ubus_alloc_id_Some [of "id_tree d" 0 n2 cl n3] 3 entered(3) by simp
    then have cl: "clients ?n cl = None"
      using client_ids [OF invD(1) [OF i]] by (auto simp: id_tree_def split: if_splits)
    have i5: "daemon_inv E d5" by (rule join_inv [OF i q cl refl]) (simp add: d5_def n5_def)
    have c5: "clients n5 cl = Some ?c" by (simp add: n5_def)
    have s6: "step_ok (\<lambda>_. 0) {} d5 (d5\<lparr>net := n6\<rparr>)"
    proof (rule step_ok_net [OF invD(1) [OF i5]])
      have n: "net d5 = n5" by (simp add: d5_def)
      note h = 6 [unfolded ubusd_send_hello_def]
      show "reg (d5\<lparr>net := n6\<rparr>) = reg d5" by (rule reg_set_net) (simp add: n core_send_new [OF h])
      show "keeps {} (net d5) (net (d5\<lparr>net := n6\<rparr>))" by (simp add: n keeps_send_new [OF h])
      show "net_wf (\<lambda>_. 0) (net (d5\<lparr>net := n6\<rparr>))"
        using send_new_ok(1) [OF _ c5 6 [unfolded ubusd_send_hello_def]] daemon_wfD(1) [OF invD(1) [OF i5]]
        by (simp add: d5_def)
    qed
    have i6: "daemon_inv E (d5\<lparr>net := n6\<rparr>)" by (rule inv_step [OF i5 s6]) (simp add: not_pending_def)
    show ?thesis
    proof (cases ok6)
      case True
      then have "d' = d5\<lparr>net := n6\<rparr>"
        using r 1 2 3 4 6 entered by (auto simp: ubusd_proto_new_client_def n5_def d5_def)
      with i6 show ?thesis by simp
    next
      case False
      then have "clients n6 = clients n5" "monitors n6 = monitors n5"
        using 6 by (auto simp: ubusd_send_hello_def send_new_def ubus_msg_from_blob_def ubus_msg_new_def calloc_def Let_def
            split: if_splits)
      moreover have "d' = d\<lparr>net := ubus_msg_free a (drop_client cl n6)\<rparr>"
        using r 1 2 3 4 6 entered False
        by (simp add: ubusd_proto_new_client_def n5_def drop_client_free [symmetric]) (simp add: drop_client_def)
      ultimately show ?thesis
        using hello_fail_inv [OF i q(1) i5 cl, of n6 fd a cr] daemon_wfD(1) [OF invD(1) [OF i6]] invD(3) [OF i6]
        by (simp add: n5_def)
    qed
  qed
qed

lemma close_inv:
  assumes "daemon_inv E d"
  shows "daemon_inv E (on_net (close_fd fd) d)"
proof -
  have "step_ok (\<lambda>_. 0) {} d (on_net (close_fd fd) d)"
    by (rule step_ok_on_net [OF invD(1) [OF assms]]) (use daemon_wfD(1) [OF invD(1) [OF assms]] in simp_all)
  from inv_step [OF assms this] show ?thesis by (simp add: not_pending_def)
qed

lemma server_cb_ok: "daemon_inv E d \<Longrightarrow> daemon_inv E (server_cb E as d)"
proof (induction E as d rule: server_cb.induct)
  case (2 E a as d)
  obtain nx d1 where g: "get_next_connection E a d = (nx, d1)" by fastforce
  have "daemon_inv E d1"
    using g 2(2) new_client_ok [OF 2(2)] close_inv
    by (auto simp: get_next_connection_def split: accept_res.splits prod.splits option.splits)
  with 2(1) [OF g [symmetric]] g show ?case by auto
qed simp

section \<open>A callback of a client\<close>

lemma client_flag_inv:
  assumes i: "daemon_inv E d" and c: "clients (net d) cl = Some c"
    and f: "cl_objects (f c) = cl_objects c" "cl_rx (f c) = cl_rx c" "cl_retmsg (f c) = cl_retmsg c"
      "\<And>a. client_refs (f c) a = client_refs c a"
  shows "daemon_inv E (on_net (upd_client cl f) d)"
proof -
  have "net_wf (\<lambda>_. 0) (upd_client cl f (net d))"
    by (rule net_wf_upd_client [OF daemon_wfD(1) [OF invD(1) [OF i]] c]) (use f in simp_all)
  note s = step_client [OF invD(1) [OF i] c f(1,2) this, of "{}"]
  show ?thesis by (rule inv_step [OF i s]) (simp add: not_pending_def)
qed

lemma tx_flush_inv:
  assumes i: "daemon_inv E d" and c: "clients (net d) cl = Some c" and r: "tx_flush E cl (net d) = Some (ok, n)"
  shows "daemon_inv E (d\<lparr>net := n\<rparr>)" and "cl \<in> dom (clients n)"
proof -
  let ?S = "set (cl_tx_queue c)"
  note w = daemon_wfD(1) [OF invD(1) [OF i]]
  have k: "net_wf (\<lambda>_. 0) n" "core n = core (net d)" "keeps ?S (net d) n"
    using tx_flush_kept [OF r, of "\<lambda>_. 0"] w c by (auto simp: tx_kept_def)
  have s: "step_ok (\<lambda>_. 0) ?S d (d\<lparr>net := n\<rparr>)"
    by (rule step_ok_net [OF invD(1) [OF i] reg_set_net [OF k(2)]]) (use k in simp_all)
  have "not_pending (net d) ?S" using not_pendingI(3) [OF invD(3) [OF i] w c] by (simp add: not_pending_Un)
  with inv_step [OF i s] show "daemon_inv E (d\<lparr>net := n\<rparr>)" by blast
  show "cl \<in> dom (clients n)" using step_ok_dom [OF s] c by auto
qed

lemma tx_done_inv:
  assumes i: "daemon_inv E d" and c: "cl \<in> dom (clients (net d))"
  shows "daemon_inv E (tx_done E w cl d)" and "cl \<in> dom (clients (net (tx_done E w cl d)))"
proof -
  let ?d = "ubus_client_cmd_queue_process E cl d"
  let ?f = "\<lambda>c :: ubus_client. c\<lparr>cl_write_ev := (cl_write_ev c \<and> cl_tx_queue c \<noteq> [])\<rparr>"
  obtain c1 where i1: "daemon_inv E ?d" and c1: "clients (net ?d) cl = Some c1"
    using inv_cmd_queue_process [OF assms] by blast
  have "daemon_inv E (on_net (upd_client cl ?f) ?d)"
    by (rule client_flag_inv [OF i1 c1]) (simp_all add: cl_rx_def client_refs_def)
  moreover have "cl \<in> dom (clients (net (on_net (upd_client cl ?f) ?d)))" using c1 by (auto simp: clients_upd_same)
  ultimately show "daemon_inv E (tx_done E w cl d)" and "cl \<in> dom (clients (net (tx_done E w cl d)))"
    using assms by (auto simp: tx_done_def Let_def)
qed

lemma client_cb_ok:
  assumes lib: "lib_ok E" and i: "daemon_inv E d" and cl: "cl \<in> dom (clients (net d))"
    and r: "client_cb E ev cl passes d = Some d'"
  shows "daemon_inv E d'"
proof -
  obtain c where c: "clients (net d) cl = Some c" using cl by auto
  let ?f = "\<lambda>c :: ubus_client. c\<lparr>cl_eof := cl_eof c \<or> ce_eof ev\<rparr>"
  let ?d = "on_net (upd_client cl ?f) d"
  have i1: "daemon_inv E ?d" by (rule client_flag_inv [OF i c]) (simp_all add: cl_rx_def client_refs_def)
  have c1: "clients (net ?d) cl = Some (?f c)" using c by (simp add: clients_upd_same)
  obtain ok n where t: "tx_flush E cl (net ?d) = Some (ok, n)"
    and d': "d' = (if ok then rx_loop E cl passes (tx_done E (ce_write ev) cl (d\<lparr>net := n\<rparr>))
                   else handle_client_disconnect E cl (d\<lparr>net := n\<rparr>))"
    using r by (auto simp: client_cb_def Let_def split: option.splits bool.splits)
  have i2: "daemon_inv E (d\<lparr>net := n\<rparr>)" and c2: "cl \<in> dom (clients (net (d\<lparr>net := n\<rparr>)))"
    using tx_flush_inv [OF i1 c1 t] by (simp_all add: on_net_def)
  show ?thesis
  proof (cases ok)
    case True
    with d' rx_loop_ok [OF lib tx_done_inv [OF i2 c2]] show ?thesis by simp
  next
    case False
    obtain c' where "clients (net (d\<lparr>net := n\<rparr>)) cl = Some c'" using c2 by auto
    with d' False disconnect_ok(1) [OF i2 _ refl] show ?thesis by auto
  qed
qed

section \<open>Start and reachable states\<close>

lemma acl_load_inv:
  assumes lib: "lib_ok E" and i: "daemon_inv E d"
  shows "daemon_inv E (ubusd_acl_load E gl d)"
proof -
  let ?d = "ubusd_acl_load E gl d"
  note l = acl_load_ok [OF lib invD(2,1) [OF i], where gl = gl]
  have "r_client (reg ?d) = r_client (reg d)"
  proof (cases gl)
    case (Some es)
    have law: "avl_law E" "vlist_law E" using lib by (simp_all add: lib_ok_def)
    let ?r = "acl_reload E es d"
    have "r_client (reg ?r) = r_client (reg d)"
      unfolding acl_frame_fields(1) [OF acl_reload_ok(2) [OF law invD(2) [OF i], of es]] by (simp del: reg_sel)
    moreover have "reg ?d = reg ?r" using Some by (simp add: ubusd_acl_load_def Let_def)
    ultimately show ?thesis by simp
  qed (simp add: ubusd_acl_load_def)
  then have same: "rx_same (net d) (net ?d)" by (rule rx_same_reg)
  have np: "not_pending (net d) {}" by (simp add: not_pending_def)
  have "rx_inv E (net ?d)"
    unfolding rx_inv_def
  proof (intro allI impI)
    fix i' c' assume c': "clients (net ?d) i' = Some c'"
    show "rx_ok E (bufs (net ?d)) c'"
    proof (rule rx_inv_frame [OF invD(3) [OF i] daemon_wfD(1) [OF invD(1) [OF i]] np l(4) _ UNIV_I c'])
      fix j x assume "clients (net ?d) j = Some x"
      with same show "\<exists>c. clients (net d) j = Some c \<and> cl_rx x = cl_rx c"
        unfolding rx_same_def by (metis (no_types, lifting) map_option_eq_Some option.simps(9))
    qed
  qed
  with l show ?thesis by (simp add: daemon_inv_def)
qed

lemma init_internal_ok:
  assumes wf: "daemon_wf H d"
  shows "daemon_wf H (init_internal E ident h d)" and "acl_wf d \<Longrightarrow> acl_wf (init_internal E ident h d)"
    and "r_client (reg (init_internal E ident h d)) = r_client (reg d)"
    and "r_acls (reg (init_internal E ident h d)) = r_acls (reg d)"
proof -
  obtain x d1 where c: "ubusd_create_object_internal E None ident d = (x, d1)" by fastforce
  have st: "st_wf H (\<lambda>_. 0) d" and sv: "served_ok (reg d)" using wf by (simp_all add: daemon_st_wf)
  note k = create_object_internal_ok [OF st _ c, simplified]
  let ?d = "init_internal E ident h d"
  have "daemon_wf H ?d \<and> (acl_wf d \<longrightarrow> acl_wf ?d) \<and> r_client (reg ?d) = r_client (reg d) \<and>
    r_acls (reg ?d) = r_acls (reg d)"
  proof (cases x)
    case None
    then have e: "?d = d1" and r: "reg d1 = reg d" using c k(2) by (simp_all add: init_internal_def)
    have "acl_wf d \<Longrightarrow> acl_wf d1" by (erule acl_wf_reg) (simp_all only: r order_refl)
    with e r k(1) sv show ?thesis by (simp add: daemon_st_wf del: reg_sel)
  next
    case (Some oid)
    then have r1: "reg d1 = r_create oid None (reg d)" and fresh: "oid \<notin> r_objs (reg d)" using k(2) by simp_all
    have "oid \<in> r_objs (reg d1)" unfolding r1 by (simp add: r_create_def)
    then obtain ob where ob: "objects d1 oid = Some ob" by auto
    have e: "?d = d1\<lparr>objects := (objects d1)(oid \<mapsto> ob\<lparr>obj_recv_msg := Some h\<rparr>)\<rparr>"
      using c Some ob by (simp add: init_internal_def upd_obj_def)
    have r: "reg ?d = (reg d1)\<lparr>r_recv := (r_recv (reg d1))(oid := Some h)\<rparr>"
      unfolding e using ob by (auto simp: reg_def obj_field_def fun_eq_iff)
    have "reg_wf (\<lambda>_. 0) (reg ?d)" unfolding r using reg_wfD [OF st_wfD(2) [OF k(1)]]
      unfolding reg_wf_def by (auto simp del: reg_sel elim!: reg_wf_congs)
    moreover have "served_ok (reg ?d)" unfolding r r1
      using sv owners_okD(5) [OF reg_wfD(1) [OF st_wfD(2) [OF st]] fresh]
      by (auto simp: served_ok_def r_create_def simp del: reg_sel)
    moreover have "net_wf H (net ?d)" unfolding e using st_wfD(1) [OF k(1)] by simp
    moreover have "acl_wf d \<Longrightarrow> acl_wf ?d" by (erule acl_wf_reg) (simp_all add: r r1 r_create_def del: reg_sel)
    moreover have "r_client (reg ?d) = r_client (reg d)" "r_acls (reg ?d) = r_acls (reg d)" by (simp_all add: r r1 r_create_def del: reg_sel)
    ultimately show ?thesis by (simp add: daemon_wf_def del: reg_sel)
  qed
  then show "daemon_wf H ?d" and "acl_wf d \<Longrightarrow> acl_wf ?d" and "r_client (reg ?d) = r_client (reg d)"
    and "r_acls (reg ?d) = r_acls (reg d)" by blast+
qed

lemma daemon0_ok: "daemon_wf (\<lambda>_. 0) (daemon0 r)" "acl_wf (daemon0 r)" "clients (net (daemon0 r)) = Map.empty"
  by (simp_all add: daemon_wf_def net_wf_def buf_ok_def refs_def ret_refs_def msum_def daemon0_def net0_def
      reg_wf_def owners_ok_def unowned_ok_def types_ok_def type_refs_def path_ok_def subs_ok_def events_ok_def
      clients_ok_def served_ok_def obj_field_def cl_field_def acl_wf_def acl_owned_def acl_addrs_def)

lemma obj_init_ok:
  "daemon_wf (\<lambda>_. 0) (ubusd_obj_init E (daemon0 r)) \<and> acl_wf (ubusd_obj_init E (daemon0 r)) \<and>
   clients (net (ubusd_obj_init E (daemon0 r))) = Map.empty"
proof -
  define d1 where "d1 = init_internal E UBUS_SYSTEM_OBJECT_EVENT Event_recv (daemon0 r)"
  define d2 where "d2 = init_internal E UBUS_SYSTEM_OBJECT_ACL Acl_recv d1"
  define d3 where "d3 = init_internal E UBUS_SYSTEM_OBJECT_MONITOR Monitor_recv d2"
  note 1 = init_internal_ok [OF daemon0_ok(1) [of r], where E = E and ident = UBUS_SYSTEM_OBJECT_EVENT and h = Event_recv, folded d1_def]
  note 2 = init_internal_ok [OF 1(1), where E = E and ident = UBUS_SYSTEM_OBJECT_ACL and h = Acl_recv, folded d2_def]
  note 3 = init_internal_ok [OF 2(1), where E = E and ident = UBUS_SYSTEM_OBJECT_MONITOR and h = Monitor_recv, folded d3_def]
  have "ubusd_acls d1 = []" using 1(4) by (simp add: daemon0_def)
  then have "d1\<lparr>ubusd_acls := []\<rparr> = d1" by (cases d1) simp
  then have "ubusd_acl_init E d1 = d2" by (simp add: ubusd_acl_init_def d2_def)
  moreover have "ubusd_event_init E (daemon0 r) = d1" by (simp add: ubusd_event_init_def d1_def daemon0_def)
  moreover have "(daemon0 r)\<lparr>objects := Map.empty, obj_types := Map.empty, path := []\<rparr> = daemon0 r" by (simp add: daemon0_def)
  ultimately have e: "ubusd_obj_init E (daemon0 r) = d3"
    by (simp only: ubusd_obj_init_def ubusd_monitor_init_def d3_def)
  have "r_client (reg d3) = (\<lambda>_. None)"
    unfolding 3(3) 2(3) 1(3) by (simp add: daemon0_ok(3))
  then have "clients (net d3) = Map.empty" by (simp add: fun_eq_iff)
  with e 3(1,2) 2(2) 1(2) daemon0_ok(2) show ?thesis by simp
qed

lemma start_inv: "lib_ok E \<Longrightarrow> daemon_inv E (ubusd_start E r gl)"
  unfolding ubusd_start_def
  by (rule acl_load_inv) (use obj_init_ok [of E r] in \<open>auto simp: daemon_inv_def rx_inv_def\<close>)

lemma step_inv: "ubusd_step E d d' \<Longrightarrow> lib_ok E \<Longrightarrow> daemon_inv E d \<Longrightarrow> daemon_inv E d'"
  by (induction rule: ubusd_step.induct)
    (auto simp: sighup_fd_cb_def intro: server_cb_ok acl_load_inv client_cb_ok)

lemma reach_inv: "ubusd_reach E d \<Longrightarrow> lib_ok E \<Longrightarrow> daemon_inv E d"
  by (induction rule: ubusd_reach.induct) (auto intro: start_inv step_inv)

end
