(* ===== verification/Ubusd_Stream.thy ===== *)
theory Ubusd_Stream
  imports Ubusd_Reach
begin

text \<open>
  The byte stream of a client. \<open>stream\<close> is what is on the wire followed by what the transmit queue
  still owes: sending appends one whole message or nothing (or marks the client as broken), and
  flushing the queue does not change it. With a \<open>sendmsg\<close> that makes progress the flush returns.
\<close>

section \<open>Definitions\<close>

definition msg_image :: "env \<Rightarrow> ubus_msg_buf \<Rightarrow> u8 list" where
  "msg_image E b = hdr_bytes (ub_hdr b) @ take (ub_len b) (blob_image E (ub_data b))"

definition queue_bytes :: "env \<Rightarrow> net \<Rightarrow> addr list \<Rightarrow> u8 list" where
  "queue_bytes E n q = concat (map (\<lambda>a. case bufs n a of None \<Rightarrow> [] | Some b \<Rightarrow> msg_image E b) q)"

definition stream :: "env \<Rightarrow> u32 \<Rightarrow> net \<Rightarrow> u8 list" where
  "stream E cl n =
     wire n cl @ (case clients n cl of
                    None \<Rightarrow> [] | Some c \<Rightarrow> drop (cl_txq_ofs c) (queue_bytes E n (cl_tx_queue c)))"

text \<open>The length field of a buffer says how many bytes its data has.\<close>

definition len_ok :: "env \<Rightarrow> ubus_msg_buf \<Rightarrow> bool" where
  "len_ok E b \<longleftrightarrow> ub_len b = blob_raw_len E (ub_data b)"

definition tx_ready :: "env \<Rightarrow> u32 \<Rightarrow> net \<Rightarrow> bool" where
  "tx_ready E cl n \<longleftrightarrow>
     (case clients n cl of
        None \<Rightarrow> False
      | Some c \<Rightarrow>
          (\<forall>a\<in>set (cl_tx_queue c). case bufs n a of None \<Rightarrow> False | Some b \<Rightarrow> len_ok E b) \<and>
          (case cl_tx_queue c of
             [] \<Rightarrow> True
           | a # _ \<Rightarrow> (case bufs n a of None \<Rightarrow> False | Some b \<Rightarrow> cl_txq_ofs c < ub_len b + HDR_SIZE)))"

definition sendmsg_progress :: "env \<Rightarrow> bool" where
  "sendmsg_progress E \<longleftrightarrow> (\<forall>i n. 0 < n \<longrightarrow> sendmsg_res E i n \<noteq> Sent 0)"

section \<open>Writing\<close>

lemma iov_drop: "writev_iov E b ofs = drop ofs (msg_image E b)"
  by (simp add: writev_iov_def msg_image_def Let_def HDR_SIZE_def)

lemma length_image: "len_ok E b \<Longrightarrow> length (msg_image E b) = ub_len b + HDR_SIZE"
  by (simp add: len_ok_def blob_raw_len_def msg_image_def HDR_SIZE_def)

lemma writev_wire:
  assumes "ubus_msg_writev E cl ub ofs n = (r, n')" and "bufs n ub = Some b"
  shows "wire n' = (wire n)(cl := wire n cl @ take (send_written r) (drop ofs (msg_image E b)))"
    and "r = sendmsg_res E (n_sendmsg n) (length (msg_image E b) - ofs)"
  using assms by (auto simp: ubus_msg_writev_def Let_def iov_drop send_written_def split: send_res.splits)

lemma queue_bytes_simps [simp]:
  "queue_bytes E n [] = []"
  "queue_bytes E n (a # q) = (case bufs n a of None \<Rightarrow> [] | Some b \<Rightarrow> msg_image E b) @ queue_bytes E n q"
  "queue_bytes E n (q @ q') = queue_bytes E n q @ queue_bytes E n q'"
  by (simp_all add: queue_bytes_def)

lemma queue_bytes_cong:
  "(\<And>a. a \<in> set q \<Longrightarrow> map_option (msg_image E) (bufs n' a) = map_option (msg_image E) (bufs n a)) \<Longrightarrow>
   queue_bytes E n' q = queue_bytes E n q"
proof (induction q)
  case (Cons a q)
  from Cons.prems [of a] have "(case bufs n' a of None \<Rightarrow> [] | Some b \<Rightarrow> msg_image E b) =
    (case bufs n a of None \<Rightarrow> [] | Some b \<Rightarrow> msg_image E b)" by (cases "bufs n' a"; cases "bufs n a") auto
  with Cons show ?case by simp
qed simp

lemma image_refcount [simp]:
  "msg_image E (b\<lparr>ub_refcount := r\<rparr>) = msg_image E b" "len_ok E (b\<lparr>ub_refcount := r\<rparr>) = len_ok E b"
  "msg_image E (b\<lparr>ub_fd := f\<rparr>) = msg_image E b" "len_ok E (b\<lparr>ub_fd := f\<rparr>) = len_ok E b"
  by (simp_all add: msg_image_def len_ok_def)

section \<open>Flushing the queue\<close>

text \<open>A buffer that leaves the queue is not freed while the rest of the queue still has it.\<close>

lemma free_keeps_queue:
  assumes wf: "net_wf H n" and c: "clients n cl = Some c" and q: "cl_tx_queue c = ub # q" and a: "a \<in> set q"
    and n': "n' = ubus_msg_free ub n'' " and b'': "bufs n'' = bufs n"
  shows "(\<exists>b. bufs n a = Some b) \<and> (\<forall>b. bufs n a = Some b \<longrightarrow>
    (\<exists>b'. bufs n' a = Some b' \<and> msg_image E b' = msg_image E b \<and> (len_ok E b' \<longleftrightarrow> len_ok E b) \<and> ub_len b' = ub_len b))"
proof (cases "a = ub")
  case False
  obtain b where "bufs n a = Some b" by (rule live_tx [OF wf c, of a]) (use a q in auto)
  with False b'' show ?thesis unfolding n' by (auto simp: bufs_frame_free)
next
  case True
  obtain b where b: "bufs n ub = Some b" "ub_refcount b \<noteq> USES_EXTERNAL_BUFFER"
    by (rule live_tx [OF wf c, of ub]) (use q in auto)
  have "2 \<le> count_list (ub # q) ub" using a True count_list_0_iff [of q ub] by (cases "count_list q ub") auto
  then have "2 \<le> client_refs c ub" by (simp add: client_refs_def q)
  with client_refs_le [OF net_wfD(2) [OF wf] c, of ub] have r: "2 \<le> refs (clients n) ub" by simp
  have "unat (ub_refcount b) = refs (clients n) ub + H ub"
    using net_wfD(3) [OF wf, of ub] b by (simp add: buf_ok_def)
  with r have "ub_refcount b \<noteq> 1" by auto
  with b b'' True show ?thesis by (auto simp: n' ubus_msg_free_def upd_buf_def)
qed

lemma stream_advance:
  assumes w: "ubus_msg_writev E cl ub (cl_txq_ofs c) n = (Sent m, n1)" and law: "sendmsg_law E"
    and c: "clients n cl = Some c" and q: "cl_tx_queue c = ub # q" and b: "bufs n ub = Some b" and len: "len_ok E b"
    and ofs: "cl_txq_ofs c < ub_len b + HDR_SIZE"
    and n2: "n2 = upd_client cl (\<lambda>c'. c'\<lparr>cl_txq_ofs := cl_txq_ofs c + m, cl_txq_len := cl_txq_len c' - int m\<rparr>) n1"
  shows "stream E cl n2 = stream E cl n" and "cl_txq_ofs c + m \<le> ub_len b + HDR_SIZE"
    and "bufs n2 = bufs n" and "wire n2 = (wire n)(cl := wire n cl @ take m (drop (cl_txq_ofs c) (msg_image E b)))"
    and "i \<noteq> cl \<Longrightarrow> clients n2 i = clients n i" and "sendmsg_progress E \<Longrightarrow> 0 < m"
proof -
  note ww = writev_wire [OF w b] and bw = bufs_writev [OF w]
  let ?L = "ub_len b + HDR_SIZE"
  have l: "length (msg_image E b) = ?L" by (rule length_image [OF len])
  have res: "sendmsg_res E (n_sendmsg n) (?L - cl_txq_ofs c) = Sent m" using ww(2) l by simp
  with law have m: "m \<le> ?L - cl_txq_ofs c" unfolding sendmsg_law_def by blast
  show "cl_txq_ofs c + m \<le> ?L" using m ofs by simp
  show "sendmsg_progress E \<Longrightarrow> 0 < m" using res ofs unfolding sendmsg_progress_def by (metis gr0I zero_less_diff)
  have c2: "clients n2 cl = Some (c\<lparr>cl_txq_ofs := cl_txq_ofs c + m, cl_txq_len := cl_txq_len c - int m\<rparr>)"
    using c bw by (simp add: n2 clients_upd_same)
  show b2: "bufs n2 = bufs n" using bw by (simp add: n2)
  show w2: "wire n2 = (wire n)(cl := wire n cl @ take m (drop (cl_txq_ofs c) (msg_image E b)))"
    using ww(1) c bw by (simp add: n2 upd_client_def send_written_def)
  show "i \<noteq> cl \<Longrightarrow> clients n2 i = clients n i" using c bw by (simp add: n2 upd_client_def)
  have "queue_bytes E n2 (ub # q) = queue_bytes E n (ub # q)" by (rule queue_bytes_cong) (simp add: b2)
  moreover have "take m (drop (cl_txq_ofs c) (msg_image E b)) @ drop (cl_txq_ofs c + m) (msg_image E b @ r) =
    drop (cl_txq_ofs c) (msg_image E b @ r)" for r
    using m ofs l append_take_drop_id [of m "drop (cl_txq_ofs c) (msg_image E b)"]
    by (simp add: add.commute)
  ultimately show "stream E cl n2 = stream E cl n" using c c2 q b w2 by (simp add: stream_def)
qed

lemma stream_finish:
  assumes wf: "net_wf H n" and c: "clients n cl = Some c" and q: "cl_tx_queue c = ub # q"
    and b: "bufs n ub = Some b" "len_ok E b" and ofs: "cl_txq_ofs c = ub_len b + HDR_SIZE"
    and rest: "\<forall>a\<in>set q. case bufs n a of None \<Rightarrow> False | Some b \<Rightarrow> len_ok E b"
    and n': "n' = ubus_msg_list_free cl ub (upd_client cl (\<lambda>c. c\<lparr>cl_txq_ofs := 0\<rparr>) n)"
  shows "stream E cl n' = stream E cl n" and "tx_ready E cl n'"
    and "clients n' cl = Some (c\<lparr>cl_txq_ofs := 0, cl_tx_queue := q\<rparr>)" and "wire n' = wire n"
    and "i \<noteq> cl \<Longrightarrow> clients n' i = clients n i"
proof -
  define n1 where "n1 = upd_client cl (\<lambda>c. c\<lparr>cl_tx_queue := remove1 ub (cl_tx_queue c)\<rparr>) (upd_client cl (\<lambda>c. c\<lparr>cl_txq_ofs := 0\<rparr>) n)"
  have e: "n' = ubus_msg_free ub n1" by (simp add: n' n1_def ubus_msg_list_free_def)
  have b1: "bufs n1 = bufs n" by (simp add: n1_def)
  note k = free_keeps_queue [OF wf c q _ e b1, where E = E]
  show cl': "clients n' cl = Some (c\<lparr>cl_txq_ofs := 0, cl_tx_queue := q\<rparr>)"
    by (rule tx_finish_ok(4) [OF wf c q _ n', of "{ub}"]) simp
  show w: "wire n' = wire n"
    by (simp add: e n1_def ubus_msg_free_def upd_client_def upd_buf_def close_fd_def Let_def set_fault_def split: option.splits)
  show "i \<noteq> cl \<Longrightarrow> clients n' i = clients n i" using c by (simp add: e n1_def upd_client_def)
  have "queue_bytes E n' q = queue_bytes E n q"
    by (rule queue_bytes_cong) (use k in fastforce)
  with cl' w c q b ofs length_image [OF b(2)] show "stream E cl n' = stream E cl n" by (simp add: stream_def)
  have "\<forall>a\<in>set q. case bufs n' a of None \<Rightarrow> False | Some b \<Rightarrow> len_ok E b"
    using k rest by (auto split: option.splits) (metis option.inject)+
  moreover have "case q of [] \<Rightarrow> True | a # _ \<Rightarrow> (case bufs n' a of None \<Rightarrow> False | Some b \<Rightarrow> 0 < ub_len b + HDR_SIZE)"
    using calculation by (auto simp: HDR_SIZE_def split: list.splits option.splits)
  ultimately show "tx_ready E cl n'" using cl' by (auto simp: tx_ready_def split: list.splits option.splits)
qed

text \<open>What a flush does to the stream of its client, and to the others.\<close>

definition flushed :: "env \<Rightarrow> u32 \<Rightarrow> net \<Rightarrow> net \<Rightarrow> bool" where
  "flushed E cl n n' \<longleftrightarrow>
     tx_ready E cl n' \<and> stream E cl n' = stream E cl n \<and>
     (\<forall>i. i \<noteq> cl \<longrightarrow> wire n' i = wire n i \<and> clients n' i = clients n i)"

lemma flushed_trans: "flushed E cl n n' \<Longrightarrow> flushed E cl n' n'' \<Longrightarrow> flushed E cl n n''"
  by (simp add: flushed_def)

text \<open>One successful \<open>sendmsg\<close> of the flush loop and what follows it.\<close>

lemma flush_step:
  assumes law: "sendmsg_law E" and wf: "net_wf H n" and rdy: "tx_ready E cl n"
    and c: "clients n cl = Some c" and q: "cl_tx_queue c = ub # q" and b: "bufs n ub = Some b"
    and w: "ubus_msg_writev E cl ub (cl_txq_ofs c) n = (Sent m, n1)"
    and n2: "n2 = upd_client cl (\<lambda>c'. c'\<lparr>cl_txq_ofs := cl_txq_ofs c + m, cl_txq_len := cl_txq_len c' - int m\<rparr>) n1"
    and n3: "n3 = ubus_msg_list_free cl ub (upd_client cl (\<lambda>c. c\<lparr>cl_txq_ofs := 0\<rparr>) n2)"
    and nx: "nx = (if cl_txq_ofs c + m < ub_len b + HDR_SIZE then n2 else n3)"
  shows "net_wf H nx" and "flushed E cl n nx"
    and "\<exists>c'. clients nx cl = Some c' \<and> (sendmsg_progress E \<longrightarrow>
      length (cl_tx_queue c') + length (drop (cl_txq_ofs c') (queue_bytes E nx (cl_tx_queue c'))) <
      length (cl_tx_queue c) + length (drop (cl_txq_ofs c) (queue_bytes E n (cl_tx_queue c))))"
proof -
  have len: "len_ok E b" and rest: "\<forall>a\<in>set q. case bufs n a of None \<Rightarrow> False | Some b \<Rightarrow> len_ok E b"
    and ofs: "cl_txq_ofs c < ub_len b + HDR_SIZE"
    using rdy c q b by (auto simp: tx_ready_def)
  note a = stream_advance [OF w law c q b len ofs n2]
  have cl1: "clients n1 cl = Some c" using bufs_writev [OF w] c by simp
  note ta = tx_advance_ok [OF net_wf_writev [OF wf b w] cl1 n2]
  let ?c2 = "c\<lparr>cl_txq_ofs := cl_txq_ofs c + m, cl_txq_len := cl_txq_len c - int m\<rparr>"
  have b2: "bufs n2 ub = Some b" and q2: "cl_tx_queue ?c2 = ub # q" using a(3) b q by simp_all
  have l: "length (msg_image E b) = ub_len b + HDR_SIZE" by (rule length_image [OF len])
  have "net_wf H nx \<and> flushed E cl n nx \<and> (\<exists>c'. clients nx cl = Some c' \<and> (sendmsg_progress E \<longrightarrow>
      length (cl_tx_queue c') + length (drop (cl_txq_ofs c') (queue_bytes E nx (cl_tx_queue c'))) <
      length (cl_tx_queue c) + length (drop (cl_txq_ofs c) (queue_bytes E n (cl_tx_queue c)))))"
  proof (cases "cl_txq_ofs c + m < ub_len b + HDR_SIZE")
    case True
    then have nx2: "nx = n2" using nx by simp
    have "tx_ready E cl n2" using True ta(4) q len rest b2 a(3) by (simp add: tx_ready_def)
    then have "flushed E cl n n2" using a(1,4,5) by (simp add: flushed_def)
    moreover have "queue_bytes E n2 (ub # q) = queue_bytes E n (ub # q)" by (rule queue_bytes_cong) (simp add: a(3))
    ultimately show ?thesis using nx2 ta(1,4) a(6) q b b2 l True by auto
  next
    case False
    then have nx3: "nx = n3" and full: "cl_txq_ofs ?c2 = ub_len b + HDR_SIZE" using nx a(2) by simp_all
    have rest2: "\<forall>a\<in>set q. case bufs n2 a of None \<Rightarrow> False | Some b \<Rightarrow> len_ok E b" using rest a(3) by simp
    note g = stream_finish [OF ta(1,4) q2 b2 len full rest2 n3]
    have "net_wf H n3" by (rule tx_finish_ok(1) [OF ta(1,4) q2 _ n3, of "{ub}"]) simp
    moreover have "flushed E cl n n3" using g a(1,4,5) by (simp add: flushed_def)
    moreover have "queue_bytes E n3 q = queue_bytes E n q"
    proof -
      have "stream E cl n3 = wire n3 cl @ queue_bytes E n3 q" using g(3) by (simp add: stream_def)
      moreover have "stream E cl n2 = wire n3 cl @ queue_bytes E n2 q"
        using ta(4) q2 b2 full l g(4) by (simp add: stream_def)
      moreover have "queue_bytes E n2 q = queue_bytes E n q" by (rule queue_bytes_cong) (simp add: a(3))
      ultimately show ?thesis using g(1) by simp
    qed
    ultimately show ?thesis using nx3 g(3) q b l ofs by auto
  qed
  then show "net_wf H nx" and "flushed E cl n nx"
    and "\<exists>c'. clients nx cl = Some c' \<and> (sendmsg_progress E \<longrightarrow>
      length (cl_tx_queue c') + length (drop (cl_txq_ofs c') (queue_bytes E nx (cl_tx_queue c'))) <
      length (cl_tx_queue c) + length (drop (cl_txq_ofs c) (queue_bytes E n (cl_tx_queue c))))" by blast+
qed

lemma flushed_unsent:
  assumes "ubus_msg_writev E cl ub ofs n = (r, n')" and "bufs n ub = Some b" and "send_written r = 0" and "tx_ready E cl n"
  shows "flushed E cl n n'"
proof -
  note w = writev_wire(1) [OF assms(1,2)] and bw = bufs_writev [OF assms(1)]
  have eqs: "bufs n' = bufs n" "clients n' = clients n" using bw by simp_all
  have "tx_ready E cl n'" using assms(4) by (simp only: tx_ready_def eqs)
  moreover have "queue_bytes E n' q = queue_bytes E n q" for q by (rule queue_bytes_cong) (simp add: bw)
  ultimately show ?thesis using w bw assms(3) by (simp add: flushed_def stream_def split: option.splits)
qed

lemma tx_ready_head:
  assumes "tx_ready E cl n"
  obtains c where "clients n cl = Some c" and "cl_tx_queue c = []"
  | c ub q b where "clients n cl = Some c" and "cl_tx_queue c = ub # q" and "bufs n ub = Some b"
  using assms by (auto simp: tx_ready_def split: option.splits list.splits)

lemma tx_flush_flushed:
  assumes r: "tx_flush E cl n = Some r" and "sendmsg_law E" and "net_wf H n" and "tx_ready E cl n"
  shows "flushed E cl n (snd r)"
proof -
  have "sendmsg_law E \<longrightarrow> net_wf H n \<longrightarrow> tx_ready E cl n \<longrightarrow> flushed E cl n (snd r)"
  proof (rule tx_flush.raw_induct [where P = "\<lambda>E cl n r. sendmsg_law E \<longrightarrow> net_wf H n \<longrightarrow> tx_ready E cl n \<longrightarrow>
      flushed E cl n (snd r)", OF _ r], intro impI)
    fix f E cl n r
    assume IH: "\<And>E cl n r. f E cl n = Some r \<Longrightarrow> sendmsg_law E \<longrightarrow> net_wf H n \<longrightarrow> tx_ready E cl n \<longrightarrow> flushed E cl n (snd r)"
      and r: "(case clients n cl of
        None \<Rightarrow> Some (True, set_fault n)
      | Some c \<Rightarrow>
          (case cl_tx_queue c of
             [] \<Rightarrow> Some (True, n)
           | ub # _ \<Rightarrow>
               (case bufs n ub of
                  None \<Rightarrow> Some (True, set_fault n)
                | Some b \<Rightarrow>
                    (case ubus_msg_writev E cl ub (cl_txq_ofs c) n of
                       (Send_again, n) \<Rightarrow> Some (True, n)
                     | (Send_fail, n) \<Rightarrow> Some (False, n)
                     | (Sent m, n) \<Rightarrow>
                         let ofs = cl_txq_ofs c + m;
                             n = upd_client cl (\<lambda>c. c\<lparr>cl_txq_ofs := ofs, cl_txq_len := cl_txq_len c - int m\<rparr>) n
                         in if ofs < ub_len b + HDR_SIZE then f E cl n
                            else f E cl
                                   (ubus_msg_list_free cl ub (upd_client cl (\<lambda>c. c\<lparr>cl_txq_ofs := 0\<rparr>) n)))))) = Some r"
      and law: "sendmsg_law E" and wf: "net_wf H n" and rdy: "tx_ready E cl n"
    from rdy show "flushed E cl n (snd r)"
    proof (cases rule: tx_ready_head)
      case (1 c)
      with r rdy show ?thesis by (auto simp: flushed_def)
    next
      case (2 c ub q b)
      note c = 2(1) and q = 2(2) and b = 2(3)
      obtain w n1 where w: "ubus_msg_writev E cl ub (cl_txq_ofs c) n = (w, n1)" by fastforce
      show ?thesis
      proof (cases w)
        case (Sent m)
        define n2 where "n2 = upd_client cl (\<lambda>c'. c'\<lparr>cl_txq_ofs := cl_txq_ofs c + m, cl_txq_len := cl_txq_len c' - int m\<rparr>) n1"
        define n3 where "n3 = ubus_msg_list_free cl ub (upd_client cl (\<lambda>c. c\<lparr>cl_txq_ofs := 0\<rparr>) n2)"
        let ?nx = "if cl_txq_ofs c + m < ub_len b + HDR_SIZE then n2 else n3"
        note s = flush_step [OF law wf rdy c q b w [unfolded Sent] n2_def n3_def refl]
        from r have "f E cl ?nx = Some r" by (simp add: c q b w Sent Let_def n2_def n3_def split: if_splits)
        with IH [OF this] law s(1,2) flushed_trans [OF s(2)] show ?thesis by (simp add: flushed_def)
      qed (use r flushed_unsent [OF w b _ rdy] in \<open>auto simp: c q b w send_written_def\<close>)
    qed
  qed
  with assms show ?thesis by blast
qed

lemma tx_flush_returns:
  assumes "sendmsg_law E" and "sendmsg_progress E" and "net_wf H n" and "tx_ready E cl n"
  shows "\<exists>r. tx_flush E cl n = Some r"
proof -
  define M where "M n = (case clients n cl of None \<Rightarrow> 0
    | Some c \<Rightarrow> length (cl_tx_queue c) + length (drop (cl_txq_ofs c) (queue_bytes E n (cl_tx_queue c))))" for n
  show ?thesis
    using assms(3,4)
  proof (induction "M n" arbitrary: n rule: less_induct)
    case less
    from less.prems(2) show ?case
    proof (cases rule: tx_ready_head)
      case (1 c)
      then show ?thesis by (subst tx_flush.simps) auto
    next
      case (2 c ub q b)
      obtain w n1 where w: "ubus_msg_writev E cl ub (cl_txq_ofs c) n = (w, n1)" by fastforce
      show ?thesis
      proof (cases w)
        case (Sent m)
        define n2 where "n2 = upd_client cl (\<lambda>c'. c'\<lparr>cl_txq_ofs := cl_txq_ofs c + m, cl_txq_len := cl_txq_len c' - int m\<rparr>) n1"
        define n3 where "n3 = ubus_msg_list_free cl ub (upd_client cl (\<lambda>c. c\<lparr>cl_txq_ofs := 0\<rparr>) n2)"
        define nx where "nx = (if cl_txq_ofs c + m < ub_len b + HDR_SIZE then n2 else n3)"
        note s = flush_step [OF assms(1) less.prems 2 w [unfolded Sent] n2_def n3_def nx_def]
        have "M nx < M n" using s(3) assms(2) 2(1) by (auto simp: M_def)
        from less.hyps [OF this s(1)] s(2) have "\<exists>r. tx_flush E cl nx = Some r" by (simp add: flushed_def)
        moreover have "tx_flush E cl n = tx_flush E cl nx"
          using 2 w Sent by (subst tx_flush.simps) (simp add: Let_def n2_def n3_def nx_def)
        ultimately show ?thesis by simp
      qed (use 2 w in \<open>(subst tx_flush.simps, auto)+\<close>)
    qed
  qed
qed

section \<open>Sending\<close>

text \<open>Every live buffer keeps the bytes it stands for.\<close>

definition same_images :: "env \<Rightarrow> net \<Rightarrow> net \<Rightarrow> bool" where
  "same_images E n n' \<longleftrightarrow>
     (\<forall>a b. bufs n a = Some b \<longrightarrow>
        (\<exists>b'. bufs n' a = Some b' \<and> msg_image E b' = msg_image E b \<and> ub_data b' = ub_data b \<and> ub_len b' = ub_len b))"

lemma same_imagesI: "bufs n' = bufs n \<Longrightarrow> same_images E n n'"
  by (simp add: same_images_def)

lemma same_images_trans: "same_images E n n' \<Longrightarrow> same_images E n' n'' \<Longrightarrow> same_images E n n''"
  unfolding same_images_def by metis

lemma same_images_queue:
  assumes "same_images E n n'" and "\<forall>a\<in>set q. bufs n a \<noteq> None"
  shows "queue_bytes E n' q = queue_bytes E n q"
  by (rule queue_bytes_cong) (use assms in \<open>fastforce simp: same_images_def\<close>)

lemma same_images_len:
  assumes "same_images E n n'" and "case bufs n a of None \<Rightarrow> False | Some b \<Rightarrow> len_ok E b"
  shows "case bufs n' a of None \<Rightarrow> False | Some b \<Rightarrow> len_ok E b"
  using assms unfolding same_images_def len_ok_def by (metis (no_types, lifting) option.case_eq_if option.collapse option.sel option.simps(3))

lemma calloc_same: "calloc E n = (r, n') \<Longrightarrow> bufs n' = bufs n \<and> clients n' = clients n \<and> wire n' = wire n"
  by (auto simp: calloc_def)

lemma ref_images:
  assumes wf: "net_wf H n" and b: "bufs n ub = Some b" and r: "ubus_msg_ref E ub n = (x, n')"
  shows "same_images E n n'" and "clients n' = clients n" and "wire n' = wire n"
    and "x = Some m \<Longrightarrow> \<exists>mb. bufs n' m = Some mb \<and> msg_image E mb = msg_image E b \<and> ub_data mb = ub_data b \<and> ub_len mb = ub_len b"
proof -
  have "same_images E n n' \<and> clients n' = clients n \<and> wire n' = wire n \<and> (\<forall>m. x = Some m \<longrightarrow>
    (\<exists>mb. bufs n' m = Some mb \<and> msg_image E mb = msg_image E b \<and> ub_data mb = ub_data b \<and> ub_len mb = ub_len b))"
  proof (cases "ub_refcount b = USES_EXTERNAL_BUFFER")
    case False
    with r b show ?thesis by (auto simp: ubus_msg_ref_def upd_buf_def same_images_def)
  next
    case True
    obtain y n1 where new: "ubus_msg_new E (ub_data b) (ub_len b) False n = (y, n1)" by fastforce
    show ?thesis
    proof (cases y)
      case None
      with new have "bufs n1 = bufs n \<and> clients n1 = clients n \<and> wire n1 = wire n"
        by (auto simp: ubus_msg_new_def Let_def calloc_def split: if_splits)
      with r b True new None show ?thesis by (auto simp: ubus_msg_ref_def intro: same_imagesI)
    next
      case (Some nw)
      note e = ubus_msg_new_Some [OF new [unfolded Some]] and f = net_wf_msg_new(3) [OF wf new [unfolded Some]]
      have ne: "nw \<noteq> ub" using f b by auto
      have "n' = n1\<lparr>bufs := (bufs n1)(nw \<mapsto> \<lparr>ub_refcount = 1, ub_hdr = ub_hdr b, ub_data = ub_data b, ub_fd = ub_fd b, ub_len = ub_len b\<rparr>,
          ub \<mapsto> b\<lparr>ub_fd := - 1\<rparr>)\<rparr>" and "x = Some nw"
        using r b True new Some e ne by (auto simp: ubus_msg_ref_def upd_buf_def fun_upd_twist)
      with e f b ne show ?thesis by (auto simp: same_images_def msg_image_def)
    qed
  qed
  then show "same_images E n n'" and "clients n' = clients n" and "wire n' = wire n"
    and "x = Some m \<Longrightarrow> \<exists>mb. bufs n' m = Some mb \<and> msg_image E mb = msg_image E b \<and> ub_data mb = ub_data b \<and> ub_len mb = ub_len b"
    by blast+
qed

lemma enqueue_stream:
  assumes wf: "net_wf H n" and c: "clients n cl = Some c" and b: "bufs n ub = Some b" "len_ok E b"
    and live: "\<forall>a\<in>set (cl_tx_queue c). bufs n a \<noteq> None"
    and r: "ubus_msg_enqueue E cl ub n = (ok, n')"
  shows "same_images E n n'" and "wire n' = wire n" and "i \<noteq> cl \<Longrightarrow> clients n' i = clients n i"
    and "\<not> ok \<Longrightarrow> clients n' cl = Some c"
    and "ok \<Longrightarrow> \<exists>m mb. clients n' cl = Some (c\<lparr>cl_tx_queue := cl_tx_queue c @ [m], cl_txq_len := cl_txq_len c + int (ub_len b + HDR_SIZE)\<rparr>) \<and>
      bufs n' m = Some mb \<and> len_ok E mb \<and> ub_len mb = ub_len b \<and>
      queue_bytes E n' (cl_tx_queue c @ [m]) = queue_bytes E n (cl_tx_queue c) @ msg_image E b"
proof -
  obtain a n1 where ca: "calloc E n = (a, n1)" by fastforce
  note s1 = calloc_same [OF ca] and w1 = net_wf_calloc [OF wf ca]
  have b1: "bufs n1 ub = Some b" using b(1) s1 by simp
  obtain x n2 where rf: "ubus_msg_ref E ub n1 = (x, n2)" by fastforce
  note i2 = ref_images [OF w1 b1 rf]
  have i1: "same_images E n n1" using s1 by (simp add: same_imagesI)
  have i02: "same_images E n n2" by (rule same_images_trans [OF i1 i2(1)])
  consider (limit) "\<not> ok" "n' = n" | (oom) "\<not> ok" "n' = n1" | (noref) "\<not> ok" "n' = n2"
    | (ok) m where "ok" "x = Some m" "n' = upd_client cl (\<lambda>c. c\<lparr>cl_tx_queue := cl_tx_queue c @ [m],
        cl_txq_len := cl_txq_len c + int (ub_len b + HDR_SIZE)\<rparr>) n2"
    using r c b ca rf unfolding ubus_msg_enqueue_def
    by (cases a; cases x) (auto split: if_splits)
  then have "same_images E n n' \<and> wire n' = wire n \<and> (\<forall>i. i \<noteq> cl \<longrightarrow> clients n' i = clients n i) \<and>
    (\<not> ok \<longrightarrow> clients n' cl = Some c) \<and> (ok \<longrightarrow> (\<exists>m mb. clients n' cl = Some (c\<lparr>cl_tx_queue := cl_tx_queue c @ [m],
      cl_txq_len := cl_txq_len c + int (ub_len b + HDR_SIZE)\<rparr>) \<and> bufs n' m = Some mb \<and> len_ok E mb \<and> ub_len mb = ub_len b \<and>
      queue_bytes E n' (cl_tx_queue c @ [m]) = queue_bytes E n (cl_tx_queue c) @ msg_image E b))"
  proof cases
    case limit
    with c show ?thesis by (simp add: same_imagesI)
  next
    case oom
    with c i1 s1 show ?thesis by simp
  next
    case noref
    with c i02 i2 s1 show ?thesis by simp
  next
    case (ok m)
    obtain mb where mb: "bufs n2 m = Some mb" "msg_image E mb = msg_image E b" "ub_data mb = ub_data b" "ub_len mb = ub_len b"
      using i2(4) [OF ok(2)] by blast
    have c2: "clients n2 cl = Some c" using c i2(2) s1 by simp
    have e: "bufs n' = bufs n2" "wire n' = wire n" "clients n' = (clients n)(cl \<mapsto> c\<lparr>cl_tx_queue := cl_tx_queue c @ [m],
        cl_txq_len := cl_txq_len c + int (ub_len b + HDR_SIZE)\<rparr>)"
      using c2 i2 s1 by (simp_all add: ok(3) upd_client_def)
    have "queue_bytes E n' (cl_tx_queue c) = queue_bytes E n (cl_tx_queue c)"
      using same_images_queue [OF same_images_trans [OF i02 same_imagesI [OF e(1)]] live] .
    moreover have "same_images E n n'" by (rule same_images_trans [OF i02 same_imagesI [OF e(1)]])
    moreover have "len_ok E mb" using b(2) mb by (simp add: len_ok_def)
    ultimately show ?thesis using e mb ok(1) by (intro conjI impI exI [of _ m] exI [of _ mb]) simp_all
  qed
  then show "same_images E n n'" and "wire n' = wire n" and "i \<noteq> cl \<Longrightarrow> clients n' i = clients n i"
    and "\<not> ok \<Longrightarrow> clients n' cl = Some c"
    and "ok \<Longrightarrow> \<exists>m mb. clients n' cl = Some (c\<lparr>cl_tx_queue := cl_tx_queue c @ [m], cl_txq_len := cl_txq_len c + int (ub_len b + HDR_SIZE)\<rparr>) \<and>
      bufs n' m = Some mb \<and> len_ok E mb \<and> ub_len mb = ub_len b \<and>
      queue_bytes E n' (cl_tx_queue c @ [m]) = queue_bytes E n (cl_tx_queue c) @ msg_image E b"
    by blast+
qed

text \<open>
  The write of \<open>ubus_msg_send\<close>: the message is appended to the stream as a whole, or dropped as a
  whole, or it is cut off and the client is marked with \<open>eof\<close>.
\<close>

definition sent_whole :: "env \<Rightarrow> u32 \<Rightarrow> u8 list \<Rightarrow> net \<Rightarrow> net \<Rightarrow> bool" where
  "sent_whole E cl img n n' \<longleftrightarrow>
     tx_ready E cl n' \<and> (stream E cl n' = stream E cl n @ img \<or> stream E cl n' = stream E cl n) \<or>
     (case clients n' cl of None \<Rightarrow> False | Some c \<Rightarrow> cl_eof c)"

lemma tx_readyI:
  assumes "clients n cl = Some c" and "\<And>a. a \<in> set (cl_tx_queue c) \<Longrightarrow> case bufs n a of None \<Rightarrow> False | Some b \<Rightarrow> len_ok E b"
    and "\<And>a q. cl_tx_queue c = a # q \<Longrightarrow> \<exists>b. bufs n a = Some b \<and> cl_txq_ofs c < ub_len b + HDR_SIZE"
  shows "tx_ready E cl n"
  using assms by (fastforce simp: tx_ready_def split: list.splits option.splits)

lemma tx_ready_queue:
  assumes "tx_ready E cl n" and "clients n cl = Some c"
  shows "a \<in> set (cl_tx_queue c) \<Longrightarrow> case bufs n a of None \<Rightarrow> False | Some b \<Rightarrow> len_ok E b"
    and "\<forall>a\<in>set (cl_tx_queue c). bufs n a \<noteq> None"
  using assms by (auto simp: tx_ready_def split: option.splits)

lemma write_busy:
  assumes wf: "net_wf H n" and rdy: "tx_ready E cl n" and b: "bufs n ub = Some b" "len_ok E b"
    and c: "clients n cl = Some c" and q: "cl_tx_queue c = a # q" and r: "ubus_msg_enqueue E cl ub n = (ok, n')"
  shows "sent_whole E cl (msg_image E b) n n'"
proof -
  note lens = tx_ready_queue(1) [OF rdy c] and live = tx_ready_queue(2) [OF rdy c]
  note e = enqueue_stream [OF wf c b live r]
  obtain b0 where b0: "bufs n a = Some b0" "len_ok E b0" "cl_txq_ofs c < ub_len b0 + HDR_SIZE"
    using rdy c q by (auto simp: tx_ready_def split: option.splits)
  then have hd: "\<exists>b'. bufs n' a = Some b' \<and> cl_txq_ofs c < ub_len b' + HDR_SIZE"
    using e(1) unfolding same_images_def by metis
  have ofs: "cl_txq_ofs c \<le> length (queue_bytes E n (cl_tx_queue c))" using b0 q length_image [OF b0(2)] by simp
  show ?thesis
  proof (cases ok)
    case True
    obtain m mb where e': "clients n' cl = Some (c\<lparr>cl_tx_queue := cl_tx_queue c @ [m], cl_txq_len := cl_txq_len c + int (ub_len b + HDR_SIZE)\<rparr>)"
      "bufs n' m = Some mb" "len_ok E mb" "queue_bytes E n' (cl_tx_queue c @ [m]) = queue_bytes E n (cl_tx_queue c) @ msg_image E b"
      using e(5) [OF True] by blast
    have "tx_ready E cl n'"
      by (rule tx_readyI [OF e'(1)]) (use e'(2,3) hd q same_images_len [OF e(1) lens] in auto)
    moreover have "stream E cl n' = stream E cl n @ msg_image E b"
      using e'(1,4) e(2) c ofs by (simp add: stream_def)
    ultimately show ?thesis by (simp add: sent_whole_def)
  next
    case False
    have "tx_ready E cl n'"
      by (rule tx_readyI [OF e(4) [OF False]]) (use hd q same_images_len [OF e(1) lens] in auto)
    moreover have "stream E cl n' = stream E cl n"
      using e(2) e(4) [OF False] c same_images_queue [OF e(1) live] by (simp add: stream_def)
    ultimately show ?thesis by (simp add: sent_whole_def)
  qed
qed

text \<open>With an empty queue \<open>k\<close> bytes have been written, and the rest is queued.\<close>

lemma write_rest:
  assumes wf: "net_wf H n" and b: "bufs n ub = Some b" "len_ok E b" and k: "k < ub_len b + HDR_SIZE"
    and c: "clients n cl = Some c" and q: "cl_tx_queue c = []" "cl_txq_ofs c = k"
    and r: "ubus_msg_enqueue E cl ub n = (ok, n1)"
    and wire0: "wire n cl = wire0 @ take k (msg_image E b)"
    and n': "n' = (if ok then n1 else if 0 < k then upd_client cl (\<lambda>c. c\<lparr>cl_eof := True\<rparr>) n1 else n1)"
  shows "tx_ready E cl n' \<and> (stream E cl n' = wire0 @ msg_image E b \<or> stream E cl n' = wire0) \<or>
    (case clients n' cl of None \<Rightarrow> False | Some c \<Rightarrow> cl_eof c)"
proof -
  note e = enqueue_stream [OF wf c b _ r]
  show ?thesis
  proof (cases ok)
    case True
    obtain m mb where e': "clients n1 cl = Some (c\<lparr>cl_tx_queue := [m], cl_txq_len := cl_txq_len c + int (ub_len b + HDR_SIZE)\<rparr>)"
      "bufs n1 m = Some mb" "len_ok E mb" "ub_len mb = ub_len b" "queue_bytes E n1 [m] = msg_image E b"
      using e(5) True q by auto
    have "tx_ready E cl n1" by (rule tx_readyI [OF e'(1)]) (use e'(2-4) k q in auto)
    moreover have "stream E cl n1 = wire0 @ msg_image E b"
      using e'(1,5) e(2) q wire0 by (simp add: stream_def)
    ultimately show ?thesis using n' True by simp
  next
    case False
    have c1: "clients n1 cl = Some c" and w1: "wire n1 = wire n" using e(2,4) q False by simp_all
    have "tx_ready E cl n1" by (rule tx_readyI [OF c1]) (simp_all add: q)
    moreover have "stream E cl n1 = wire0" if "k = 0" using c1 w1 wire0 that q by (simp add: stream_def)
    ultimately show ?thesis using n' False c1 by (auto simp: clients_upd_same)
  qed
qed

lemma write_stream:
  assumes wf: "net_wf H n" and rdy: "tx_ready E cl n" and b: "bufs n ub = Some b" "len_ok E b"
    and n': "n' = ubus_msg_write E cl ub n"
  shows "sent_whole E cl (msg_image E b) n n'"
proof -
  obtain c where c: "clients n cl = Some c" using rdy by (auto simp: tx_ready_def split: option.splits)
  show ?thesis
  proof (cases "cl_tx_queue c")
    case (Cons a q)
    obtain ok n1 where r: "ubus_msg_enqueue E cl ub n = (ok, n1)" by fastforce
    from write_busy [OF wf rdy b c Cons r] show ?thesis using n' c b Cons r by (simp add: ubus_msg_write_def)
  next
    case Nil
    obtain res n1 where w: "ubus_msg_writev E cl ub 0 n = (res, n1)" by fastforce
    note bw = bufs_writev [OF w]
    define k where "k = send_written res"
    have l: "length (msg_image E b) = ub_len b + HDR_SIZE" by (rule length_image [OF b(2)])
    have c1: "clients n1 cl = Some c" using bw c by simp
    have st: "stream E cl n = wire n cl" using c Nil by (simp add: stream_def)
    have wire1: "wire n1 cl = wire n cl @ take k (msg_image E b)" using writev_wire(1) [OF w b(1)] by (simp add: k_def)
    show ?thesis
    proof (cases "ub_len b + HDR_SIZE \<le> k")
      case True
      have n1: "n' = n1" using n' c b Nil w True by (simp add: ubus_msg_write_def k_def)
      have "tx_ready E cl n1" by (rule tx_readyI [OF c1]) (simp_all add: Nil)
      moreover have "stream E cl n1 = stream E cl n @ msg_image E b"
        using st wire1 True l c1 Nil by (simp add: stream_def)
      ultimately show ?thesis by (simp add: sent_whole_def n1)
    next
      case False
      define n2 where "n2 = upd_client cl (\<lambda>c. c\<lparr>cl_txq_ofs := k, cl_txq_len := - int k, cl_write_ev := True\<rparr>) n1"
      let ?c2 = "c\<lparr>cl_txq_ofs := k, cl_txq_len := - int k, cl_write_ev := True\<rparr>"
      have c2: "clients n2 cl = Some ?c2" using c1 by (simp add: n2_def clients_upd_same)
      have b2: "bufs n2 ub = Some b" using b bw by (simp add: n2_def)
      have wire2: "wire n2 cl = wire n cl @ take k (msg_image E b)" using c1 wire1 by (simp add: n2_def upd_client_def)
      have w2: "net_wf H n2" unfolding n2_def
        by (rule net_wf_upd_client [OF net_wf_writev [OF wf b(1) w] c1]) (simp_all add: client_refs_def)
      obtain ok n3 where r: "ubus_msg_enqueue E cl ub n2 = (ok, n3)" by fastforce
      have n3: "n' = (if ok then n3 else if 0 < k then upd_client cl (\<lambda>c. c\<lparr>cl_eof := True\<rparr>) n3 else n3)"
        using n' c b Nil w False r by (auto simp: ubus_msg_write_def k_def n2_def Let_def)
      from write_rest [OF w2 b2 b(2) _ c2 _ _ r wire2 n3] False Nil st show ?thesis by (simp add: sent_whole_def)
    qed
  qed
qed

section \<open>Other clients\<close>

text \<open>Sending to one client touches no other client that is not a monitor.\<close>

definition untouched :: "u32 \<Rightarrow> net \<Rightarrow> net \<Rightarrow> bool" where
  "untouched i n n' \<longleftrightarrow> clients n' i = clients n i \<and> wire n' i = wire n i"

lemma untouched_refl [simp, intro]: "untouched i n n"
  by (simp add: untouched_def)

lemma untouched_trans [trans]: "untouched i n n' \<Longrightarrow> untouched i n' n'' \<Longrightarrow> untouched i n n''"
  by (simp add: untouched_def)

lemma untouched_same: "clients n' = clients n \<Longrightarrow> wire n' = wire n \<Longrightarrow> untouched i n n'"
  by (simp add: untouched_def)

lemma untouched_basic [simp]:
  "untouched i n (set_fault n') = untouched i n n'" "untouched i n (upd_buf ub f n') = untouched i n n'"
  "untouched i n (ubus_msg_free ub n') = untouched i n n'" "untouched i n (log_mon cl ub n') = untouched i n n'"
  "untouched i n (log_sent cl b n') = untouched i n n'" "untouched i n (n'\<lparr>monitors := ms\<rparr>) = untouched i n n'"
  "i \<noteq> cl \<Longrightarrow> untouched i n (upd_client cl g n') = untouched i n n'"
  by (auto simp: untouched_def set_fault_def upd_buf_def ubus_msg_free_def close_fd_def Let_def log_mon_def
      log_sent_def upd_client_def split: option.splits)

lemma untouched_alloc:
  "calloc E n = (ok, n') \<Longrightarrow> untouched i n n'"
  "ubus_msg_new E data l sh n = (r, n') \<Longrightarrow> untouched i n n'"
  by (auto simp: untouched_def calloc_def ubus_msg_new_def Let_def split: if_splits)

lemma untouched_ref: "ubus_msg_ref E ub n = (r, n') \<Longrightarrow> untouched i n n'"
  by (auto simp: ubus_msg_ref_def split: option.splits if_splits prod.splits dest!: untouched_alloc(2) [where i = i]
      intro: untouched_trans)

lemma untouched_enqueue: "i \<noteq> cl \<Longrightarrow> ubus_msg_enqueue E cl ub n = (r, n') \<Longrightarrow> untouched i n n'"
  by (auto simp: ubus_msg_enqueue_def split: option.splits if_splits prod.splits bool.splits
      dest!: untouched_alloc(1) [where i = i] untouched_ref [where i = i] intro: untouched_trans)

lemma untouched_writev: "i \<noteq> cl \<Longrightarrow> ubus_msg_writev E cl ub ofs n = (r, n') \<Longrightarrow> untouched i n n'"
  by (auto simp: ubus_msg_writev_def untouched_def set_fault_def Let_def split: option.splits send_res.splits)

lemma untouched_write: "i \<noteq> cl \<Longrightarrow> untouched i n (ubus_msg_write E cl ub n)"
proof -
  assume i: "i \<noteq> cl"
  obtain r n1 where w: "ubus_msg_writev E cl ub 0 n = (r, n1)" by fastforce
  let ?n2 = "upd_client cl (\<lambda>c. c\<lparr>cl_txq_ofs := send_written r, cl_txq_len := - int (send_written r), cl_write_ev := True\<rparr>) n1"
  obtain ok n3 where e: "ubus_msg_enqueue E cl ub ?n2 = (ok, n3)" by fastforce
  obtain ok' n4 where e': "ubus_msg_enqueue E cl ub n = (ok', n4)" by fastforce
  have 1: "untouched i n n1" by (rule untouched_writev [OF i w])
  have 3: "untouched i n n3"
    by (rule untouched_trans [OF _ untouched_enqueue [OF i e]]) (simp add: i 1)
  with 1 i untouched_enqueue [OF i e'] show ?thesis
    by (simp add: ubus_msg_write_def w e e' Let_def split: option.split bool.split)
qed

lemma untouched_xmit: "i \<noteq> cl \<Longrightarrow> untouched i n (ubus_msg_xmit E cl ub n)"
  by (simp add: ubus_msg_xmit_def untouched_write split: option.split)

lemma untouched_monitor_loop: "i \<notin> mon_cl ` set ms \<Longrightarrow> untouched i n (snd (monitor_loop E ub ms n))"
proof (induction ms arbitrary: n)
  case (Cons m ms)
  let ?n1 = "upd_buf ub (\<lambda>b. b\<lparr>ub_hdr := (ub_hdr b)\<lparr>hdr_seq := mon_seq m + 1\<rparr>\<rparr>) n"
  let ?n2 = "ubus_msg_xmit E (mon_cl m) ub (log_mon (mon_cl m) ub ?n1)"
  have "untouched i n ?n1" by simp
  also have "untouched i ?n1 (log_mon (mon_cl m) ub ?n1)" by simp
  also have "untouched i (log_mon (mon_cl m) ub ?n1) ?n2" by (rule untouched_xmit) (use Cons.prems in simp)
  also have "untouched i ?n2 (snd (monitor_loop E ub ms ?n2))" by (rule Cons.IH) (use Cons.prems in simp)
  finally show ?case by (simp add: Let_def case_prod_unfold)
qed simp

lemma untouched_monitor_message:
  assumes "i \<notin> mon_cl ` set (monitors n)"
  shows "untouched i n (ubusd_monitor_message E cl ub send n)"
proof (cases "monitors n = [] \<or> bufs n ub = None")
  case True
  then show ?thesis by (auto simp: ubusd_monitor_message_def split: option.split)
next
  case False
  then obtain b where b: "bufs n ub = Some b" by auto
  let ?data = "Built (mon_attrs E cl b send)"
  obtain x n1 where x: "ubus_msg_new E ?data (blob_raw_len E ?data) True n = (x, n1)" by fastforce
  have 1: "untouched i n n1" by (rule untouched_alloc(2) [OF x])
  show ?thesis
  proof (cases x)
    case None
    then show ?thesis using False b x 1 by (simp add: ubusd_monitor_message_def Let_def)
  next
    case (Some mub)
    let ?n2 = "upd_buf mub (\<lambda>b. b\<lparr>ub_hdr := (ub_hdr b)\<lparr>hdr_type := ubus_msg_code UBUS_MSG_MONITOR\<rparr>\<rparr>) n1"
    obtain ms n3 where l: "monitor_loop E mub (monitors ?n2) ?n2 = (ms, n3)" by fastforce
    have "monitors ?n2 = monitors n"
      using x by (auto simp: ubus_msg_new_def calloc_def Let_def upd_buf_def set_fault_def split: if_splits option.splits)
    then have "untouched i ?n2 n3" using untouched_monitor_loop [of i "monitors ?n2" ?n2 E mub] assms l by simp
    then have "untouched i n n3" using untouched_trans [of i n ?n2] 1 by simp
    then show ?thesis using False b x Some l by (simp add: ubusd_monitor_message_def Let_def)
  qed
qed

lemma untouched_send:
  assumes "i \<noteq> cl" and "i \<notin> mon_cl ` set (monitors n)"
  shows "untouched i n (ubus_msg_send E cl ub n)"
proof -
  have 1: "untouched i n (log_sent cl b n)" for b by simp
  have 2: "untouched i n (ubusd_monitor_message E cl ub True (log_sent cl b n))" for b
    by (rule untouched_trans [OF 1 untouched_monitor_message]) (use assms(2) in \<open>simp add: log_sent_def\<close>)
  from untouched_trans [OF 1 untouched_write [OF assms(1)]] untouched_trans [OF 2 untouched_write [OF assms(1)]] 1
  show ?thesis by (simp add: ubus_msg_send_def Let_def split: option.split)
qed

section \<open>Sending\<close>

text \<open>The copies for the monitors do not concern a client that is not one: \<open>ubus_msg_send\<close> behaves
  like \<open>ubus_msg_write\<close> for it.\<close>

lemma stream_untouched:
  assumes "untouched cl n n'" and "tx_ready E cl n" and "\<And>a. bufs n a \<noteq> None \<Longrightarrow> bufs n' a = bufs n a"
  shows "tx_ready E cl n'" and "stream E cl n' = stream E cl n"
proof -
  obtain c where c: "clients n cl = Some c" using assms(2) by (auto simp: tx_ready_def split: option.splits)
  have c': "clients n' cl = Some c" and w: "wire n' cl = wire n cl" using assms(1) c by (simp_all add: untouched_def)
  have live: "bufs n' a = bufs n a" if "a \<in> set (cl_tx_queue c)" for a
    using assms(3) tx_ready_queue(2) [OF assms(2) c] that by blast
  have "queue_bytes E n' (cl_tx_queue c) = queue_bytes E n (cl_tx_queue c)"
    by (rule queue_bytes_cong) (simp add: live)
  then show "stream E cl n' = stream E cl n" using c c' w by (simp add: stream_def)
  show "tx_ready E cl n'" using assms(2) c c' live by (simp add: tx_ready_def split: list.splits)
qed

lemma send_stream:
  assumes wf: "net_wf H n" and rdy: "tx_ready E cl n" and b: "bufs n ub = Some b" "len_ok E b"
    and m: "cl \<notin> mon_cl ` set (monitors n)" and n': "n' = ubus_msg_send E cl ub n"
  shows "sent_whole E cl (msg_image E b) n n'"
proof -
  obtain c where c: "clients n cl = Some c" using rdy by (auto simp: tx_ready_def split: option.splits)
  let ?n0 = "log_sent cl b n"
  have wf0: "net_wf H ?n0" using wf by simp
  have b0: "bufs ?n0 ub = Some b" using b by simp
  note mm = net_wf_monitor_message [OF wf0 b0, where E = E and cl = cl and send = True]
  have lt: "a < next_addr ?n0" if "bufs ?n0 a \<noteq> None" for a using net_wf_next_addr(1) [OF wf0] that by (meson not_le)
  have st0: "tx_ready E cl ?n0" "stream E cl ?n0 = stream E cl n"
    by (rule stream_untouched [OF _ rdy]; simp add: log_sent_def untouched_def)+
  define n1 where "n1 = (if hdr_type (ub_hdr b) \<noteq> ubus_msg_code UBUS_MSG_MONITOR
    then ubusd_monitor_message E cl ub True ?n0 else ?n0)"
  have u: "untouched cl ?n0 (ubusd_monitor_message E cl ub True ?n0)"
    by (rule untouched_monitor_message) (use m in \<open>simp add: log_sent_def\<close>)
  have st1: "tx_ready E cl n1" "stream E cl n1 = stream E cl n" and w1: "net_wf H n1" and b1: "bufs n1 ub = Some b"
    using stream_untouched [OF u st0(1) mm(2) [OF lt]] st0 mm(1) wf0 mm(2) [OF lt] b0 by (auto simp: n1_def)
  have "n' = (if cl_eof c then ?n0 else ubus_msg_write E cl ub n1)"
    using n' c b by (simp add: ubus_msg_send_def n1_def Let_def)
  with write_stream [OF w1 st1(1) b1 b(2) refl] st0 st1(2) show ?thesis by (simp add: sent_whole_def)
qed

end
