(* ===== verification/Ubusd_Exec.thy ===== *)
theory Ubusd_Exec
  imports Ubusd_Stream
begin

text \<open>
  Running the model on concrete inputs: bundles of the defining equations, by the part of the
  daemon they belong to, with which \<open>simp\<close> evaluates a run in the reference environment, and the
  concrete states that the witnesses of the properties use.
\<close>

section \<open>Bundles\<close>

lemma ref_env_sel [simp]:
  "blob_encode ref_env = ref_encode" "blob_parse ref_env = ref_lookup" "calloc_ok ref_env i"
  "sendmsg_res ref_env i n = Sent n" "getpwuid ref_env u = Some ''root''"
  "getgrgid ref_env g = Some ''root''" "getpwnam ref_env s = Some 0" "getgrnam ref_env s = Some 0"
  "blob_get_u32 ref_env (Blob_int32 v) = v" "blob_str ref_env (Blob_string s) = s"
  "blob_get_u8 ref_env (Blob_int8 b) = b"
  "blobmsg_parse ref_env p (Blobmsg_table fs) = map (\<lambda>(n, t). map_of fs n) p"
  "avl_pos ref_env k ks = length (takeWhile (\<lambda>k'. k' \<le> k) ks)"
  "vlist_stale ref_env ks as = filter (\<lambda>k. k \<notin> set as) ks"
  by (simp_all add: ref_env_def)

lemmas sys_ids = UBUS_SYSTEM_OBJECT_EVENT_def UBUS_SYSTEM_OBJECT_ACL_def
  UBUS_SYSTEM_OBJECT_MONITOR_def UBUS_SYSTEM_OBJECT_MAX_def

lemmas start_exec = ubusd_start_def ubusd_acl_load_def ubusd_obj_init_def daemon0_def net0_def
  ubusd_monitor_init_def ubusd_event_init_def ubusd_acl_init_def init_internal_def
  ubusd_create_object_internal_def calloc_def ubus_alloc_id_def sys_ids upd_obj_def new_object_def

lemmas msg_exec = ubus_msg_new_def ubus_msg_from_blob_def ubus_msg_init_def ubus_msg_free_def
  ubus_msg_send_def ubus_msg_xmit_def ubus_msg_write_def ubus_msg_writev_def log_sent_def
  send_new_def upd_buf_def upd_client_def ubusd_monitor_message_def writev_iov_def blob_image_def
  blob_raw_len_def close_fd_def send_written_def calloc_def

lemmas client_exec = get_next_connection_def ubusd_proto_new_client_def ubusd_acl_init_client_def
  ubusd_acl_load_extra_gids_def id_tree_def ubusd_proto_init_retmsg_def ubusd_send_hello_def
  new_client_def ubus_alloc_id_def

lemmas rx_exec = client_cb_def tx_flush.simps tx_done_def rx_header_def rx_start_def rx_body_def rx_accept_def
  rx_out_def buf_store_def splice_def HDR_SIZE_def HDRBUF_SIZE_def UBUS_MAX_MSGLEN_def be16_of_def be32_of_def

lemmas proto_exec = ubusd_proto_receive_message_def retmsg_hdr_def retmsg_send_def handler_of_def
  ubus_msg_of_code_def ubus_msg_types_def handlers_def ubus_parse_msg_def ubus_policy_def
  ubusd_handle_invoke_def recv_internal_def ubusd_acl_recv_def ubusd_reply_query_def ubusd_find_object_def
  ubus_find_id_def client_of_def ubusd_acl_check_def ubus_proto_send_msg_from_blob_def
  ubus_reply_from_blob_def

section \<open>A daemon with one client\<close>

definition w_peer :: peer_cred where
  "w_peer = \<lparr>peer_ids = Some (1000, 1000), peer_groups = Some []\<rparr>"

definition w_daemon :: daemon where
  "w_daemon = server_cb ref_env [Accepted 5 w_peer] (ubusd_start ref_env [Some 7000, Some 8000] None)"

lemma w_daemon_reach: "ubusd_reach ref_env w_daemon"
  unfolding w_daemon_def by (rule ubusd_reach.step [OF ubusd_reach.start ubusd_step.server])

lemma w_daemon_inv: "daemon_inv ref_env w_daemon"
  by (rule reach_inv [OF w_daemon_reach ref_env_ok])

lemma w_daemon_client: "map_option cl_user (clients (net w_daemon) 7000) = Some (Some ''root'')"
  by (simp add: w_daemon_def w_peer_def start_exec msg_exec client_exec Let_def)

lemma w_daemon_object: "map_option obj_recv_msg (objects w_daemon 1) = Some (Some Event_recv)"
  by (simp add: w_daemon_def w_peer_def start_exec msg_exec client_exec Let_def)

section \<open>A request being handled\<close>

text \<open>The client has sent a request of the given type, which is in the buffer 2; \<open>w_obj\<close> is the state
  after it has registered an object without a path in this way.\<close>

definition w_request :: "ubus_msg_type \<Rightarrow> daemon" where
  "w_request ty = on_net (\<lambda>n. upd_buf 2
     (\<lambda>b. b\<lparr>ub_hdr := \<lparr>hdr_version = 0, hdr_type = ubus_msg_code ty, hdr_seq = 3, hdr_peer = 8000\<rparr>\<rparr>)
     (snd (ubus_msg_new ref_env (Built []) (blob_raw_len ref_env (Built [])) False n))) w_daemon"

definition w_obj :: daemon where
  "w_obj = snd (ubusd_handle_add_object ref_env 7000 2 Map.empty (w_request UBUS_MSG_ADD_OBJECT))"

definition held2 :: "addr \<Rightarrow> nat" where
  "held2 = (\<lambda>_. 0)(2 := 1)"

lemma next_addr_w: "next_addr (net w_daemon) = 2"
  by (simp add: w_daemon_def w_peer_def start_exec msg_exec client_exec Let_def)

lemma w_new: "\<exists>n. ubus_msg_new ref_env (Built []) l False (net w_daemon) = (Some 2, n)"
  by (simp add: ubus_msg_new_def calloc_def next_addr_w)

lemma w_request_wf: "daemon_wf held2 (w_request ty)"
proof -
  obtain n where n: "ubus_msg_new ref_env (Built []) (blob_raw_len ref_env (Built [])) False (net w_daemon) = (Some 2, n)"
    using w_new by blast
  note w = net_wf_msg_new [OF daemon_wfD(1) [OF invD(1) [OF w_daemon_inv]] n]
  obtain b where b: "bufs n 2 = Some b" using ubus_msg_new_Some [OF n] by simp
  let ?f = "\<lambda>b. b\<lparr>ub_hdr := \<lparr>hdr_version = 0, hdr_type = ubus_msg_code ty, hdr_seq = 3, hdr_peer = 8000\<rparr>\<rparr>"
  have "net_wf held2 (upd_buf 2 ?f n)" unfolding held2_def by (rule net_wf_upd_buf [OF w(1) b]) simp
  moreover have "reg (w_request ty) = reg w_daemon"
    unfolding w_request_def by (rule reg_on_net) (use core_msg_new [OF n] n in simp)
  ultimately show ?thesis
    using daemon_wf_net [OF _ _ invD(1) [OF w_daemon_inv], of held2 "w_request ty"] n by (simp add: w_request_def)
qed

lemma w_request_buf: "\<exists>b. bufs (net (w_request ty)) 2 = Some b \<and> ub_refcount b = 1 \<and> hdr_type (ub_hdr b) = ubus_msg_code ty \<and> hdr_peer (ub_hdr b) = 8000"
  by (simp add: w_request_def ubus_msg_new_def calloc_def next_addr_w upd_buf_def)

lemma w_request_client: "\<exists>c. clients (net (w_request ty)) 7000 = Some c"
proof -
  obtain c where "clients (net w_daemon) 7000 = Some c" using w_daemon_client by auto
  then show ?thesis by (simp add: w_request_def ubus_msg_new_def calloc_def next_addr_w upd_buf_def)
qed

lemma w_obj_wf: "daemon_wf held2 w_obj"
proof -
  obtain c where c: "clients (net (w_request UBUS_MSG_ADD_OBJECT)) 7000 = Some c" using w_request_client by blast
  have o: "owns1 (net (w_request UBUS_MSG_ADD_OBJECT)) 2" using w_request_buf [of UBUS_MSG_ADD_OBJECT] by (auto simp: owns1_def)
  obtain ret d where r: "ubusd_handle_add_object ref_env 7000 2 Map.empty (w_request UBUS_MSG_ADD_OBJECT) = (ret, d)" by fastforce
  have "ret \<noteq> Queued" using r by (auto simp: ubusd_handle_add_object_def Let_def split: prod.splits option.splits)
  with add_object.contract [OF ref_env_ok w_request_wf c o _ r] show ?thesis
    by (simp add: held2_def handled_def step_ok_def w_obj_def r)
qed

lemma w_obj_eval:
  "map_option obj_client (objects w_obj 8000) = Some (Some 7000)"
  "map_option ub_refcount (bufs (net w_obj) 2) = Some 1"
  "map_option cl_user (clients (net w_obj) 7000) = Some (Some ''root'')"
  by (simp_all add: w_obj_def w_request_def w_daemon_def w_peer_def start_exec msg_exec client_exec Let_def
      ubusd_handle_add_object_def ubusd_create_object_def obj_type_of_attrs_def obj_field_def objtype_attr_def
      ubus_proto_send_msg_from_blob_def ubus_reply_from_blob_def)

end
