(* ===== verification/Props_Acl.thy ===== *)
theory Props_Acl
  imports Ubusd_Exec
begin

text \<open>
  Access control: what a check decides in a running daemon, which configuration files are in
  force after a reload, and what a query reveals.

  The witnesses use a daemon with one configuration file, which lets the members of a group call
  the method \<open>status\<close> of every object whose name starts with \<open>net\<close>.
\<close>

definition w_acl_json :: blob_attr where
  "w_acl_json = Blobmsg_table [(''group'', Blob_string ''root''),
     (''access'', Blobmsg_table [(''net*'', Blobmsg_table [(''methods'', Blobmsg_array [Blob_string ''status''])])])]"

definition w_acl_file :: acl_dirent where
  "w_acl_file = \<lparr>de_name = ''net.json'', de_stat = Some (True, 0, 0, 420), de_json = Some w_acl_json\<rparr>"

definition w_acl_daemon :: daemon where
  "w_acl_daemon = ubusd_start ref_env [] (Some [w_acl_file])"

definition w_acl_client :: ubus_client where
  "w_acl_client = new_client 5 0 (1000, 0, ''user'', ''root'', [])"

lemma w_acl_reach: "ubusd_reach ref_env w_acl_daemon"
  unfolding w_acl_daemon_def by (rule ubusd_reach.start)

lemmas acl_exec = acl_reload_def acl_dirent_ok_def acl_mode_mask_def ubusd_acl_load_file_def
  ubusd_acl_update_cb_def ubusd_acl_file_add_def acl_file_ids_def acl_policy_def table_fields_def
  ubusd_acl_add_access_def ubusd_acl_alloc_obj_def acl_obj_policy_def calloc_node_def upd_acl_def
  avl_link_def acl_add_flag_def array_strings_def

lemma acls_send_event [simp]: "ubusd_acls (snd (ubusd_send_event E cl ident attrs d)) = ubusd_acls d"
  by (metis reg_sel(17) reg_send_event)

lemma w_acls: "ubusd_acls w_acl_daemon = [(''net'',
    \<lparr>ao_addr = 0, ao_partial = True, ao_user = None, ao_group = Some ''root'', ao_uid = - 1, ao_gid = 0,
      ao_methods = Some (Blobmsg_array [Blob_string ''status'']), ao_tags = None, ao_priv = None,
      ao_subscribe = False, ao_publish = False, ao_listen = False, ao_send = False\<rparr>)]"
  by (simp add: w_acl_daemon_def w_acl_file_def w_acl_json_def start_exec acl_exec Let_def)

section \<open>Checks\<close>

lemma reach_acls_sorted:
  assumes "ubusd_reach E d" and "lib_ok E"
  shows "sorted (map fst (ubusd_acls d))"
  using reg_wfD(7) [OF daemon_wfD(2) [OF invD(1) [OF reach_inv [OF assms]]]] by (simp add: clients_ok_def)

text \<open>C4. In a running daemon a client of a user other than root is allowed a request exactly when some
  entry of the access control tree matches the name, exactly or as a prefix, carries the user or
  a group of the client, and lists what is asked for. The scan stops early, but never before such
  an entry.\<close>

theorem acl_check_complete:
  assumes "ubusd_reach E d" and "lib_ok E"
  shows "ubusd_acl_check d (Some c) (Some name) meth ty = 0 \<longleftrightarrow>
    cl_uid c = 0 \<or>
    (\<exists>(key, a)\<in>set (ubusd_acls d). (name = key \<or> ao_partial a \<and> (\<exists>rest. name = key @ rest)) \<and>
       ubusd_acl_match_cred c a = 0 \<and> acl_grants ty meth a)"
  using acl_scan_iff [OF reach_acls_sorted [OF assms], of c name meth ty]
  by (simp add: ubusd_acl_check_def acl_allows_def key_matches_def case_prod_unfold)

theorem acl_check_complete_witness:
  "ubusd_acl_check w_acl_daemon (Some w_acl_client) (Some ''network'') (Some ''status'') UBUS_ACL_ACCESS = 0 \<and>
   ubusd_acl_check w_acl_daemon (Some w_acl_client) (Some ''network'') (Some ''down'') UBUS_ACL_ACCESS \<noteq> 0"
  using acl_check_complete [OF w_acl_reach ref_env_ok, of w_acl_client "''network''" _ UBUS_ACL_ACCESS]
  by (simp add: w_acls w_acl_client_def new_client_def ubusd_acl_match_cred_def acl_grants_def acl_method_listed_def)

section \<open>Configuration files\<close>

lemma acl_load_from:
  assumes lib: "lib_ok E" and r: "ubusd_reach E d" and d': "d' = ubusd_acl_load E (Some es) d"
    and a: "(key, a) \<in> set (ubusd_acls d')"
  obtains e f where "e \<in> set es" "acl_dirent_ok e" "(de_name e, f) \<in> set (ubusd_acl_files d')" "de_json e = Some (af_blob f)"
    "ao_addr a \<in> set (af_acl f)" "ao_uid a = af_uid f" "ao_gid a = af_gid f"
proof -
  have i: "daemon_inv E d" by (rule reach_inv [OF r lib])
  note l = acl_load_ok(1,3) [OF lib invD(2) [OF i] invD(1) [OF i], where gl = "Some es", folded d']
  from l(1) have own: "acl_owned (map snd (ubusd_acl_files d')) d'" by (simp add: acl_wf_def)
  have "ao_addr a \<in> acl_addrs d'" using a by (force simp: acl_addrs_map)
  then obtain name f where f: "(name, f) \<in> set (ubusd_acl_files d')" "ao_addr a \<in> set (af_acl f)"
    using own by (auto simp: acl_owned_def)
  moreover have "ao_uid a = af_uid f \<and> ao_gid a = af_gid f"
    using own a f unfolding acl_owned_def by fastforce
  moreover obtain e where "e \<in> set es" "de_name e = name" "acl_dirent_ok e" "de_json e = Some (af_blob f)"
    using l(2) [OF refl] f(1) by (auto simp: from_dir_def)
  ultimately show thesis using that by blast
qed

lemma acl_dirent_okE:
  assumes "acl_dirent_ok e"
  obtains mode where "de_stat e = Some (True, 0, 0, mode)" "mode AND acl_mode_mask = 0"
  using assms by (auto simp: acl_dirent_ok_def split: option.splits)

text \<open>C18. After a reload every entry in force comes from a file of the directory that is a regular file,
  belongs to root, and can neither be written by its group or others nor be executed by others;
  the entry is listed in the record of that file and carries the user and group it names.\<close>

theorem acl_load_trusted:
  assumes "lib_ok E" and "ubusd_reach E d" and d': "d' = ubusd_acl_load E (Some es) d"
    and a: "(key, a) \<in> set (ubusd_acls d')"
  shows "\<exists>e\<in>set es. \<exists>f mode. de_stat e = Some (True, 0, 0, mode) \<and> mode AND acl_mode_mask = 0 \<and>
    (de_name e, f) \<in> set (ubusd_acl_files d') \<and> de_json e = Some (af_blob f) \<and>
    ao_addr a \<in> set (af_acl f) \<and> ao_uid a = af_uid f \<and> ao_gid a = af_gid f"
proof -
  obtain e f where e: "e \<in> set es" "acl_dirent_ok e" "(de_name e, f) \<in> set (ubusd_acl_files d')" "de_json e = Some (af_blob f)"
    "ao_addr a \<in> set (af_acl f)" "ao_uid a = af_uid f" "ao_gid a = af_gid f"
    by (rule acl_load_from [OF assms])
  obtain mode where "de_stat e = Some (True, 0, 0, mode)" "mode AND acl_mode_mask = 0" by (rule acl_dirent_okE [OF e(2)])
  with e show ?thesis by blast
qed

theorem acl_load_trusted_witness:
  "\<exists>f mode. de_stat w_acl_file = Some (True, 0, 0, mode) \<and> mode AND acl_mode_mask = 0 \<and>
     (''net.json'', f) \<in> set (ubusd_acl_files w_acl_daemon)"
proof -
  have d: "w_acl_daemon = ubusd_acl_load ref_env (Some [w_acl_file]) (ubusd_start ref_env [] None)"
    by (simp add: w_acl_daemon_def ubusd_start_def ubusd_acl_load_def)
  from acl_load_trusted [OF ref_env_ok ubusd_reach.start d] w_acls show ?thesis by (auto simp: w_acl_file_def)
qed

text \<open>C34. The query method of the access control object answers with the private data of exactly those
  entries that match the path of an object the asking client owns itself, in the order of its
  objects and of the tree, together with the sequence number of the configuration.\<close>

theorem acl_query_own_objects:
  assumes "ubusd_reach E d" and "lib_ok E" and c: "clients (net d) cl = Some c"
    and attr: "attr UBUS_ATTR_OBJID = Some ia" and ob: "objects d (blob_get_u32 E ia) = Some ob"
  shows "ubusd_reply_query E cl ub attr d =
    (UBUS_STATUS_OK,
     on_net (ubus_proto_send_msg_from_blob E cl ub
       [(ubus_attr_code UBUS_ATTR_OBJID, Blob_int32 (blob_get_u32 E ia)),
        (ubus_attr_code UBUS_ATTR_DATA,
         Blobmsg_table [(''seq'', Blob_int32 (ubusd_acl_seq d)),
           (''acl'', Blobmsg_array (concat (map (\<lambda>oid. case obj_field None obj_path d oid of
               None \<Rightarrow> []
             | Some name \<Rightarrow> map (\<lambda>(k, a). reply_entry name a (the (ao_priv a)))
                 (filter (\<lambda>(k, a). ao_priv a \<noteq> None \<and> key_matches name (ao_partial a) k) (ubusd_acls d)))
             (cl_objects c))))])] UBUS_MSG_DATA) d)"
proof -
  note w = daemon_wfD(2) [OF invD(1) [OF reach_inv [OF assms(1,2)]]]
  note s = reach_acls_sorted [OF assms(1,2)]
  have "\<forall>oid\<in>set (cl_objects c). objects d oid \<noteq> None"
  proof
    fix oid assume "oid \<in> set (cl_objects c)"
    then have "r_owner (reg d) oid = Some cl" using owners_okD(1) [OF reg_wfD(1) [OF w]] c by (simp add: cl_field_def)
    then show "objects d oid \<noteq> None" by (auto simp: obj_field_def split: option.splits)
  qed
  note f = fold_reply_add [OF s this, of "[]"]
  have e: "reply_entries name t = map (\<lambda>(k, a). reply_entry name a (the (ao_priv a)))
      (filter (\<lambda>(k, a). ao_priv a \<noteq> None \<and> key_matches name (ao_partial a) k) t)" for name t
    by (induction t) (auto simp: reply_entries_def split: option.splits if_splits)
  have r: "reply_of d = (\<lambda>oid. case obj_field None obj_path d oid of None \<Rightarrow> []
      | Some name \<Rightarrow> map (\<lambda>(k, a). reply_entry name a (the (ao_priv a)))
          (filter (\<lambda>(k, a). ao_priv a \<noteq> None \<and> key_matches name (ao_partial a) k) (ubusd_acls d)))"
    by (rule ext) (simp only: reply_of_def e)
  show ?thesis using attr ob c f unfolding r
    by (simp add: ubusd_reply_query_def ubusd_find_object_def ubus_find_id_def)
qed

theorem acl_query_own_objects_witness:
  "fst (ubusd_reply_query ref_env 7000 0 [UBUS_ATTR_OBJID \<mapsto> Blob_int32 1] w_daemon) = UBUS_STATUS_OK"
proof -
  obtain c ob where "clients (net w_daemon) 7000 = Some c" and "objects w_daemon 1 = Some ob"
    using w_daemon_client w_daemon_object by auto
  with acl_query_own_objects [OF w_daemon_reach ref_env_ok, of 7000 c "[UBUS_ATTR_OBJID \<mapsto> Blob_int32 1]" "Blob_int32 1" ob 0]
  show ?thesis by simp
qed

section \<open>Withdrawing rights\<close>

text \<open>C37. A reload on \<open>SIGHUP\<close> withdraws what is no longer configured: a client of a user other than root is
  then allowed a request exactly when an entry grants it that belongs to a file which is in the directory
  now and which only root can change. This fails when the last file was removed: \<open>glob\<close> reports no
  match, \<open>ubusd_acl_load\<close> returns before it drops anything, and every request is decided as before.\<close>

theorem acl_reload_revokes:
  assumes lib: "lib_ok E" and r: "ubusd_reach E d" and c: "cl_uid c \<noteq> 0" and d': "d' = sighup_fd_cb E gl d"
  shows "case gl of
      Some es \<Rightarrow> ubusd_acl_check d' (Some c) (Some name) meth ty = 0 \<longleftrightarrow>
        (\<exists>e\<in>set es. \<exists>mode f. de_stat e = Some (True, 0, 0, mode) \<and> mode AND acl_mode_mask = 0 \<and>
           de_json e = Some (af_blob f) \<and> (de_name e, f) \<in> set (ubusd_acl_files d') \<and>
           (\<exists>(key, a)\<in>set (ubusd_acls d'). ao_addr a \<in> set (af_acl f) \<and>
              (name = key \<or> ao_partial a \<and> (\<exists>rest. name = key @ rest)) \<and>
              ubusd_acl_match_cred c a = 0 \<and> acl_grants ty meth a))
    | None \<Rightarrow> ubusd_acl_check d' (Some c) (Some name) meth ty = ubusd_acl_check d (Some c) (Some name) meth ty"
proof (cases gl)
  case None
  then show ?thesis by (simp add: d' sighup_fd_cb_def ubusd_acl_load_def)
next
  case (Some es)
  have l: "d' = ubusd_acl_load E (Some es) d" using d' Some by (simp add: sighup_fd_cb_def)
  have "ubusd_reach E d'" unfolding d' by (rule ubusd_reach.step [OF r ubusd_step.sighup])
  note k = acl_scan_iff [OF reach_acls_sorted [OF this lib], of c name meth ty]
  have "\<exists>e\<in>set es. \<exists>mode f. de_stat e = Some (True, 0, 0, mode) \<and> mode AND acl_mode_mask = 0 \<and>
      de_json e = Some (af_blob f) \<and> (de_name e, f) \<in> set (ubusd_acl_files d') \<and> ao_addr a \<in> set (af_acl f)"
    if "(key, a) \<in> set (ubusd_acls d')" for key a
    using acl_load_from [OF lib r l that] by (metis acl_dirent_okE)
  with k c Some show ?thesis
    by (simp add: ubusd_acl_check_def acl_allows_def key_matches_def case_prod_unfold) (metis prod.collapse)
qed

text \<open>The configuration file after everybody was allowed to write to it.\<close>

definition w_acl_loose :: acl_dirent where
  "w_acl_loose = w_acl_file\<lparr>de_stat := Some (True, 0, 0, 438)\<rparr>"

theorem acl_reload_revokes_witness:
  "ubusd_acl_check (sighup_fd_cb ref_env (Some [w_acl_loose]) w_acl_daemon) (Some w_acl_client) (Some ''network'') (Some ''status'') UBUS_ACL_ACCESS \<noteq> 0 \<and>
   ubusd_acl_check (sighup_fd_cb ref_env None w_acl_daemon) (Some w_acl_client) (Some ''network'') (Some ''status'') UBUS_ACL_ACCESS = 0"
proof -
  have "cl_uid w_acl_client \<noteq> 0" by (simp add: w_acl_client_def new_client_def)
  note l = acl_reload_revokes [OF ref_env_ok w_acl_reach this refl, of _ "''network''" "Some ''status''" UBUS_ACL_ACCESS]
  have "ubusd_acl_check w_acl_daemon (Some w_acl_client) (Some ''network'') (Some ''status'') UBUS_ACL_ACCESS = 0"
    by (simp add: ubusd_acl_check_def w_acls w_acl_client_def new_client_def ubusd_acl_match_cred_def acl_grants_def acl_method_listed_def)
  with l [of "Some [w_acl_loose]"] l [of None] show ?thesis by (simp add: w_acl_loose_def acl_mode_mask_def)
qed

end
