(* ===== verification/Props_Daemon.thy ===== *)
theory Props_Daemon
  imports Ubusd_Exec
begin

text \<open>
  What holds in every state the daemon can reach, whatever the clients send and whatever the
  kernel and the allocator return, and what is left of a client when it disconnects.
\<close>

section \<open>The transport layer\<close>

text \<open>C1. No reachable state of the daemon is faulty: no handler, callback or helper has followed a
  pointer to a freed or missing client, message, object, object type or subscription, and no
  received byte has been stored past the end of its buffer.\<close>

theorem reach_no_fault:
  assumes "ubusd_reach E d" and "lib_ok E"
  shows "\<not> fault (net d)"
  using net_wfD(1) [OF daemon_wfD(1) [OF invD(1) [OF reach_inv [OF assms]]]] .

theorem reach_no_fault_witness: "\<not> fault (net w_daemon)"
  using reach_no_fault [OF w_daemon_reach ref_env_ok] .

text \<open>C2. In every reachable state the reference counts of message buffers are exact. A freed buffer
  is in no queue, is not being received and is nobody's status message. A buffer with external
  data is the status message of exactly one client and is in no queue. Any other buffer has as
  many references as there are places in the transmit and command queues and the receive slots
  that hold it, and at least one, so none is leaked.\<close>

theorem reach_refcounts:
  assumes "ubusd_reach E d" and "lib_ok E"
  shows "case bufs (net d) a of
      None \<Rightarrow> refs (clients (net d)) a = 0 \<and> ret_refs (clients (net d)) a = 0
    | Some b \<Rightarrow>
        if ub_refcount b = USES_EXTERNAL_BUFFER
        then refs (clients (net d)) a = 0 \<and> ret_refs (clients (net d)) a = 1
        else ret_refs (clients (net d)) a = 0 \<and> unat (ub_refcount b) = refs (clients (net d)) a \<and>
          0 < refs (clients (net d)) a"
  using net_wfD(3) [OF daemon_wfD(1) [OF invD(1) [OF reach_inv [OF assms]]], of a]
  by (auto simp: buf_ok_def split: option.splits if_splits)

theorem reach_refcounts_witness:
  "refs (clients (net w_daemon)) 1 = 0 \<and> ret_refs (clients (net w_daemon)) 0 = 1"
proof -
  have "bufs (net w_daemon) 1 = None" "map_option ub_refcount (bufs (net w_daemon) 0) = Some USES_EXTERNAL_BUFFER"
    by (simp_all add: w_daemon_def w_peer_def start_exec msg_exec client_exec Let_def)
  with reach_refcounts [OF w_daemon_reach ref_env_ok, of 1] reach_refcounts [OF w_daemon_reach ref_env_ok, of 0]
  show ?thesis by auto
qed

text \<open>C24. In every reachable state the receive slot of a client is within its bounds: the header
  buffer has twelve bytes; without a message the offset is inside it; with a message the offset
  is past the header and within the length announced, which is the length of the buffer, and
  nobody else holds the buffer.\<close>

theorem reach_rx_bounds:
  assumes "ubusd_reach E d" and "lib_ok E" and "clients (net d) cl = Some c"
  shows "length (cl_hdrbuf c) = HDRBUF_SIZE \<and>
    (case cl_pending_msg c of
       None \<Rightarrow> cl_pending_msg_offset c \<le> HDRBUF_SIZE
     | Some a \<Rightarrow> HDRBUF_SIZE \<le> cl_pending_msg_offset c \<and>
         (\<exists>b bs. bufs (net d) a = Some b \<and> ub_refcount b = 1 \<and> ub_data b = Raw bs \<and>
            length bs = ub_len b \<and> blob_hdr_raw_len E (take 4 bs) = ub_len b \<and> 4 \<le> ub_len b \<and>
            cl_pending_msg_offset c - HDR_SIZE \<le> ub_len b))"
  using rx_invD [OF invD(3) [OF reach_inv [OF assms(1,2)]] assms(3)]
  by (simp add: rx_ok_def pending_ok_def split: option.splits)

theorem reach_rx_bounds_witness:
  "\<exists>c. clients (net w_daemon) 7000 = Some c \<and> length (cl_hdrbuf c) = 12"
  using reach_rx_bounds [OF w_daemon_reach ref_env_ok, of 7000] w_daemon_client
  by (auto simp: HDRBUF_SIZE_def)

section \<open>The registry\<close>

text \<open>C10. In every reachable state an object belongs to a connected client that lists it, or is one of
  the daemon's own, with a handler and without a path; an object has a path exactly when the
  path tree leads to it, and the tree is sorted and has no path twice; and the reference count of
  an object type is the number of objects of that type, which is not zero.\<close>

theorem reach_objects:
  assumes "ubusd_reach E d" and "lib_ok E" and "objects d oid = Some ob"
  shows "(case obj_client ob of
            Some cl \<Rightarrow> (\<exists>c. clients (net d) cl = Some c \<and> oid \<in> set (cl_objects c))
          | None \<Rightarrow> obj_recv_msg ob \<noteq> None \<and> obj_path ob = None) \<and>
    sorted (map fst (path d)) \<and> distinct (map fst (path d)) \<and>
    (\<forall>p. (p, oid) \<in> set (path d) \<longleftrightarrow> obj_path ob = Some p) \<and>
    (\<forall>tid. obj_type ob = Some tid \<longrightarrow>
       (\<exists>t. obj_types d tid = Some t \<and> 0 < ty_refcount t \<and>
          ty_refcount t = int (card {i. obj_field None obj_type d i = Some tid})))"
proof -
  note w = daemon_wfD [OF invD(1) [OF reach_inv [OF assms(1,2)]]]
  note r = reg_wfD [OF w(2)] and o = owners_okD [OF reg_wfD(1) [OF w(2)]]
  have f: "r_owner (reg d) oid = obj_client ob" "r_pathof (reg d) oid = obj_path ob"
    "r_typeof (reg d) oid = obj_type ob" "r_recv (reg d) oid = obj_recv_msg ob"
    using assms(3) by (simp_all add: obj_field_def)
  have "\<exists>c. clients (net d) cl = Some c \<and> oid \<in> set (cl_objects c)" if "obj_client ob = Some cl" for cl
    using o(1) [of oid cl] that f(1) by (cases "clients (net d) cl") (auto simp: cl_field_def)
  moreover have "obj_recv_msg ob \<noteq> None \<and> obj_path ob = None" if "obj_client ob = None"
    using w(3) [unfolded served_ok_def, rule_format, of oid] that f assms(3) by (simp add: domI)
  moreover have "sorted (map fst (path d))" "distinct (map fst (path d))"
    "\<forall>p. (p, oid) \<in> set (path d) \<longleftrightarrow> obj_path ob = Some p"
    using r(4) f by (simp_all add: path_ok_def)
  moreover have "\<exists>t. obj_types d tid = Some t \<and> 0 < ty_refcount t \<and>
      ty_refcount t = int (card {i. obj_field None obj_type d i = Some tid})" if t: "obj_type ob = Some tid" for tid
  proof -
    have fin: "finite {i. r_typeof (reg d) i = Some tid}"
      by (rule finite_subset [of _ "r_objs (reg d)"]) (use o(6) r(3) in \<open>force simp: types_ok_def\<close>)+
    have "0 < type_refs (reg d) tid"
      unfolding type_refs_def using fin t f(3) by (auto simp: card_gt_0_iff)
    moreover have "case obj_types d tid of None \<Rightarrow> type_refs (reg d) tid = 0
      | Some t \<Rightarrow> ty_refcount t = int (type_refs (reg d) tid)"
      using r(3) unfolding types_ok_def by (auto dest!: spec [of _ tid] split: option.splits)
    ultimately show ?thesis by (simp add: type_refs_def split: option.splits)
  qed
  ultimately show ?thesis by (simp split: option.split)
qed

theorem reach_objects_witness: "\<exists>ob. objects w_daemon 1 = Some ob \<and> obj_recv_msg ob \<noteq> None \<and> obj_path ob = None"
proof -
  obtain ob where ob: "objects w_daemon 1 = Some ob" using w_daemon_object by auto
  have "map_option obj_client (objects w_daemon 1) = Some None"
    by (simp add: w_daemon_def w_peer_def start_exec msg_exec client_exec Let_def)
  with ob reach_objects [OF w_daemon_reach ref_env_ok ob] show ?thesis by simp
qed

text \<open>C11. In every reachable state a subscription links two different objects, both owned by
  connected clients, and is in the target list of the subscriber and in the subscriber list of the
  target; and these lists hold nothing but such subscriptions. The same goes for event patterns
  and the objects that registered them.\<close>

theorem reach_links:
  assumes "ubusd_reach E d" and "lib_ok E"
  shows "(\<forall>a s. subs d a = Some s \<longrightarrow> sub_subscriber s \<noteq> sub_target s \<and>
      live_owner d (sub_subscriber s) \<and> live_owner d (sub_target s) \<and>
      a \<in> set (obj_field [] obj_target_list d (sub_subscriber s)) \<and>
      a \<in> set (obj_field [] obj_subscribers d (sub_target s))) \<and>
    (\<forall>oid ob. objects d oid = Some ob \<longrightarrow>
      (\<forall>a\<in>set (obj_subscribers ob). \<exists>s. subs d a = Some s \<and> sub_target s = oid) \<and>
      (\<forall>a\<in>set (obj_target_list ob). \<exists>s. subs d a = Some s \<and> sub_subscriber s = oid) \<and>
      (\<forall>a\<in>set (obj_events ob). \<exists>k ev. (k, ev) \<in> set (patterns d) \<and> ev_addr ev = a \<and> ev_obj ev = oid)) \<and>
    (\<forall>k ev. (k, ev) \<in> set (patterns d) \<longrightarrow>
      live_owner d (ev_obj ev) \<and> ev_addr ev \<in> set (obj_field [] obj_events d (ev_obj ev)))"
proof -
  note w = daemon_wfD(2) [OF invD(1) [OF reach_inv [OF assms]]]
  note s = subs_okD [OF reg_wfD(5) [OF w]] and e = events_okD [OF reg_wfD(6) [OF w]]
  note l = live_objects [OF w]
  have f: "r_subscribers (reg d) oid = obj_subscribers ob" "r_targets (reg d) oid = obj_target_list ob"
    "r_events (reg d) oid = obj_events ob" if "objects d oid = Some ob" for oid ob
    using that by (simp_all add: obj_field_def)
  show ?thesis
  proof (intro conjI allI impI)
    fix oid ob assume "objects d oid = Some ob"
    note f = f [OF this]
    show "\<forall>a\<in>set (obj_subscribers ob). \<exists>s. subs d a = Some s \<and> sub_target s = oid"
      and "\<forall>a\<in>set (obj_target_list ob). \<exists>s. subs d a = Some s \<and> sub_subscriber s = oid"
      and "\<forall>a\<in>set (obj_events ob). \<exists>k ev. (k, ev) \<in> set (patterns d) \<and> ev_addr ev = a \<and> ev_obj ev = oid"
      using s(7,8) [of _ oid, unfolded f] e(3) [of _ oid, unfolded f] by simp_all
  qed (use l s(2-4) e(1) in simp_all)
qed

theorem reach_links_witness:
  "\<exists>ob. objects w_daemon 1 = Some ob \<and> filter (\<lambda>a. subs w_daemon a = None) (obj_subscribers ob) = [] \<and>
     filter (\<lambda>(_, ev). \<not> live_owner w_daemon (ev_obj ev)) (patterns w_daemon) = []"
proof -
  obtain ob where ob: "objects w_daemon 1 = Some ob" using w_daemon_object by auto
  with reach_links [OF w_daemon_reach ref_env_ok] show ?thesis by (force simp: filter_empty_conv)
qed

section \<open>Disconnecting\<close>

text \<open>The lists of an object hold exactly the subscriptions it takes part in; this survives the
  removal of objects.\<close>

definition linked :: "registry \<Rightarrow> bool" where
  "linked r \<longleftrightarrow> (\<forall>oid a. a \<in> set (r_targets r oid) \<union> set (r_subscribers r oid) \<longleftrightarrow>
     (\<exists>s. r_subs r a = Some s \<and> (sub_subscriber s = oid \<or> sub_target s = oid)))"

lemma reg_wf_linked: "reg_wf K r \<Longrightarrow> linked r"
  using subs_okD [OF reg_wfD(5), of K r] unfolding linked_def by blast

lemma r_remove_lists:
  "r_path (r_remove oid r) = filter (\<lambda>(_, i). i \<noteq> oid) (r_path r)"
  "r_patterns (r_remove oid r) = filter (\<lambda>(_, ev). ev_obj ev \<noteq> oid) (r_patterns r)"
  "r_subs (r_remove oid r) = (\<lambda>a. if a \<in> set (r_targets r oid) \<union> set (r_subscribers r oid) then None else r_subs r a)"
  "r_targets (r_remove oid r) i = filter (\<lambda>a. a \<notin> set (r_targets r oid) \<union> set (r_subscribers r oid)) (r_targets r i)"
  "r_subscribers (r_remove oid r) i = filter (\<lambda>a. a \<notin> set (r_targets r oid) \<union> set (r_subscribers r oid)) (r_subscribers r i)"
  by (simp_all add: r_remove_def r_delete_def r_clear_patterns_def r_drop_subs_def r_unref_type_def Let_def
      split: option.splits)

definition sub_of :: "u32 set \<Rightarrow> ubus_subscription \<Rightarrow> bool" where
  "sub_of S s \<longleftrightarrow> sub_subscriber s \<in> S \<or> sub_target s \<in> S"

lemma r_removes_lists:
  assumes "linked r"
  shows "r_path (fold r_remove xs r) = filter (\<lambda>(_, i). i \<notin> set xs) (r_path r) \<and>
    r_patterns (fold r_remove xs r) = filter (\<lambda>(_, ev). ev_obj ev \<notin> set xs) (r_patterns r) \<and>
    r_subs (fold r_remove xs r) = (\<lambda>a. case r_subs r a of None \<Rightarrow> None
      | Some s \<Rightarrow> if sub_of (set xs) s then None else Some s)"
  using assms
proof (induction xs arbitrary: r)
  case Nil
  then show ?case by (auto simp: sub_of_def fun_eq_iff case_prod_unfold split: option.splits)
next
  case (Cons x xs)
  have subs: "r_subs (r_remove x r) = (\<lambda>a. case r_subs r a of None \<Rightarrow> None
      | Some s \<Rightarrow> if sub_of {x} s then None else Some s)"
    using Cons.prems unfolding linked_def r_remove_lists(3) by (auto simp: fun_eq_iff sub_of_def split: option.splits)
  have "linked (r_remove x r)"
    using Cons.prems unfolding linked_def subs r_remove_lists(4,5)
    by (auto simp: sub_of_def split: option.splits if_splits)
  note IH = Cons.IH [OF this]
  show ?case
    using IH unfolding subs r_remove_lists(1,2)
    by (auto simp: fun_eq_iff sub_of_def case_prod_unfold conj_commute split: option.splits)
qed

text \<open>C3. When a client disconnects, the daemon forgets everything about it and nothing about anyone
  else: the client and its monitor are gone, exactly the objects it owned are gone, with their
  paths, their event patterns and the subscriptions they take part in on either side; the rest
  keeps its order; and no freed memory is touched on the way.\<close>

theorem disconnect_forgets:
  assumes "ubusd_reach E d" and "lib_ok E" and c: "clients (net d) cl = Some c"
    and d': "d' = handle_client_disconnect E cl d"
  shows "\<not> fault (net d') \<and> dom (clients (net d')) = dom (clients (net d)) - {cl} \<and>
    client_tree d' = client_tree d - {cl} \<and>
    map mon_cl (monitors (net d')) = filter (\<lambda>i. i \<noteq> cl) (map mon_cl (monitors (net d))) \<and>
    dom (objects d') = {oid \<in> dom (objects d). owner d oid \<noteq> Some cl} \<and>
    path d' = filter (\<lambda>(_, oid). owner d oid \<noteq> Some cl) (path d) \<and>
    patterns d' = filter (\<lambda>(_, ev). owner d (ev_obj ev) \<noteq> Some cl) (patterns d) \<and>
    subs d' = (\<lambda>a. case subs d a of None \<Rightarrow> None
      | Some s \<Rightarrow> if owner d (sub_subscriber s) = Some cl \<or> owner d (sub_target s) = Some cl then None else Some s)"
proof -
  have i: "daemon_inv E d" by (rule reach_inv [OF assms(1,2)])
  note dis = disconnect_ok [OF i c d']
  note w = daemon_wfD(2) [OF invD(1) [OF i]]
  have own: "oid \<in> set (cl_objects c) \<longleftrightarrow> owner d oid = Some cl" for oid
    using owners_okD(1) [OF reg_wfD(1) [OF w], of oid cl] c by (simp add: owner_def cl_field_def)
  define r where "r = r_monitor False cl (reg d)"
  have m: "r_client r = r_client (reg d)" "r_tree r = client_tree d" "r_objs r = dom (objects d)" "r_path r = path d"
    "r_patterns r = patterns d" "r_subs r = subs d"
    "r_monitors r = filter (\<lambda>i. i \<noteq> cl) (map mon_cl (monitors (net d)))"
    by (simp_all add: r_def r_monitor_def)
  have lk: "linked r" unfolding r_def by (rule reg_wf_linked [OF r_monitor_wf [OF w]])
  note l = r_removes_lists [OF lk, of "cl_objects c", unfolded m]
    and f = r_removes_fields [of "cl_objects c" r, unfolded m]
  note eq = dis(2) [folded r_def, unfolded r_leave_def]
  have "dom (r_client (reg d')) = dom (r_client (reg d)) - {cl}"
    unfolding eq by (auto simp: f simp del: reg_sel)
  then have "dom (clients (net d')) = dom (clients (net d)) - {cl}" by (simp add: dom_def)
  moreover have "\<not> fault (net d')" by (rule net_wfD(1) [OF daemon_wfD(1) [OF invD(1) [OF dis(1)]]])
  moreover have "client_tree d' = client_tree d - {cl}"
    "map mon_cl (monitors (net d')) = filter (\<lambda>i. i \<noteq> cl) (map mon_cl (monitors (net d)))"
    "dom (objects d') = dom (objects d) - set (cl_objects c)"
    using arg_cong [OF eq, of r_tree] arg_cong [OF eq, of r_monitors] arg_cong [OF eq, of r_objs]
    by (simp_all add: f)
  moreover have "path d' = filter (\<lambda>(_, i). i \<notin> set (cl_objects c)) (path d)"
    "patterns d' = filter (\<lambda>(_, ev). ev_obj ev \<notin> set (cl_objects c)) (patterns d)"
    "subs d' = (\<lambda>a. case subs d a of None \<Rightarrow> None
      | Some s \<Rightarrow> if sub_of (set (cl_objects c)) s then None else Some s)"
    using arg_cong [OF eq, of r_path] arg_cong [OF eq, of r_patterns] arg_cong [OF eq, of r_subs]
    by (simp_all add: l)
  moreover have "dom (objects d) - set (cl_objects c) = {oid \<in> dom (objects d). owner d oid \<noteq> Some cl}"
    using own by blast
  moreover have so: "sub_of (set (cl_objects c)) =
      (\<lambda>s. owner d (sub_subscriber s) = Some cl \<or> owner d (sub_target s) = Some cl)"
    by (simp add: fun_eq_iff sub_of_def own)
  ultimately show ?thesis unfolding so by (simp add: own)
qed

theorem disconnect_forgets_witness: "7000 \<notin> dom (clients (net (handle_client_disconnect ref_env 7000 w_daemon)))"
proof -
  obtain c where c: "clients (net w_daemon) 7000 = Some c" using w_daemon_client by auto
  show ?thesis using disconnect_forgets [OF w_daemon_reach ref_env_ok c refl] by simp
qed

end
