(* ===== verification/Ubus_Wire.thy ===== *)
theory Ubus_Wire
  imports Ubusd_Exec
begin

text \<open>
  An environment for runs that start from bytes on the wire. \<open>wire_env\<close> is the reference environment
  with a parser that also decodes received blobs: an attribute is a byte with its number, its length
  in the last of the next three bytes, and its value padded to a multiple of four.
\<close>

fun wire_attrs :: "nat \<Rightarrow> u8 list \<Rightarrow> (nat \<times> u8 list) list" where
  "wire_attrs (Suc k) (i # _ # _ # l # bs) =
     (unat i, take (unat l - 4) bs) # wire_attrs k (drop ((unat l + 3) div 4 * 4 - 4) bs)"
| "wire_attrs _ _ = []"

definition wire_value :: "blob_type option \<Rightarrow> u8 list \<Rightarrow> blob_attr" where
  "wire_value ty bs =
     (case (ty, bs) of
        (Some BLOB_ATTR_INT32, [a, b, c, d]) \<Rightarrow> Blob_int32 (be32_of a b c d)
      | (Some BLOB_ATTR_STRING, _) \<Rightarrow> Blob_string (map (char_of \<circ> unat) (butlast bs))
      | _ \<Rightarrow> Blob_bytes bs)"

definition wire_parse :: "(ubus_msg_attr \<Rightarrow> blob_type option) \<Rightarrow> blob \<Rightarrow> attr_table" where
  "wire_parse p d a =
     (case d of
        Built as \<Rightarrow> map_of as (ubus_attr_code a)
      | Raw bs \<Rightarrow> map_option (wire_value (p a)) (map_of (wire_attrs (Suc (Suc 0)) (drop 4 bs)) (ubus_attr_code a)))"

definition wire_env :: env where
  "wire_env = ref_env\<lparr>blob_parse := wire_parse\<rparr>"

lemma wire_env_ok: "lib_ok wire_env"
  using ref_env_ok by (simp add: lib_ok_def avl_law_def sendmsg_law_def blob_law_def vlist_law_def wire_env_def)

lemma wire_env_sel [simp]:
  "blob_encode wire_env = ref_encode" "blob_parse wire_env = wire_parse" "calloc_ok wire_env i"
  "sendmsg_res wire_env i n = Sent n" "getpwuid wire_env u = Some ''root''"
  "getgrgid wire_env g = Some ''root''" "blob_get_u32 wire_env (Blob_int32 v) = v" "blob_str wire_env (Blob_string s) = s"
  "blob_hdr_raw_len wire_env = blob_hdr_raw_len ref_env" "blob_hdr_pad_len wire_env = blob_hdr_pad_len ref_env"
  by (simp_all add: wire_env_def)

lemma ref_len [simp]: "blob_hdr_raw_len ref_env [0, 0, 0, 24] = 24" "blob_hdr_pad_len ref_env [0, 0, 0, 24] = 24"
  by (simp_all add: ref_env_def be32_of_def)

end
