(* ===== verification/Ubusd_Sent.thy ===== *)
theory Ubusd_Sent
  imports Ubusd_Run
begin

text \<open>
  Which messages the helpers of the protocol handlers hand to \<open>ubus_msg_send\<close>: \<open>sent\<close> records each with
  its receiver, header, data and descriptor.
\<close>

definition msg_hdr :: "ubus_msg_type \<Rightarrow> u16 \<Rightarrow> u32 \<Rightarrow> ubus_msghdr" where
  "msg_hdr ty seq peer = \<lparr>hdr_version = 0, hdr_type = ubus_msg_code ty, hdr_seq = seq, hdr_peer = peer\<rparr>"

lemma sent_from_blob:
  assumes wf: "net_wf H n" and c: "clients n cl = Some c" and b: "bufs n ub = Some b"
  shows "sent (ubus_proto_send_msg_from_blob E cl ub attrs ty n) = sent n @
    (if calloc_ok E (n_calloc n)
     then [(cl, msg_hdr ty (hdr_seq (ub_hdr b)) (hdr_peer (ub_hdr b)), Built attrs, ub_fd b)] else [])"
proof -
  have "ub \<noteq> next_addr n" using net_wf_next_addr(1) [OF wf, of ub] b by auto
  then show ?thesis using b c
    by (simp add: ubus_proto_send_msg_from_blob_def ubus_reply_from_blob_def ubus_msg_from_blob_def
        ubus_msg_new_def calloc_def Let_def upd_buf_def sent_send ubus_msg_init_def msg_hdr_def)
qed

lemma bufs_from_blob:
  assumes wf: "net_wf H n" and c: "clients n cl = Some c" and b: "bufs n ub = Some b"
  shows "bufs (ubus_proto_send_msg_from_blob E cl ub attrs ty n) ub = Some b"
  using keepsD [OF keeps_send_msg_from_blob net_wf_ub_less [OF wf b], of "{}"] b by simp

lemma sent_send_new:
  "send_new E cl attrs sh ty seq peer n = (True, n') \<Longrightarrow> clients n cl = Some c \<Longrightarrow>
   sent n' = sent n @ [(cl, msg_hdr ty seq peer, Built attrs, - 1)]"
  by (auto simp: send_new_def ubus_msg_from_blob_def ubus_msg_new_def calloc_def Let_def upd_buf_def sent_send
      ubus_msg_init_def msg_hdr_def split: if_splits)

lemma sent_acl_init: "ubusd_acl_init_client E p n = (r, n') \<Longrightarrow> sent n' = sent n"
  by (auto simp: ubusd_acl_init_client_def ubusd_acl_load_extra_gids_def dest!: sent_calloc
      split: option.splits prod.splits bool.splits)

lemma sent_init_retmsg: "ubusd_proto_init_retmsg E n = (r, n') \<Longrightarrow> sent n' = sent n"
  by (auto simp: ubusd_proto_init_retmsg_def Let_def dest!: sent_calloc sent_msg_new split: option.splits prod.splits bool.splits)

lemma sent_alloc_id:
  "ubus_alloc_id t 0 n = (Some i, n') \<Longrightarrow> sent n' = sent n \<and> t i = None \<and> UBUS_SYSTEM_OBJECT_MAX \<le> i"
  using ubus_alloc_id_net [of t 0 n "Some i" n'] ubus_alloc_id_Some [of t 0 n i n'] by auto

section \<open>A client that waits for nothing\<close>

text \<open>When the socket takes whatever it is given, nothing is queued for a client whose queue is empty, and
  a message is written at once.\<close>

definition takes_all :: "env \<Rightarrow> bool" where
  "takes_all E \<longleftrightarrow> (\<forall>i l. sendmsg_res E i l = Sent l) \<and> (\<forall>i. calloc_ok E i)"

definition idle :: "u32 \<Rightarrow> net \<Rightarrow> bool" where
  "idle cl n \<longleftrightarrow> (\<exists>c. clients n cl = Some c \<and> \<not> cl_eof c \<and> cl_tx_queue c = []) \<and> monitors n = []"

lemma send_now:
  assumes "idle cl n" and "takes_all E" and "bufs n ub = Some b" and "ub_len b \<le> blob_raw_len E (ub_data b)"
  defines "n' \<equiv> ubus_msg_send E cl ub n"
  shows "clients n' = clients n" "bufs n' = bufs n" "closed_fds n' = closed_fds n" "monitors n' = monitors n"
  using assms by (auto simp: idle_def takes_all_def ubus_msg_send_def ubusd_monitor_message_def ubus_msg_write_def ubus_msg_writev_def
      writev_iov_def blob_raw_len_def log_sent_def send_written_def HDR_SIZE_def Let_def)

lemma reply_now:
  fixes attrs :: "(nat \<times> blob_attr) list" and ty :: ubus_msg_type
  assumes "idle cl n" and "takes_all E" and "bufs n ub = Some b" and "ub < next_addr n"
  defines "n' \<equiv> ubus_proto_send_msg_from_blob E cl ub attrs ty n"
  shows "clients n' = clients n" "a < next_addr n \<Longrightarrow> bufs n' a = bufs n a" "monitors n' = monitors n"
    "closed_fds n' = closed_fds n @ (if 0 \<le> ub_fd b then [ub_fd b] else [])"
proof -
  let ?b = "\<lparr>ub_refcount = USES_EXTERNAL_BUFFER, ub_hdr = \<lparr>hdr_version = 0, hdr_type = ubus_msg_code ty,
    hdr_seq = hdr_seq (ub_hdr b), hdr_peer = hdr_peer (ub_hdr b)\<rparr>, ub_data = Built attrs, ub_fd = ub_fd b, ub_len = blob_raw_len E (Built attrs)\<rparr>"
  define m where "m = n\<lparr>n_calloc := Suc (n_calloc n), next_addr := Suc (next_addr n), bufs := (bufs n)(next_addr n \<mapsto> ?b)\<rparr>"
  have n': "n' = ubus_msg_free (next_addr n) (ubus_msg_send E cl (next_addr n) m)"
    using assms(2-4) by (simp add: n'_def m_def takes_all_def ubus_proto_send_msg_from_blob_def ubus_reply_from_blob_def
        ubus_msg_from_blob_def ubus_msg_new_def calloc_def upd_buf_def ubus_msg_init_def Let_def)
  have "idle cl m" using assms(1) by (simp add: idle_def m_def)
  note s = send_now [OF this assms(2), of "next_addr n" ?b]
  have mb: "bufs m (next_addr n) = Some ?b" "\<And>a. a < next_addr n \<Longrightarrow> bufs m a = bufs n a"
    "clients m = clients n" "monitors m = monitors n" "closed_fds m = closed_fds n" by (simp_all add: m_def)
  show "clients n' = clients n" "a < next_addr n \<Longrightarrow> bufs n' a = bufs n a" "monitors n' = monitors n"
    "closed_fds n' = closed_fds n @ (if 0 \<le> ub_fd b then [ub_fd b] else [])"
    using s mb by (simp_all add: n' ubus_msg_free_def close_fd_def Let_def)
qed

text \<open>Writing or queueing a message closes no descriptor.\<close>

lemma closed_writev: "ubus_msg_writev E cl ub ofs n = (r, n') \<Longrightarrow> closed_fds n' = closed_fds n"
  by (auto simp: ubus_msg_writev_def set_fault_def Let_def split: option.splits send_res.splits)

lemma closed_ref: "ubus_msg_ref E ub n = (r, n') \<Longrightarrow> closed_fds n' = closed_fds n"
  by (auto simp: ubus_msg_ref_def ubus_msg_new_def calloc_def upd_buf_def set_fault_def Let_def split: option.splits if_splits)

lemma closed_upd_client: "closed_fds (upd_client cl f n) = closed_fds n"
  by (simp add: upd_client_def set_fault_def split: option.split)

lemma closed_upd_buf: "closed_fds (upd_buf ub f n) = closed_fds n"
  by (simp add: upd_buf_def set_fault_def split: option.split)

lemma closed_enqueue: "closed_fds (snd (ubus_msg_enqueue E cl ub n)) = closed_fds n"
  by (auto simp: ubus_msg_enqueue_def calloc_def closed_upd_client set_fault_def dest!: closed_ref split: option.split prod.splits bool.split)

lemma closed_write: "closed_fds (ubus_msg_write E cl ub n) = closed_fds n"
proof -
  have "closed_fds n' = closed_fds m" if "ubus_msg_enqueue E cl ub (upd_client cl f m) = (x, n')" for f m x n'
    using closed_enqueue [of E cl ub "upd_client cl f m"] that by (simp add: closed_upd_client)
  then show ?thesis
    by (auto simp: ubus_msg_write_def closed_enqueue closed_upd_client set_fault_def Let_def dest: closed_writev
      split: option.split prod.split bool.split)
qed

lemma closed_send: "monitors n = [] \<Longrightarrow> closed_fds (ubus_msg_send E cl ub n) = closed_fds n"
  by (simp add: ubus_msg_send_def ubusd_monitor_message_def closed_write log_sent_def set_fault_def Let_def split: option.split)

end
