(* ===== verification/Props_Findings.thy ===== *)
theory Props_Findings
  imports Ubus_Wire Ubusd_Sent
begin

text \<open>
  A defect of the daemon: a descriptor that a client attaches to a query of the access control object is
  closed twice. The witness is a run that starts from bytes on the wire.
\<close>

text \<open>An invocation of method \<open>query\<close> of object 2 for object 2, with descriptor 9.\<close>

definition query_hdr :: "u8 list" where
  "query_hdr = [0, 5, 0, 1, 0, 0, 0, 0, 0, 0, 0, 24]"

definition query_body :: "u8 list" where
  "query_body = [3, 0, 0, 8, 0, 0, 0, 2, 4, 0, 0, 10, 113, 117, 101, 114, 121, 0, 0, 0]"

definition query_pass :: rx_pass where
  "query_pass = \<lparr>rp_hdr = Some (query_hdr, [\<lparr>cm_rights = True, cm_len_ok = True, cm_fd = 9\<rparr>]), rp_body = Some query_body\<rparr>"

definition w_wire :: daemon where
  "w_wire = server_cb wire_env [Accepted 5 w_peer] (ubusd_start wire_env [Some 7000] None)"

lemma w_wire_parts:
  obtains c r where "clients (net w_wire) 7000 = Some c" "cl_tx_queue c = []" "\<not> cl_eof c" "cl_pending_msg c = None"
    "cl_pending_msg_offset c = 0" "cl_pending_msg_fd c = - 1" "length (cl_hdrbuf c) = 12" "cl_objects c = []"
    "cl_retmsg c = 0" "bufs (net w_wire) 0 = Some r" "closed_fds (net w_wire) = []" "monitors (net w_wire) = []"
    "next_addr (net w_wire) = 2" "ub_fd r = - 1" "ub_data r = Built [(Suc 0, Blob_int32 0)]"
    "ub_len r = length (ref_encode [(Suc 0, Blob_int32 0)])" "hdr_type (ub_hdr r) = ubus_msg_code UBUS_MSG_STATUS"
  by (simp add: w_wire_def w_peer_def start_exec msg_exec client_exec Let_def)

lemma w_wire_obj: "\<exists>ob. objects w_wire 2 = Some ob \<and> obj_client ob = None \<and> obj_recv_msg ob = Some Acl_recv \<and> obj_path ob = None"
  by (simp add: w_wire_def w_peer_def start_exec msg_exec client_exec Let_def)

definition query_buf :: ubus_msg_buf where
  "query_buf = \<lparr>ub_refcount = 1, ub_hdr = \<lparr>hdr_version = 0, hdr_type = 5, hdr_seq = 1, hdr_peer = 0\<rparr>,
     ub_data = Raw ([0, 0, 0, 24] @ query_body), ub_fd = - 1, ub_len = 24\<rparr>"

lemma query_received:
  assumes c: "clients (net w_wire) 7000 = Some c"
  shows "\<exists>n n' c'. rx_header wire_env (rp_hdr query_pass) 7000 (net w_wire) = (Go, n) \<and>
    clients n 7000 = Some c' \<and> cl_pending_msg c' = Some 2 \<and> 
    rx_body wire_env (rp_body query_pass) 7000 2 n = (Go, n') \<and>
    n' = (net w_wire)\<lparr>bufs := (bufs (net w_wire))(2 \<mapsto> query_buf), next_addr := 3, n_calloc := Suc (n_calloc (net w_wire)),
      clients := (clients (net w_wire))(7000 \<mapsto> c')\<rparr> \<and> cl_pending_msg_fd c' = 9 \<and>
    cl_retmsg c' = 0 \<and> \<not> cl_eof c' \<and> cl_tx_queue c' = [] \<and> cl_objects c' = []"
proof -
  obtain c0 r where 0: "clients (net w_wire) 7000 = Some c0" "cl_tx_queue c0 = []" "\<not> cl_eof c0" "cl_pending_msg c0 = None"
    "cl_pending_msg_offset c0 = 0" "cl_pending_msg_fd c0 = - 1" "length (cl_hdrbuf c0) = 12" "cl_objects c0 = []"
    "cl_retmsg c0 = 0" "bufs (net w_wire) 0 = Some r" "closed_fds (net w_wire) = []" "monitors (net w_wire) = []"
    "next_addr (net w_wire) = 2" by (rule w_wire_parts)
  show ?thesis
    by (simp add: query_pass_def query_hdr_def rx_header_def 0 HDRBUF_SIZE_def splice_def upd_client_def rx_start_def
      HDR_SIZE_def UBUS_MAX_MSGLEN_def ubus_msg_new_def calloc_def buf_store_def upd_buf_def blob_image_def Let_def)
     (simp add: rx_body_def HDR_SIZE_def buf_store_def upd_buf_def blob_image_def query_body_def query_buf_def splice_def
      be16_of_def be32_of_def Let_def)
qed

lemma query_parsed:
  "wire_parse ubus_policy (ub_data query_buf) UBUS_ATTR_METHOD = Some (Blob_string ''query'')"
  "wire_parse ubus_policy (ub_data query_buf) UBUS_ATTR_OBJID = Some (Blob_int32 2)"
  by (simp_all add: wire_parse_def query_buf_def query_body_def ubus_policy_def wire_value_def be32_of_def char_of_def bit_simps)

section \<open>A query with a descriptor\<close>

lemma fold_reply_same:
  "\<forall>oid\<in>set oids. objects d oid \<noteq> None \<Longrightarrow> \<exists>bs'. fold ubusd_reply_add oids (bs, d) = (bs', d)"
  by (induction oids arbitrary: bs) (auto simp: ubusd_reply_add_def split: option.split)

lemma owned_exist:
  assumes "reg_wf K (reg d)" and c: "clients (net d) cl = Some c"
  shows "\<forall>oid\<in>set (cl_objects c). objects d oid \<noteq> None"
proof
  fix oid assume "oid \<in> set (cl_objects c)"
  then have "r_owner (reg d) oid = Some cl"
    using reg_wfD(1) [OF assms(1)] c unfolding owners_ok_def by (simp add: cl_field_def)
  then show "objects d oid \<noteq> None" by (auto simp: obj_field_def split: option.splits)
qed

lemma query_reply:
  assumes o: "\<forall>oid\<in>set (cl_objects c). objects d oid \<noteq> None"
    and c: "clients (net d) cl = Some c" and b: "bufs (net d) ub = Some b"
    and q: "ubus_parse_msg E (ub_data b) UBUS_ATTR_OBJID = Some ia" "ubusd_find_object (blob_get_u32 E ia) d \<noteq> None"
  obtains attrs where "ubusd_acl_recv E cl ub ''query'' msg d =
    (UBUS_STATUS_OK, on_net (ubus_proto_send_msg_from_blob E cl ub attrs UBUS_MSG_DATA) d)"
proof -
  from fold_reply_same [OF o] obtain bs where "fold ubusd_reply_add (cl_objects c) ([], d) = (bs, d)" by blast
  with q b c that show thesis by (auto simp: ubusd_acl_recv_def ubusd_reply_query_def Let_def)
qed

text \<open>C36. A descriptor that a client attaches to a query of the access control object is closed twice:
  once with the reply, which \<open>ubusd_reply_query\<close> hands the descriptor to, and once with the request, which
  keeps it. The client is idle, so that its socket takes the reply at once and no copy is queued.\<close>

theorem acl_query_closes_twice:
  assumes i: "daemon_inv E d" and E: "takes_all E" and idle: "idle cl (net d)"
    and c: "clients (net d) cl = Some c" "cl_pending_msg c = Some ub" "0 \<le> cl_pending_msg_fd c"
    and b: "bufs (net d) ub = Some b" "hdr_type (ub_hdr b) = ubus_msg_code UBUS_MSG_INVOKE"
    and q: "ubus_parse_msg E (ub_data b) UBUS_ATTR_METHOD = Some ma" "blob_str E ma = ''query''"
      "ubus_parse_msg E (ub_data b) UBUS_ATTR_OBJID = Some ia" "blob_get_u32 E ia = UBUS_SYSTEM_OBJECT_ACL"
    and ob: "objects d UBUS_SYSTEM_OBJECT_ACL = Some ob" "obj_client ob = None" "obj_recv_msg ob = Some Acl_recv"
  shows "closed_fds (net (rx_accept E cl ub d)) = closed_fds (net d) @ [cl_pending_msg_fd c, cl_pending_msg_fd c]"
proof -
  note w = daemon_wfD [OF invD(1) [OF i]]
  have b1: "ub_refcount b = 1" using rx_okD [OF rx_invD [OF invD(3) [OF i] c(1)] c(2)] b(1) by (metis option.inject)
  obtain r where r: "bufs (net d) (cl_retmsg c) = Some r" "ub_refcount r = USES_EXTERNAL_BUFFER"
    by (rule retmsg_external [OF w(1) c(1)])
  have ne: "cl_retmsg c \<noteq> ub" using r b(1) b1 by (auto simp: USES_EXTERNAL_BUFFER_def)
  have less: "ub < next_addr (net d)" by (rule net_wf_ub_less [OF w(1) b(1)])
  have p: "obj_path ob = None" using w(3) ob(1,2) by (auto simp: served_ok_def obj_field_def)
  define b' where "b' = b\<lparr>ub_fd := cl_pending_msg_fd c\<rparr>"
  define c' where "c' = c\<lparr>cl_pending_msg_fd := - 1, cl_pending_msg_offset := 0, cl_pending_msg := None\<rparr>"
  define n where "n = retmsg_hdr (cl_retmsg c) b' ((net d)\<lparr>bufs := (bufs (net d))(ub \<mapsto> b'), clients := (clients (net d))(cl \<mapsto> c')\<rparr>)"
  have n: "clients n cl = Some c'" "bufs n ub = Some b'" "idle cl n" "next_addr n = next_addr (net d)" "closed_fds n = closed_fds (net d)"
    using idle c ne r by (auto simp: n_def retmsg_hdr_def upd_buf_def idle_def c'_def)
  have o: "\<forall>oid\<in>set (cl_objects c'). objects (d\<lparr>net := n\<rparr>) oid \<noteq> None" using owned_exist [OF w(2) c(1)] by (simp add: c'_def)
  have "ubusd_find_object (blob_get_u32 E ia) (d\<lparr>net := n\<rparr>) \<noteq> None"
    using q(4) ob(1) by (simp add: ubusd_find_object_def ubus_find_id_def)
  from query_reply [OF o _ _ _ this, of cl ub b'] n q(3) obtain attrs where
    a: "ubusd_acl_recv E cl ub ''query'' (ubus_parse_msg E (ub_data b) UBUS_ATTR_DATA) (d\<lparr>net := n\<rparr>) =
      (UBUS_STATUS_OK, on_net (ubus_proto_send_msg_from_blob E cl ub attrs UBUS_MSG_DATA) (d\<lparr>net := n\<rparr>))"
    by (auto simp: b'_def)
  define n' where "n' = ubus_proto_send_msg_from_blob E cl ub attrs UBUS_MSG_DATA n"
  note rn = reply_now [OF n(3) E n(2), where attrs = attrs and ty = UBUS_MSG_DATA, folded n'_def]
  have h: "handler_of (ubus_msg_code UBUS_MSG_INVOKE) = Some ubusd_handle_invoke"
    by (simp add: handler_of_def handlers_def del: ubus_msg_code.simps)
  have k: "ubusd_acl_check d' x None m ty = 0" for d' x m ty by (simp add: ubusd_acl_check_def split: option.split)
  have "rx_accept E cl ub d = d\<lparr>net := retmsg_send E cl (cl_retmsg c) UBUS_STATUS_OK (ubus_msg_free ub n')\<rparr>"
    using c b idle a q ob p
    by (simp add: rx_accept_def upd_buf_def upd_client_def ubusd_monitor_message_def idle_def ubusd_proto_receive_message_def h
      ubusd_handle_invoke_def ubus_find_id_def k recv_internal_def n_def n'_def b'_def c'_def on_net_def Let_def
      del: ubus_msg_code.simps)
  moreover have "closed_fds (ubus_msg_free ub n') = closed_fds (net d) @ [cl_pending_msg_fd c, cl_pending_msg_fd c]"
    using rn n less c(3) b1 by (simp add: ubus_msg_free_def close_fd_def b'_def Let_def USES_EXTERNAL_BUFFER_def)
  ultimately show ?thesis
    using rn(3) n(3) less n(4) by (simp add: retmsg_send_def closed_send closed_upd_buf idle_def)
qed

theorem acl_query_closes_twice_witness:
  "\<exists>n n'. ubusd_reach wire_env w_wire \<and> closed_fds (net w_wire) = [] \<and>
     rx_header wire_env (rp_hdr query_pass) 7000 (net w_wire) = (Go, n) \<and>
     rx_body wire_env (rp_body query_pass) 7000 2 n = (Go, n') \<and>
     closed_fds (net (rx_accept wire_env 7000 2 (w_wire\<lparr>net := n'\<rparr>))) = [9, 9]"
proof -
  have r: "ubusd_reach wire_env w_wire"
    unfolding w_wire_def by (rule ubusd_reach.step [OF ubusd_reach.start ubusd_step.server])
  obtain c where c: "clients (net w_wire) 7000 = Some c" "closed_fds (net w_wire) = []" "monitors (net w_wire) = []"
    by (rule w_wire_parts)
  obtain n n' c' where q: "rx_header wire_env (rp_hdr query_pass) 7000 (net w_wire) = (Go, n)"
    "clients n 7000 = Some c'" "cl_pending_msg c' = Some 2" "rx_body wire_env (rp_body query_pass) 7000 2 n = (Go, n')"
    and n': "n' = (net w_wire)\<lparr>bufs := (bufs (net w_wire))(2 \<mapsto> query_buf), next_addr := 3, n_calloc := Suc (n_calloc (net w_wire)),
      clients := (clients (net w_wire))(7000 \<mapsto> c')\<rparr>" "cl_pending_msg_fd c' = 9" "\<not> cl_eof c'" "cl_tx_queue c' = []"
    using query_received [OF c(1)] by blast
  have "daemon_inv wire_env (w_wire\<lparr>net := n\<rparr>)"
    using rx_header_ok [OF reach_inv [OF r wire_env_ok] c(1) q(1)] by blast
  then have i: "daemon_inv wire_env (w_wire\<lparr>net := n'\<rparr>)"
    using rx_body_ok [of wire_env "w_wire\<lparr>net := n\<rparr>" 7000 c' 2] q by simp
  obtain ob where ob: "objects w_wire 2 = Some ob" "obj_client ob = None" "obj_recv_msg ob = Some Acl_recv"
    using w_wire_obj by blast
  have "takes_all wire_env" "idle 7000 (net (w_wire\<lparr>net := n'\<rparr>))" using n' c by (simp_all add: takes_all_def idle_def)
  from acl_query_closes_twice [OF i this, of c' 2 query_buf "Blob_string ''query''" "Blob_int32 2" ob] q n' ob c(2) query_parsed
  have "closed_fds (net (rx_accept wire_env 7000 2 (w_wire\<lparr>net := n'\<rparr>))) = [9, 9]"
    by (simp add: query_buf_def ubus_parse_msg_def sys_ids)
  with r c(2) q show ?thesis by blast
qed

end
