(* ===== verification/Libubus_State.thy ===== *)
theory Libubus_State
  imports Ubus_Env
begin

text \<open>
  The state of a client of the bus: the structs of src/libubus.h, the static variables of the
  library, and the part of the operating system the library sees.

  One context is modelled. Requests, notify requests, objects, types, subscribers, event handlers
  and the request data of a running method are addressed by heap addresses, since the application
  owns them and the library links them into lists. So is every copy of message data: \<open>blobs\<close> holds
  the content of each live buffer, and reading a buffer that was freed or overwritten sets
  \<open>lib_fault\<close>, as does following any other dangling pointer. An attribute pointer is the address of
  the buffer it points into with the attribute it was parsed from.

  A function pointer is a value that names the function: one constructor per function of the
  library that is used as a callback, and \<open>App n\<close> for those of the application. \<open>lib_call\<close> is a call
  through such a pointer with its arguments. What a call does is a parameter \<open>K\<close> of every operation
  that makes one; it takes the call and the state and gives the result and the new state, or \<open>None\<close>
  when the call does not return. A callback may enter the library again. Theory \<open>Libubus_Callbacks\<close> ties
  the knot.

  What the kernel does is given by lists of results: \<open>sk_in\<close> of the coming \<open>recvmsg\<close> calls, \<open>sk_out\<close> of the
  \<open>sendmsg\<close> calls, \<open>clock\<close> of the clock. A list that runs out stands for a call that never returns.
  \<open>out\<close>, \<open>out_fds\<close>, \<open>shut_fds\<close> and \<open>calls\<close> record the bytes written, the descriptors passed with them, the
  descriptors closed and the callbacks made.
\<close>

section \<open>Function pointers\<close>

datatype data_handler =
    Ubus_lookup_cb | Ubus_lookup_id_cb | Ubus_add_object_cb | Ubus_remove_object_cb
  | Ubus_notify_data_cb | Acl_recv_cb | App_data nat

datatype complete_handler =
    Ubus_sync_req_cb | Ubus_notify_complete_cb | Acl_query_complete_cb | App_complete nat

datatype method_handler = Ubus_subscriber_cb | Ubus_event_cb | App_method nat

datatype lookup_handler = Ubus_auto_sub_lookup | Ubus_auto_sub_lookup_one | App_lookup nat

datatype event_handler = Ubus_auto_sub_event_handler_cb | Acl_subscribe_cb | App_event nat

datatype lost_handler = Ubus_default_connection_lost | Ubus_auto_disconnect_cb | App_lost nat

datatype conn_timer_handler = Ubus_auto_connect_cb | Ubus_auto_reconnect_cb

text \<open>Data a callback is given: a whole message, an attribute in one, or a null pointer.\<close>

datatype msg_ptr = Whole addr | Attr addr blob_attr | Null_msg

section \<open>Structs\<close>

record ubus_method =
  m_name :: "string option"
  m_handler :: method_handler
  m_mask :: "64 word"
  m_policy :: "(string \<times> u32) list"

text \<open>The method array of an object. \<open>watch_method\<close> and \<open>event_method\<close> are told apart by their
  addresses.\<close>

datatype method_table = Watch_method | Event_method | Methods "ubus_method list"

record lib_object_type =
  ty_id :: u32
  lty_methods :: "ubus_method list"

record lib_object =
  ob_name :: "string option"
  ob_id :: u32
  ob_type :: "addr option"
  ob_subscribe_cb :: "nat option"
  ob_has_subscribers :: bool
  ob_methods :: method_table

record ubus_subscriber =
  sb_cb :: "nat option"
  sb_remove_cb :: "nat option"
  sb_new_obj_cb :: "nat option"

record ubus_request_data =
  rd_object :: u32
  rd_peer :: u32
  rd_seq :: u16
  rd_user :: "string option"
  rd_group :: "string option"
  rd_acl_object :: "string option"
  rd_deferred :: bool
  rd_fd :: int
  rd_req_fd :: int

text \<open>The list head inside a request: zeroed, initialised and empty, or linked in the context.\<close>

datatype list_node = Null_node | Empty_node | Linked

record ubus_request =
  rq_list :: list_node
  rq_pending :: "(addr \<times> u8) list"
  rq_status_code :: int
  rq_status_msg :: bool
  rq_blocked :: bool
  rq_cancelled :: bool
  rq_notify :: bool
  rq_peer :: u32
  rq_seq :: u16
  rq_raw_data_cb :: "data_handler option"
  rq_data_cb :: "data_handler option"
  rq_fd_cb :: "nat option"
  rq_complete_cb :: "complete_handler option"
  rq_fd :: int
  rq_priv :: addr

definition UBUS_MAX_NOTIFY_PEERS :: nat where
  "UBUS_MAX_NOTIFY_PEERS = 16"

record ubus_notify_request =
  nq_status_cb :: "nat option"
  nq_complete_cb :: "nat option"
  nq_data_cb :: "nat option"
  nq_pending :: u32
  nq_id :: "u32 list"

record ubus_object_data =
  od_id :: u32
  od_type_id :: u32
  od_path :: "addr \<times> blob_attr"
  od_signature :: "blob_attr option"

record ubus_pending_msg =
  pm_hdr :: ubus_msghdr
  pm_data :: addr

text \<open>The key of an access control entry, and the entry with a pointer to its data.\<close>

record ubus_acl_key =
  ak_user :: "string option"
  ak_group :: "string option"
  ak_object :: string

record acl_object =
  ao_key :: ubus_acl_key
  ao_acl :: "addr \<times> blob_attr"

datatype lib_call =
    Call_data data_handler addr u8 msg_ptr
  | Call_complete complete_handler addr int
  | Call_fd nat addr int
  | Call_notify_status nat addr nat int
  | Call_notify_complete nat addr
  | Call_notify_data nat addr u8 msg_ptr
  | Call_method method_handler "addr option" addr "addr \<times> blob_attr" msg_ptr
  | Call_pre_invoke nat addr "string option" addr msg_ptr
  | Call_subscribe nat addr
  | Call_remove nat addr u32
  | Call_new_obj nat addr "addr \<times> blob_attr"
  | Call_lookup lookup_handler ubus_object_data addr
  | Call_event event_handler addr "addr \<times> blob_attr" msg_ptr
  | Call_lost lost_handler
  | Call_monitor nat u16 addr
  | Call_connected nat

section \<open>Operating system\<close>

text \<open>
  A \<open>recvmsg\<close> that returns data returns a prefix of \<open>bytes\<close>, the first that fit the buffer; the rest
  stays for the next call. The descriptor comes with the first of them. No bytes are the end of
  the stream.
\<close>

datatype recv_res = Rcv "u8 list" int | Rcv_again | Rcv_intr | Rcv_fail

datatype snd_res = Snd nat | Snd_again | Snd_intr | Snd_fail

section \<open>The context\<close>

record lib =
  requests :: "addr list"
  lib_objects :: "u32 \<rightharpoonup> addr"
  lib_pending :: "ubus_pending_msg list"
  sock_fd :: int
  sock_eof :: bool
  sock_error :: bool
  sock_registered :: bool
  timer_armed :: bool
  local_id :: u32
  request_seq :: u16
  cancel_poll :: bool
  stack_depth :: int
  connection_lost :: lost_handler
  monitor_cb :: "nat option"
  msgbuf_hdr :: ubus_msghdr
  msgbuf_data :: "addr option"
  msgbuf_data_len :: nat
  msgbuf_reduction_counter :: nat
  auto_subscribers :: "addr list"
  auto_subscribe_event_handler :: addr
  request_handler :: "nat option"
  pre_invoke :: "nat option"
  attrbuf :: "addr \<times> attr_table"
  blobs :: "addr \<rightharpoonup> blob"
  caps :: "addr \<rightharpoonup> nat"
  reqs :: "addr \<rightharpoonup> ubus_request"
  nreqs :: "addr \<rightharpoonup> ubus_notify_request"
  lookups :: "addr \<rightharpoonup> lookup_handler"
  objs :: "addr \<rightharpoonup> lib_object"
  lib_types :: "addr \<rightharpoonup> lib_object_type"
  subscribers :: "addr \<rightharpoonup> ubus_subscriber"
  event_cbs :: "addr \<rightharpoonup> event_handler"
  rdata :: "addr \<rightharpoonup> ubus_request_data"
  id_vars :: "addr \<Rightarrow> u32"
  acl_event :: addr
  acl_req :: addr
  acl_blob :: "addr option"
  acl_query_active :: bool
  acl_query_deferred :: bool
  acl_objects :: "acl_object list"
  conn_timer_cb :: conn_timer_handler
  conn_timer_ms :: "int option"
  conn_cb :: "nat option"
  lib_next :: addr
  lib_calloc :: nat
  lib_fault :: bool
  uloop_cancelling :: bool
  sk_in :: "recv_res list"
  sk_out :: "snd_res list"
  clock :: "int list"
  out :: "u8 list"
  out_fds :: "int list"
  shut_fds :: "int list"
  calls :: "lib_call list"
  uloop_ended :: bool

type_synonym callbacks = "lib_call \<Rightarrow> lib \<Rightarrow> (int \<times> lib) option"

definition lfault :: "lib \<Rightarrow> lib" where
  "lfault s = s\<lparr>lib_fault := True\<rparr>"

definition lib_close :: "int \<Rightarrow> lib \<Rightarrow> lib" where
  "lib_close fd s = s\<lparr>shut_fds := shut_fds s @ [fd]\<rparr>"

text \<open>\<open>if (fd >= 0) close(fd);\<close>\<close>

definition lib_close_fd :: "int \<Rightarrow> lib \<Rightarrow> lib" where
  "lib_close_fd fd s = (if 0 \<le> fd then lib_close fd s else s)"

definition lib_alloc :: "env \<Rightarrow> lib \<Rightarrow> bool \<times> lib" where
  "lib_alloc E s = (calloc_ok E (lib_calloc s), s\<lparr>lib_calloc := Suc (lib_calloc s)\<rparr>)"

text \<open>A call through a function pointer.\<close>

definition call_cb :: "callbacks \<Rightarrow> lib_call \<Rightarrow> lib \<Rightarrow> (int \<times> lib) option" where
  "call_cb K c s = K c (s\<lparr>calls := calls s @ [c]\<rparr>)"

text \<open>A call whose result is not used.\<close>

definition call_void :: "callbacks \<Rightarrow> lib_call \<Rightarrow> lib \<Rightarrow> lib option" where
  "call_void K c s = map_option snd (call_cb K c s)"

definition upd_req :: "addr \<Rightarrow> (ubus_request \<Rightarrow> ubus_request) \<Rightarrow> lib \<Rightarrow> lib" where
  "upd_req a f s =
     (case reqs s a of None \<Rightarrow> lfault s | Some r \<Rightarrow> s\<lparr>reqs := (reqs s)(a \<mapsto> f r)\<rparr>)"

definition upd_nreq :: "addr \<Rightarrow> (ubus_notify_request \<Rightarrow> ubus_notify_request) \<Rightarrow> lib \<Rightarrow> lib" where
  "upd_nreq a f s =
     (case nreqs s a of None \<Rightarrow> lfault s | Some r \<Rightarrow> s\<lparr>nreqs := (nreqs s)(a \<mapsto> f r)\<rparr>)"

definition upd_lobj :: "addr \<Rightarrow> (lib_object \<Rightarrow> lib_object) \<Rightarrow> lib \<Rightarrow> lib" where
  "upd_lobj a f s =
     (case objs s a of None \<Rightarrow> lfault s | Some ob \<Rightarrow> s\<lparr>objs := (objs s)(a \<mapsto> f ob)\<rparr>)"

definition upd_ltype :: "addr \<Rightarrow> (lib_object_type \<Rightarrow> lib_object_type) \<Rightarrow> lib \<Rightarrow> lib" where
  "upd_ltype a f s =
     (case lib_types s a of None \<Rightarrow> lfault s | Some t \<Rightarrow> s\<lparr>lib_types := (lib_types s)(a \<mapsto> f t)\<rparr>)"

text \<open>A field of a request; what is read through a dangling pointer does not matter, since the
  access sets \<open>lib_fault\<close>.\<close>

definition req_get :: "addr \<Rightarrow> (ubus_request \<Rightarrow> 'a) \<Rightarrow> 'a \<Rightarrow> lib \<Rightarrow> 'a" where
  "req_get a f d s = (case reqs s a of None \<Rightarrow> d | Some r \<Rightarrow> f r)"

definition ubus_context_is_channel :: "lib \<Rightarrow> bool" where
  "ubus_context_is_channel s \<longleftrightarrow> local_id s = UBUS_CLIENT_ID_CHANNEL"

text \<open>The read of a buffer.\<close>

definition read_blob :: "addr \<Rightarrow> lib \<Rightarrow> blob \<times> lib" where
  "read_blob a s = (case blobs s a of None \<Rightarrow> (Raw [], lfault s) | Some d \<Rightarrow> (d, s))"

text \<open>A fresh address with a copy of message data, and its release.\<close>

definition new_blob :: "blob \<Rightarrow> lib \<Rightarrow> addr \<times> lib" where
  "new_blob d s = (lib_next s, s\<lparr>blobs := (blobs s)(lib_next s \<mapsto> d), lib_next := Suc (lib_next s)\<rparr>)"

definition free_blob :: "addr \<Rightarrow> lib \<Rightarrow> lib" where
  "free_blob a s =
     (if blobs s a = None then lfault s
      else s\<lparr>blobs := (blobs s)(a := None), caps := (caps s)(a := None)\<rparr>)"

end
