(* ===== verification/Libubus_Io.thy ===== *)
theory Libubus_Io
  imports Libubus_State
begin

text \<open>
  Sending and receiving of the library (src/libubus-io.c): writing a message with
  \<open>writev_retry\<close> and \<open>ubus_send_msg\<close>, reading the next one with \<open>recv_retry\<close> and \<open>get_next_msg\<close>, and the
  receive buffer that \<open>alloc_msg_buf\<close> grows and shrinks.

  The loops recurse on the list of results of the system calls. \<open>wait_data\<close> only waits, so an
  \<open>EAGAIN\<close> is followed by the next result.
\<close>

section \<open>Definitions\<close>

definition UBUS_MSG_CHUNK_SIZE :: nat where
  "UBUS_MSG_CHUNK_SIZE = 65536"

definition UBUS_MSGBUF_REDUCTION_INTERVAL :: nat where
  "UBUS_MSGBUF_REDUCTION_INTERVAL = 16"

text \<open>The attribute types the library checks when it parses a message.\<close>

fun lib_policy :: "ubus_msg_attr \<Rightarrow> blob_type option" where
  "lib_policy UBUS_ATTR_STATUS = Some BLOB_ATTR_INT32"
| "lib_policy UBUS_ATTR_OBJID = Some BLOB_ATTR_INT32"
| "lib_policy UBUS_ATTR_OBJPATH = Some BLOB_ATTR_STRING"
| "lib_policy UBUS_ATTR_METHOD = Some BLOB_ATTR_STRING"
| "lib_policy UBUS_ATTR_ACTIVE = Some BLOB_ATTR_INT8"
| "lib_policy UBUS_ATTR_NO_REPLY = Some BLOB_ATTR_INT8"
| "lib_policy UBUS_ATTR_SUBSCRIBERS = Some BLOB_ATTR_NESTED"
| "lib_policy _ = None"

text \<open>The table is a static variable: the next call overwrites it.\<close>

definition lib_parse_msg :: "env \<Rightarrow> addr \<Rightarrow> lib \<Rightarrow> attr_table \<times> lib" where
  "lib_parse_msg E a s =
     (let (d, s) = read_blob a s; t = blob_parse E lib_policy d in (t, s\<lparr>attrbuf := (a, t)\<rparr>))"

subsection \<open>Sending\<close>

text \<open>What is left of a vector after \<open>n\<close> of its bytes are written.\<close>

fun iov_advance :: "nat \<Rightarrow> u8 list list \<Rightarrow> u8 list list" where
  "iov_advance n [] = []"
| "iov_advance n (v # vs) =
     (if length v \<le> n then iov_advance (n - length v) vs else drop n v # vs)"

text \<open>One \<open>sendmsg\<close> that writes \<open>m\<close> bytes and passes the descriptor.\<close>

definition sendmsg_out :: "nat \<Rightarrow> u8 list list \<Rightarrow> int \<Rightarrow> lib \<Rightarrow> lib" where
  "sendmsg_out m iov fd s =
     s\<lparr>out := out s @ take m (concat iov),
       out_fds := (if 0 \<le> fd then out_fds s @ [fd] else out_fds s)\<rparr>"

fun writev_loop ::
  "u8 list list \<Rightarrow> int \<Rightarrow> nat \<Rightarrow> snd_res list \<Rightarrow> lib \<Rightarrow> (int \<times> lib) option" where
  "writev_loop iov fd len [] s = None"
| "writev_loop iov fd len (Snd n # rs) s =
     (let m = min n (length (concat iov)); s = sendmsg_out m iov fd s; iov = iov_advance m iov in
      if iov = [] then Some (int (len + m), s\<lparr>sk_out := rs\<rparr>)
      else writev_loop iov (- 1) (len + m) rs s)"
| "writev_loop iov fd len (Snd_again # rs) s = writev_loop iov fd len rs s"
| "writev_loop iov fd len (Snd_intr # rs) s = writev_loop iov fd len rs s"
| "writev_loop iov fd len (Snd_fail # rs) s = Some (- 1, s\<lparr>sk_out := rs\<rparr>)"

definition writev_retry :: "u8 list list \<Rightarrow> int \<Rightarrow> lib \<Rightarrow> (int \<times> lib) option" where
  "writev_retry iov fd s = writev_loop iov fd 0 (sk_out s) s"

definition blob_pad_len :: "env \<Rightarrow> blob \<Rightarrow> nat" where
  "blob_pad_len E d = blob_hdr_pad_len E (take 4 (blob_image E d))"

definition ubus_send_msg ::
  "env \<Rightarrow> u32 \<Rightarrow> blob option \<Rightarrow> ubus_msg_type \<Rightarrow> u32 \<Rightarrow> int \<Rightarrow> lib \<Rightarrow> (int \<times> lib) option" where
  "ubus_send_msg E seq msg cmd peer fd s =
     (let hdr = \<lparr>hdr_version = 0, hdr_type = ubus_msg_code cmd, hdr_seq = ucast seq, hdr_peer = peer\<rparr>;
          d = (case msg of None \<Rightarrow> Built [] | Some d \<Rightarrow> d)
      in if UBUS_MAX_MSGLEN < blob_pad_len E d then Some (- 1, lib_close_fd fd s)
         else
           Option.bind (writev_retry [hdr_bytes hdr, blob_image E d] fd s) (\<lambda>(ret, s).
             let s = (if ret < 0 then s\<lparr>sock_eof := True\<rparr> else s)
             in Some (ret, lib_close_fd fd s)))"

subsection \<open>Receiving\<close>

text \<open>
  \<open>recv_loop n wait want_fd rs\<close> reads \<open>n\<close> bytes. The result is what \<open>recv_retry\<close> returns, the bytes read,
  the descriptor stored through \<open>recv_fd\<close> (\<open>None\<close> when it is left alone), and the coming results. A
  descriptor that arrives when none is asked for is discarded by the kernel.
\<close>

fun recv_loop ::
  "nat \<Rightarrow> bool \<Rightarrow> bool \<Rightarrow> recv_res list \<Rightarrow> (int \<times> u8 list \<times> int option \<times> recv_res list) option" where
  "recv_loop n wait want_fd [] = (if n = 0 then Some (0, [], None, []) else None)"
| "recv_loop n wait want_fd (r # rs) =
     (if n = 0 then Some (0, [], None, r # rs)
      else
        (case r of
           Rcv bs fd \<Rightarrow>
             (let got = take n bs;
                  fdo = (if want_fd then Some fd else None)
              in if bs = [] then Some (- 1, [], None, rs)
                 else if n < length bs then Some (int n, got, fdo, Rcv (drop n bs) (- 1) # rs)
                 else
                   Option.bind (recv_loop (n - length bs) True False rs) (\<lambda>(ret, more, _, rs).
                     Some (if ret < 0 then ret else int (length bs) + ret, got @ more, fdo, rs)))
         | Rcv_intr \<Rightarrow> recv_loop n wait want_fd rs
         | Rcv_fail \<Rightarrow> Some (- 1, [], None, rs)
         | Rcv_again \<Rightarrow>
             if \<not> wait then Some (0, [], None, rs)
             else
               Option.bind (recv_loop n True False rs) (\<lambda>(ret, more, _, rs).
                 Some (ret, more, if want_fd then Some (- 1) else None, rs))))"

text \<open>The header of the first attribute follows the message header.\<close>

definition ATTR_SIZE :: nat where "ATTR_SIZE = 4"

definition ubus_validate_hdr :: "env \<Rightarrow> ubus_msghdr \<Rightarrow> u8 list \<Rightarrow> bool" where
  "ubus_validate_hdr E hdr data \<longleftrightarrow>
     (if hdr_version hdr \<noteq> 0 then False
      else if blob_hdr_raw_len E data < ATTR_SIZE then False
      else if UBUS_MAX_MSGLEN < blob_hdr_pad_len E data then False
      else True)"

definition round_chunk :: "nat \<Rightarrow> nat" where
  "round_chunk len =
     (let rem = len mod UBUS_MSG_CHUNK_SIZE in
      if 0 < rem then len + (UBUS_MSG_CHUNK_SIZE - rem) else len)"

text \<open>\<open>realloc\<close> moves the buffer: the old address is gone, the content of the new one is not used before
  it is overwritten.\<close>

definition realloc_msgbuf :: "nat \<Rightarrow> lib \<Rightarrow> lib" where
  "realloc_msgbuf len s =
     (let bl = (case msgbuf_data s of None \<Rightarrow> blobs s | Some a \<Rightarrow> (blobs s)(a := None));
          cp = (case msgbuf_data s of None \<Rightarrow> caps s | Some a \<Rightarrow> (caps s)(a := None));
          a = lib_next s
      in s\<lparr>blobs := bl(a \<mapsto> Raw []), caps := cp(a \<mapsto> len), lib_next := Suc a,
           msgbuf_data := Some a, msgbuf_data_len := len\<rparr>)"

text \<open>The size to compare with: zero when there is no buffer, and also, at every seventeenth message
  that would fit a smaller one, so that the buffer shrinks.\<close>

definition msgbuf_avail :: "nat \<Rightarrow> lib \<Rightarrow> nat \<times> lib" where
  "msgbuf_avail len s =
     (let buf_len = (if msgbuf_data s = None then 0 else msgbuf_data_len s);
          n = Suc (msgbuf_reduction_counter s)
      in if \<not> len < buf_len then (buf_len, s)
         else if UBUS_MSGBUF_REDUCTION_INTERVAL < n then (0, s\<lparr>msgbuf_reduction_counter := 0\<rparr>)
         else (buf_len, s\<lparr>msgbuf_reduction_counter := n\<rparr>))"

definition alloc_msg_buf :: "env \<Rightarrow> nat \<Rightarrow> lib \<Rightarrow> bool \<times> lib" where
  "alloc_msg_buf E len s =
     (let len = round_chunk len in
      case msgbuf_avail len s of
        (buf_len, s) \<Rightarrow>
          if len \<le> buf_len then (True, s)
          else
            (case lib_alloc E s of
               (False, s) \<Rightarrow> (False, s)
             | (True, s) \<Rightarrow> (True, realloc_msgbuf len s)))"

text \<open>
  Filling the receive buffer. The new content gets a fresh address, so that an earlier pointer into
  the buffer no longer reads anything; a message that does not fit is a write past the end.
\<close>

definition fill_msgbuf :: "u8 list \<Rightarrow> lib \<Rightarrow> lib" where
  "fill_msgbuf bs s =
     (case msgbuf_data s of
        None \<Rightarrow> lfault s
      | Some a \<Rightarrow>
          (case caps s a of
             None \<Rightarrow> lfault s
           | Some c \<Rightarrow>
               if c < length bs then lfault s
               else
                 let a' = lib_next s in
                 s\<lparr>blobs := (blobs s)(a := None, a' \<mapsto> Raw bs), caps := (caps s)(a := None, a' \<mapsto> c),
                   lib_next := Suc a', msgbuf_data := Some a'\<rparr>))"

definition set_eof :: "lib \<Rightarrow> lib" where
  "set_eof s = s\<lparr>sock_eof := True\<rparr>"

text \<open>The part of \<open>get_next_msg\<close> that follows a valid header.\<close>

definition get_body :: "env \<Rightarrow> ubus_msghdr \<Rightarrow> u8 list \<Rightarrow> lib \<Rightarrow> (bool \<times> lib) option" where
  "get_body E hdr data s =
     (let len = blob_hdr_raw_len E data in
      case alloc_msg_buf E len s of
        (False, s) \<Rightarrow> Some (False, set_eof s)
      | (True, s) \<Rightarrow>
          let s = s\<lparr>msgbuf_hdr := hdr\<rparr> in
          if len - ATTR_SIZE = 0 then Some (True, fill_msgbuf data s)
          else
            Option.bind (recv_loop (len - ATTR_SIZE) True False (sk_in s)) (\<lambda>(r, body, _, rs).
              let s = fill_msgbuf (data @ body) (s\<lparr>sk_in := rs\<rparr>)
              in if r \<le> 0 then Some (False, set_eof s) else Some (True, s)))"

definition get_next_msg :: "env \<Rightarrow> int \<Rightarrow> lib \<Rightarrow> (bool \<times> int \<times> lib) option" where
  "get_next_msg E recv_fd s =
     Option.bind (recv_loop (HDR_SIZE + ATTR_SIZE) False True (sk_in s)) (\<lambda>(r, bs, fdo, rs).
       let s = s\<lparr>sk_in := rs\<rparr>;
           recv_fd = (case fdo of None \<Rightarrow> recv_fd | Some fd \<Rightarrow> fd)
       in if r \<le> 0 then Some (False, recv_fd, if r < 0 then set_eof s else s)
          else
            (case hdr_of_bytes (take HDR_SIZE bs) of
               None \<Rightarrow> Some (False, recv_fd, set_eof s)
             | Some hdr \<Rightarrow>
                 if \<not> ubus_validate_hdr E hdr (drop HDR_SIZE bs) then Some (False, recv_fd, set_eof s)
                 else
                   map_option (\<lambda>(ok, s). (ok, recv_fd, s)) (get_body E hdr (drop HDR_SIZE bs) s)))"

section \<open>Writing\<close>

lemma concat_iov_advance: "concat (iov_advance n iov) = drop n (concat iov)"
  by (induction n iov rule: iov_advance.induct) auto

lemma iov_advance_done: "iov_advance n iov = [] \<longleftrightarrow> length (concat iov) \<le> n"
  by (induction n iov rule: iov_advance.induct) auto

text \<open>A write that returns a length has written everything, once and in order, and has passed the
  descriptor once.\<close>

lemma writev_loop_whole:
  assumes "writev_loop iov fd len rs s = Some (r, s')" and "0 \<le> r"
  shows "r = int (len + length (concat iov)) \<and>
    (\<exists>rs'. s' = s\<lparr>out := out s @ concat iov,
                   out_fds := (if 0 \<le> fd then out_fds s @ [fd] else out_fds s), sk_out := rs'\<rparr>)"
  using assms
proof (induction rs arbitrary: iov fd len s)
  case (Cons x rs)
  show ?case
  proof (cases x)
    case (Snd n)
    define m where "m = min n (length (concat iov))"
    show ?thesis
    proof (cases "iov_advance m iov = []")
      case True
      then have "m = length (concat iov)"
        by (simp add: iov_advance_done m_def)
      with True Cons.prems Snd show ?thesis
        by (auto simp: sendmsg_out_def Let_def m_def [symmetric])
    next
      case False
      with Cons.prems Snd
      have "writev_loop (iov_advance m iov) (- 1) (len + m) rs (sendmsg_out m iov fd s) = Some (r, s')"
        by (simp add: Let_def m_def [symmetric])
      from Cons.IH [OF this Cons.prems(2)] show ?thesis
        by (auto simp: sendmsg_out_def concat_iov_advance m_def)
    qed
  qed (use Cons in auto)
qed simp

text \<open>A write that fails has written a prefix.\<close>

lemma writev_loop_cut:
  assumes "writev_loop iov fd len rs s = Some (r, s')" and "r < 0"
  shows "\<exists>k rs' fds. s' = s\<lparr>out := out s @ take k (concat iov), out_fds := fds, sk_out := rs'\<rparr>"
  using assms
proof (induction rs arbitrary: iov fd len s)
  case (Cons x rs)
  show ?case
  proof (cases x)
    case (Snd n)
    define m where "m = min n (length (concat iov))"
    from Cons.prems Snd
    have "writev_loop (iov_advance m iov) (- 1) (len + m) rs (sendmsg_out m iov fd s) = Some (r, s')"
      by (auto simp: Let_def m_def [symmetric] split: if_splits)
    from Cons.IH [OF this Cons.prems(2)] obtain k rs' fds where
      "s' = (sendmsg_out m iov fd s)\<lparr>out := out (sendmsg_out m iov fd s) @
         take k (drop m (concat iov)), out_fds := fds, sk_out := rs'\<rparr>"
      by (auto simp: concat_iov_advance)
    then show ?thesis
      by (intro exI [of _ "m + k"] exI [of _ rs'] exI [of _ fds]) (simp add: sendmsg_out_def take_add)
  next
    case Snd_fail
    with Cons.prems show ?thesis
      by (intro exI [of _ 0] exI [of _ rs] exI [of _ "out_fds s"]) auto
  qed (use Cons in auto)
qed simp

text \<open>The bytes that the coming \<open>sendmsg\<close> calls are ready to take.\<close>

fun snd_room :: "snd_res list \<Rightarrow> nat" where
  "snd_room [] = 0"
| "snd_room (Snd n # rs) = n + snd_room rs"
| "snd_room (_ # rs) = snd_room rs"

lemma writev_loop_returns:
  assumes "0 < length (concat iov)" and "length (concat iov) \<le> snd_room rs"
  shows "\<exists>r s'. writev_loop iov fd len rs s = Some (r, s')"
  using assms
proof (induction rs arbitrary: iov fd len s)
  case (Cons x rs)
  show ?case
  proof (cases x)
    case (Snd n)
    define m where "m = min n (length (concat iov))"
    show ?thesis
    proof (cases "iov_advance m iov = []")
      case True
      with Snd show ?thesis
        by (simp add: Let_def m_def [symmetric])
    next
      case False
      then have "m < length (concat iov)"
        by (simp add: iov_advance_done)
      with Cons.prems Snd have "\<exists>r s'. writev_loop (iov_advance m iov) (- 1) (len + m) rs
          (sendmsg_out m iov fd s) = Some (r, s')"
        by (intro Cons.IH) (auto simp only: concat_iov_advance length_drop m_def snd_room.simps)
      with Snd False show ?thesis
        by (simp add: Let_def m_def [symmetric])
    qed
  qed (use Cons in auto)
qed simp

lemma lib_close_fd_sel [simp]:
  "out (lib_close_fd fd s) = out s" "out_fds (lib_close_fd fd s) = out_fds s"
  "sock_eof (lib_close_fd fd s) = sock_eof s" "sk_out (lib_close_fd fd s) = sk_out s"
  "shut_fds (lib_close_fd fd s) = shut_fds s @ (if 0 \<le> fd then [fd] else [])"
  by (simp_all add: lib_close_fd_def lib_close_def)

section \<open>Reading\<close>

text \<open>The bytes that are still to come, and scripts on which no read fails.\<close>

fun in_stream :: "recv_res list \<Rightarrow> u8 list" where
  "in_stream [] = []"
| "in_stream (Rcv bs fd # rs) = bs @ in_stream rs"
| "in_stream (_ # rs) = in_stream rs"

fun in_good :: "recv_res list \<Rightarrow> bool" where
  "in_good [] = True"
| "in_good (Rcv bs fd # rs) = (bs \<noteq> [] \<and> in_good rs)"
| "in_good (Rcv_fail # rs) = False"
| "in_good (_ # rs) = in_good rs"

text \<open>The next \<open>recvmsg\<close> that is not interrupted returns data; the descriptor that comes with it.\<close>

fun in_ready :: "recv_res list \<Rightarrow> bool" where
  "in_ready (Rcv bs fd # rs) = (bs \<noteq> [])"
| "in_ready (Rcv_intr # rs) = in_ready rs"
| "in_ready _ = False"

fun in_fd :: "recv_res list \<Rightarrow> int" where
  "in_fd (Rcv bs fd # rs) = fd"
| "in_fd (Rcv_intr # rs) = in_fd rs"
| "in_fd _ = - 1"

lemma recv_loop_wait:
  assumes "in_good rs" and "n \<le> length (in_stream rs)"
  shows "\<exists>fdo rs'. recv_loop n True False rs = Some (int n, take n (in_stream rs), fdo, rs') \<and>
    in_good rs' \<and> in_stream rs' = drop n (in_stream rs)"
  using assms
proof (induction rs arbitrary: n)
  case (Cons r rs)
  show ?case
  proof (cases r)
    case (Rcv bs fd)
    have "\<exists>fdo rs'. recv_loop (n - length bs) True False rs =
        Some (int (n - length bs), take (n - length bs) (in_stream rs), fdo, rs') \<and>
      in_good rs' \<and> in_stream rs' = drop (n - length bs) (in_stream rs)"
      using Cons.prems Rcv by (intro Cons.IH) auto
    with Cons.prems Rcv show ?thesis
      by (auto simp: Let_def)
  next
    case Rcv_again
    with Cons.IH [of n] Cons.prems show ?thesis
      by auto
  qed (use Cons in auto)
qed simp

lemma recv_loop_first:
  assumes "in_good rs" and "n \<le> length (in_stream rs)" and "0 < n" and "in_ready rs"
  shows "\<exists>rs'. recv_loop n False True rs = Some (int n, take n (in_stream rs), Some (in_fd rs), rs') \<and>
    in_good rs' \<and> in_stream rs' = drop n (in_stream rs)"
  using assms
proof (induction rs)
  case (Cons r rs)
  show ?case
  proof (cases r)
    case (Rcv bs fd)
    have "\<exists>fdo rs'. recv_loop (n - length bs) True False rs =
        Some (int (n - length bs), take (n - length bs) (in_stream rs), fdo, rs') \<and>
      in_good rs' \<and> in_stream rs' = drop (n - length bs) (in_stream rs)"
      using Cons.prems Rcv by (intro recv_loop_wait) auto
    with Cons.prems Rcv show ?thesis
      by (auto simp: Let_def)
  qed (use Cons in auto)
qed simp

text \<open>What a read can return: everything, a failure, or nothing yet when it need not wait.\<close>

lemma recv_loop_cases:
  assumes "recv_loop n wait wfd rs = Some (r, bs, fdo, rs')" and "0 < n"
  shows "r = int n \<and> length bs = n \<or> r = - 1 \<or> r = 0 \<and> \<not> wait"
  using assms
proof (induction rs arbitrary: n wait wfd r bs fdo)
  case (Cons x rs)
  show ?case
  proof (cases x)
    case (Rcv cs fd)
    show ?thesis
    proof (cases "cs = [] \<or> n < length cs")
      case True
      with Cons.prems Rcv show ?thesis
        by (auto simp: Let_def split: if_splits)
    next
      case False
      with Cons.prems Rcv obtain r' more fdo' where
        rec: "recv_loop (n - length cs) True False rs = Some (r', more, fdo', rs')" and
        eqs: "r = (if r' < 0 then r' else int (length cs) + r')" "bs = take n cs @ more"
        by (auto simp: Let_def bind_eq_Some_conv)
      show ?thesis
      proof (cases "n = length cs")
        case True
        with rec have "r' = 0 \<and> more = []"
          by (cases rs) auto
        with True eqs show ?thesis by simp
      next
        case ne: False
        with Cons.IH [OF rec] False eqs show ?thesis
          by auto
      qed
    qed
  next
    case Rcv_again
    with Cons.prems Cons.IH [of n True False] show ?thesis
      by (auto simp: bind_eq_Some_conv split: if_splits)
  qed (use Cons in auto)
qed simp

section \<open>The receive buffer\<close>

text \<open>
  The buffer of the context, when it is there, is live and has the size the context records, and
  addresses that were never given out are free. That the size is a whole number of chunks and at
  most the largest message bounds the memory a context holds.
\<close>

definition msgbuf_wf :: "lib \<Rightarrow> bool" where
  "msgbuf_wf s \<longleftrightarrow>
     (\<forall>a. blobs s a \<noteq> None \<or> caps s a \<noteq> None \<longrightarrow> a < lib_next s) \<and>
     (\<forall>a. msgbuf_data s = Some a \<longrightarrow>
        blobs s a \<noteq> None \<and> caps s a = Some (msgbuf_data_len s)) \<and>
     UBUS_MSG_CHUNK_SIZE dvd msgbuf_data_len s \<and> msgbuf_data_len s \<le> UBUS_MAX_MSGLEN"

text \<open>Everything in the state but the receive buffer, the input and the allocator.\<close>

definition lib_rx_frame :: "lib \<Rightarrow> lib" where
  "lib_rx_frame s = s\<lparr>sk_in := [], sock_eof := False, msgbuf_hdr := undefined, msgbuf_data := None,
     msgbuf_data_len := 0, msgbuf_reduction_counter := 0, blobs := Map.empty, caps := Map.empty,
     lib_next := 0, lib_calloc := 0\<rparr>"

lemma lib_rx_frame_upd [simp]:
  "lib_rx_frame (sk_in_update f s) = lib_rx_frame s" "lib_rx_frame (sock_eof_update g s) = lib_rx_frame s"
  "lib_rx_frame (msgbuf_hdr_update h s) = lib_rx_frame s" "lib_rx_frame (msgbuf_data_update i s) = lib_rx_frame s"
  "lib_rx_frame (msgbuf_data_len_update j s) = lib_rx_frame s"
  "lib_rx_frame (msgbuf_reduction_counter_update j s) = lib_rx_frame s"
  "lib_rx_frame (blobs_update k s) = lib_rx_frame s" "lib_rx_frame (caps_update l s) = lib_rx_frame s"
  "lib_rx_frame (lib_next_update j s) = lib_rx_frame s" "lib_rx_frame (lib_calloc_update j s) = lib_rx_frame s"
  by (simp_all add: lib_rx_frame_def)

lemma round_chunk_ge: "len \<le> round_chunk len"
  by (simp add: round_chunk_def Let_def)

lemma round_chunk_eq:
  "round_chunk len = UBUS_MSG_CHUNK_SIZE *
     (len div UBUS_MSG_CHUNK_SIZE + (if len mod UBUS_MSG_CHUNK_SIZE = 0 then 0 else 1))"
proof -
  define c r p where "c = UBUS_MSG_CHUNK_SIZE" and "r = len mod c" and "p = c * (len div c)"
  have "len = p + r" "r < c"
    by (simp_all add: p_def r_def c_def UBUS_MSG_CHUNK_SIZE_def)
  then have "round_chunk len = p + (if r = 0 then 0 else c)"
    unfolding round_chunk_def Let_def c_def [symmetric] r_def [symmetric] by auto
  then show ?thesis
    unfolding c_def [symmetric] r_def [symmetric] by (simp add: p_def distrib_left)
qed

lemma round_chunk_dvd: "UBUS_MSG_CHUNK_SIZE dvd round_chunk len"
  by (simp add: round_chunk_eq)

lemma round_chunk_le:
  assumes "len \<le> UBUS_MSG_CHUNK_SIZE * k"
  shows "round_chunk len \<le> UBUS_MSG_CHUNK_SIZE * k"
proof -
  have c: "0 < UBUS_MSG_CHUNK_SIZE"
    by (simp add: UBUS_MSG_CHUNK_SIZE_def)
  have "len div UBUS_MSG_CHUNK_SIZE + (if len mod UBUS_MSG_CHUNK_SIZE = 0 then 0 else 1) \<le> k"
  proof (cases "len mod UBUS_MSG_CHUNK_SIZE = 0")
    case True
    with assms c show ?thesis
      by (metis add.right_neutral div_le_mono nonzero_mult_div_cancel_left less_not_refl2)
  next
    case False
    then have "len \<noteq> UBUS_MSG_CHUNK_SIZE * k" by auto
    with assms c have "len div UBUS_MSG_CHUNK_SIZE < k"
      by (metis le_neq_implies_less mult.commute div_less_iff_less_mult)
    with False show ?thesis by simp
  qed
  then show ?thesis
    unfolding round_chunk_eq by (rule mult_le_mono2)
qed

lemma round_chunk_max: "len \<le> UBUS_MAX_MSGLEN \<Longrightarrow> round_chunk len \<le> UBUS_MAX_MSGLEN"
  using round_chunk_le [of len 16] by (simp add: UBUS_MAX_MSGLEN_def UBUS_MSG_CHUNK_SIZE_def)

lemma realloc_msgbuf_wf:
  assumes "msgbuf_wf s" and "UBUS_MSG_CHUNK_SIZE dvd len" and "len \<le> UBUS_MAX_MSGLEN"
  shows "msgbuf_wf (realloc_msgbuf len s) \<and> msgbuf_data_len (realloc_msgbuf len s) = len \<and>
    msgbuf_data (realloc_msgbuf len s) \<noteq> None"
  using assms unfolding msgbuf_wf_def realloc_msgbuf_def Let_def
  by (cases "msgbuf_data s") (auto simp: less_Suc_eq)

lemma msgbuf_avail_cases:
  "s\<lparr>msgbuf_reduction_counter := msgbuf_reduction_counter (snd (msgbuf_avail len s))\<rparr> =
     snd (msgbuf_avail len s)"
  "0 < fst (msgbuf_avail len s) \<Longrightarrow>
     fst (msgbuf_avail len s) = msgbuf_data_len s \<and> msgbuf_data s \<noteq> None"
  by (simp_all add: msgbuf_avail_def Let_def split: if_splits)

lemma msgbuf_avail_calloc: "lib_calloc (snd (msgbuf_avail len s)) = lib_calloc s"
  by (simp add: msgbuf_avail_def Let_def)

lemma alloc_msg_buf_cases:
  assumes "alloc_msg_buf E len s = (ok, s')" and "0 < len"
  shows "\<exists>k. let u = s\<lparr>msgbuf_reduction_counter := k\<rparr> in
     ok \<and> s' = u \<and> round_chunk len \<le> msgbuf_data_len s \<and> msgbuf_data s \<noteq> None \<or>
     \<not> ok \<and> s' = snd (lib_alloc E u) \<or> ok \<and> s' = realloc_msgbuf (round_chunk len) (snd (lib_alloc E u))"
proof -
  obtain n u where av: "msgbuf_avail (round_chunk len) s = (n, u)"
    by (cases "msgbuf_avail (round_chunk len) s")
  have k: "u = s\<lparr>msgbuf_reduction_counter := msgbuf_reduction_counter u\<rparr>"
    and n: "0 < n \<longrightarrow> n = msgbuf_data_len s \<and> msgbuf_data s \<noteq> None"
    using msgbuf_avail_cases [where s = s and len = "round_chunk len"] av by (metis snd_conv, metis fst_conv)
  have pos: "0 < round_chunk len"
    using round_chunk_ge [of len] assms(2) by simp
  have "ok \<and> s' = u \<and> round_chunk len \<le> msgbuf_data_len s \<and> msgbuf_data s \<noteq> None \<or>
     \<not> ok \<and> s' = snd (lib_alloc E u) \<or> ok \<and> s' = realloc_msgbuf (round_chunk len) (snd (lib_alloc E u))"
  proof (cases "round_chunk len \<le> n")
    case True
    with assms(1) av n pos show ?thesis
      by (simp add: alloc_msg_buf_def)
  next
    case False
    with assms(1) av show ?thesis
      by (cases "lib_alloc E u"; cases "fst (lib_alloc E u)") (simp_all add: alloc_msg_buf_def)
  qed
  then show ?thesis
    using k unfolding Let_def by metis
qed

lemma alloc_msg_buf_frame:
  assumes "alloc_msg_buf E len s = (ok, s')" and "0 < len"
  shows "lib_rx_frame s' = lib_rx_frame s" "sk_in s' = sk_in s" "sock_eof s' = sock_eof s"
  using alloc_msg_buf_cases [OF assms] by (auto simp: Let_def lib_alloc_def realloc_msgbuf_def)

lemma alloc_msg_buf_wf:
  assumes "msgbuf_wf s" and "alloc_msg_buf E len s = (ok, s')" and "0 < len" and "len \<le> UBUS_MAX_MSGLEN"
  shows "msgbuf_wf s' \<and> (ok \<longrightarrow> len \<le> msgbuf_data_len s' \<and> msgbuf_data s' \<noteq> None)"
proof -
  have l: "len \<le> round_chunk len" "round_chunk len \<le> UBUS_MAX_MSGLEN"
    using round_chunk_ge round_chunk_max [OF assms(4)] by auto
  have u: "msgbuf_wf (s\<lparr>msgbuf_reduction_counter := k\<rparr>)"
    "msgbuf_wf (snd (lib_alloc E (s\<lparr>msgbuf_reduction_counter := k\<rparr>)))" for k
    using assms(1) by (simp_all add: msgbuf_wf_def lib_alloc_def)
  show ?thesis
    using alloc_msg_buf_cases [OF assms(2,3)] u l realloc_msgbuf_wf [OF u(2) round_chunk_dvd l(2)]
    by (auto simp: Let_def)
qed

lemma fill_msgbuf_ok:
  assumes "msgbuf_wf s" and "msgbuf_data s \<noteq> None" and "length bs \<le> msgbuf_data_len s"
  shows "msgbuf_wf (fill_msgbuf bs s)" "lib_rx_frame (fill_msgbuf bs s) = lib_rx_frame s"
    "msgbuf_data_len (fill_msgbuf bs s) = msgbuf_data_len s"
    "msgbuf_hdr (fill_msgbuf bs s) = msgbuf_hdr s" "sk_in (fill_msgbuf bs s) = sk_in s"
    "sock_eof (fill_msgbuf bs s) = sock_eof s"
    "\<exists>a. msgbuf_data (fill_msgbuf bs s) = Some a \<and> blobs (fill_msgbuf bs s) a = Some (Raw bs)"
  using assms by (auto simp: msgbuf_wf_def fill_msgbuf_def Let_def less_Suc_eq split: if_splits)

section \<open>The next message\<close>

lemma recv_loop_len: "recv_loop n wait wfd rs = Some (r, bs, fdo, rs') \<Longrightarrow> length bs \<le> n"
proof (induction rs arbitrary: n wait wfd r bs fdo)
  case (Cons x rs)
  show ?case
  proof (cases x)
    case (Rcv cs fd)
    with Cons.prems Cons.IH [of "n - length cs"] show ?thesis
      by (fastforce simp: Let_def bind_eq_Some_conv split: if_splits)
  next
    case Rcv_again
    with Cons.prems Cons.IH [of n] show ?thesis
      by (auto simp: bind_eq_Some_conv split: if_splits)
  qed (use Cons in \<open>auto split: if_splits\<close>)
qed (auto split: if_splits)

lemma msgbuf_wf_upd [simp]:
  "msgbuf_wf (sk_in_update f s) = msgbuf_wf s" "msgbuf_wf (sock_eof_update g s) = msgbuf_wf s"
  "msgbuf_wf (msgbuf_hdr_update h s) = msgbuf_wf s"
  by (simp_all add: msgbuf_wf_def)

text \<open>What a received message is: its blob, with the header it came with, in the receive buffer.\<close>

definition holds_msg :: "env \<Rightarrow> ubus_msghdr \<Rightarrow> u8 list \<Rightarrow> lib \<Rightarrow> bool" where
  "holds_msg E hdr bs s \<longleftrightarrow>
     msgbuf_hdr s = hdr \<and> (\<exists>a. msgbuf_data s = Some a \<and> blobs s a = Some (Raw bs))"

lemma get_body_safe:
  assumes "msgbuf_wf s" and "get_body E hdr data s = Some (ok, s')"
    and "length data = ATTR_SIZE" and "ATTR_SIZE \<le> blob_hdr_raw_len E data"
    and "blob_hdr_raw_len E data \<le> UBUS_MAX_MSGLEN"
  shows "msgbuf_wf s' \<and> lib_rx_frame s' = lib_rx_frame s \<and>
    (if ok then sock_eof s' = sock_eof s \<and>
        (\<exists>body. holds_msg E hdr (data @ body) s' \<and> length (data @ body) = blob_hdr_raw_len E data)
     else sock_eof s')"
proof -
  let ?len = "blob_hdr_raw_len E data"
  have pos: "0 < ?len"
    using assms(4) by (simp add: ATTR_SIZE_def)
  obtain got t where al: "alloc_msg_buf E ?len s = (got, t)"
    by (cases "alloc_msg_buf E ?len s")
  note wf = alloc_msg_buf_wf [OF assms(1) al pos assms(5)] and fr = alloc_msg_buf_frame [OF al pos]
  show ?thesis
  proof (cases got)
    case False
    with assms(2) al wf fr show ?thesis
      by (auto simp: get_body_def set_eof_def)
  next
    case True
    define u where "u = t\<lparr>msgbuf_hdr := hdr\<rparr>"
    have u: "msgbuf_wf u" "msgbuf_data u \<noteq> None" "?len \<le> msgbuf_data_len u" "lib_rx_frame u = lib_rx_frame s"
      "sock_eof u = sock_eof s" "msgbuf_hdr u = hdr"
      using wf fr True by (simp_all add: u_def)
    show ?thesis
    proof (cases "?len - ATTR_SIZE = 0")
      case True
      with assms(4) have "?len = ATTR_SIZE" by simp
      with True u(3) assms(2,3) al \<open>got\<close> fill_msgbuf_ok [OF u(1,2), of data] u show ?thesis
        by (auto simp: get_body_def u_def [symmetric] holds_msg_def)
    next
      case False
      with assms(2) al \<open>got\<close> obtain r body fdo rs where
        rx: "recv_loop (?len - ATTR_SIZE) True False (sk_in u) = Some (r, body, fdo, rs)" and
        s': "s' = (if r \<le> 0 then set_eof (fill_msgbuf (data @ body) (u\<lparr>sk_in := rs\<rparr>))
                   else fill_msgbuf (data @ body) (u\<lparr>sk_in := rs\<rparr>))" "ok = (\<not> r \<le> 0)"
        by (auto simp: get_body_def u_def Let_def bind_eq_Some_conv split: if_splits)
      have len: "length (data @ body) \<le> msgbuf_data_len u"
        using recv_loop_len [OF rx] u(3) assms(3,4) by simp
      have full: "ok \<Longrightarrow> length (data @ body) = ?len"
        using recv_loop_cases [OF rx] False s'(2) assms(3,4) by auto
      show ?thesis
        using fill_msgbuf_ok [of "u\<lparr>sk_in := rs\<rparr>" "data @ body"] u len full s'
        by (auto simp: holds_msg_def set_eof_def)
    qed
  qed
qed

lemma validate_hdr_len:
  assumes "lib_ok E" and "ubus_validate_hdr E hdr data"
  shows "hdr_version hdr = 0" "ATTR_SIZE \<le> blob_hdr_raw_len E data"
    "blob_hdr_raw_len E data \<le> UBUS_MAX_MSGLEN"
proof -
  have "blob_hdr_raw_len E data \<le> blob_hdr_pad_len E data"
    using assms(1) by (simp add: lib_ok_def blob_law_def)
  with assms(2) show "hdr_version hdr = 0" "ATTR_SIZE \<le> blob_hdr_raw_len E data"
    "blob_hdr_raw_len E data \<le> UBUS_MAX_MSGLEN"
    by (auto simp: ubus_validate_hdr_def split: if_splits)
qed

definition framed :: "env \<Rightarrow> u8 list \<Rightarrow> bool" where
  "framed E bs \<longleftrightarrow> ATTR_SIZE \<le> length bs \<and> blob_hdr_raw_len E (take ATTR_SIZE bs) = length bs \<and>
     blob_hdr_pad_len E (take ATTR_SIZE bs) \<le> UBUS_MAX_MSGLEN"

lemma get_next_msg_safe:
  assumes "lib_ok E" and "msgbuf_wf s" and "get_next_msg E fd s = Some (ok, fd', s')"
  shows "msgbuf_wf s' \<and> lib_rx_frame s' = lib_rx_frame s \<and>
    (ok \<longrightarrow> sock_eof s' = sock_eof s \<and>
       (\<exists>hdr bs. hdr_version hdr = 0 \<and> holds_msg E hdr bs s' \<and> framed E bs))"
proof -
  obtain r bs fdo rs where rx: "recv_loop (HDR_SIZE + ATTR_SIZE) False True (sk_in s) = Some (r, bs, fdo, rs)"
    using assms(3) by (auto simp: get_next_msg_def bind_eq_Some_conv)
  show ?thesis
  proof (cases "r \<le> 0 \<or> hdr_of_bytes (take HDR_SIZE bs) = None \<or>
      \<not> ubus_validate_hdr E (the (hdr_of_bytes (take HDR_SIZE bs))) (drop HDR_SIZE bs)")
    case True
    with rx assms(2,3) show ?thesis
      by (cases "hdr_of_bytes (take HDR_SIZE bs)")
        (auto simp: get_next_msg_def Let_def set_eof_def split: if_splits)
  next
    case False
    then obtain hdr where hdr: "hdr_of_bytes (take HDR_SIZE bs) = Some hdr"
      "ubus_validate_hdr E hdr (drop HDR_SIZE bs)" and "0 < r"
      by auto
    note len = validate_hdr_len [OF assms(1) hdr(2)]
    have data: "length (drop HDR_SIZE bs) = ATTR_SIZE"
      using recv_loop_cases [OF rx] \<open>0 < r\<close> by simp
    have "get_body E hdr (drop HDR_SIZE bs) (s\<lparr>sk_in := rs\<rparr>) = Some (ok, s')"
      using assms(3) rx hdr \<open>0 < r\<close> by (auto simp: get_next_msg_def Let_def)
    from get_body_safe [OF _ this data len(2,3)] assms(2)
    have body: "msgbuf_wf s' \<and> lib_rx_frame s' = lib_rx_frame s \<and> (if ok then sock_eof s' = sock_eof s \<and>
        (\<exists>body. holds_msg E hdr (drop HDR_SIZE bs @ body) s' \<and>
          length (drop HDR_SIZE bs @ body) = blob_hdr_raw_len E (drop HDR_SIZE bs)) else sock_eof s')"
      by (auto split: if_splits)
    have "framed E (drop HDR_SIZE bs @ body)"
      if "length (drop HDR_SIZE bs @ body) = blob_hdr_raw_len E (drop HDR_SIZE bs)" for body
      using that data hdr(2) by (auto simp: framed_def ubus_validate_hdr_def split: if_splits)
    with body len(1) show ?thesis
      by (metis (no_types))
  qed
qed

lemma get_body_frame:
  assumes "msgbuf_wf s" and "calloc_ok E (lib_calloc s)" and "in_good (sk_in s)"
    and d: "length (take ATTR_SIZE bs) = ATTR_SIZE" "blob_hdr_raw_len E (take ATTR_SIZE bs) = length bs"
    and "in_stream (sk_in s) = drop ATTR_SIZE bs @ rest" and "length bs \<le> UBUS_MAX_MSGLEN"
  shows "\<exists>s'. get_body E h (take ATTR_SIZE bs) s = Some (True, s') \<and> holds_msg E h bs s' \<and>
      in_good (sk_in s') \<and> in_stream (sk_in s') = rest \<and> sock_eof s' = sock_eof s"
proof -
  have pos: "0 < length bs"
    using d(1) by (auto simp: ATTR_SIZE_def)
  have "fst (alloc_msg_buf E (length bs) s)"
    using assms(2) msgbuf_avail_calloc [of "round_chunk (length bs)" s]
    by (cases "msgbuf_avail (round_chunk (length bs)) s") (simp add: alloc_msg_buf_def lib_alloc_def Let_def)
  then obtain t where al: "alloc_msg_buf E (length bs) s = (True, t)"
    by (cases "alloc_msg_buf E (length bs) s") simp
  define u where "u = t\<lparr>msgbuf_hdr := h\<rparr>"
  have u: "msgbuf_wf u" "msgbuf_data u \<noteq> None" "length bs \<le> msgbuf_data_len u"
    "sock_eof u = sock_eof s" "msgbuf_hdr u = h" "sk_in u = sk_in s"
    using alloc_msg_buf_wf [OF assms(1) al pos assms(7)] alloc_msg_buf_frame [OF al pos]
    by (simp_all add: u_def)
  show ?thesis
  proof (cases "length bs - ATTR_SIZE = 0")
    case True
    then have "take ATTR_SIZE bs = bs" "drop ATTR_SIZE bs = []" by simp_all
    with True al u assms fill_msgbuf_ok [OF u(1,2,3)] show ?thesis
      by (auto simp: get_body_def u_def [symmetric] holds_msg_def)
  next
    case False
    have "length bs - ATTR_SIZE \<le> length (in_stream (sk_in u))"
      using assms(6) u(6) by simp
    from recv_loop_wait [OF _ this] assms(3,6) u(6) obtain fdo rs where
      rx: "recv_loop (length bs - ATTR_SIZE) True False (sk_in u) =
        Some (int (length bs - ATTR_SIZE), drop ATTR_SIZE bs, fdo, rs)"
      and rs: "in_good rs" "in_stream rs = rest"
      by auto
    let ?v = "u\<lparr>sk_in := rs\<rparr>"
    have "get_body E h (take ATTR_SIZE bs) s = Some (True, fill_msgbuf bs ?v)"
      using al rx False d(2) u(6) alloc_msg_buf_frame(2) [OF al pos]
      by (simp add: get_body_def u_def [symmetric])
    with fill_msgbuf_ok [of ?v bs] u rs show ?thesis
      by (auto simp: holds_msg_def)
  qed
qed

text \<open>A message at the front of the input is received, however the input is cut into pieces.\<close>

lemma get_next_msg_frame:
  assumes "lib_ok E" and "msgbuf_wf s" and "calloc_ok E (lib_calloc s)"
    and good: "in_good (sk_in s)" "in_ready (sk_in s)"
    and str: "in_stream (sk_in s) = hdr_bytes h @ bs @ rest"
    and h: "hdr_version h = 0" "framed E bs"
  shows "\<exists>s'. get_next_msg E fd s = Some (True, in_fd (sk_in s), s') \<and> holds_msg E h bs s' \<and>
    in_good (sk_in s') \<and> in_stream (sk_in s') = rest \<and> msgbuf_wf s' \<and> lib_rx_frame s' = lib_rx_frame s \<and>
    sock_eof s' = sock_eof s"
proof -
  let ?d = "take ATTR_SIZE bs"
  have sz: "HDR_SIZE + ATTR_SIZE \<le> length (in_stream (sk_in s))" "0 < HDR_SIZE + ATTR_SIZE"
    using h(2) str by (auto simp: framed_def)
  have tk: "take (HDR_SIZE + ATTR_SIZE) (in_stream (sk_in s)) = hdr_bytes h @ ?d"
    "drop (HDR_SIZE + ATTR_SIZE) (in_stream (sk_in s)) = drop ATTR_SIZE bs @ rest"
    using h(2) by (simp_all add: str framed_def)
  from recv_loop_first [OF good(1) sz good(2)] obtain rs where
    rx: "recv_loop (HDR_SIZE + ATTR_SIZE) False True (sk_in s) =
      Some (int (HDR_SIZE + ATTR_SIZE), hdr_bytes h @ ?d, Some (in_fd (sk_in s)), rs)"
    and rs: "in_good rs" "in_stream rs = drop ATTR_SIZE bs @ rest"
    unfolding tk by blast
  have val: "ubus_validate_hdr E h ?d"
    using h by (simp add: ubus_validate_hdr_def framed_def)
  note len = validate_hdr_len [OF assms(1) val]
  have dlen: "length ?d = ATTR_SIZE" "blob_hdr_raw_len E ?d = length bs"
    using h(2) by (auto simp: framed_def)
  have gb: "\<exists>s'. get_body E h ?d (s\<lparr>sk_in := rs\<rparr>) = Some (True, s') \<and> holds_msg E h bs s' \<and>
      in_good (sk_in s') \<and> in_stream (sk_in s') = rest \<and> sock_eof s' = sock_eof s"
    using get_body_frame [OF _ _ _ dlen, of "s\<lparr>sk_in := rs\<rparr>" rest h] assms(2,3) rs len dlen(2)
    by simp
  then obtain s' where s': "get_body E h ?d (s\<lparr>sk_in := rs\<rparr>) = Some (True, s')"
    "holds_msg E h bs s'" "in_good (sk_in s')" "in_stream (sk_in s') = rest" "sock_eof s' = sock_eof s"
    by blast
  have "get_next_msg E fd s = Some (True, in_fd (sk_in s), s')"
    using rx s'(1) val HDR_SIZE_pos by (simp add: get_next_msg_def Let_def ATTR_SIZE_def)
  with get_next_msg_safe [OF assms(1,2) this] s' show ?thesis by blast
qed

end
