(* ===== verification/Libubus_Req.thy ===== *)
theory Libubus_Req
  imports Libubus_Io
begin

text \<open>
  Requests (src/libubus-req.c): starting, linking, completing and aborting them, matching replies
  with them, and the bookkeeping of notifications that wait for several subscribers.

  \<open>do_process_req_data\<close> and \<open>do_start_request\<close> are the functions \<open>__ubus_process_req_data\<close> and
  \<open>__ubus_start_request\<close>. Waiting for a request to complete enters the receive loop and is in theory
  \<open>Libubus_Core\<close>.
\<close>

section \<open>Message buffers given to the handlers\<close>

text \<open>A \<open>struct ubus_msghdr_buf *\<close>: the receive buffer of the context, or a message that was queued.
  The fields are read when they are used.\<close>

datatype msg_buf = Msgbuf | Queued ubus_pending_msg

definition buf_hdr :: "msg_buf \<Rightarrow> lib \<Rightarrow> ubus_msghdr" where
  "buf_hdr b s = (case b of Msgbuf \<Rightarrow> msgbuf_hdr s | Queued p \<Rightarrow> pm_hdr p)"

text \<open>A null data pointer stands for the address \<open>lib_next\<close>, where nothing is live.\<close>

definition buf_data :: "msg_buf \<Rightarrow> lib \<Rightarrow> addr" where
  "buf_data b s =
     (case b of
        Msgbuf \<Rightarrow> (case msgbuf_data s of None \<Rightarrow> lib_next s | Some a \<Rightarrow> a)
      | Queued p \<Rightarrow> pm_data p)"

section \<open>Data of a request\<close>

definition req_data_cb ::
  "env \<Rightarrow> callbacks \<Rightarrow> addr \<Rightarrow> u8 \<Rightarrow> addr \<Rightarrow> lib \<Rightarrow> lib option" where
  "req_data_cb E K req type data s =
     (case reqs s req of
        None \<Rightarrow> Some (lfault s)
      | Some r \<Rightarrow>
          Option.bind
            (case rq_raw_data_cb r of
               None \<Rightarrow> Some s
             | Some cb \<Rightarrow> call_void K (Call_data cb req type (Whole data)) s)
            (\<lambda>s. case reqs s req of
                   None \<Rightarrow> Some (lfault s)
                 | Some r \<Rightarrow>
                     (case rq_data_cb r of
                        None \<Rightarrow> Some s
                      | Some cb \<Rightarrow>
                          (case lib_parse_msg E data s of
                             (attr, s) \<Rightarrow>
                               (case attr UBUS_ATTR_DATA of
                                  None \<Rightarrow> Some s
                                | Some a \<Rightarrow> call_void K (Call_data cb req type (Attr data a)) s)))))"

text \<open>
  The loop keeps a pointer to the next node while the callback for the current one runs. New nodes
  are linked at the head, behind the loop; so the nodes it visits are those that were there at the
  start. When a callback has released the next node the loop follows a dangling pointer.
\<close>

fun process_data_loop ::
  "env \<Rightarrow> callbacks \<Rightarrow> addr \<Rightarrow> (addr \<times> u8) list \<Rightarrow> lib \<Rightarrow> lib option" where
  "process_data_loop E K req [] s = Some s"
| "process_data_loop E K req ((d, ty) # ds) s =
     (case reqs s req of
        None \<Rightarrow> Some (lfault s)
      | Some r \<Rightarrow>
          if (d, ty) \<notin> set (rq_pending r) then Some (lfault s)
          else
            let s = upd_req req (\<lambda>r. r\<lparr>rq_pending := remove1 (d, ty) (rq_pending r)\<rparr>) s in
            Option.bind (if rq_cancelled r then Some s else req_data_cb E K req ty d s)
              (\<lambda>s. process_data_loop E K req ds (free_blob d s)))"

definition do_process_req_data :: "env \<Rightarrow> callbacks \<Rightarrow> addr \<Rightarrow> lib \<Rightarrow> lib option" where
  "do_process_req_data E K req s =
     (case reqs s req of
        None \<Rightarrow> Some (lfault s)
      | Some r \<Rightarrow> process_data_loop E K req (rq_pending r) s)"

section \<open>Starting a request\<close>

definition zero_request :: ubus_request where
  "zero_request = \<lparr>rq_list = Null_node, rq_pending = [], rq_status_code = 0, rq_status_msg = False,
     rq_blocked = False, rq_cancelled = False, rq_notify = False, rq_peer = 0, rq_seq = 0,
     rq_raw_data_cb = None, rq_data_cb = None, rq_fd_cb = None, rq_complete_cb = None, rq_fd = 0,
     rq_priv = 0\<rparr>"

text \<open>Overwriting a request that is linked corrupts the list.\<close>

definition set_req :: "addr \<Rightarrow> ubus_request \<Rightarrow> lib \<Rightarrow> lib" where
  "set_req req r s =
     (if req \<in> set (requests s) then lfault s else s\<lparr>reqs := (reqs s)(req \<mapsto> r)\<rparr>)"

definition do_start_request ::
  "env \<Rightarrow> addr \<Rightarrow> blob option \<Rightarrow> ubus_msg_type \<Rightarrow> u32 \<Rightarrow> lib \<Rightarrow> (int \<times> lib) option" where
  "do_start_request E req msg cmd peer s =
     (case reqs s req of
        None \<Rightarrow> Some (- 1, lfault s)
      | Some r \<Rightarrow>
          if (case msg of None \<Rightarrow> False | Some d \<Rightarrow> UBUS_MAX_MSGLEN < blob_pad_len E d)
          then Some (- 1, lib_close_fd (rq_fd r) s)
          else
            let seq = request_seq s + 1;
                s = s\<lparr>request_seq := seq\<rparr>;
                s = set_req req (r\<lparr>rq_list := Empty_node, rq_pending := [], rq_peer := peer,
                                   rq_seq := seq\<rparr>) s
            in ubus_send_msg E (ucast seq) msg cmd peer (rq_fd r) s)"

definition ubus_start_request ::
  "env \<Rightarrow> addr \<Rightarrow> blob option \<Rightarrow> ubus_msg_type \<Rightarrow> u32 \<Rightarrow> lib \<Rightarrow> (int \<times> lib) option" where
  "ubus_start_request E req msg cmd peer s =
     do_start_request E req msg cmd peer (set_req req (zero_request\<lparr>rq_fd := - 1\<rparr>) s)"

section \<open>Linking and completing\<close>

definition req_unlink :: "addr \<Rightarrow> lib \<Rightarrow> lib" where
  "req_unlink req s =
     (if req_get req rq_list Null_node s = Null_node then lfault s
      else upd_req req (\<lambda>r. r\<lparr>rq_list := Empty_node\<rparr>) (s\<lparr>requests := remove1 req (requests s)\<rparr>))"

definition req_unlinked :: "addr \<Rightarrow> lib \<Rightarrow> bool" where
  "req_unlinked req s \<longleftrightarrow> req_get req rq_list Null_node s = Empty_node"

definition ubus_abort_request :: "env \<Rightarrow> callbacks \<Rightarrow> addr \<Rightarrow> lib \<Rightarrow> lib option" where
  "ubus_abort_request E K req s =
     (if req_unlinked req s then Some s
      else
        Option.bind
          (do_process_req_data E K req (upd_req req (\<lambda>r. r\<lparr>rq_cancelled := True\<rparr>) s))
          (\<lambda>s. Some (req_unlink req s)))"

definition ubus_complete_request_async :: "addr \<Rightarrow> lib \<Rightarrow> lib" where
  "ubus_complete_request_async req s =
     (if \<not> req_unlinked req s then s
      else upd_req req (\<lambda>r. r\<lparr>rq_list := Linked\<rparr>) (s\<lparr>requests := req # requests s\<rparr>))"

definition ubus_req_complete_cb :: "callbacks \<Rightarrow> addr \<Rightarrow> lib \<Rightarrow> lib option" where
  "ubus_req_complete_cb K req s =
     (case reqs s req of
        None \<Rightarrow> Some (lfault s)
      | Some r \<Rightarrow>
          (case rq_complete_cb r of
             None \<Rightarrow> Some s
           | Some cb \<Rightarrow>
               call_void K (Call_complete cb req (rq_status_code r))
                 (upd_req req (\<lambda>r. r\<lparr>rq_complete_cb := None\<rparr>) s)))"

definition ubus_set_req_status :: "callbacks \<Rightarrow> addr \<Rightarrow> int \<Rightarrow> lib \<Rightarrow> lib option" where
  "ubus_set_req_status K req ret s =
     (let s = (if req_unlinked req s then s else req_unlink req s);
          s = upd_req req (\<lambda>r. r\<lparr>rq_status_msg := True, rq_status_code := ret\<rparr>) s
      in if req_get req rq_blocked False s then Some s else ubus_req_complete_cb K req s)"

definition ubus_sync_req_cb :: "addr \<Rightarrow> int \<Rightarrow> lib \<Rightarrow> lib" where
  "ubus_sync_req_cb req ret s =
     (upd_req req (\<lambda>r. r\<lparr>rq_status_msg := True, rq_status_code := ret\<rparr>) s)\<lparr>cancel_poll := True\<rparr>"

definition status_int :: "ubus_msg_status \<Rightarrow> int" where
  "status_int st = sint (ubus_status_code st)"

partial_function (option) ubus_flush_requests :: "callbacks \<Rightarrow> lib \<Rightarrow> lib option" where
  "ubus_flush_requests K s =
     (case requests s of
        [] \<Rightarrow> Some s
      | req # _ \<Rightarrow>
          Option.bind (ubus_set_req_status K req (status_int UBUS_STATUS_TIMEOUT) s)
            (ubus_flush_requests K))"

section \<open>Replies and calls\<close>

definition ubus_complete_deferred_request ::
  "env \<Rightarrow> ubus_request_data \<Rightarrow> int \<Rightarrow> lib \<Rightarrow> (int \<times> lib) option" where
  "ubus_complete_deferred_request E rd ret s =
     ubus_send_msg E (ucast (rd_seq rd))
       (Some (Built [(ubus_attr_code UBUS_ATTR_STATUS, Blob_int32 (word_of_int ret)),
                     (ubus_attr_code UBUS_ATTR_OBJID, Blob_int32 (rd_object rd))]))
       UBUS_MSG_STATUS (rd_peer rd) (rd_fd rd) s"

text \<open>The message data a caller passes: nothing, a blob of its own, one that holds named fields, or the
  head of the buffer \<open>b\<close> in which the library builds its messages. In the last case the attributes
  already put are copied.\<close>

datatype put_msg = No_msg | Msg blob | Fields "(string \<times> blob_attr) list" | B_head

definition ubus_put_data :: "env \<Rightarrow> (nat \<times> blob_attr) list \<Rightarrow> put_msg \<Rightarrow> (nat \<times> blob_attr) list" where
  "ubus_put_data E b msg =
     b @ [(ubus_attr_code UBUS_ATTR_DATA,
           case msg of
             No_msg \<Rightarrow> Blob_bytes []
           | Msg d \<Rightarrow> Blob_bytes (drop ATTR_SIZE (blob_image E d))
           | Fields fs \<Rightarrow> Blobmsg_table fs
           | B_head \<Rightarrow> Blob_bytes (drop ATTR_SIZE (blob_image E (Built b))))]"

definition ubus_send_reply ::
  "env \<Rightarrow> ubus_request_data \<Rightarrow> put_msg \<Rightarrow> lib \<Rightarrow> (int \<times> lib) option" where
  "ubus_send_reply E rd msg s =
     Option.bind
       (ubus_send_msg E (ucast (rd_seq rd))
          (Some (Built (ubus_put_data E [(ubus_attr_code UBUS_ATTR_OBJID, Blob_int32 (rd_object rd))] msg)))
          UBUS_MSG_DATA (rd_peer rd) (- 1) s)
       (\<lambda>(ret, s). Some (if ret < 0 then status_int UBUS_STATUS_NO_DATA else 0, s))"

definition lib_invoke_attrs :: "env \<Rightarrow> u32 \<Rightarrow> string \<Rightarrow> put_msg \<Rightarrow> (nat \<times> blob_attr) list" where
  "lib_invoke_attrs E obj meth msg =
     ubus_put_data E [(ubus_attr_code UBUS_ATTR_OBJID, Blob_int32 obj),
                      (ubus_attr_code UBUS_ATTR_METHOD, Blob_string meth)] msg"

definition ubus_invoke_async_fd ::
  "env \<Rightarrow> u32 \<Rightarrow> string \<Rightarrow> put_msg \<Rightarrow> addr \<Rightarrow> int \<Rightarrow> lib \<Rightarrow> (int \<times> lib) option" where
  "ubus_invoke_async_fd E obj meth msg req fd s =
     Option.bind
       (do_start_request E req (Some (Built (lib_invoke_attrs E obj meth msg))) UBUS_MSG_INVOKE obj
          (set_req req (zero_request\<lparr>rq_fd := fd\<rparr>) s))
       (\<lambda>(ret, s). Some (if ret < 0 then status_int UBUS_STATUS_INVALID_ARGUMENT else 0, s))"

definition ubus_invoke_async ::
  "env \<Rightarrow> u32 \<Rightarrow> string \<Rightarrow> put_msg \<Rightarrow> addr \<Rightarrow> lib \<Rightarrow> (int \<times> lib) option" where
  "ubus_invoke_async E obj meth msg req s = ubus_invoke_async_fd E obj meth msg req (- 1) s"

section \<open>Notifications\<close>

definition zero_nreq :: ubus_notify_request where
  "zero_nreq = \<lparr>nq_status_cb = None, nq_complete_cb = None, nq_data_cb = None, nq_pending = 0,
     nq_id = replicate (Suc UBUS_MAX_NOTIFY_PEERS) 0\<rparr>"

definition ubus_notify_complete_cb :: "callbacks \<Rightarrow> addr \<Rightarrow> lib \<Rightarrow> lib option" where
  "ubus_notify_complete_cb K req s =
     (case nreqs s req of
        None \<Rightarrow> Some (lfault s)
      | Some n \<Rightarrow>
          (case nq_complete_cb n of
             None \<Rightarrow> Some s
           | Some cb \<Rightarrow> call_void K (Call_notify_complete cb req) s))"

definition ubus_notify_data_cb :: "callbacks \<Rightarrow> addr \<Rightarrow> u8 \<Rightarrow> msg_ptr \<Rightarrow> lib \<Rightarrow> lib option" where
  "ubus_notify_data_cb K req type msg s =
     (case nreqs s req of
        None \<Rightarrow> Some (lfault s)
      | Some n \<Rightarrow>
          (case nq_data_cb n of
             None \<Rightarrow> Some s
           | Some cb \<Rightarrow> call_void K (Call_notify_data cb req type msg) s))"

definition notify_attrs :: "env \<Rightarrow> u32 \<Rightarrow> string \<Rightarrow> put_msg \<Rightarrow> bool \<Rightarrow> (nat \<times> blob_attr) list" where
  "notify_attrs E obj type msg reply =
     lib_invoke_attrs E obj type msg @
     (if reply then [] else [(ubus_attr_code UBUS_ATTR_NO_REPLY, Blob_int8 1)])"

definition do_notify_async ::
  "env \<Rightarrow> addr \<Rightarrow> string \<Rightarrow> put_msg \<Rightarrow> addr \<Rightarrow> bool \<Rightarrow> lib \<Rightarrow> (int \<times> lib) option" where
  "do_notify_async E obj type msg req reply s =
     (if ubus_context_is_channel s then Some (status_int UBUS_STATUS_INVALID_ARGUMENT, s)
      else
        (case objs s obj of
           None \<Rightarrow> Some (status_int UBUS_STATUS_INVALID_ARGUMENT, lfault s)
         | Some ob \<Rightarrow>
             Option.bind
               (ubus_start_request E req (Some (Built (notify_attrs E (ob_id ob) type msg reply)))
                  UBUS_MSG_NOTIFY (ob_id ob) (s\<lparr>nreqs := (nreqs s)(req \<mapsto> zero_nreq)\<rparr>))
               (\<lambda>(ret, s).
                  if ret < 0 then Some (status_int UBUS_STATUS_INVALID_ARGUMENT, s)
                  else
                    Some (0,
                      upd_req req (\<lambda>r. r\<lparr>rq_notify := True, rq_complete_cb := Some Ubus_notify_complete_cb,
                                         rq_data_cb := Some Ubus_notify_data_cb\<rparr>)
                        (upd_nreq req (\<lambda>n. n\<lparr>nq_pending := 1, nq_id := (nq_id n)[0 := ob_id ob]\<rparr>) s)))))"

definition ubus_notify_async ::
  "env \<Rightarrow> addr \<Rightarrow> string \<Rightarrow> put_msg \<Rightarrow> addr \<Rightarrow> lib \<Rightarrow> (int \<times> lib) option" where
  "ubus_notify_async E obj type msg req s = do_notify_async E obj type msg req True s"

section \<open>Incoming replies\<close>

definition ubus_get_status :: "env \<Rightarrow> msg_buf \<Rightarrow> lib \<Rightarrow> int option \<times> lib" where
  "ubus_get_status E buf s =
     (case lib_parse_msg E (buf_data buf s) s of
        (tb, s) \<Rightarrow> (map_option (\<lambda>a. sint (blob_get_u32 E a)) (tb UBUS_ATTR_STATUS), s))"

definition ubus_process_req_status :: "env \<Rightarrow> callbacks \<Rightarrow> addr \<Rightarrow> msg_buf \<Rightarrow> lib \<Rightarrow> lib option" where
  "ubus_process_req_status E K req buf s =
     (case ubus_get_status E buf s of
        (st, s) \<Rightarrow>
          let ret = (case st of None \<Rightarrow> status_int UBUS_STATUS_INVALID_ARGUMENT | Some r \<Rightarrow> r);
              s = upd_req req (\<lambda>r. r\<lparr>rq_peer := hdr_peer (buf_hdr buf s)\<rparr>) s
          in ubus_set_req_status K req ret s)"

definition ubus_process_req_data :: "env \<Rightarrow> callbacks \<Rightarrow> addr \<Rightarrow> msg_buf \<Rightarrow> lib \<Rightarrow> lib option" where
  "ubus_process_req_data E K req buf s =
     (if \<not> req_get req rq_blocked False s then
        Option.bind
          (req_data_cb E K req (hdr_type (buf_hdr buf s)) (buf_data buf s)
             (upd_req req (\<lambda>r. r\<lparr>rq_blocked := True\<rparr>) s))
          (\<lambda>s. Option.bind (do_process_req_data E K req s)
             (\<lambda>s. let s = upd_req req (\<lambda>r. r\<lparr>rq_blocked := False\<rparr>) s in
                  if req_get req rq_status_msg False s then ubus_req_complete_cb K req s else Some s))
      else
        (case lib_alloc E s of
           (False, s) \<Rightarrow> Some s
         | (True, s) \<Rightarrow>
             let (d, s) = read_blob (buf_data buf s) s; ty = hdr_type (buf_hdr buf s);
                 (a, s) = new_blob d s
             in Some (upd_req req (\<lambda>r. r\<lparr>rq_pending := (a, ty) # rq_pending r\<rparr>) s)))"

lemma unat_drop_bit_less: "(w :: u32) \<noteq> 0 \<Longrightarrow> unat (drop_bit (Suc 0) w) < unat w"
proof -
  assume "w \<noteq> 0"
  then have "0 < unat w"
    by (simp add: unat_gt_0)
  moreover have "unat (drop_bit (Suc 0) w) = unat w div 2"
    by (simp add: drop_bit_Suc unat_div)
  ultimately show ?thesis
    by simp
qed

text \<open>The index of a peer among those a notification waits for, \<open>-1\<close> when it is not there, and
  whether the search left the array.\<close>

function find_notify_loop :: "u32 list \<Rightarrow> u32 \<Rightarrow> u32 \<Rightarrow> nat \<Rightarrow> int \<times> bool" where
  "find_notify_loop ids objid pending i =
     (if pending = 0 then (- 1, False)
      else if pending AND 1 = 0 then find_notify_loop ids objid (drop_bit 1 pending) (Suc i)
      else if length ids \<le> i then (- 1, True)
      else if ids ! i = objid then (int i, False)
      else find_notify_loop ids objid (drop_bit 1 pending) (Suc i))"
  by pat_completeness auto

termination
  by (relation "measure (\<lambda>(ids, objid, pending, i). unat pending)") (simp_all add: unat_drop_bit_less)

declare find_notify_loop.simps [simp del]

definition ubus_find_notify_id :: "ubus_notify_request \<Rightarrow> u32 \<Rightarrow> int \<times> bool" where
  "ubus_find_notify_id n objid = find_notify_loop (nq_id n) objid (nq_pending n) 0"

fun find_request_loop ::
  "u16 \<Rightarrow> u32 \<Rightarrow> addr list \<Rightarrow> lib \<Rightarrow> (addr \<times> int) option \<times> lib" where
  "find_request_loop seq peer [] s = (None, s)"
| "find_request_loop seq peer (req # rest) s =
     (case reqs s req of
        None \<Rightarrow> (None, lfault s)
      | Some r \<Rightarrow>
          if seq \<noteq> rq_seq r then find_request_loop seq peer rest s
          else if rq_notify r then
            (case nreqs s req of
               None \<Rightarrow> (None, lfault s)
             | Some n \<Rightarrow>
                 if nq_pending n = 0 then find_request_loop seq peer rest s
                 else
                   let (i, bad) = ubus_find_notify_id n peer; s = (if bad then lfault s else s) in
                   if i < 0 then find_request_loop seq peer rest s else (Some (req, i), s))
          else if peer \<noteq> rq_peer r then find_request_loop seq peer rest s
          else (Some (req, - 1), s))"

definition ubus_find_request :: "u16 \<Rightarrow> u32 \<Rightarrow> lib \<Rightarrow> (addr \<times> int) option \<times> lib" where
  "ubus_find_request seq peer s = find_request_loop seq peer (requests s) s"

text \<open>The list of subscribers in the first reply to a notification.\<close>

definition blob_nested :: "blob_attr \<Rightarrow> blob_attr list" where
  "blob_nested a = (case a of Blob_nest fs \<Rightarrow> map snd fs | _ \<Rightarrow> [])"

definition blob_check_int32 :: "blob_attr \<Rightarrow> bool" where
  "blob_check_int32 a = (case a of Blob_int32 _ \<Rightarrow> True | _ \<Rightarrow> False)"

fun notify_peers_loop ::
  "env \<Rightarrow> blob_attr list \<Rightarrow> nat \<Rightarrow> ubus_notify_request \<Rightarrow> ubus_notify_request" where
  "notify_peers_loop E [] idx n = n"
| "notify_peers_loop E (cur # rest) idx n =
     (if \<not> blob_check_int32 cur then notify_peers_loop E rest idx n
      else
        let n = n\<lparr>nq_pending := nq_pending n OR push_bit idx 1,
                  nq_id := (nq_id n)[idx := blob_get_u32 E cur]\<rparr>
        in if Suc idx = UBUS_MAX_NOTIFY_PEERS + 1 then n
           else notify_peers_loop E rest (Suc idx) n)"

definition ubus_process_notify_status ::
  "env \<Rightarrow> callbacks \<Rightarrow> addr \<Rightarrow> nat \<Rightarrow> msg_buf \<Rightarrow> lib \<Rightarrow> lib option" where
  "ubus_process_notify_status E K req i buf s =
     (let s = upd_nreq req (\<lambda>n. n\<lparr>nq_pending := nq_pending n AND NOT (push_bit i 1)\<rparr>) s in
      Option.bind
        (if i = 0 then
           (case lib_parse_msg E (buf_data buf s) s of
              (tb, s) \<Rightarrow>
                Some (case tb UBUS_ATTR_SUBSCRIBERS of
                        None \<Rightarrow> s
                      | Some a \<Rightarrow> upd_nreq req (notify_peers_loop E (blob_nested a) 1) s))
         else
           (case ubus_get_status E buf s of
              (st, s) \<Rightarrow>
                (case nreqs s req of
                   None \<Rightarrow> Some (lfault s)
                 | Some n \<Rightarrow>
                     (case nq_status_cb n of
                        None \<Rightarrow> Some s
                      | Some cb \<Rightarrow>
                          call_void K (Call_notify_status cb req i (case st of None \<Rightarrow> 0 | Some r \<Rightarrow> r)) s))))
        (\<lambda>s. case nreqs s req of
               None \<Rightarrow> Some (lfault s)
             | Some n \<Rightarrow> if nq_pending n = 0 then ubus_set_req_status K req 0 s else Some s))"

definition ubus_process_req_msg ::
  "env \<Rightarrow> callbacks \<Rightarrow> msg_buf \<Rightarrow> int \<Rightarrow> lib \<Rightarrow> lib option" where
  "ubus_process_req_msg E K buf fd s =
     (let hdr = buf_hdr buf s in
      if hdr_type hdr = ubus_msg_code UBUS_MSG_STATUS then
        (case ubus_find_request (hdr_seq hdr) (hdr_peer hdr) s of
           (None, s) \<Rightarrow> Some (lib_close_fd fd s)
         | (Some (req, i), s) \<Rightarrow>
             Option.bind
               (case (0 \<le> fd, req_get req rq_fd_cb None s) of
                  (True, Some cb) \<Rightarrow> map_option (Pair (- 1)) (call_void K (Call_fd cb req fd) s)
                | _ \<Rightarrow> Some (fd, s))
               (\<lambda>(fd, s).
                  Option.bind
                    (if 0 \<le> i then ubus_process_notify_status E K req (nat i) buf s
                     else ubus_process_req_status E K req buf s)
                    (\<lambda>s. Some (lib_close_fd fd s))))
      else if hdr_type hdr = ubus_msg_code UBUS_MSG_DATA then
        (case ubus_find_request (hdr_seq hdr) (hdr_peer hdr) s of
           (None, s) \<Rightarrow> Some (lib_close_fd fd s)
         | (Some (req, _), s) \<Rightarrow>
             Option.bind
               (if req_get req rq_data_cb None s \<noteq> None \<or> req_get req rq_raw_data_cb None s \<noteq> None
                then ubus_process_req_data E K req buf s else Some s)
               (\<lambda>s. Some (lib_close_fd fd s)))
      else Some (lib_close_fd fd s))"

end
