(* ===== verification/Libubus_Obj.thy ===== *)
theory Libubus_Obj
  imports Libubus_Req
begin

text \<open>
  Objects of a client (src/libubus-obj.c): what the library does with a call, a notification or an
  unsubscription that the daemon forwards to one of them, and the messages that describe an object
  to the daemon.

  The parsed attributes of the message are in the static table \<open>attrbuf\<close> and are read from it at the
  time the code reads them.
\<close>

section \<open>Calls to an object\<close>

text \<open>\<open>attrbuf[a]\<close>, with the buffer it points into.\<close>

definition attr_at :: "ubus_msg_attr \<Rightarrow> lib \<Rightarrow> (addr \<times> blob_attr) option" where
  "attr_at a s = map_option (Pair (fst (attrbuf s))) (snd (attrbuf s) a)"

definition msg_ptr_of :: "(addr \<times> blob_attr) option \<Rightarrow> msg_ptr" where
  "msg_ptr_of p = (case p of None \<Rightarrow> Null_msg | Some (a, v) \<Rightarrow> Attr a v)"

definition ubus_process_unsubscribe ::
  "env \<Rightarrow> callbacks \<Rightarrow> addr option \<Rightarrow> int \<Rightarrow> lib \<Rightarrow> lib option" where
  "ubus_process_unsubscribe E K obj fd s =
     (let s = lib_close_fd fd s in
      case (obj, attr_at UBUS_ATTR_TARGET s) of
        (Some a, Some (_, t)) \<Rightarrow>
          (case objs s a of
             None \<Rightarrow> Some (lfault s)
           | Some ob \<Rightarrow>
               if ob_methods ob \<noteq> Watch_method then Some s
               else
                 (case subscribers s a of
                    None \<Rightarrow> Some (lfault s)
                  | Some sb \<Rightarrow>
                      (case sb_remove_cb sb of
                         None \<Rightarrow> Some s
                       | Some cb \<Rightarrow> call_void K (Call_remove cb a (blob_get_u32 E t)) s)))
      | _ \<Rightarrow> Some s)"

definition ubus_process_notify ::
  "env \<Rightarrow> callbacks \<Rightarrow> addr option \<Rightarrow> int \<Rightarrow> lib \<Rightarrow> lib option" where
  "ubus_process_notify E K obj fd s =
     (let s = lib_close_fd fd s in
      case (obj, attr_at UBUS_ATTR_ACTIVE s) of
        (Some a, Some (_, v)) \<Rightarrow>
          (case objs s a of
             None \<Rightarrow> Some (lfault s)
           | Some ob \<Rightarrow>
               let s = upd_lobj a (\<lambda>ob. ob\<lparr>ob_has_subscribers := blob_get_u8 E v \<noteq> 0\<rparr>) s in
               (case ob_subscribe_cb ob of
                  None \<Rightarrow> Some s
                | Some cb \<Rightarrow> call_void K (Call_subscribe cb a) s))
      | _ \<Rightarrow> Some s)"

definition watch_method :: ubus_method where
  "watch_method = \<lparr>m_name = None, m_handler = Ubus_subscriber_cb, m_mask = 0, m_policy = []\<rparr>"

definition event_method :: ubus_method where
  "event_method = \<lparr>m_name = None, m_handler = Ubus_event_cb, m_mask = 0, m_policy = []\<rparr>"

definition methods_of :: "method_table \<Rightarrow> ubus_method list" where
  "methods_of t = (case t of Watch_method \<Rightarrow> [watch_method] | Event_method \<Rightarrow> [event_method] | Methods ms \<Rightarrow> ms)"

definition ubus_object_find_method :: "lib_object \<Rightarrow> string \<Rightarrow> ubus_method option" where
  "ubus_object_find_method ob name =
     find (\<lambda>m. m_name m = None \<or> m_name m = Some name) (methods_of (ob_methods ob))"

definition upd_rdata :: "addr \<Rightarrow> (ubus_request_data \<Rightarrow> ubus_request_data) \<Rightarrow> lib \<Rightarrow> lib" where
  "upd_rdata rd f s =
     (case rdata s rd of None \<Rightarrow> lfault s | Some r \<Rightarrow> s\<lparr>rdata := (rdata s)(rd \<mapsto> f r)\<rparr>)"

text \<open>The request data is a local variable: it gets a fresh address and is gone at the end.\<close>

definition new_rdata :: "int \<Rightarrow> lib \<Rightarrow> addr \<times> lib" where
  "new_rdata fd s =
     (lib_next s,
      s\<lparr>rdata := (rdata s)(lib_next s \<mapsto>
          \<lparr>rd_object = 0, rd_peer = 0, rd_seq = 0, rd_user = None, rd_group = None,
           rd_acl_object = None, rd_deferred = False, rd_fd = - 1, rd_req_fd = fd\<rparr>),
        lib_next := Suc (lib_next s)\<rparr>)"

definition free_rdata :: "addr \<Rightarrow> lib \<Rightarrow> lib" where
  "free_rdata rd s = s\<lparr>rdata := (rdata s)(rd := None)\<rparr>"

text \<open>The label \<open>send\<close>.\<close>

definition invoke_send :: "env \<Rightarrow> addr \<Rightarrow> int \<Rightarrow> lib \<Rightarrow> lib option" where
  "invoke_send E rd ret s =
     (case rdata s rd of
        None \<Rightarrow> Some (lfault s)
      | Some r \<Rightarrow>
          Option.bind (ubus_complete_deferred_request E r ret (lib_close_fd (rd_req_fd r) s))
            (\<lambda>(_, s). Some (free_rdata rd s)))"

text \<open>What follows the handler: nothing is sent for a deferred request or when no reply is wanted.\<close>

definition invoke_finish :: "env \<Rightarrow> addr \<Rightarrow> bool \<Rightarrow> int \<Rightarrow> lib \<Rightarrow> lib option" where
  "invoke_finish E rd no_reply ret s =
     (case rdata s rd of
        None \<Rightarrow> Some (lfault s)
      | Some r \<Rightarrow>
          if rd_deferred r \<or> no_reply then Some (free_rdata rd (lib_close_fd (rd_req_fd r) s))
          else invoke_send E rd ret s)"

text \<open>The label \<open>found\<close>. \<open>meth\<close> is the method of the object, \<open>None\<close> for a channel.\<close>

definition invoke_found ::
  "env \<Rightarrow> callbacks \<Rightarrow> addr option \<Rightarrow> ubus_method option \<Rightarrow> addr \<Rightarrow> bool \<Rightarrow> lib \<Rightarrow> lib option" where
  "invoke_found E K obj meth rd no_reply s =
     (if attr_at UBUS_ATTR_DATA s = None then
        invoke_send E rd (status_int UBUS_STATUS_INVALID_ARGUMENT) s
      else
        Option.bind
          (case (meth, pre_invoke s, obj) of
             (Some m, Some cb, Some a) \<Rightarrow>
               call_cb K (Call_pre_invoke cb a (m_name m) rd (msg_ptr_of (attr_at UBUS_ATTR_DATA s))) s
           | _ \<Rightarrow> Some (0, s))
          (\<lambda>(ret, s).
             if ret \<noteq> 0 then invoke_finish E rd no_reply ret s
             else
               (case attr_at UBUS_ATTR_METHOD s of
                  None \<Rightarrow> Some (lfault s)
                | Some name \<Rightarrow>
                    Option.bind
                      (call_cb K (Call_method
                          (case meth of Some m \<Rightarrow> m_handler m | None \<Rightarrow> App_method (the (request_handler s)))
                          obj rd name (msg_ptr_of (attr_at UBUS_ATTR_DATA s))) s)
                      (\<lambda>(ret, s). invoke_finish E rd no_reply ret s))))"

definition set_caller :: "env \<Rightarrow> lib_object \<Rightarrow> addr \<Rightarrow> lib \<Rightarrow> lib" where
  "set_caller E ob rd s =
     (let s = upd_rdata rd (\<lambda>r. r\<lparr>rd_object := ob_id ob\<rparr>) s in
      case (attr_at UBUS_ATTR_USER s, attr_at UBUS_ATTR_GROUP s) of
        (Some (_, u), Some (_, g)) \<Rightarrow>
          upd_rdata rd (\<lambda>r. r\<lparr>rd_user := Some (blob_str E u), rd_group := Some (blob_str E g),
                             rd_acl_object := ob_name ob\<rparr>) s
      | _ \<Rightarrow> s)"

definition ubus_process_invoke ::
  "env \<Rightarrow> callbacks \<Rightarrow> msg_buf \<Rightarrow> addr option \<Rightarrow> int \<Rightarrow> lib \<Rightarrow> lib option" where
  "ubus_process_invoke E K buf obj fd s =
     (case new_rdata fd s of
        (rd, s) \<Rightarrow>
          if obj = None \<and> \<not> ubus_context_is_channel s \<or>
             request_handler s = None \<and> ubus_context_is_channel s
          then invoke_send E rd (status_int UBUS_STATUS_NOT_FOUND) s
          else
            (case attr_at UBUS_ATTR_METHOD s of
               None \<Rightarrow> invoke_send E rd (status_int UBUS_STATUS_INVALID_ARGUMENT) s
             | Some (_, name) \<Rightarrow>
                 let no_reply = (case attr_at UBUS_ATTR_NO_REPLY s of
                                   None \<Rightarrow> False | Some (_, v) \<Rightarrow> blob_get_u8 E v \<noteq> 0);
                     hdr = buf_hdr buf s;
                     s = upd_rdata rd (\<lambda>r. r\<lparr>rd_peer := hdr_peer hdr, rd_seq := hdr_seq hdr\<rparr>) s
                 in if ubus_context_is_channel s then invoke_found E K obj None rd no_reply s
                    else
                      (case Option.bind obj (objs s) of
                         None \<Rightarrow> Some (lfault s)
                       | Some ob \<Rightarrow>
                           let s = set_caller E ob rd s in
                           (case ubus_object_find_method ob (blob_str E name) of
                              None \<Rightarrow> invoke_send E rd (status_int UBUS_STATUS_METHOD_NOT_FOUND) s
                            | Some m \<Rightarrow> invoke_found E K obj (Some m) rd no_reply s))))"

text \<open>While a handler runs on a message of the receive buffer, the buffer is taken out of the context,
  so that messages received meanwhile go into a new one.\<close>

definition buf_take :: "msg_buf \<Rightarrow> lib \<Rightarrow> addr option \<times> lib" where
  "buf_take buf s =
     (case buf of Msgbuf \<Rightarrow> (msgbuf_data s, s\<lparr>msgbuf_data := None\<rparr>) | Queued p \<Rightarrow> (None, s))"

definition buf_restore :: "addr option \<Rightarrow> lib \<Rightarrow> lib" where
  "buf_restore prev_data s =
     (case prev_data of
        None \<Rightarrow> s
      | Some a \<Rightarrow> if msgbuf_data s \<noteq> None then free_blob a s else s\<lparr>msgbuf_data := Some a\<rparr>)"

definition ubus_process_obj_msg ::
  "env \<Rightarrow> callbacks \<Rightarrow> msg_buf \<Rightarrow> int \<Rightarrow> lib \<Rightarrow> lib option" where
  "ubus_process_obj_msg E K buf fd s =
     (let hdr = buf_hdr buf s; (_, s) = lib_parse_msg E (buf_data buf s) s in
      case attr_at UBUS_ATTR_OBJID s of
        None \<Rightarrow> Some (lib_close_fd fd s)
      | Some (_, v) \<Rightarrow>
          let obj = lib_objects s (blob_get_u32 E v);
              run = (\<lambda>cb. let (prev_data, s) = buf_take buf s in
                           map_option (buf_restore prev_data) (cb s))
          in if hdr_type hdr = ubus_msg_code UBUS_MSG_INVOKE
             then run (ubus_process_invoke E K buf obj fd)
             else if hdr_type hdr = ubus_msg_code UBUS_MSG_UNSUBSCRIBE
             then run (ubus_process_unsubscribe E K obj fd)
             else if hdr_type hdr = ubus_msg_code UBUS_MSG_NOTIFY
             then run (ubus_process_notify E K obj fd)
             else Some (lib_close_fd fd s))"

section \<open>Describing an object to the daemon\<close>

text \<open>The arguments of a method that its mask selects, all of them when there is no mask.\<close>

definition ubus_push_method_data :: "ubus_method \<Rightarrow> string \<times> blob_attr" where
  "ubus_push_method_data m =
     (case m_name m of None \<Rightarrow> [] | Some nm \<Rightarrow> nm,
      Blobmsg_table
        (map (\<lambda>(i, nm, ty). (nm, Blob_int32 ty))
           (filter (\<lambda>(i, _). m_mask m = 0 \<or> bit (m_mask m) i) (enumerate 0 (m_policy m)))))"

definition ubus_push_object_type :: "lib_object_type \<Rightarrow> nat \<times> blob_attr" where
  "ubus_push_object_type t =
     (ubus_attr_code UBUS_ATTR_SIGNATURE, Blobmsg_table (map ubus_push_method_data (lty_methods t)))"

definition add_object_attrs :: "lib_object \<Rightarrow> lib \<Rightarrow> (nat \<times> blob_attr) list" where
  "add_object_attrs ob s =
     (case (ob_name ob, ob_type ob) of
        (Some nm, Some t) \<Rightarrow>
          (ubus_attr_code UBUS_ATTR_OBJPATH, Blob_string nm) #
          (case lib_types s t of
             None \<Rightarrow> []
           | Some ty \<Rightarrow>
               if ty_id ty \<noteq> 0 then [(ubus_attr_code UBUS_ATTR_OBJTYPE, Blob_int32 (ty_id ty))]
               else [ubus_push_object_type ty])
      | _ \<Rightarrow> [])"

definition avl_insert_id :: "u32 \<Rightarrow> addr \<Rightarrow> lib \<Rightarrow> lib" where
  "avl_insert_id k a s =
     (if lib_objects s k = None then s\<lparr>lib_objects := (lib_objects s)(k \<mapsto> a)\<rparr> else s)"

definition ubus_add_object_cb :: "env \<Rightarrow> addr \<Rightarrow> addr \<Rightarrow> lib \<Rightarrow> lib" where
  "ubus_add_object_cb E req msg s =
     (let obj = req_get req rq_priv 0 s; (_, s) = lib_parse_msg E msg s in
      case attr_at UBUS_ATTR_OBJID s of
        None \<Rightarrow> s
      | Some (_, v) \<Rightarrow>
          let oid = blob_get_u32 E v;
              s = upd_lobj obj (\<lambda>ob. ob\<lparr>ob_id := oid\<rparr>) s;
              s = (case attr_at UBUS_ATTR_OBJTYPE s of
                     None \<Rightarrow> s
                   | Some (_, tv) \<Rightarrow>
                       (case Option.bind (objs s obj) ob_type of
                          None \<Rightarrow> lfault s
                        | Some t \<Rightarrow> upd_ltype t (\<lambda>ty. ty\<lparr>ty_id := blob_get_u32 E tv\<rparr>) s))
          in avl_insert_id oid obj s)"

definition ubus_remove_object_cb :: "env \<Rightarrow> addr \<Rightarrow> addr \<Rightarrow> lib \<Rightarrow> lib" where
  "ubus_remove_object_cb E req msg s =
     (let obj = req_get req rq_priv 0 s; (_, s) = lib_parse_msg E msg s in
      case attr_at UBUS_ATTR_OBJID s of
        None \<Rightarrow> s
      | Some _ \<Rightarrow>
          (case objs s obj of
             None \<Rightarrow> lfault s
           | Some ob \<Rightarrow>
               let s = (if lib_objects s (ob_id ob) = Some obj
                        then s\<lparr>lib_objects := (lib_objects s)(ob_id ob := None)\<rparr> else lfault s);
                   s = upd_lobj obj (\<lambda>ob. ob\<lparr>ob_id := 0\<rparr>) s
               in (case (attr_at UBUS_ATTR_OBJTYPE s, ob_type ob) of
                     (Some _, Some t) \<Rightarrow> upd_ltype t (\<lambda>ty. ty\<lparr>ty_id := 0\<rparr>) s
                   | _ \<Rightarrow> s)))"

end
