(* ===== verification/Libubus_Core.thy ===== *)
theory Libubus_Core
  imports Libubus_Obj
begin

text \<open>
  The receive loop of the library and what waits in it: dispatching a message, queueing calls that
  arrive while another one is running (src/libubus.c), \<open>ubus_handle_data\<close> (src/libubus-io.c) and
  \<open>ubus_complete_request\<close> (src/libubus-req.c).

  Loops whose length depends on what callbacks do are partial: they give \<open>None\<close> when they do not end.
\<close>

section \<open>Dispatch\<close>

definition ubus_queue_msg :: "env \<Rightarrow> msg_buf \<Rightarrow> lib \<Rightarrow> lib" where
  "ubus_queue_msg E buf s =
     (case lib_alloc E s of
        (False, s) \<Rightarrow> s
      | (True, s) \<Rightarrow>
          let (d, s) = read_blob (buf_data buf s) s; (a, s) = new_blob d s;
              s = s\<lparr>lib_pending := lib_pending s @ [\<lparr>pm_hdr = buf_hdr buf s, pm_data = a\<rparr>]\<rparr>
          in if sock_registered s then s\<lparr>timer_armed := True\<rparr> else s)"

definition ubus_process_call :: "env \<Rightarrow> callbacks \<Rightarrow> msg_buf \<Rightarrow> int \<Rightarrow> lib \<Rightarrow> lib option" where
  "ubus_process_call E K buf fd s =
     (if stack_depth s \<noteq> 0 then Some (lib_close_fd fd (ubus_queue_msg E buf s))
      else
        map_option (\<lambda>s. s\<lparr>stack_depth := stack_depth s - 1\<rparr>)
          (ubus_process_obj_msg E K buf fd (s\<lparr>stack_depth := stack_depth s + 1\<rparr>)))"

definition ubus_process_msg :: "env \<Rightarrow> callbacks \<Rightarrow> msg_buf \<Rightarrow> int \<Rightarrow> lib \<Rightarrow> lib option" where
  "ubus_process_msg E K buf fd s =
     (case ubus_msg_of_code (hdr_type (buf_hdr buf s)) of
        Some UBUS_MSG_STATUS \<Rightarrow> ubus_process_req_msg E K buf fd s
      | Some UBUS_MSG_DATA \<Rightarrow> ubus_process_req_msg E K buf fd s
      | Some UBUS_MSG_UNSUBSCRIBE \<Rightarrow>
          if ubus_context_is_channel s then Some (lib_close_fd fd s) else ubus_process_call E K buf fd s
      | Some UBUS_MSG_NOTIFY \<Rightarrow>
          if ubus_context_is_channel s then Some (lib_close_fd fd s) else ubus_process_call E K buf fd s
      | Some UBUS_MSG_INVOKE \<Rightarrow> ubus_process_call E K buf fd s
      | Some UBUS_MSG_MONITOR \<Rightarrow>
          map_option (lib_close_fd fd)
            (case (ubus_context_is_channel s, monitor_cb s) of
               (False, Some cb) \<Rightarrow>
                 call_void K (Call_monitor cb (hdr_seq (buf_hdr buf s)) (buf_data buf s)) s
             | _ \<Rightarrow> Some s)
      | _ \<Rightarrow> Some (lib_close_fd fd s))"

partial_function (option) ubus_process_pending_msg :: "env \<Rightarrow> callbacks \<Rightarrow> lib \<Rightarrow> lib option" where
  "ubus_process_pending_msg E K s =
     (case lib_pending s of
        [] \<Rightarrow> Some s
      | p # ps \<Rightarrow>
          if stack_depth s \<noteq> 0 then Some s
          else
            Option.bind (ubus_process_msg E K (Queued p) (- 1) (s\<lparr>lib_pending := ps\<rparr>))
              (\<lambda>s. ubus_process_pending_msg E K (free_blob (pm_data p) s)))"

section \<open>The receive loop\<close>

text \<open>\<open>ctx->pending_timer.cb\<close> is \<open>ubus_process_pending_msg\<close>.\<close>

definition run_pending :: "env \<Rightarrow> callbacks \<Rightarrow> lib \<Rightarrow> lib option" where
  "run_pending E K s = (if stack_depth s = 0 then ubus_process_pending_msg E K s else Some s)"

partial_function (option) handle_loop :: "env \<Rightarrow> callbacks \<Rightarrow> lib \<Rightarrow> (int \<times> lib) option" where
  "handle_loop E K s =
     Option.bind (run_pending E K s) (\<lambda>s.
       Option.bind (get_next_msg E (- 1) s) (\<lambda>(ok, recv_fd, s).
         if \<not> ok then Some (recv_fd, s)
         else
           Option.bind (ubus_process_msg E K Msgbuf recv_fd s) (\<lambda>s.
             if uloop_cancelling s \<or> cancel_poll s then Some (- 1, s) else handle_loop E K s)))"

definition ubus_handle_data :: "env \<Rightarrow> callbacks \<Rightarrow> lib \<Rightarrow> lib option" where
  "ubus_handle_data E K s =
     Option.bind (handle_loop E K s) (\<lambda>(recv_fd, s).
       Option.bind (run_pending E K (lib_close_fd recv_fd s)) (\<lambda>s.
         if \<not> sock_eof s then Some s
         else
           Option.bind (ubus_flush_requests K s) (\<lambda>s.
             call_void K (Call_lost (connection_lost s)) s)))"

definition ubus_handle_event :: "env \<Rightarrow> callbacks \<Rightarrow> lib \<Rightarrow> lib option" where
  "ubus_handle_event E K s = ubus_handle_data E K s"

definition ubus_poll_data :: "env \<Rightarrow> callbacks \<Rightarrow> lib \<Rightarrow> lib option" where
  "ubus_poll_data E K s = ubus_handle_data E K (s\<lparr>cancel_poll := False\<rparr>)"

section \<open>Waiting for a request\<close>

definition get_time_msec :: "lib \<Rightarrow> (int \<times> lib) option" where
  "get_time_msec s = (case clock s of [] \<Rightarrow> None | t # ts \<Rightarrow> Some (t, s\<lparr>clock := ts\<rparr>))"

text \<open>The time left; nothing is read when there is no timeout.\<close>

definition time_left :: "int \<Rightarrow> int \<Rightarrow> lib \<Rightarrow> (int \<times> lib) option" where
  "time_left req_timeout time_end s =
     (if req_timeout = 0 then Some (1, s)
      else Option.bind (get_time_msec s) (\<lambda>(now, s). Some (time_end - now, s)))"

partial_function (option) wait_loop ::
  "env \<Rightarrow> callbacks \<Rightarrow> addr \<Rightarrow> int \<Rightarrow> int \<Rightarrow> lib \<Rightarrow> lib option" where
  "wait_loop E K req req_timeout time_end s =
     (if req_get req rq_status_msg True s then Some s
      else
        Option.bind (time_left req_timeout time_end s) (\<lambda>(timeout, s).
          if timeout \<le> 0 then ubus_set_req_status K req (status_int UBUS_STATUS_TIMEOUT) s
          else
            Option.bind (ubus_poll_data E K s) (\<lambda>s.
              if sock_eof s then
                Option.bind (ubus_set_req_status K req (status_int UBUS_STATUS_CONNECTION_FAILED) s)
                  (\<lambda>s. Some (s\<lparr>cancel_poll := True\<rparr>))
              else wait_loop E K req req_timeout time_end s)))"

text \<open>What follows the loop: the depth is restored, an outer receive loop is told to stop, and the
  completion callback of the caller runs.\<close>

definition wait_leave :: "lib \<Rightarrow> lib" where
  "wait_leave s =
     (if stack_depth s - 1 \<noteq> 0 then s\<lparr>stack_depth := stack_depth s - 1, cancel_poll := True\<rparr>
      else s\<lparr>stack_depth := stack_depth s - 1\<rparr>)"

definition wait_finish ::
  "env \<Rightarrow> callbacks \<Rightarrow> addr \<Rightarrow> complete_handler option \<Rightarrow> lib \<Rightarrow> (int \<times> lib) option" where
  "wait_finish E K req complete_cb s =
     (let status = (if req_get req rq_status_msg False s then req_get req rq_status_code 0 s
                    else status_int UBUS_STATUS_NO_DATA);
          s = upd_req req (\<lambda>r. r\<lparr>rq_complete_cb := complete_cb\<rparr>) s
      in Option.bind
           (case complete_cb of
              None \<Rightarrow> Some s
            | Some cb \<Rightarrow> call_void K (Call_complete cb req status) s)
           (\<lambda>s. Option.bind
                  (if stack_depth s = 0 \<and> \<not> sock_registered s
                   then ubus_process_pending_msg E K s else Some s)
                  (\<lambda>s. Some (status, s))))"

definition ubus_complete_request ::
  "env \<Rightarrow> callbacks \<Rightarrow> addr \<Rightarrow> int \<Rightarrow> lib \<Rightarrow> (int \<times> lib) option" where
  "ubus_complete_request E K req req_timeout s =
     (let complete_cb = req_get req rq_complete_cb None s in
      Option.bind
        (if req_timeout = 0 then Some (0, s)
         else Option.bind (get_time_msec s) (\<lambda>(now, s). Some (now + req_timeout, s)))
        (\<lambda>(time_end, s).
           let s = ubus_complete_request_async req s;
               s = upd_req req (\<lambda>r. r\<lparr>rq_complete_cb := Some Ubus_sync_req_cb\<rparr>) s;
               s = s\<lparr>stack_depth := stack_depth s + 1\<rparr>
           in Option.bind (wait_loop E K req req_timeout time_end s)
                (\<lambda>s. wait_finish E K req complete_cb (wait_leave s))))"

end
