(* ===== verification/Libubus_Api.thy ===== *)
theory Libubus_Api
  imports Libubus_Core
begin

text \<open>
  The calls of the library that send a request and wait for its answer: invoking methods, looking up
  objects, adding and removing objects, subscriptions and event handlers (src/libubus.c,
  src/libubus-obj.c, src/libubus-req.c and src/libubus-sub.c), with the data callbacks they use.

  A request that is a local variable gets a fresh address and is gone when the call returns.
\<close>

section \<open>Local requests\<close>

definition new_req :: "lib \<Rightarrow> addr \<times> lib" where
  "new_req s = (lib_next s, s\<lparr>lib_next := Suc (lib_next s)\<rparr>)"

definition drop_req :: "addr \<Rightarrow> lib \<Rightarrow> lib" where
  "drop_req req s =
     s\<lparr>reqs := (reqs s)(req := None), nreqs := (nreqs s)(req := None), lookups := (lookups s)(req := None)\<rparr>"

definition returns :: "addr \<Rightarrow> (int \<times> lib) option \<Rightarrow> (int \<times> lib) option" where
  "returns req r = map_option (\<lambda>(ret, s). (ret, drop_req req s)) r"

text \<open>The shape the calls share: start the request, set its callbacks, and wait.\<close>

definition sync_request ::
  "env \<Rightarrow> callbacks \<Rightarrow> (nat \<times> blob_attr) list \<Rightarrow> ubus_msg_type \<Rightarrow> u32 \<Rightarrow>
   (addr \<Rightarrow> lib \<Rightarrow> lib) \<Rightarrow> lib \<Rightarrow> (int \<times> lib) option" where
  "sync_request E K attrs cmd peer prepare s =
     (if ubus_context_is_channel s then Some (status_int UBUS_STATUS_INVALID_ARGUMENT, s)
      else
        (case new_req s of
           (req, s) \<Rightarrow>
             returns req
               (Option.bind (ubus_start_request E req (Some (Built attrs)) cmd peer s) (\<lambda>(ret, s).
                  if ret < 0 then Some (status_int UBUS_STATUS_INVALID_ARGUMENT, s)
                  else ubus_complete_request E K req 0 (prepare req s)))))"

section \<open>Calls and notifications\<close>

definition ubus_invoke_fd ::
  "env \<Rightarrow> callbacks \<Rightarrow> u32 \<Rightarrow> string \<Rightarrow> put_msg \<Rightarrow> data_handler option \<Rightarrow> addr \<Rightarrow> int \<Rightarrow> int \<Rightarrow> lib \<Rightarrow>
   (int \<times> lib) option" where
  "ubus_invoke_fd E K obj meth msg cb priv timeout fd s =
     (case new_req s of
        (req, s) \<Rightarrow>
          returns req
            (Option.bind (ubus_invoke_async_fd E obj meth msg req fd s) (\<lambda>(rc, s).
               if rc \<noteq> 0 then Some (rc, s)
               else
                 ubus_complete_request E K req timeout
                   (upd_req req (\<lambda>r. r\<lparr>rq_data_cb := cb, rq_priv := priv\<rparr>) s))))"

definition ubus_invoke ::
  "env \<Rightarrow> callbacks \<Rightarrow> u32 \<Rightarrow> string \<Rightarrow> put_msg \<Rightarrow> data_handler option \<Rightarrow> addr \<Rightarrow> int \<Rightarrow> lib \<Rightarrow> (int \<times> lib) option" where
  "ubus_invoke E K obj meth msg cb priv timeout s = ubus_invoke_fd E K obj meth msg cb priv timeout (- 1) s"

definition ubus_notify ::
  "env \<Rightarrow> callbacks \<Rightarrow> addr \<Rightarrow> string \<Rightarrow> put_msg \<Rightarrow> int \<Rightarrow> lib \<Rightarrow> (int \<times> lib) option" where
  "ubus_notify E K obj type msg timeout s =
     (case new_req s of
        (req, s) \<Rightarrow>
          returns req
            (Option.bind (do_notify_async E obj type msg req (0 \<le> timeout) s) (\<lambda>(ret, s).
               if ret \<noteq> 0 then Some (ret, s)
               else if timeout < 0 then map_option (Pair 0) (ubus_abort_request E K req s)
               else ubus_complete_request E K req timeout s)))"

definition do_ubus_monitor :: "env \<Rightarrow> callbacks \<Rightarrow> string \<Rightarrow> lib \<Rightarrow> (int \<times> lib) option" where
  "do_ubus_monitor E K type s =
     (if ubus_context_is_channel s then Some (status_int UBUS_STATUS_INVALID_ARGUMENT, s)
      else ubus_invoke E K UBUS_SYSTEM_OBJECT_MONITOR type B_head None 0 1000 s)"

definition ubus_monitor_start :: "env \<Rightarrow> callbacks \<Rightarrow> lib \<Rightarrow> (int \<times> lib) option" where
  "ubus_monitor_start E K s = do_ubus_monitor E K ''add'' s"

definition ubus_monitor_stop :: "env \<Rightarrow> callbacks \<Rightarrow> lib \<Rightarrow> (int \<times> lib) option" where
  "ubus_monitor_stop E K s = do_ubus_monitor E K ''remove'' s"

text \<open>Operations on the data of a call, for the handler of a method.\<close>

definition ubus_defer_request :: "addr \<Rightarrow> addr \<Rightarrow> lib \<Rightarrow> lib" where
  "ubus_defer_request req copy s =
     (case rdata s req of
        None \<Rightarrow> lfault s
      | Some r \<Rightarrow> upd_rdata req (\<lambda>r. r\<lparr>rd_deferred := True\<rparr>) (s\<lparr>rdata := (rdata s)(copy \<mapsto> r)\<rparr>))"

definition ubus_request_set_fd :: "addr \<Rightarrow> int \<Rightarrow> lib \<Rightarrow> lib" where
  "ubus_request_set_fd req fd s = upd_rdata req (\<lambda>r. r\<lparr>rd_fd := fd\<rparr>) s"

definition ubus_request_get_caller_fd :: "addr \<Rightarrow> lib \<Rightarrow> int \<times> lib" where
  "ubus_request_get_caller_fd req s =
     (case rdata s req of
        None \<Rightarrow> (- 1, lfault s)
      | Some r \<Rightarrow> (rd_req_fd r, upd_rdata req (\<lambda>r. r\<lparr>rd_req_fd := - 1\<rparr>) s))"

section \<open>Lookup\<close>

definition ubus_lookup_cb :: "env \<Rightarrow> callbacks \<Rightarrow> addr \<Rightarrow> addr \<Rightarrow> lib \<Rightarrow> lib option" where
  "ubus_lookup_cb E K req msg s =
     (case lib_parse_msg E msg s of
        (attr, s) \<Rightarrow>
          (case (attr UBUS_ATTR_OBJID, attr UBUS_ATTR_OBJPATH, attr UBUS_ATTR_OBJTYPE) of
             (Some i, Some p, Some t) \<Rightarrow>
               (case lookups s req of
                  None \<Rightarrow> Some (lfault s)
                | Some cb \<Rightarrow>
                    call_void K
                      (Call_lookup cb
                         \<lparr>od_id = blob_get_u32 E i, od_type_id = blob_get_u32 E t, od_path = (msg, p),
                          od_signature = attr UBUS_ATTR_SIGNATURE\<rparr>
                         (req_get req rq_priv 0 s)) s)
           | _ \<Rightarrow> Some s))"

definition lookup_attrs :: "string option \<Rightarrow> (nat \<times> blob_attr) list" where
  "lookup_attrs path =
     (case path of None \<Rightarrow> [] | Some p \<Rightarrow> [(ubus_attr_code UBUS_ATTR_OBJPATH, Blob_string p)])"

definition ubus_lookup ::
  "env \<Rightarrow> callbacks \<Rightarrow> string option \<Rightarrow> lookup_handler \<Rightarrow> addr \<Rightarrow> lib \<Rightarrow> (int \<times> lib) option" where
  "ubus_lookup E K path cb priv s =
     sync_request E K (lookup_attrs path) UBUS_MSG_LOOKUP 0
       (\<lambda>req s. upd_req req (\<lambda>r. r\<lparr>rq_raw_data_cb := Some Ubus_lookup_cb, rq_priv := priv\<rparr>)
                  (s\<lparr>lookups := (lookups s)(req \<mapsto> cb)\<rparr>)) s"

definition ubus_lookup_id_cb :: "env \<Rightarrow> addr \<Rightarrow> addr \<Rightarrow> lib \<Rightarrow> lib" where
  "ubus_lookup_id_cb E req msg s =
     (case lib_parse_msg E msg s of
        (attr, s) \<Rightarrow>
          (case attr UBUS_ATTR_OBJID of
             None \<Rightarrow> s
           | Some i \<Rightarrow> s\<lparr>id_vars := (id_vars s)(req_get req rq_priv 0 s := blob_get_u32 E i)\<rparr>))"

definition ubus_lookup_id ::
  "env \<Rightarrow> callbacks \<Rightarrow> string option \<Rightarrow> addr \<Rightarrow> lib \<Rightarrow> (int \<times> lib) option" where
  "ubus_lookup_id E K path var s =
     sync_request E K (lookup_attrs path) UBUS_MSG_LOOKUP 0
       (\<lambda>req. upd_req req (\<lambda>r. r\<lparr>rq_raw_data_cb := Some Ubus_lookup_id_cb, rq_priv := var\<rparr>)) s"

section \<open>Objects\<close>

text \<open>A request succeeded when its status is zero and the object has got (or lost) its id.\<close>

definition check_obj_id :: "(u32 \<Rightarrow> bool) \<Rightarrow> addr \<Rightarrow> (int \<times> lib) option \<Rightarrow> (int \<times> lib) option" where
  "check_obj_id P obj r =
     Option.bind r (\<lambda>(ret, s).
       if ret \<noteq> 0 then Some (ret, s)
       else
         (case objs s obj of
            None \<Rightarrow> Some (ret, lfault s)
          | Some ob \<Rightarrow> Some (if P (ob_id ob) then 0 else status_int UBUS_STATUS_NO_DATA, s)))"

definition ubus_add_object :: "env \<Rightarrow> callbacks \<Rightarrow> addr \<Rightarrow> lib \<Rightarrow> (int \<times> lib) option" where
  "ubus_add_object E K obj s =
     (case objs s obj of
        None \<Rightarrow> Some (status_int UBUS_STATUS_INVALID_ARGUMENT, lfault s)
      | Some ob \<Rightarrow>
          let s = (if ob_type ob \<noteq> None \<and> Option.bind (ob_type ob) (lib_types s) = None then lfault s else s) in
          check_obj_id (\<lambda>i. i \<noteq> 0) obj
            (sync_request E K (add_object_attrs ob s) UBUS_MSG_ADD_OBJECT 0
               (\<lambda>req. upd_req req (\<lambda>r. r\<lparr>rq_raw_data_cb := Some Ubus_add_object_cb, rq_priv := obj\<rparr>)) s))"

definition ubus_remove_object :: "env \<Rightarrow> callbacks \<Rightarrow> addr \<Rightarrow> lib \<Rightarrow> (int \<times> lib) option" where
  "ubus_remove_object E K obj s =
     (case objs s obj of
        None \<Rightarrow> Some (status_int UBUS_STATUS_INVALID_ARGUMENT, lfault s)
      | Some ob \<Rightarrow>
          check_obj_id (\<lambda>i. i = 0) obj
            (sync_request E K [(ubus_attr_code UBUS_ATTR_OBJID, Blob_int32 (ob_id ob))]
               UBUS_MSG_REMOVE_OBJECT 0
               (\<lambda>req. upd_req req (\<lambda>r. r\<lparr>rq_raw_data_cb := Some Ubus_remove_object_cb, rq_priv := obj\<rparr>)) s))"

section \<open>Events\<close>

definition event_reg_msg :: "u32 \<Rightarrow> string option \<Rightarrow> put_msg" where
  "event_reg_msg oid pattern =
     Fields ((''object'', Blob_int32 oid) #
             (case pattern of None \<Rightarrow> [] | Some p \<Rightarrow> [(''pattern'', Blob_string p)]))"

definition ubus_register_event_handler ::
  "env \<Rightarrow> callbacks \<Rightarrow> addr \<Rightarrow> string option \<Rightarrow> lib \<Rightarrow> (int \<times> lib) option" where
  "ubus_register_event_handler E K ev pattern s =
     (if ubus_context_is_channel s then Some (status_int UBUS_STATUS_INVALID_ARGUMENT, s)
      else
        (case objs s ev of
           None \<Rightarrow> Some (status_int UBUS_STATUS_INVALID_ARGUMENT, lfault s)
         | Some ob \<Rightarrow>
             Option.bind
               (if ob_id ob \<noteq> 0 then Some (0, s)
                else
                  let s = upd_lobj ev (\<lambda>ob. ob\<lparr>ob_methods := Event_method\<rparr>) s in
                  if (ob_name ob \<noteq> None) \<noteq> (ob_type ob \<noteq> None)
                  then Some (status_int UBUS_STATUS_INVALID_ARGUMENT, s)
                  else ubus_add_object E K ev s)
               (\<lambda>(ret, s).
                  if ret \<noteq> 0 then Some (ret, s)
                  else
                    (case objs s ev of
                       None \<Rightarrow> Some (status_int UBUS_STATUS_INVALID_ARGUMENT, lfault s)
                     | Some ob \<Rightarrow>
                         ubus_invoke E K UBUS_SYSTEM_OBJECT_EVENT ''register''
                           (event_reg_msg (ob_id ob) pattern) None 0 0 s))))"

definition ubus_unregister_event_handler :: "env \<Rightarrow> callbacks \<Rightarrow> addr \<Rightarrow> lib \<Rightarrow> (int \<times> lib) option" where
  "ubus_unregister_event_handler E K ev s = ubus_remove_object E K ev s"

definition send_event_attrs :: "string \<Rightarrow> (string \<times> blob_attr) list \<Rightarrow> (nat \<times> blob_attr) list" where
  "send_event_attrs name data =
     [(ubus_attr_code UBUS_ATTR_OBJID, Blob_int32 UBUS_SYSTEM_OBJECT_EVENT),
      (ubus_attr_code UBUS_ATTR_METHOD, Blob_string ''send''),
      (ubus_attr_code UBUS_ATTR_DATA,
       Blobmsg_table [(''id'', Blob_string name), (''data'', Blobmsg_table data)])]"

definition ubus_send_event ::
  "env \<Rightarrow> callbacks \<Rightarrow> string \<Rightarrow> (string \<times> blob_attr) list \<Rightarrow> lib \<Rightarrow> (int \<times> lib) option" where
  "ubus_send_event E K name data s =
     (case new_req s of
        (req, s) \<Rightarrow>
          returns req
            (Option.bind
               (ubus_start_request E req (Some (Built (send_event_attrs name data))) UBUS_MSG_INVOKE
                  UBUS_SYSTEM_OBJECT_EVENT s)
               (\<lambda>(ret, s).
                  if ret < 0 then Some (status_int UBUS_STATUS_INVALID_ARGUMENT, s)
                  else ubus_complete_request E K req 0 s)))"

definition ubus_event_cb :: "callbacks \<Rightarrow> addr \<Rightarrow> addr \<times> blob_attr \<Rightarrow> msg_ptr \<Rightarrow> lib \<Rightarrow> (int \<times> lib) option" where
  "ubus_event_cb K obj name msg s =
     (case event_cbs s obj of
        None \<Rightarrow> Some (0, lfault s)
      | Some cb \<Rightarrow> map_option (Pair 0) (call_void K (Call_event cb obj name msg) s))"

section \<open>Subscribers\<close>

definition ubus_subscriber_cb ::
  "callbacks \<Rightarrow> addr \<Rightarrow> addr \<Rightarrow> addr \<times> blob_attr \<Rightarrow> msg_ptr \<Rightarrow> lib \<Rightarrow> (int \<times> lib) option" where
  "ubus_subscriber_cb K obj rd name msg s =
     (case subscribers s obj of
        None \<Rightarrow> Some (0, lfault s)
      | Some sb \<Rightarrow>
          (case sb_cb sb of
             None \<Rightarrow> Some (0, s)
           | Some cb \<Rightarrow> call_cb K (Call_method (App_method cb) (Some obj) rd name msg) s))"

definition subscribe_request ::
  "env \<Rightarrow> callbacks \<Rightarrow> addr \<Rightarrow> u32 \<Rightarrow> ubus_msg_type \<Rightarrow> lib \<Rightarrow> (int \<times> lib) option" where
  "subscribe_request E K obj oid type s =
     (case objs s obj of
        None \<Rightarrow> Some (status_int UBUS_STATUS_INVALID_ARGUMENT, lfault s)
      | Some ob \<Rightarrow>
          sync_request E K
            [(ubus_attr_code UBUS_ATTR_OBJID, Blob_int32 (ob_id ob)),
             (ubus_attr_code UBUS_ATTR_TARGET, Blob_int32 oid)] type 0 (\<lambda>req s. s) s)"

definition lib_subscribe :: "env \<Rightarrow> callbacks \<Rightarrow> addr \<Rightarrow> u32 \<Rightarrow> lib \<Rightarrow> (int \<times> lib) option" where
  "lib_subscribe E K obj oid s = subscribe_request E K obj oid UBUS_MSG_SUBSCRIBE s"

definition lib_unsubscribe :: "env \<Rightarrow> callbacks \<Rightarrow> addr \<Rightarrow> u32 \<Rightarrow> lib \<Rightarrow> (int \<times> lib) option" where
  "lib_unsubscribe E K obj oid s = subscribe_request E K obj oid UBUS_MSG_UNSUBSCRIBE s"

text \<open>
  \<open>if (s->new_obj_cb(ctx, s, path)) ubus_subscribe(ctx, s, id);\<close> The path is a pointer into a message;
  when its buffer is gone the callback reads freed or overwritten memory.
\<close>

definition auto_sub_one ::
  "env \<Rightarrow> callbacks \<Rightarrow> addr \<Rightarrow> addr \<times> blob_attr \<Rightarrow> u32 \<Rightarrow> lib \<Rightarrow> lib option" where
  "auto_sub_one E K sub path oid s =
     (case Option.bind (subscribers s sub) sb_new_obj_cb of
        None \<Rightarrow> Some (lfault s)
      | Some cb \<Rightarrow>
          let s = (if blobs s (fst path) = None then lfault s else s) in
          Option.bind (call_cb K (Call_new_obj cb sub path) s) (\<lambda>(yes, s).
            if yes \<noteq> 0 then map_option snd (lib_subscribe E K sub oid s) else Some s))"

fun auto_sub_loop ::
  "env \<Rightarrow> callbacks \<Rightarrow> addr \<times> blob_attr \<Rightarrow> u32 \<Rightarrow> addr list \<Rightarrow> lib \<Rightarrow> lib option" where
  "auto_sub_loop E K path oid [] s = Some s"
| "auto_sub_loop E K path oid (sub # subs) s =
     Option.bind (auto_sub_one E K sub path oid s) (auto_sub_loop E K path oid subs)"

definition ubus_auto_sub_lookup :: "env \<Rightarrow> callbacks \<Rightarrow> ubus_object_data \<Rightarrow> lib \<Rightarrow> lib option" where
  "ubus_auto_sub_lookup E K od s = auto_sub_loop E K (od_path od) (od_id od) (auto_subscribers s) s"

definition event_policy :: "(string \<times> blobmsg_type) list" where
  "event_policy = [(''id'', BLOBMSG_TYPE_INT32), (''path'', BLOBMSG_TYPE_STRING)]"

definition ubus_auto_sub_event_handler_cb ::
  "env \<Rightarrow> callbacks \<Rightarrow> addr \<Rightarrow> blob_attr \<Rightarrow> lib \<Rightarrow> lib option" where
  "ubus_auto_sub_event_handler_cb E K msg v s =
     (case blobmsg_parse E event_policy v of
        [Some i, Some p] \<Rightarrow> auto_sub_loop E K (msg, p) (blob_get_u32 E i) (auto_subscribers s) s
      | _ \<Rightarrow> Some s)"

definition object_add_event :: string where
  "object_add_event = ''ubus.object.add''"

definition ubus_register_subscriber :: "env \<Rightarrow> callbacks \<Rightarrow> addr \<Rightarrow> lib \<Rightarrow> (int \<times> lib) option" where
  "ubus_register_subscriber E K sub s =
     (if ubus_context_is_channel s then Some (status_int UBUS_STATUS_INVALID_ARGUMENT, s)
      else
        Option.bind (ubus_add_object E K sub (upd_lobj sub (\<lambda>ob. ob\<lparr>ob_methods := Watch_method\<rparr>) s))
          (\<lambda>(ret, s).
             if ret \<noteq> 0 then Some (ret, s)
             else if Option.bind (subscribers s sub) sb_new_obj_cb = None then Some (0, s)
             else
               let ev = auto_subscribe_event_handler s;
                   s = s\<lparr>auto_subscribers := sub # auto_subscribers s,
                         event_cbs := (event_cbs s)(ev \<mapsto> Ubus_auto_sub_event_handler_cb)\<rparr>
               in Option.bind
                    (case objs s ev of
                       None \<Rightarrow> Some (lfault s)
                     | Some ob \<Rightarrow>
                         if ob_id ob \<noteq> 0 then Some s
                         else map_option snd (ubus_register_event_handler E K ev (Some object_add_event) s))
                    (\<lambda>s. Option.bind (ubus_lookup E K None Ubus_auto_sub_lookup_one sub s)
                           (\<lambda>(_, s). Some (0, s)))))"

definition ubus_unregister_subscriber :: "env \<Rightarrow> callbacks \<Rightarrow> addr \<Rightarrow> lib \<Rightarrow> (int \<times> lib) option" where
  "ubus_unregister_subscriber E K sub s =
     ubus_remove_object E K sub (s\<lparr>auto_subscribers := remove1 sub (auto_subscribers s)\<rparr>)"

end
