(* ===== verification/Libubus_Acl.thy ===== *)
theory Libubus_Acl
  imports Libubus_Api
begin

text \<open>
  Access control data in a client (src/libubus-acl.c): the client asks the daemon for the entries that
  concern its objects, and asks again whenever the daemon announces that they have changed.

  \<open>acl_objects\<close> holds the entries in the order they were inserted; the tree of libubox keeps them in an
  order of its own.
\<close>

definition strcmp :: "string \<Rightarrow> string \<Rightarrow> int" where
  "strcmp s t = (if s = t then 0 else if s < t then - 1 else 1)"

text \<open>A comparison of two optional strings, which counts as equal when one is missing.\<close>

definition acl_cmp_opt :: "string option \<Rightarrow> string option \<Rightarrow> int" where
  "acl_cmp_opt a b = (case (a, b) of (Some x, Some y) \<Rightarrow> strcmp x y | _ \<Rightarrow> 0)"

definition acl_cmp :: "ubus_acl_key \<Rightarrow> ubus_acl_key \<Rightarrow> int" where
  "acl_cmp k1 k2 =
     (if acl_cmp_opt (ak_user k1) (ak_user k2) \<noteq> 0 then acl_cmp_opt (ak_user k1) (ak_user k2)
      else if acl_cmp_opt (ak_group k1) (ak_group k2) \<noteq> 0 then acl_cmp_opt (ak_group k1) (ak_group k2)
      else strcmp (ak_object k1) (ak_object k2))"

definition lib_acl_obj_policy :: "(string \<times> blobmsg_type) list" where
  "lib_acl_obj_policy =
     [(''obj'', BLOBMSG_TYPE_STRING), (''user'', BLOBMSG_TYPE_STRING),
      (''group'', BLOBMSG_TYPE_STRING), (''acl'', BLOBMSG_TYPE_TABLE)]"

definition acl_add :: "env \<Rightarrow> addr \<Rightarrow> blob_attr \<Rightarrow> lib \<Rightarrow> lib" where
  "acl_add E blob obj s =
     (case blobmsg_parse E lib_acl_obj_policy obj of
        [Some ob, user, grp, Some acl] \<Rightarrow>
          if user = None \<and> grp = None then s
          else
            (case lib_alloc E s of
               (False, s) \<Rightarrow> s
             | (True, s) \<Rightarrow>
                 s\<lparr>acl_objects := acl_objects s @
                     [\<lparr>ao_key = \<lparr>ak_user = map_option (blob_str E) user,
                                 ak_group = map_option (blob_str E) grp,
                                 ak_object = blob_str E ob\<rparr>,
                       ao_acl = (blob, acl)\<rparr>]\<rparr>)
      | _ \<Rightarrow> s)"

definition lib_acl_policy :: "(string \<times> blobmsg_type) list" where
  "lib_acl_policy = [(''seq'', BLOBMSG_TYPE_INT32), (''acl'', BLOBMSG_TYPE_ARRAY)]"

definition blobmsg_elems :: "blob_attr option \<Rightarrow> blob_attr list" where
  "blobmsg_elems a = (case a of Some (Blobmsg_array xs) \<Rightarrow> xs | _ \<Rightarrow> [])"

definition acl_recv_cb :: "env \<Rightarrow> blob_attr \<Rightarrow> lib \<Rightarrow> lib" where
  "acl_recv_cb E msg s =
     (case lib_alloc E s of
        (False, s) \<Rightarrow> s
      | (True, s) \<Rightarrow>
          let (new_blob, s) = new_blob (Built [(ubus_attr_code UBUS_ATTR_DATA, msg)]) s;
              s = (case acl_blob s of None \<Rightarrow> s | Some a \<Rightarrow> free_blob a (s\<lparr>acl_objects := []\<rparr>));
              s = s\<lparr>acl_blob := Some new_blob\<rparr>
          in (case blobmsg_parse E lib_acl_policy msg of
                [seq, acl] \<Rightarrow>
                  if seq = None \<and> acl = None then s else fold (acl_add E new_blob) (blobmsg_elems acl) s
              | _ \<Rightarrow> s))"

definition acl_query :: "env \<Rightarrow> lib \<Rightarrow> lib option" where
  "acl_query E s =
     (if acl_query_active s then Some (s\<lparr>acl_query_deferred := True\<rparr>)
      else
        Option.bind
          (ubus_invoke_async E UBUS_SYSTEM_OBJECT_ACL ''query'' No_msg (acl_req s)
             (s\<lparr>acl_query_active := True\<rparr>))
          (\<lambda>(_, s).
             Some (ubus_complete_request_async (acl_req s)
                     (upd_req (acl_req s)
                        (\<lambda>r. r\<lparr>rq_data_cb := Some Acl_recv_cb, rq_complete_cb := Some Acl_query_complete_cb\<rparr>) s))))"

definition acl_query_complete_cb :: "env \<Rightarrow> lib \<Rightarrow> lib option" where
  "acl_query_complete_cb E s =
     (let s = s\<lparr>acl_query_active := False\<rparr> in
      if \<not> acl_query_deferred s then Some s else acl_query E (s\<lparr>acl_query_deferred := False\<rparr>))"

definition acl_sequence_event :: string where
  "acl_sequence_event = ''ubus.acl.sequence''"

definition acl_subscribe_cb :: "env \<Rightarrow> string \<Rightarrow> lib \<Rightarrow> lib option" where
  "acl_subscribe_cb E type s =
     (if strcmp type acl_sequence_event \<noteq> 0 then Some s else acl_query E s)"

definition ubus_register_acl :: "env \<Rightarrow> callbacks \<Rightarrow> lib \<Rightarrow> (int \<times> lib) option" where
  "ubus_register_acl E K s =
     Option.bind
       (ubus_register_event_handler E K (acl_event s) (Some acl_sequence_event)
          (s\<lparr>event_cbs := (event_cbs s)(acl_event s \<mapsto> Acl_subscribe_cb)\<rparr>))
       (\<lambda>(ret, s). if ret = 0 then map_option (Pair ret) (acl_query E s) else Some (ret, s))"

end
