(* ===== verification/Libubus_Conn.thy ===== *)
theory Libubus_Conn
  imports Libubus_Acl
begin

text \<open>
  Contexts: connecting and reconnecting to the daemon (\<open>ubus_reconnect\<close> of src/libubus-io.c), channels
  between two clients, automatic reconnection and shutdown (src/libubus.c), and the names of the
  status codes.

  \<open>conn_env\<close> says what \<open>usock\<close> and \<open>fcntl\<close> return. \<open>read\<close> on the new socket takes the next result of the
  socket.
\<close>

record conn_env =
  usock_fd :: int
  fcntl_ok :: bool

text \<open>One \<open>read\<close> of at most \<open>n\<close> bytes; an error reads nothing.\<close>

definition read_sock :: "nat \<Rightarrow> lib \<Rightarrow> (u8 list \<times> lib) option" where
  "read_sock n s =
     (if n = 0 then Some ([], s)
      else
        (case sk_in s of
           [] \<Rightarrow> None
         | Rcv bs fd # rs \<Rightarrow>
             Some (take n bs,
                   s\<lparr>sk_in := (if n < length bs then Rcv (drop n bs) (- 1) # rs else rs)\<rparr>)
         | _ # rs \<Rightarrow> Some ([], s\<lparr>sk_in := rs\<rparr>)))"

section \<open>Reconnecting\<close>

definition ubus_refresh_auto_subscribe :: "env \<Rightarrow> callbacks \<Rightarrow> lib \<Rightarrow> lib option" where
  "ubus_refresh_auto_subscribe E K s =
     (if auto_subscribers s = [] then Some s
      else
        Option.bind
          (ubus_register_event_handler E K (auto_subscribe_event_handler s) (Some object_add_event) s)
          (\<lambda>(_, s). map_option snd (ubus_lookup E K None Ubus_auto_sub_lookup 0 s)))"

fun add_objects_loop :: "env \<Rightarrow> callbacks \<Rightarrow> addr list \<Rightarrow> lib \<Rightarrow> lib option" where
  "add_objects_loop E K [] s = Some s"
| "add_objects_loop E K (obj # rest) s =
     Option.bind (ubus_add_object E K obj s) (\<lambda>(_, s). add_objects_loop E K rest s)"

text \<open>The objects in the order of their ids.\<close>

definition objects_in_order :: "lib \<Rightarrow> addr list" where
  "objects_in_order s = map (\<lambda>k. the (lib_objects s k)) (sorted_list_of_set (dom (lib_objects s)))"

definition clear_type_id :: "addr \<Rightarrow> lib \<Rightarrow> lib" where
  "clear_type_id obj s =
     (case objs s obj of
        None \<Rightarrow> lfault s
      | Some ob \<Rightarrow> (case ob_type ob of None \<Rightarrow> s | Some t \<Rightarrow> upd_ltype t (\<lambda>ty. ty\<lparr>ty_id := 0\<rparr>) s))"

definition ubus_refresh_state :: "env \<Rightarrow> callbacks \<Rightarrow> lib \<Rightarrow> lib option" where
  "ubus_refresh_state E K s =
     (let os = objects_in_order s;
          s = fold clear_type_id os s;
          s = fold (\<lambda>obj. upd_lobj obj (\<lambda>ob. ob\<lparr>ob_id := 0\<rparr>)) os (s\<lparr>lib_objects := Map.empty\<rparr>)
      in Option.bind (add_objects_loop E K os s) (ubus_refresh_auto_subscribe E K))"

text \<open>The labels \<open>out_free\<close> and \<open>out_close\<close> with an error.\<close>

definition reconnect_fail :: "lib \<Rightarrow> int \<times> lib" where
  "reconnect_fail s =
     (status_int UBUS_STATUS_UNKNOWN_ERROR, (lib_close (sock_fd s) s)\<lparr>sock_fd := - 1\<rparr>)"

text \<open>What follows a valid hello header.\<close>

definition reconnect_hello ::
  "env \<Rightarrow> callbacks \<Rightarrow> conn_env \<Rightarrow> ubus_msghdr \<Rightarrow> nat \<Rightarrow> lib \<Rightarrow> (int \<times> lib) option" where
  "reconnect_hello E K c hdr len s =
     (case lib_alloc E s of
        (False, s) \<Rightarrow> Some (reconnect_fail s)
      | (True, s) \<Rightarrow>
          Option.bind (read_sock len s) (\<lambda>(body, s).
            if length body \<noteq> len then Some (reconnect_fail s)
            else
              let s = s\<lparr>local_id := hdr_peer hdr\<rparr> in
              if local_id s \<le> UBUS_CLIENT_ID_CHANNEL \<or> \<not> fcntl_ok c then Some (reconnect_fail s)
              else map_option (Pair (status_int UBUS_STATUS_OK)) (ubus_refresh_state E K s)))"

definition ubus_reconnect :: "env \<Rightarrow> callbacks \<Rightarrow> conn_env \<Rightarrow> lib \<Rightarrow> (int \<times> lib) option" where
  "ubus_reconnect E K c s =
     (if ubus_context_is_channel s then Some (- 1, s)
      else
        let s = (if 0 \<le> sock_fd s then lib_close (sock_fd s) (s\<lparr>sock_registered := False\<rparr>) else s);
            s = s\<lparr>sock_eof := False, sock_error := False, sock_fd := usock_fd c\<rparr>
        in if sock_fd s < 0 then Some (status_int UBUS_STATUS_CONNECTION_FAILED, s)
           else
             Option.bind (read_sock (HDR_SIZE + ATTR_SIZE) s) (\<lambda>(bs, s).
               case hdr_of_bytes (take HDR_SIZE bs) of
                 None \<Rightarrow> Some (reconnect_fail s)
               | Some hdr \<Rightarrow>
                   let data = drop HDR_SIZE bs in
                   if length bs \<noteq> HDR_SIZE + ATTR_SIZE \<or> \<not> ubus_validate_hdr E hdr data \<or>
                      hdr_type hdr \<noteq> ubus_msg_code UBUS_MSG_HELLO
                   then Some (reconnect_fail s)
                   else reconnect_hello E K c hdr (blob_hdr_raw_len E data - ATTR_SIZE) s))"

section \<open>Contexts\<close>

text \<open>The fields of a zeroed context with the descriptor and the callbacks that are set right after it. The
  event handler for new objects is part of the context.\<close>

definition zero_object :: lib_object where
  "zero_object = \<lparr>ob_name = None, ob_id = 0, ob_type = None, ob_subscribe_cb = None,
     ob_has_subscribers = False, ob_methods = Methods []\<rparr>"

definition ctx_memset :: "lib \<Rightarrow> lib" where
  "ctx_memset s =
     s\<lparr>requests := [], lib_objects := Map.empty, lib_pending := [], sock_fd := - 1, sock_eof := False,
       sock_error := False, sock_registered := False, timer_armed := False, local_id := 0,
       request_seq := 0, cancel_poll := False, stack_depth := 0,
       connection_lost := Ubus_default_connection_lost, monitor_cb := None,
       msgbuf_hdr := \<lparr>hdr_version = 0, hdr_type = 0, hdr_seq = 0, hdr_peer = 0\<rparr>, msgbuf_data := None, msgbuf_data_len := 0, msgbuf_reduction_counter := 0,
       auto_subscribers := [], request_handler := None, pre_invoke := None,
       objs := (objs s)(auto_subscribe_event_handler s \<mapsto> zero_object),
       event_cbs := (event_cbs s)(auto_subscribe_event_handler s := None)\<rparr>"

definition ubus_ctx_init :: "env \<Rightarrow> lib \<Rightarrow> bool \<times> lib" where
  "ubus_ctx_init E s =
     (case lib_alloc E (ctx_memset s) of
        (False, s) \<Rightarrow> (False, s)
      | (True, s) \<Rightarrow> (True, realloc_msgbuf UBUS_MSG_CHUNK_SIZE s))"

definition free_msgbuf :: "lib \<Rightarrow> lib" where
  "free_msgbuf s =
     (case msgbuf_data s of None \<Rightarrow> s | Some a \<Rightarrow> (free_blob a s)\<lparr>msgbuf_data := None\<rparr>)"

definition ubus_connect_ctx :: "env \<Rightarrow> callbacks \<Rightarrow> conn_env \<Rightarrow> lib \<Rightarrow> (int \<times> lib) option" where
  "ubus_connect_ctx E K c s =
     (case ubus_ctx_init E s of
        (False, s) \<Rightarrow> Some (- 1, s)
      | (True, s) \<Rightarrow>
          Option.bind (ubus_reconnect E K c s) (\<lambda>(ret, s).
            if ret \<noteq> 0 then Some (- 1, free_msgbuf s) else Some (0, s)))"

definition ubus_channel_connect :: "env \<Rightarrow> conn_env \<Rightarrow> int \<Rightarrow> nat option \<Rightarrow> lib \<Rightarrow> int \<times> lib" where
  "ubus_channel_connect E c fd handler s =
     (case ubus_ctx_init E s of
        (False, s) \<Rightarrow> (- 1, s)
      | (True, s) \<Rightarrow>
          let s = (if 0 \<le> sock_fd s then lib_close (sock_fd s) (s\<lparr>sock_registered := False\<rparr>) else s) in
          if \<not> fcntl_ok c then (- 1, free_msgbuf (s\<lparr>sock_fd := - 1\<rparr>))
          else
            (0, s\<lparr>sock_eof := False, sock_error := False, sock_fd := fd,
                  local_id := UBUS_CLIENT_ID_CHANNEL, request_handler := handler\<rparr>))"

text \<open>\<open>pair\<close> is the result of \<open>socketpair\<close>; the second component of the result is the descriptor for the
  other side.\<close>

definition ubus_channel_create ::
  "env \<Rightarrow> conn_env \<Rightarrow> (int \<times> int) option \<Rightarrow> nat option \<Rightarrow> lib \<Rightarrow> int \<times> int option \<times> lib" where
  "ubus_channel_create E c pair handler s =
     (case pair of
        None \<Rightarrow> (- 1, None, s)
      | Some (fd, remote_fd) \<Rightarrow>
          (case ubus_channel_connect E c fd handler s of
             (ret, s) \<Rightarrow>
               if ret < 0 then (- 1, None, lib_close remote_fd (lib_close fd s))
               else (0, Some remote_fd, s)))"

definition ubus_default_connection_lost :: "lib \<Rightarrow> lib" where
  "ubus_default_connection_lost s = (if sock_registered s then s\<lparr>uloop_ended := True\<rparr> else s)"

definition ubus_add_uloop :: "lib \<Rightarrow> lib" where
  "ubus_add_uloop s = s\<lparr>sock_registered := True\<rparr>"

definition ubus_auto_reconnect_cb :: "env \<Rightarrow> callbacks \<Rightarrow> conn_env \<Rightarrow> lib \<Rightarrow> lib option" where
  "ubus_auto_reconnect_cb E K c s =
     Option.bind (ubus_reconnect E K c s) (\<lambda>(ret, s).
       Some (if ret = 0 then ubus_add_uloop s else s\<lparr>conn_timer_ms := Some 1000\<rparr>))"

definition ubus_auto_disconnect_cb :: "lib \<Rightarrow> lib" where
  "ubus_auto_disconnect_cb s = s\<lparr>conn_timer_cb := Ubus_auto_reconnect_cb, conn_timer_ms := Some 1000\<rparr>"

definition ubus_auto_connect_cb :: "env \<Rightarrow> callbacks \<Rightarrow> conn_env \<Rightarrow> lib \<Rightarrow> lib option" where
  "ubus_auto_connect_cb E K c s =
     Option.bind (ubus_connect_ctx E K c s) (\<lambda>(ret, s).
       if ret \<noteq> 0 then Some (s\<lparr>conn_timer_ms := Some 1000\<rparr>)
       else
         let s = s\<lparr>connection_lost := Ubus_auto_disconnect_cb\<rparr> in
         map_option ubus_add_uloop
           (case conn_cb s of None \<Rightarrow> Some s | Some cb \<Rightarrow> call_void K (Call_connected cb) s))"

definition ubus_auto_connect :: "env \<Rightarrow> callbacks \<Rightarrow> conn_env \<Rightarrow> lib \<Rightarrow> lib option" where
  "ubus_auto_connect E K c s = ubus_auto_connect_cb E K c (s\<lparr>conn_timer_cb := Ubus_auto_connect_cb\<rparr>)"

text \<open>The timer of the connection fires.\<close>

definition conn_timer_fire :: "env \<Rightarrow> callbacks \<Rightarrow> conn_env \<Rightarrow> lib \<Rightarrow> lib option" where
  "conn_timer_fire E K c s =
     (let s = s\<lparr>conn_timer_ms := None\<rparr> in
      case conn_timer_cb s of
        Ubus_auto_connect_cb \<Rightarrow> ubus_auto_connect_cb E K c s
      | Ubus_auto_reconnect_cb \<Rightarrow> ubus_auto_reconnect_cb E K c s)"

definition ubus_shutdown :: "lib \<Rightarrow> lib" where
  "ubus_shutdown s =
     (let s = s\<lparr>sock_registered := False\<rparr>;
          s = (if 0 \<le> sock_fd s then (lib_close (sock_fd s) s)\<lparr>sock_fd := - 1\<rparr> else s);
          s = s\<lparr>timer_armed := False\<rparr>;
          s = fold (\<lambda>p. free_blob (pm_data p)) (lib_pending s) (s\<lparr>lib_pending := []\<rparr>)
      in free_msgbuf s)"

definition ubus_connect :: "env \<Rightarrow> callbacks \<Rightarrow> conn_env \<Rightarrow> lib \<Rightarrow> (bool \<times> lib) option" where
  "ubus_connect E K c s =
     (case lib_alloc E s of
        (False, s) \<Rightarrow> Some (False, s)
      | (True, s) \<Rightarrow> Option.bind (ubus_connect_ctx E K c s) (\<lambda>(ret, s). Some (ret = 0, s)))"

definition ubus_free :: "lib \<Rightarrow> lib" where
  "ubus_free s = ubus_shutdown s"

definition ubus_auto_shutdown :: "lib \<Rightarrow> lib" where
  "ubus_auto_shutdown s = ubus_shutdown (s\<lparr>conn_timer_ms := None\<rparr>)"

section \<open>Status names\<close>

definition ubus_strerrors :: "string list" where
  "ubus_strerrors =
     [''Success'', ''Invalid command'', ''Invalid argument'', ''Method not found'', ''Not found'',
      ''No response'', ''Permission denied'', ''Request timed out'', ''Operation not supported'',
      ''Unknown error'', ''Connection failed'', ''Out of memory'', ''Parsing message data failed'',
      ''System error'']"

fun dec_digits :: "nat \<Rightarrow> string" where
  "dec_digits n =
     (if n < 10 then [char_of (48 + n)] else dec_digits (n div 10) @ [char_of (48 + n mod 10)])"

declare dec_digits.simps [simp del]

definition ubus_strerror :: "int \<Rightarrow> string" where
  "ubus_strerror err =
     (if err < 0 \<or> int (length ubus_strerrors) \<le> err
      then ''Unknown error: '' @ (if err < 0 then CHR ''-'' # dec_digits (nat (- err)) else dec_digits (nat err))
      else ubus_strerrors ! nat err)"

end
