(* ===== verification/Libubus_Callbacks.thy ===== *)
theory Libubus_Callbacks
  imports Libubus_Conn
begin

text \<open>
  What a call through a function pointer does. The library's own callbacks are its functions; all
  others belong to the application, which is a parameter: \<open>A K c s\<close> is what its function does with the
  call \<open>c\<close> in state \<open>s\<close>, where \<open>K\<close> is what callbacks do when that function enters the library again.

  \<open>lib_callbacks E A d\<close> allows \<open>d\<close> callbacks inside each other; a call that nests deeper has no result.
\<close>

type_synonym app = "callbacks \<Rightarrow> lib_call \<Rightarrow> lib \<Rightarrow> (int \<times> lib) option"

definition ret_void :: "lib option \<Rightarrow> (int \<times> lib) option" where
  "ret_void r = map_option (Pair 0) r"

definition whole_msg :: "msg_ptr \<Rightarrow> (addr \<Rightarrow> lib option) \<Rightarrow> lib \<Rightarrow> (int \<times> lib) option" where
  "whole_msg m f s = ret_void (case m of Whole a \<Rightarrow> f a | _ \<Rightarrow> Some (lfault s))"

definition attr_msg :: "msg_ptr \<Rightarrow> (addr \<Rightarrow> blob_attr \<Rightarrow> lib option) \<Rightarrow> lib \<Rightarrow> (int \<times> lib) option" where
  "attr_msg m f s = ret_void (case m of Attr a v \<Rightarrow> f a v | _ \<Rightarrow> Some (lfault s))"

definition data_call :: "env \<Rightarrow> callbacks \<Rightarrow> data_handler \<Rightarrow> addr \<Rightarrow> u8 \<Rightarrow> msg_ptr \<Rightarrow>
    (int \<times> lib) option \<Rightarrow> lib \<Rightarrow> (int \<times> lib) option" where
  "data_call E K h req ty m app s =
     (case h of
        Ubus_lookup_cb \<Rightarrow> whole_msg m (\<lambda>a. ubus_lookup_cb E K req a s) s
      | Ubus_lookup_id_cb \<Rightarrow> whole_msg m (\<lambda>a. Some (ubus_lookup_id_cb E req a s)) s
      | Ubus_add_object_cb \<Rightarrow> whole_msg m (\<lambda>a. Some (ubus_add_object_cb E req a s)) s
      | Ubus_remove_object_cb \<Rightarrow> whole_msg m (\<lambda>a. Some (ubus_remove_object_cb E req a s)) s
      | Ubus_notify_data_cb \<Rightarrow> ret_void (ubus_notify_data_cb K req ty m s)
      | Acl_recv_cb \<Rightarrow> attr_msg m (\<lambda>_ v. Some (acl_recv_cb E v s)) s
      | App_data _ \<Rightarrow> app)"

definition complete_call :: "env \<Rightarrow> callbacks \<Rightarrow> complete_handler \<Rightarrow> addr \<Rightarrow> int \<Rightarrow>
    (int \<times> lib) option \<Rightarrow> lib \<Rightarrow> (int \<times> lib) option" where
  "complete_call E K h req ret app s =
     (case h of
        Ubus_sync_req_cb \<Rightarrow> Some (0, ubus_sync_req_cb req ret s)
      | Ubus_notify_complete_cb \<Rightarrow> ret_void (ubus_notify_complete_cb K req s)
      | Acl_query_complete_cb \<Rightarrow> ret_void (acl_query_complete_cb E s)
      | App_complete _ \<Rightarrow> app)"

definition method_call :: "callbacks \<Rightarrow> method_handler \<Rightarrow> addr option \<Rightarrow> addr \<Rightarrow> addr \<times> blob_attr \<Rightarrow>
    msg_ptr \<Rightarrow> (int \<times> lib) option \<Rightarrow> lib \<Rightarrow> (int \<times> lib) option" where
  "method_call K h obj rd name m app s =
     (case h of
        Ubus_subscriber_cb \<Rightarrow>
          (case obj of None \<Rightarrow> Some (0, lfault s) | Some a \<Rightarrow> ubus_subscriber_cb K a rd name m s)
      | Ubus_event_cb \<Rightarrow>
          (case obj of None \<Rightarrow> Some (0, lfault s) | Some a \<Rightarrow> ubus_event_cb K a name m s)
      | App_method _ \<Rightarrow> app)"

definition lookup_call :: "env \<Rightarrow> callbacks \<Rightarrow> lookup_handler \<Rightarrow> ubus_object_data \<Rightarrow> addr \<Rightarrow>
    (int \<times> lib) option \<Rightarrow> lib \<Rightarrow> (int \<times> lib) option" where
  "lookup_call E K h od priv app s =
     (case h of
        Ubus_auto_sub_lookup \<Rightarrow> ret_void (ubus_auto_sub_lookup E K od s)
      | Ubus_auto_sub_lookup_one \<Rightarrow> ret_void (auto_sub_one E K priv (od_path od) (od_id od) s)
      | App_lookup _ \<Rightarrow> app)"

definition event_call :: "env \<Rightarrow> callbacks \<Rightarrow> event_handler \<Rightarrow> addr \<times> blob_attr \<Rightarrow> msg_ptr \<Rightarrow>
    (int \<times> lib) option \<Rightarrow> lib \<Rightarrow> (int \<times> lib) option" where
  "event_call E K h name m app s =
     (case h of
        Ubus_auto_sub_event_handler_cb \<Rightarrow> attr_msg m (\<lambda>a v. ubus_auto_sub_event_handler_cb E K a v s) s
      | Acl_subscribe_cb \<Rightarrow> ret_void (acl_subscribe_cb E (blob_str E (snd name)) s)
      | App_event _ \<Rightarrow> app)"

definition lost_call :: "lost_handler \<Rightarrow> (int \<times> lib) option \<Rightarrow> lib \<Rightarrow> (int \<times> lib) option" where
  "lost_call h app s =
     (case h of
        Ubus_default_connection_lost \<Rightarrow> Some (0, ubus_default_connection_lost s)
      | Ubus_auto_disconnect_cb \<Rightarrow> Some (0, ubus_auto_disconnect_cb s)
      | App_lost _ \<Rightarrow> app)"

definition run_call :: "env \<Rightarrow> app \<Rightarrow> callbacks \<Rightarrow> callbacks" where
  "run_call E A K c s =
     (case c of
        Call_data h req ty m \<Rightarrow> data_call E K h req ty m (A K c s) s
      | Call_complete h req ret \<Rightarrow> complete_call E K h req ret (A K c s) s
      | Call_method h obj rd name m \<Rightarrow> method_call K h obj rd name m (A K c s) s
      | Call_lookup h od priv \<Rightarrow> lookup_call E K h od priv (A K c s) s
      | Call_event h ev name m \<Rightarrow> event_call E K h name m (A K c s) s
      | Call_lost h \<Rightarrow> lost_call h (A K c s) s
      | _ \<Rightarrow> A K c s)"

primrec lib_callbacks :: "env \<Rightarrow> app \<Rightarrow> nat \<Rightarrow> callbacks" where
  "lib_callbacks E A 0 = (\<lambda>c s. None)"
| "lib_callbacks E A (Suc d) = run_call E A (lib_callbacks E A d)"

end
