(* ===== verification/Libubus_Notify.thy ===== *)
theory Libubus_Notify
  imports Libubus_Callbacks
begin

text \<open>
  The bookkeeping of a notification that waits for replies (\<open>struct ubus_notify_request\<close>): a bit mask
  and an array of ids stand for the set of peers that still have to answer.
\<close>

unbundle bit_operations_syntax

text \<open>The positions that are waited for, and the shape of the struct: the array has its declared length
  and no bit is set beyond it.\<close>

definition waits :: "ubus_notify_request \<Rightarrow> nat set" where
  "waits n = {i. bit (nq_pending n) i}"

definition nreq_wf :: "ubus_notify_request \<Rightarrow> bool" where
  "nreq_wf n \<longleftrightarrow> length (nq_id n) = Suc UBUS_MAX_NOTIFY_PEERS \<and> waits n \<subseteq> {..UBUS_MAX_NOTIFY_PEERS}"

lemma waits_empty: "nq_pending n = 0 \<longleftrightarrow> waits n = {}"
  using bit_imp_le_length [of "nq_pending n"] by (auto simp: waits_def bit_eq_iff)

lemma and_one_bit: "(w :: u32) AND 1 = 0 \<longleftrightarrow> \<not> bit w 0"
  by (simp add: and_one_eq bit_0 even_iff_mod_2_eq_zero)

lemma bit_drop_Suc: "bit (drop_bit (Suc 0) (w :: u32)) k = bit w (Suc k)"
  by (simp add: bit_drop_bit_eq)

lemma all_nat_split: "(\<forall>k. P k) \<longleftrightarrow> P 0 \<and> (\<forall>k. P (Suc k))"
  by (metis not0_implies_Suc)

lemma ex_nat_split: "(\<exists>k. P k) \<longleftrightarrow> P 0 \<or> (\<exists>k. P (Suc k))"
  by (metis not0_implies_Suc)

text \<open>What the search gives: the number of a set bit whose id is the one sought, or \<open>-1\<close> when no id of a
  set bit is.\<close>

definition found_at :: "u32 list \<Rightarrow> u32 \<Rightarrow> u32 \<Rightarrow> nat \<Rightarrow> int \<Rightarrow> bool" where
  "found_at ids objid pending i j \<longleftrightarrow>
     j = - 1 \<and> (\<forall>k. bit pending k \<longrightarrow> ids ! (i + k) \<noteq> objid) \<or>
     (\<exists>k. bit pending k \<and> ids ! (i + k) = objid \<and> j = int (i + k))"

lemma found_at_shift:
  assumes "found_at ids objid (drop_bit (Suc 0) pending) (Suc i) j" and "bit pending 0 \<Longrightarrow> ids ! i \<noteq> objid"
  shows "found_at ids objid pending i j"
  using assms unfolding found_at_def
  by (subst all_nat_split, subst ex_nat_split) (auto simp: bit_drop_Suc)

lemma found_at_here: "bit pending 0 \<Longrightarrow> ids ! i = objid \<Longrightarrow> found_at ids objid pending i (int i)"
  unfolding found_at_def by (rule disjI2, rule exI [of _ 0]) simp

lemma find_notify_loop_spec:
  assumes "\<And>k. bit pending k \<Longrightarrow> i + k < length ids"
  shows "\<not> snd (find_notify_loop ids objid pending i) \<and>
    found_at ids objid pending i (fst (find_notify_loop ids objid pending i))"
  using assms
proof (induction ids objid pending i rule: find_notify_loop.induct)
  case (1 ids objid pending i)
  have len: "Suc (i + k) < length ids" if "bit (drop_bit (Suc 0) pending) k" for k
    using "1.prems" [of "Suc k"] that by (simp add: bit_drop_Suc)
  show ?case
  proof (cases "pending = 0")
    case True
    then show ?thesis
      by (subst (1 2) find_notify_loop.simps) (simp add: found_at_def)
  next
    case False
    show ?thesis
    proof (cases "bit pending 0")
      case bit0: True
      then have i: "i < length ids"
        using "1.prems" [of 0] by simp
      show ?thesis
      proof (cases "ids ! i = objid")
        case True
        with bit0 False i show ?thesis
          by (subst (1 2) find_notify_loop.simps) (simp add: and_one_bit found_at_here)
      next
        case ne: False
        have "\<not> snd (find_notify_loop ids objid (drop_bit 1 pending) (Suc i)) \<and>
            found_at ids objid (drop_bit 1 pending) (Suc i)
              (fst (find_notify_loop ids objid (drop_bit 1 pending) (Suc i)))"
          using bit0 False i ne by (intro "1.IH"(2)) (simp_all add: and_one_bit len)
        with found_at_shift [of ids objid pending i] bit0 False i ne show ?thesis
          by (subst (1 2) find_notify_loop.simps) (simp add: and_one_bit)
      qed
    next
      case bit0: False
      have "\<not> snd (find_notify_loop ids objid (drop_bit 1 pending) (Suc i)) \<and>
          found_at ids objid (drop_bit 1 pending) (Suc i)
            (fst (find_notify_loop ids objid (drop_bit 1 pending) (Suc i)))"
        using bit0 False by (intro "1.IH"(1)) (simp_all add: and_one_bit len)
      with found_at_shift [of ids objid pending i] bit0 False show ?thesis
        by (subst (1 2) find_notify_loop.simps) (simp add: and_one_bit)
    qed
  qed
qed

lemma find_notify_id:
  assumes "nreq_wf n"
  shows "\<not> snd (ubus_find_notify_id n objid)"
    and "fst (ubus_find_notify_id n objid) = - 1 \<longleftrightarrow> (\<forall>k\<in>waits n. nq_id n ! k \<noteq> objid)"
    and "fst (ubus_find_notify_id n objid) \<noteq> - 1 \<Longrightarrow>
      \<exists>k\<in>waits n. fst (ubus_find_notify_id n objid) = int k \<and> nq_id n ! k = objid"
proof -
  have len: "bit (nq_pending n) k \<Longrightarrow> 0 + k < length (nq_id n)" for k
    using assms by (auto simp: nreq_wf_def waits_def)
  note spec = find_notify_loop_spec [of "nq_pending n" 0 "nq_id n" objid, OF len, simplified, unfolded found_at_def]
  show "\<not> snd (ubus_find_notify_id n objid)"
    using spec by (simp add: ubus_find_notify_id_def)
  show "fst (ubus_find_notify_id n objid) = - 1 \<longleftrightarrow> (\<forall>k\<in>waits n. nq_id n ! k \<noteq> objid)"
    using spec by (auto simp: ubus_find_notify_id_def waits_def)
  show "\<exists>k\<in>waits n. fst (ubus_find_notify_id n objid) = int k \<and> nq_id n ! k = objid"
    if "fst (ubus_find_notify_id n objid) \<noteq> - 1"
    using spec that by (auto simp: ubus_find_notify_id_def waits_def)
qed

section \<open>The peers of a notification\<close>

lemma waits_clear: "waits (n\<lparr>nq_pending := nq_pending n AND NOT (push_bit i 1)\<rparr>) = waits n - {i}"
  by (auto simp: waits_def bit_simps dest: bit_imp_le_length)

lemma waits_set:
  "i \<le> UBUS_MAX_NOTIFY_PEERS \<Longrightarrow>
   waits (n\<lparr>nq_pending := nq_pending n OR push_bit i 1, nq_id := ids\<rparr>) = insert i (waits n)"
  by (auto simp: waits_def bit_simps UBUS_MAX_NOTIFY_PEERS_def)

text \<open>The ids in the list of subscribers.\<close>

definition notify_ids :: "env \<Rightarrow> blob_attr list \<Rightarrow> u32 list" where
  "notify_ids E as = map (blob_get_u32 E) (filter blob_check_int32 as)"

text \<open>The loop enters them from position \<open>idx\<close> on, as many as there is room for.\<close>

lemma notify_peers_loop_spec:
  assumes "nreq_wf n" and "1 \<le> idx" and "idx \<le> UBUS_MAX_NOTIFY_PEERS"
  shows "let n' = notify_peers_loop E as idx n;
             k = min (length (notify_ids E as)) (Suc UBUS_MAX_NOTIFY_PEERS - idx)
         in nreq_wf n' \<and> waits n' = waits n \<union> {idx..<idx + k} \<and>
            nq_id n' = take idx (nq_id n) @ take k (notify_ids E as) @ drop (idx + k) (nq_id n) \<and>
            nq_status_cb n' = nq_status_cb n"
  using assms
proof (induction as arbitrary: idx n)
  case Nil
  then show ?case
    by (simp add: notify_ids_def)
next
  case (Cons a as)
  show ?case
  proof (cases "blob_check_int32 a")
    case False
    with Cons show ?thesis
      by (simp add: notify_ids_def)
  next
    case True
    define m where "m = n\<lparr>nq_pending := nq_pending n OR push_bit idx 1,
                          nq_id := (nq_id n)[idx := blob_get_u32 E a]\<rparr>"
    have m: "nreq_wf m" "waits m = insert idx (waits n)"
      "nq_id m = (nq_id n)[idx := blob_get_u32 E a]" "nq_status_cb m = nq_status_cb n"
      "length (nq_id n) = Suc UBUS_MAX_NOTIFY_PEERS"
      using Cons.prems waits_set [where i = idx and n = n] by (auto simp: m_def nreq_wf_def)
    have ids: "notify_ids E (a # as) = blob_get_u32 E a # notify_ids E as"
      using True by (simp add: notify_ids_def)
    have idx: "idx < length (nq_id n)"
      using m(5) Cons.prems(3) by simp
    show ?thesis
    proof (cases "idx = UBUS_MAX_NOTIFY_PEERS")
      case full: True
      then have "notify_peers_loop E (a # as) idx n = m"
        using True by (simp add: m_def)
      with m full idx show ?thesis
        by (auto simp: ids Let_def upd_conv_take_nth_drop)
    next
      case more: False
      then have "notify_peers_loop E (a # as) idx n = notify_peers_loop E as (Suc idx) m"
        using True by (simp add: m_def Let_def)
      moreover define k where "k = min (length (notify_ids E as)) (Suc UBUS_MAX_NOTIFY_PEERS - Suc idx)"
      moreover have "Suc idx \<le> UBUS_MAX_NOTIFY_PEERS"
        using more Cons.prems(3) by simp
      ultimately have IH: "nreq_wf (notify_peers_loop E (a # as) idx n)"
        "waits (notify_peers_loop E (a # as) idx n) = insert idx (waits n) \<union> {Suc idx..<Suc idx + k}"
        "nq_id (notify_peers_loop E (a # as) idx n) = take (Suc idx) ((nq_id n)[idx := blob_get_u32 E a]) @
           take k (notify_ids E as) @ drop (Suc idx + k) ((nq_id n)[idx := blob_get_u32 E a])"
        "nq_status_cb (notify_peers_loop E (a # as) idx n) = nq_status_cb n"
        using Cons.IH [OF m(1), of "Suc idx"] m(2-4) by (simp_all add: Let_def k_def [symmetric])
      have k: "min (length (notify_ids E (a # as))) (Suc UBUS_MAX_NOTIFY_PEERS - idx) = Suc k"
        using Cons.prems(3) by (simp add: ids k_def)
      have "insert idx (waits n) \<union> {Suc idx..<Suc idx + k} = waits n \<union> {idx..<idx + Suc k}"
        by auto
      moreover have "take (Suc idx) ((nq_id n)[idx := blob_get_u32 E a]) = take idx (nq_id n) @ [blob_get_u32 E a]"
        using idx by (simp add: take_Suc_conv_app_nth)
      ultimately show ?thesis
        unfolding Let_def k by (simp add: IH ids del: notify_peers_loop.simps)
    qed
  qed
qed

end
