(* ===== verification/Libubus_Complete.thy ===== *)
theory Libubus_Complete
  imports Libubus_Notify
begin

text \<open>
  Completing requests. The interface of a completion callback that does not meddle with other
  requests is a locale; the callback with which the library waits for a request is an instance.
\<close>

text \<open>A list of requests in order: each is live and linked once, and its completion callback is one of \<open>P\<close>.\<close>

definition req_linked :: "complete_handler set \<Rightarrow> lib \<Rightarrow> addr \<Rightarrow> bool" where
  "req_linked P s a \<longleftrightarrow>
     (\<exists>r. reqs s a = Some r \<and> rq_list r = Linked \<and> (\<forall>h. rq_complete_cb r = Some h \<longrightarrow> h \<in> P))"

text \<open>A request that was completed with a status.\<close>

definition req_done :: "lib \<Rightarrow> addr \<Rightarrow> int \<Rightarrow> bool" where
  "req_done s a st \<longleftrightarrow>
     (\<exists>r. reqs s a = Some r \<and> rq_list r = Empty_node \<and> rq_status_msg r \<and> rq_status_code r = st)"

lemma upd_req_Some: "reqs s a = Some r \<Longrightarrow> upd_req a f s = s\<lparr>reqs := (reqs s)(a \<mapsto> f r)\<rparr>"
  by (simp add: upd_req_def)

locale passive_completion =
  fixes K :: callbacks and P :: "complete_handler set"
  assumes undisturbed: "h \<in> P \<Longrightarrow> reqs t req = Some q \<Longrightarrow>
    \<exists>ret t' q'. K (Call_complete h req st) t = Some (ret, t') \<and> requests t' = requests t \<and>
      (\<forall>a. a \<noteq> req \<longrightarrow> reqs t' a = reqs t a) \<and> reqs t' req = Some q' \<and> rq_list q' = rq_list q \<and>
      (rq_status_msg q \<and> rq_status_code q = st \<longrightarrow> rq_status_msg q' \<and> rq_status_code q' = st)"
begin

lemma set_status_head:
  assumes req: "requests s = req # rest" and "req_linked P s req"
  shows "\<exists>s'. ubus_set_req_status K req st s = Some s' \<and> requests s' = rest \<and> req_done s' req st \<and>
    (\<forall>a. a \<noteq> req \<longrightarrow> reqs s' a = reqs s a)"
proof -
  obtain r where r: "reqs s req = Some r" "rq_list r = Linked" "\<forall>h. rq_complete_cb r = Some h \<longrightarrow> h \<in> P"
    using assms(2) by (auto simp: req_linked_def)
  define r1 where "r1 = r\<lparr>rq_list := Empty_node, rq_status_msg := True, rq_status_code := st\<rparr>"
  define s1 where "s1 = s\<lparr>requests := rest, reqs := (reqs s)(req \<mapsto> r1)\<rparr>"
  have st: "ubus_set_req_status K req st s =
      (if rq_blocked r then Some s1 else ubus_req_complete_cb K req s1)"
    using req r by (simp add: ubus_set_req_status_def req_unlinked_def req_unlink_def req_get_def
        upd_req_def s1_def r1_def Let_def)
  have s1: "requests s1 = rest" "reqs s1 req = Some r1" "\<And>a. a \<noteq> req \<Longrightarrow> reqs s1 a = reqs s a"
    by (simp_all add: s1_def)
  show ?thesis
  proof (cases "rq_blocked r \<or> rq_complete_cb r = None")
    case True
    with st s1 show ?thesis
      by (intro exI [of _ s1]) (auto simp: ubus_req_complete_cb_def req_done_def r1_def)
  next
    case False
    then obtain h where h: "rq_complete_cb r = Some h" "h \<in> P"
      using r(3) by auto
    define t where "t = s1\<lparr>reqs := (reqs s1)(req \<mapsto> r1\<lparr>rq_complete_cb := None\<rparr>),
      calls := calls s1 @ [Call_complete h req st]\<rparr>"
    have t: "requests t = rest" "reqs t req = Some (r1\<lparr>rq_complete_cb := None\<rparr>)"
      "\<And>a. a \<noteq> req \<Longrightarrow> reqs t a = reqs s a"
      by (simp_all add: t_def s1_def)
    obtain ret t' q' where K: "K (Call_complete h req st) t = Some (ret, t')" "requests t' = rest"
      "\<forall>a. a \<noteq> req \<longrightarrow> reqs t' a = reqs t a" "reqs t' req = Some q'" "rq_list q' = Empty_node"
      "rq_status_msg q'" "rq_status_code q' = st"
      using undisturbed [OF h(2) t(2), of st] t(1) by (auto simp: r1_def)
    have "ubus_set_req_status K req st s = Some t'"
      using False st h(1) K(1) s1(2)
      by (simp add: ubus_req_complete_cb_def call_void_def call_cb_def upd_req_def t_def r1_def)
    with K t(3) show ?thesis
      by (auto simp: req_done_def)
  qed
qed

text \<open>Flushing returns and leaves no request behind.\<close>

lemma flush_all:
  assumes "distinct (requests s)" and "\<forall>a\<in>set (requests s). req_linked P s a"
  shows "\<exists>s'. ubus_flush_requests K s = Some s' \<and> requests s' = [] \<and>
    (\<forall>a\<in>set (requests s). req_done s' a (status_int UBUS_STATUS_TIMEOUT)) \<and>
    (\<forall>a. a \<notin> set (requests s) \<longrightarrow> reqs s' a = reqs s a)"
  using assms
proof (induction "requests s" arbitrary: s)
  case Nil
  then show ?case
    by (subst ubus_flush_requests.simps) simp
next
  case (Cons req rest)
  let ?st = "status_int UBUS_STATUS_TIMEOUT"
  have req: "requests s = req # rest" "req_linked P s req"
    using Cons.hyps(2) Cons.prems(2) by (metis, metis list.set_intros(1))
  from set_status_head [OF req, of ?st] obtain t where
    t: "ubus_set_req_status K req ?st s = Some t" "requests t = rest" "req_done t req ?st"
      "\<forall>a. a \<noteq> req \<longrightarrow> reqs t a = reqs s a"
    by blast
  have ne: "req \<notin> set rest" "distinct rest"
    using Cons.prems(1) req(1) by auto
  have "\<forall>a\<in>set (requests t). req_linked P t a"
    using Cons.prems(2) req(1) t(2,4) ne by (auto simp: req_linked_def)
  with Cons.hyps(1) [of t] t(2) ne obtain s' where
    s': "ubus_flush_requests K t = Some s'" "requests s' = []" "\<forall>a\<in>set rest. req_done s' a ?st"
      "\<forall>a. a \<notin> set rest \<longrightarrow> reqs s' a = reqs t a"
    by auto
  have "ubus_flush_requests K s = Some s'"
    using req(1) t(1) s'(1) by (subst ubus_flush_requests.simps) simp
  moreover have "req_done s' req ?st"
    using s'(4) ne(1) t(3) by (simp add: req_done_def)
  ultimately show ?case
    using s' t(4) req(1) by auto
qed

end

lemma sync_cb_call:
  "lib_callbacks E A (Suc d) (Call_complete Ubus_sync_req_cb req st) t = Some (0, ubus_sync_req_cb req st t)"
  by (simp add: run_call_def complete_call_def)

interpretation sync_cb: passive_completion "lib_callbacks E A (Suc d)" "{Ubus_sync_req_cb}" for E A d
  by unfold_locales (auto simp: sync_cb_call ubus_sync_req_cb_def upd_req_def simp del: lib_callbacks.simps)

end
