(* ===== verification/Libubus_Wait.thy ===== *)
theory Libubus_Wait
  imports Libubus_Complete
begin

text \<open>
  Waiting for a request whose answer is next in the input: the receive loop reads the status message,
  finds the request, completes it, and stops.
\<close>

lemma lib_rx_frame_eq:
  assumes "lib_rx_frame s' = lib_rx_frame s"
  shows "requests s' = requests s" "reqs s' = reqs s" "stack_depth s' = stack_depth s"
    "lib_pending s' = lib_pending s" "sock_registered s' = sock_registered s" "lib_fault s' = lib_fault s"
    "out s' = out s" "cancel_poll s' = cancel_poll s" "nreqs s' = nreqs s" "shut_fds s' = shut_fds s"
    "calls s' = calls s"
proof -
  note eq = arg_cong [OF assms]
  show "requests s' = requests s" "reqs s' = reqs s" "stack_depth s' = stack_depth s"
    "lib_pending s' = lib_pending s" "sock_registered s' = sock_registered s" "lib_fault s' = lib_fault s"
    "out s' = out s" "cancel_poll s' = cancel_poll s" "nreqs s' = nreqs s" "shut_fds s' = shut_fds s"
    "calls s' = calls s"
    using eq [of requests] eq [of reqs] eq [of stack_depth] eq [of lib_pending] eq [of sock_registered]
      eq [of lib_fault] eq [of out] eq [of cancel_poll] eq [of nreqs] eq [of shut_fds] eq [of calls]
    by (simp_all add: lib_rx_frame_def)
qed

text \<open>A request that is waited for, as \<open>ubus_complete_request\<close> leaves it.\<close>

definition awaited :: "ubus_request \<Rightarrow> bool" where
  "awaited r \<longleftrightarrow> rq_list r = Linked \<and> \<not> rq_status_msg r \<and> \<not> rq_blocked r \<and> \<not> rq_notify r \<and>
     rq_fd_cb r = None \<and> rq_complete_cb r = Some Ubus_sync_req_cb"

definition answered :: "int \<Rightarrow> u32 \<Rightarrow> ubus_request \<Rightarrow> ubus_request" where
  "answered st peer r = r\<lparr>rq_peer := peer, rq_list := Empty_node, rq_complete_cb := None,
     rq_status_msg := True, rq_status_code := st\<rparr>"

lemma set_status_sync:
  assumes "reqs s req = Some r" and "rq_list r = Linked" "\<not> rq_blocked r"
    "rq_complete_cb r = Some Ubus_sync_req_cb"
  shows "ubus_set_req_status (lib_callbacks E A (Suc d)) req st s =
    Some (s\<lparr>requests := remove1 req (requests s),
            calls := calls s @ [Call_complete Ubus_sync_req_cb req st],
            reqs := (reqs s)(req \<mapsto> r\<lparr>rq_list := Empty_node, rq_complete_cb := None, rq_status_msg := True,
                                       rq_status_code := st\<rparr>),
            cancel_poll := True\<rparr>)"
  using assms
  by (simp add: ubus_set_req_status_def req_unlinked_def req_unlink_def req_get_def upd_req_def Let_def
      ubus_req_complete_cb_def call_void_def call_cb_def sync_cb_call ubus_sync_req_cb_def del: lib_callbacks.simps)

text \<open>The status message of an awaited request that is first in the list.\<close>

lemma status_completes:
  assumes hdr: "msgbuf_hdr s = h" "hdr_type h = ubus_msg_code UBUS_MSG_STATUS" "hdr_seq h = rq_seq r"
      "hdr_peer h = rq_peer r"
    and req: "requests s = req # rs" "reqs s req = Some r" "awaited r"
    and data: "msgbuf_data s = Some a" "blobs s a = Some d"
      "blob_parse E lib_policy d UBUS_ATTR_STATUS = Some v"
  shows "ubus_process_msg E (lib_callbacks E A (Suc n)) Msgbuf fd s =
    Some (lib_close_fd fd (s\<lparr>attrbuf := (a, blob_parse E lib_policy d), requests := rs,
            calls := calls s @ [Call_complete Ubus_sync_req_cb req (sint (blob_get_u32 E v))],
            reqs := (reqs s)(req \<mapsto> answered (sint (blob_get_u32 E v)) (rq_peer r) r),
            cancel_poll := True\<rparr>))"
proof -
  have find: "ubus_find_request (hdr_seq h) (hdr_peer h) s = (Some (req, - 1), s)"
    using hdr req by (simp add: ubus_find_request_def awaited_def)
  have nofd: "req_get req rq_fd_cb None s = None"
    using req by (simp add: req_get_def awaited_def)
  define t where "t = s\<lparr>attrbuf := (a, blob_parse E lib_policy d)\<rparr>"
  have status: "ubus_get_status E Msgbuf s = (Some (sint (blob_get_u32 E v)), t)"
    using data by (simp add: ubus_get_status_def buf_data_def lib_parse_msg_def read_blob_def Let_def t_def)
  define u where "u = t\<lparr>reqs := (reqs t)(req \<mapsto> r)\<rparr>"
  have "upd_req req (\<lambda>r. r\<lparr>rq_peer := hdr_peer (buf_hdr Msgbuf t)\<rparr>) t = u"
    using hdr req(2) by (simp add: upd_req_def t_def u_def buf_hdr_def)
  then have "ubus_process_req_status E (lib_callbacks E A (Suc n)) req Msgbuf s =
      ubus_set_req_status (lib_callbacks E A (Suc n)) req (sint (blob_get_u32 E v)) u"
    using status by (simp add: ubus_process_req_status_def Let_def del: lib_callbacks.simps)
  also have "\<dots> = Some (u\<lparr>requests := rs,
      calls := calls s @ [Call_complete Ubus_sync_req_cb req (sint (blob_get_u32 E v))],
      reqs := (reqs s)(req \<mapsto> answered (sint (blob_get_u32 E v)) (rq_peer r) r), cancel_poll := True\<rparr>)"
    using req by (subst set_status_sync) (simp_all add: u_def t_def awaited_def answered_def)
  finally show ?thesis
    using hdr find nofd
    by (cases "0 \<le> fd") (simp_all add: ubus_process_msg_def ubus_process_req_msg_def buf_hdr_def u_def t_def Let_def
        del: lib_callbacks.simps ubus_msg_code.simps)
qed

text \<open>The state when the answer to a request is next in the input.\<close>

definition answer_due :: "env \<Rightarrow> addr \<Rightarrow> ubus_request \<Rightarrow> u8 list \<Rightarrow> u8 list \<Rightarrow> lib \<Rightarrow> bool" where
  "answer_due E req r bs rest s \<longleftrightarrow>
     msgbuf_wf s \<and> calloc_ok E (lib_calloc s) \<and> in_good (sk_in s) \<and> in_ready (sk_in s) \<and>
     in_stream (sk_in s) =
       hdr_bytes \<lparr>hdr_version = 0, hdr_type = ubus_msg_code UBUS_MSG_STATUS, hdr_seq = rq_seq r,
                  hdr_peer = rq_peer r\<rparr> @ bs @ rest \<and>
     framed E bs \<and> \<not> sock_eof s"

lemma wait_answered:
  assumes "lib_ok E" and due: "answer_due E req r bs rest s"
    and v: "blob_parse E lib_policy (Raw bs) UBUS_ATTR_STATUS = Some v"
    and req: "requests s = req # rs" "reqs s req = Some r" "awaited r" and "stack_depth s \<noteq> 0"
  shows "\<exists>s'. wait_loop E (lib_callbacks E A (Suc n)) req 0 te s = Some s' \<and> requests s' = rs \<and>
    reqs s' = (reqs s)(req \<mapsto> answered (sint (blob_get_u32 E v)) (rq_peer r) r) \<and>
    stack_depth s' = stack_depth s \<and> lib_pending s' = lib_pending s \<and> lib_fault s' = lib_fault s \<and>
    out s' = out s \<and> in_stream (sk_in s') = rest \<and> msgbuf_wf s' \<and> sock_registered s' = sock_registered s \<and>
    snd (attrbuf s') = blob_parse E lib_policy (Raw bs)"
proof -
  let ?K = "lib_callbacks E A (Suc n)"
  let ?h = "\<lparr>hdr_version = 0, hdr_type = ubus_msg_code UBUS_MSG_STATUS, hdr_seq = rq_seq r, hdr_peer = rq_peer r\<rparr>"
  let ?t = "s\<lparr>cancel_poll := False\<rparr>"
  have "msgbuf_wf ?t"
    using due by (simp add: answer_due_def msgbuf_wf_def)
  moreover have "\<exists>u. get_next_msg E (- 1) ?t = Some (True, in_fd (sk_in ?t), u) \<and> holds_msg E ?h bs u \<and>
      in_good (sk_in u) \<and> in_stream (sk_in u) = rest \<and> msgbuf_wf u \<and> lib_rx_frame u = lib_rx_frame ?t \<and>
      sock_eof u = sock_eof ?t" if "msgbuf_wf ?t"
    using due that by (intro get_next_msg_frame [OF assms(1)]) (simp_all add: answer_due_def)
  ultimately obtain u fd where u: "get_next_msg E (- 1) ?t = Some (True, fd, u)" "holds_msg E ?h bs u"
      "in_stream (sk_in u) = rest" "msgbuf_wf u" "lib_rx_frame u = lib_rx_frame ?t" "\<not> sock_eof u"
    using due by (auto simp: answer_due_def)
  note fr = lib_rx_frame_eq [OF u(5)]
  obtain a where a: "msgbuf_hdr u = ?h" "msgbuf_data u = Some a" "blobs u a = Some (Raw bs)"
    using u(2) by (auto simp: holds_msg_def)
  define w where "w = lib_close_fd fd (u\<lparr>attrbuf := (a, blob_parse E lib_policy (Raw bs)), requests := rs,
    calls := calls u @ [Call_complete Ubus_sync_req_cb req (sint (blob_get_u32 E v))],
    reqs := (reqs u)(req \<mapsto> answered (sint (blob_get_u32 E v)) (rq_peer r) r), cancel_poll := True\<rparr>)"
  have proc: "ubus_process_msg E ?K Msgbuf fd u = Some w"
    unfolding w_def by (rule status_completes [OF a(1) _ _ _ _ _ req(3) a(2,3) v]) (use fr req in simp_all)
  have w: "requests w = rs" "reqs w = (reqs s)(req \<mapsto> answered (sint (blob_get_u32 E v)) (rq_peer r) r)"
    "stack_depth w = stack_depth s" "lib_pending w = lib_pending s" "lib_fault w = lib_fault s" "out w = out s"
    "in_stream (sk_in w) = rest" "msgbuf_wf w" "sock_registered w = sock_registered s" "\<not> sock_eof w" "cancel_poll w"
    "snd (attrbuf w) = blob_parse E lib_policy (Raw bs)"
    using fr u by (simp_all add: w_def lib_close_fd_def lib_close_def msgbuf_wf_def)
  have run: "run_pending E ?K ?t = Some ?t" "run_pending E ?K w = Some w"
    using assms(7) w(3) by (simp_all add: run_pending_def)
  have "handle_loop E ?K ?t = Some (- 1, w)"
    by (subst handle_loop.simps) (use run(1) u(1) proc w(11) in \<open>simp del: lib_callbacks.simps\<close>)
  then have "ubus_poll_data E ?K s = Some w"
    using run(2) w(10) by (simp add: ubus_poll_data_def ubus_handle_data_def lib_close_fd_def del: lib_callbacks.simps)
  moreover have "wait_loop E ?K req 0 te w = Some w"
    by (subst wait_loop.simps) (simp add: req_get_def w(2) answered_def)
  moreover have "\<not> req_get req rq_status_msg True s"
    using req by (simp add: req_get_def awaited_def)
  ultimately have "wait_loop E ?K req 0 te s = Some w"
    using w(10) by (subst wait_loop.simps) (simp add: time_left_def del: lib_callbacks.simps)
  with w show ?thesis by blast
qed

text \<open>A request that was just started and has no completion callback of its own.\<close>

definition started :: "ubus_request \<Rightarrow> bool" where
  "started r \<longleftrightarrow> rq_list r = Empty_node \<and> \<not> rq_status_msg r \<and> \<not> rq_blocked r \<and> \<not> rq_notify r \<and>
     rq_fd_cb r = None \<and> rq_complete_cb r = None"

lemma complete_answered:
  assumes "lib_ok E" and due: "answer_due E req r bs rest s"
    and v: "blob_parse E lib_policy (Raw bs) UBUS_ATTR_STATUS = Some v"
    and req: "reqs s req = Some r" "started r"
    and idle: "0 \<le> stack_depth s" "lib_pending s = []"
  shows "\<exists>s'. ubus_complete_request E (lib_callbacks E A (Suc n)) req 0 s =
      Some (sint (blob_get_u32 E v), s') \<and> requests s' = requests s \<and>
    (\<forall>a. a \<noteq> req \<longrightarrow> reqs s' a = reqs s a) \<and> stack_depth s' = stack_depth s \<and> lib_fault s' = lib_fault s \<and>
    out s' = out s \<and> in_stream (sk_in s') = rest \<and> msgbuf_wf s' \<and> lib_pending s' = [] \<and>
    snd (attrbuf s') = blob_parse E lib_policy (Raw bs)"
proof -
  let ?K = "lib_callbacks E A (Suc n)" and ?st = "sint (blob_get_u32 E v)"
  define r1 where "r1 = r\<lparr>rq_list := Linked, rq_complete_cb := Some Ubus_sync_req_cb\<rparr>"
  define t where "t = s\<lparr>requests := req # requests s, reqs := (reqs s)(req \<mapsto> r1), stack_depth := stack_depth s + 1\<rparr>"
  have t: "(upd_req req (\<lambda>r. r\<lparr>rq_complete_cb := Some Ubus_sync_req_cb\<rparr>) (ubus_complete_request_async req s))
      \<lparr>stack_depth := stack_depth (upd_req req (\<lambda>r. r\<lparr>rq_complete_cb := Some Ubus_sync_req_cb\<rparr>)
         (ubus_complete_request_async req s)) + 1\<rparr> = t"
    using req by (simp add: ubus_complete_request_async_def req_unlinked_def req_get_def upd_req_def started_def
        t_def r1_def)
  have "answer_due E req r1 bs rest t"
    using due by (simp add: answer_due_def t_def r1_def msgbuf_wf_def)
  moreover have "awaited r1" "requests t = req # requests s" "reqs t req = Some r1" "stack_depth t \<noteq> 0"
    using req idle by (simp_all add: awaited_def started_def r1_def t_def)
  ultimately obtain w where w: "wait_loop E ?K req 0 0 t = Some w" "requests w = requests s"
    "reqs w = (reqs t)(req \<mapsto> answered ?st (rq_peer r1) r1)" "stack_depth w = stack_depth s + 1"
    "lib_pending w = []" "lib_fault w = lib_fault s" "out w = out s" "in_stream (sk_in w) = rest" "msgbuf_wf w"
    "snd (attrbuf w) = blob_parse E lib_policy (Raw bs)"
    using wait_answered [OF assms(1) _ v, of req r1 rest t "requests s" A n 0] idle by (auto simp: t_def)
  define x where "x = wait_leave w"
  define y where "y = x\<lparr>reqs := (reqs w)(req \<mapsto> (answered ?st (rq_peer r1) r1)\<lparr>rq_complete_cb := None\<rparr>)\<rparr>"
  have x: "reqs x = reqs w" "lib_pending y = []"
    by (simp_all add: x_def y_def w(5) wait_leave_def)
  have pend: "ubus_process_pending_msg E ?K y = Some y"
    using x(2) by (subst ubus_process_pending_msg.simps) simp
  have nocb: "req_get req rq_complete_cb None s = None"
    using req by (simp add: req_get_def started_def)
  have rx: "reqs x req = Some (answered ?st (rq_peer r1) r1)"
    by (simp add: x(1) w(3))
  have y: "upd_req req (\<lambda>r. r\<lparr>rq_complete_cb := None\<rparr>) x = y"
    using rx by (simp add: upd_req_def y_def x(1))
  have st: "req_get req rq_status_msg False x" "req_get req rq_status_code 0 x = ?st"
    using rx by (simp_all add: req_get_def answered_def)
  have "wait_finish E ?K req None x = Some (?st, y)"
    unfolding wait_finish_def y st(2) Let_def by (simp add: st(1) pend del: lib_callbacks.simps)
  then have "ubus_complete_request E ?K req 0 s = Some (?st, y)"
    unfolding ubus_complete_request_def nocb Let_def
    by (simp add: t w(1) x_def del: lib_callbacks.simps)
  moreover have "requests y = requests s" "\<forall>a. a \<noteq> req \<longrightarrow> reqs y a = reqs s a" "stack_depth y = stack_depth s"
    "lib_fault y = lib_fault s" "out y = out s" "in_stream (sk_in y) = rest" "msgbuf_wf y"
    "snd (attrbuf y) = blob_parse E lib_policy (Raw bs)"
    using w by (simp_all add: y_def x_def wait_leave_def t_def msgbuf_wf_def)
  ultimately show ?thesis
    using x(2) by blast
qed

section \<open>A call\<close>

lemma writev_loop_accepts:
  assumes "writev_loop iov fd len rs s = Some (r, s')" and "Snd_fail \<notin> set rs"
  shows "0 \<le> r"
  using assms
proof (induction rs arbitrary: iov fd len s)
  case (Cons x rs)
  then show ?case
    by (cases x) (auto simp: Let_def split: if_splits)
qed simp

text \<open>The bytes of a message that a client sends.\<close>

definition msg_frame :: "env \<Rightarrow> u32 \<Rightarrow> blob option \<Rightarrow> ubus_msg_type \<Rightarrow> u32 \<Rightarrow> u8 list" where
  "msg_frame E seq msg cmd peer =
     hdr_bytes \<lparr>hdr_version = 0, hdr_type = ubus_msg_code cmd, hdr_seq = ucast seq, hdr_peer = peer\<rparr> @
     blob_image E (case msg of None \<Rightarrow> Built [] | Some d \<Rightarrow> d)"

lemma send_accepts:
  assumes "Snd_fail \<notin> set (sk_out s)" and "length (msg_frame E seq (Some d) cmd peer) \<le> snd_room (sk_out s)"
    and "blob_pad_len E d \<le> UBUS_MAX_MSGLEN"
  shows "\<exists>ret fds rs. 0 \<le> ret \<and> ubus_send_msg E seq (Some d) cmd peer fd s = Some (ret, lib_close_fd fd
    (s\<lparr>out := out s @ msg_frame E seq (Some d) cmd peer, out_fds := fds, sk_out := rs\<rparr>))"
proof -
  let ?iov = "[hdr_bytes \<lparr>hdr_version = 0, hdr_type = ubus_msg_code cmd, hdr_seq = ucast seq,
      hdr_peer = peer\<rparr>, blob_image E d]"
  have iov: "concat ?iov = msg_frame E seq (Some d) cmd peer" "0 < length (concat ?iov)"
    by (simp_all add: msg_frame_def)
  obtain r t where t: "writev_loop ?iov fd 0 (sk_out s) s = Some (r, t)"
    using writev_loop_returns [OF iov(2)] assms(2) iov(1) by metis
  have "0 \<le> r"
    by (rule writev_loop_accepts [OF t assms(1)])
  with writev_loop_whole [OF t] t assms(3) show ?thesis
    by (auto simp: ubus_send_msg_def writev_retry_def iov(1) [simplified])
qed

lemma invoke_answered_lemma:
  assumes "lib_ok E" and "\<And>i. calloc_ok E i" and "msgbuf_wf s"
    and out: "Snd_fail \<notin> set (sk_out s)" "length frame \<le> snd_room (sk_out s)"
      "blob_pad_len E (Built (lib_invoke_attrs E obj meth msg)) \<le> UBUS_MAX_MSGLEN"
    and frame: "frame = msg_frame E (ucast (request_seq s + 1)) (Some (Built (lib_invoke_attrs E obj meth msg))) UBUS_MSG_INVOKE obj"
    and ins: "in_good (sk_in s)" "in_ready (sk_in s)" "in_stream (sk_in s) =
        hdr_bytes \<lparr>hdr_version = 0, hdr_type = ubus_msg_code UBUS_MSG_STATUS, hdr_seq = request_seq s + 1,
                   hdr_peer = obj\<rparr> @ bs @ rest" "framed E bs"
      "blob_parse E lib_policy (Raw bs) UBUS_ATTR_STATUS = Some v"
    and idle: "0 \<le> stack_depth s" "lib_pending s = []" "\<not> sock_eof s" "lib_next s \<notin> set (requests s)"
  shows "\<exists>s'. ubus_invoke_fd E (lib_callbacks E A (Suc n)) obj meth msg cb priv 0 fd s =
      Some (sint (blob_get_u32 E v), s') \<and> out s' = out s @ frame \<and> requests s' = requests s \<and>
    stack_depth s' = stack_depth s \<and> lib_fault s' = lib_fault s \<and> in_stream (sk_in s') = rest \<and>
    reqs s' (lib_next s) = None \<and> snd (attrbuf s') = blob_parse E lib_policy (Raw bs)"
proof -
  let ?K = "lib_callbacks E A (Suc n)" and ?req = "lib_next s" and ?seq = "request_seq s + 1"
  let ?msg = "Some (Built (lib_invoke_attrs E obj meth msg))"
  define r where "r = zero_request\<lparr>rq_fd := fd, rq_list := Empty_node, rq_pending := [], rq_peer := obj, rq_seq := ?seq\<rparr>"
  define s1 where "s1 = s\<lparr>lib_next := Suc ?req, request_seq := ?seq, reqs := (reqs s)(?req \<mapsto> r)\<rparr>"
  from send_accepts [of s1 E "ucast ?seq" "Built (lib_invoke_attrs E obj meth msg)" UBUS_MSG_INVOKE obj fd] out
  obtain ret fds rs where send: "0 \<le> ret" "ubus_send_msg E (ucast ?seq) ?msg UBUS_MSG_INVOKE obj fd s1 =
      Some (ret, lib_close_fd fd (s1\<lparr>out := out s1 @ frame, out_fds := fds, sk_out := rs\<rparr>))"
    by (auto simp: frame s1_def)
  define s2 where "s2 = lib_close_fd fd (s1\<lparr>out := out s1 @ frame, out_fds := fds, sk_out := rs\<rparr>)"
  have start: "ubus_invoke_async_fd E obj meth msg ?req fd (s\<lparr>lib_next := Suc ?req\<rparr>) = Some (0, s2)"
    using send idle(4) out(3)
    by (simp add: ubus_invoke_async_fd_def do_start_request_def set_req_def Let_def s1_def [symmetric]
        s2_def [symmetric] r_def [symmetric])
  define r2 where "r2 = r\<lparr>rq_data_cb := cb, rq_priv := priv\<rparr>"
  define s3 where "s3 = s2\<lparr>reqs := (reqs s2)(?req \<mapsto> r2)\<rparr>"
  have s2: "reqs s2 = (reqs s)(?req \<mapsto> r)"
    by (simp add: s2_def s1_def lib_close_fd_def lib_close_def)
  have s3: "upd_req ?req (\<lambda>r. r\<lparr>rq_data_cb := cb, rq_priv := priv\<rparr>) s2 = s3" "reqs s3 ?req = Some r2" "started r2"
    "rq_seq r2 = ?seq" "rq_peer r2 = obj"
    by (simp_all add: upd_req_def s3_def s2 r2_def r_def started_def zero_request_def)
  have "msgbuf_wf s3"
    using assms(3) by (auto simp: s3_def s2_def s1_def lib_close_fd_def lib_close_def msgbuf_wf_def less_Suc_eq)
  moreover have eqs: "sk_in s3 = sk_in s" "sock_eof s3 = sock_eof s" "stack_depth s3 = stack_depth s"
    "lib_pending s3 = lib_pending s" "requests s3 = requests s" "lib_fault s3 = lib_fault s" "out s3 = out s @ frame"
    by (simp_all add: s3_def s2_def s1_def lib_close_fd_def lib_close_def)
  ultimately have "answer_due E ?req r2 bs rest s3"
    using assms(2) ins idle(3) s3(4,5) by (simp add: answer_due_def)
  from complete_answered [OF assms(1) this ins(5) s3(2,3), of A n] eqs idle obtain s' where
    s': "ubus_complete_request E ?K ?req 0 s3 = Some (sint (blob_get_u32 E v), s')" "requests s' = requests s"
      "stack_depth s' = stack_depth s" "lib_fault s' = lib_fault s" "out s' = out s @ frame"
      "in_stream (sk_in s') = rest" "snd (attrbuf s') = blob_parse E lib_policy (Raw bs)"
    by auto
  have "ubus_invoke_fd E ?K obj meth msg cb priv 0 fd s = Some (sint (blob_get_u32 E v), drop_req ?req s')"
    using start s'(1) s3(1) by (simp add: ubus_invoke_fd_def new_req_def returns_def del: lib_callbacks.simps)
  with s' show ?thesis
    by (simp add: drop_req_def)
qed

end
