(* ===== verification/Props_Libubus.thy ===== *)
theory Props_Libubus
  imports Libubus_Wait Ubus_Wire
begin

text \<open>
  The library on the wire: what a client sends and receives, and that the two ends of a connection
  understand each other. The witnesses run in the reference environment.
\<close>

section \<open>A client for the witnesses\<close>

text \<open>A connected client with nothing going on, given what its socket will do.\<close>

definition w_lib :: "recv_res list \<Rightarrow> snd_res list \<Rightarrow> lib" where
  "w_lib ins outs = \<lparr>
     requests = [], lib_objects = Map.empty, lib_pending = [], sock_fd = 3, sock_eof = False,
     sock_error = False, sock_registered = False, timer_armed = False, local_id = 7000,
     request_seq = 0, cancel_poll = False, stack_depth = 0,
     connection_lost = Ubus_default_connection_lost, monitor_cb = None, msgbuf_hdr = zero_hdr,
     msgbuf_data = Some 0, msgbuf_data_len = UBUS_MSG_CHUNK_SIZE, msgbuf_reduction_counter = 0,
     auto_subscribers = [], auto_subscribe_event_handler = 0, request_handler = None,
     pre_invoke = None, attrbuf = (0, Map.empty), blobs = [0 \<mapsto> Raw []],
     caps = [0 \<mapsto> UBUS_MSG_CHUNK_SIZE], reqs = Map.empty, nreqs = Map.empty, lookups = Map.empty,
     objs = Map.empty, lib_types = Map.empty, subscribers = Map.empty, event_cbs = Map.empty,
     rdata = Map.empty, id_vars = (\<lambda>_. 0), acl_event = 0, acl_req = 0, acl_blob = None,
     acl_query_active = False, acl_query_deferred = False, acl_objects = [],
     conn_timer_cb = Ubus_auto_connect_cb, conn_timer_ms = None, conn_cb = None, lib_next = 1,
     lib_calloc = 0, lib_fault = False, uloop_cancelling = False, sk_in = ins, sk_out = outs,
     clock = [], out = [], out_fds = [], shut_fds = [], calls = [], uloop_ended = False\<rparr>"

lemma w_lib_wf: "msgbuf_wf (w_lib ins outs)"
  by (simp add: msgbuf_wf_def w_lib_def UBUS_MSG_CHUNK_SIZE_def UBUS_MAX_MSGLEN_def)

lemma ref_hdr_len [simp]:
  "blob_hdr_raw_len ref_env [a, b, c, d] = unat (be32_of (a AND 0) b c d)"
  "blob_hdr_pad_len ref_env [a, b, c, d] = unat (be32_of (a AND 0) b c d)"
  by (simp_all add: ref_env_def)

section \<open>Sending\<close>

text \<open>C9. A client's message is written whole or not at all as far as the connection survives: when
  sending succeeds, exactly the bytes of the message have been written, whatever pieces the socket
  took them in, and an attached descriptor has been passed once. When it fails, either the message
  was too large and nothing was written, or the connection is marked as lost. In every case the
  descriptor is closed exactly once.\<close>

theorem lib_send_whole:
  assumes "ubus_send_msg E seq msg cmd peer fd s = Some (ret, s')"
  shows "shut_fds s' = shut_fds s @ (if 0 \<le> fd then [fd] else []) \<and>
    (if 0 \<le> ret
     then out s' = out s @ msg_frame E seq msg cmd peer \<and>
          ret = int (length (msg_frame E seq msg cmd peer)) \<and> sock_eof s' = sock_eof s \<and>
          out_fds s' = out_fds s @ (if 0 \<le> fd then [fd] else [])
     else sock_eof s' \<and> (\<exists>k. out s' = out s @ take k (msg_frame E seq msg cmd peer)) \<or>
          UBUS_MAX_MSGLEN < blob_pad_len E (case msg of None \<Rightarrow> Built [] | Some d \<Rightarrow> d) \<and>
          out s' = out s \<and> out_fds s' = out_fds s \<and> sock_eof s' = sock_eof s)"
proof (cases "UBUS_MAX_MSGLEN < blob_pad_len E (case msg of None \<Rightarrow> Built [] | Some d \<Rightarrow> d)")
  case True
  with assms show ?thesis
    by (auto simp: ubus_send_msg_def Let_def)
next
  case False
  define iov where "iov = [hdr_bytes \<lparr>hdr_version = 0, hdr_type = ubus_msg_code cmd, hdr_seq = ucast seq,
      hdr_peer = peer\<rparr>, blob_image E (case msg of None \<Rightarrow> Built [] | Some d \<Rightarrow> d)]"
  have iov: "concat iov = msg_frame E seq msg cmd peer"
    by (simp add: iov_def msg_frame_def)
  from False assms obtain t where
    w: "writev_loop iov fd 0 (sk_out s) s = Some (ret, t)" and
    s': "s' = lib_close_fd fd (if ret < 0 then t\<lparr>sock_eof := True\<rparr> else t)"
    by (auto simp: ubus_send_msg_def Let_def writev_retry_def iov_def bind_eq_Some_conv)
  show ?thesis
  proof (cases "0 \<le> ret")
    case True
    with writev_loop_whole [OF w] s' iov show ?thesis
      by auto
  next
    case False
    with writev_loop_cut [OF w] s' iov show ?thesis
      by auto
  qed
qed

theorem lib_send_whole_witness:
  "\<exists>s'. ubus_send_msg ref_env 5 None UBUS_MSG_PING 9 4 (w_lib [] [Snd_again, Snd 3, Snd_intr, Snd 20]) = Some (12, s') \<and>
     out s' = msg_frame ref_env 5 None UBUS_MSG_PING 9 \<and> out_fds s' = [4] \<and> shut_fds s' = [4]"
proof -
  let ?s = "w_lib [] [Snd_again, Snd 3, Snd_intr, Snd 20]"
  have "\<exists>s'. ubus_send_msg ref_env 5 None UBUS_MSG_PING 9 4 ?s = Some (12, s')"
    by (simp add: ubus_send_msg_def writev_retry_def w_lib_def hdr_bytes_def be16_bytes_def be32_bytes_def
        blob_image_def blob_pad_len_def ref_env_def ref_encode_def be32_of_def Let_def sendmsg_out_def UBUS_MAX_MSGLEN_def)
  then obtain s' where s': "ubus_send_msg ref_env 5 None UBUS_MSG_PING 9 4 ?s = Some (12, s')" by blast
  from lib_send_whole [OF this] s' show ?thesis
    by (simp add: w_lib_def)
qed

lemma lib_send_bytes:
  assumes "ubus_send_msg E seq msg cmd peer fd s = Some (ret, s')" and "0 \<le> ret"
  shows "out s' = out s @ msg_frame E seq msg cmd peer"
proof -
  let ?iov = "[hdr_bytes \<lparr>hdr_version = 0, hdr_type = ubus_msg_code cmd, hdr_seq = ucast seq,
      hdr_peer = peer\<rparr>, blob_image E (case msg of None \<Rightarrow> Built [] | Some d \<Rightarrow> d)]"
  from assms obtain t where w: "writev_loop ?iov fd 0 (sk_out s) s = Some (ret, t)" "out s' = out t"
    by (auto simp: ubus_send_msg_def Let_def writev_retry_def bind_eq_Some_conv split: if_splits)
  from writev_loop_whole [OF w(1) assms(2)] w(2) show ?thesis
    by (auto simp: msg_frame_def)
qed

section \<open>From the daemon to a client\<close>

text \<open>C7. A message that the daemon writes to a socket is received by the client as it was sent: when the
  bytes of a message buffer are next in the input, in whatever pieces and with whatever
  interruptions they arrive, the client gets the header and the blob of the buffer and an attached
  descriptor, and the bytes behind the message stay for the next one.\<close>

theorem daemon_message_received:
  assumes "lib_ok E" and "msgbuf_wf s" and "calloc_ok E (lib_calloc s)"
    and "in_good (sk_in s)" and "in_ready (sk_in s)"
    and bytes: "in_stream (sk_in s) = writev_iov E b 0 @ rest"
    and b: "hdr_version (ub_hdr b) = 0" "framed E (blob_image E (ub_data b))"
      "ub_len b = blob_raw_len E (ub_data b)"
  shows "\<exists>s' a. get_next_msg E fd s = Some (True, in_fd (sk_in s), s') \<and> msgbuf_hdr s' = ub_hdr b \<and>
    msgbuf_data s' = Some a \<and> blobs s' a = Some (Raw (blob_image E (ub_data b))) \<and>
    in_good (sk_in s') \<and> in_stream (sk_in s') = rest \<and> msgbuf_wf s' \<and> lib_rx_frame s' = lib_rx_frame s"
proof -
  have "in_stream (sk_in s) = hdr_bytes (ub_hdr b) @ blob_image E (ub_data b) @ rest"
    using bytes b(3) by (simp add: writev_iov_def blob_raw_len_def)
  from get_next_msg_frame [OF assms(1-5) this b(1,2)] show ?thesis
    unfolding holds_msg_def by metis
qed

text \<open>A status message for a client, as the daemon holds it.\<close>

definition w_status :: "u16 \<Rightarrow> u32 \<Rightarrow> u32 \<Rightarrow> ubus_msg_buf" where
  "w_status seq peer st = \<lparr>ub_refcount = 1,
     ub_hdr = \<lparr>hdr_version = 0, hdr_type = ubus_msg_code UBUS_MSG_STATUS, hdr_seq = seq, hdr_peer = peer\<rparr>,
     ub_data = Built [(ubus_attr_code UBUS_ATTR_STATUS, Blob_int32 st)], ub_fd = - 1, ub_len = 12\<rparr>"

lemma w_status_image:
  "blob_image ref_env (Built [(Suc 0, Blob_int32 st)]) = [0, 0, 0, 12, 1, 0, 0, 8] @ be32_bytes st"
  by (simp add: blob_image_def ref_encode_def Let_def be32_bytes_def)

lemma w_status_framed:
  "framed ref_env (blob_image ref_env (ub_data (w_status seq peer st)))"
  "ub_len (w_status seq peer st) = blob_raw_len ref_env (ub_data (w_status seq peer st))"
  by (simp_all add: framed_def w_status_def w_status_image blob_raw_len_def ATTR_SIZE_def
      UBUS_MAX_MSGLEN_def be32_of_def)

text \<open>The message cut into two pieces, the second after an interruption and an empty read.\<close>

definition w_pieces :: "u8 list \<Rightarrow> recv_res list" where
  "w_pieces bs = [Rcv (take 5 bs) (- 1), Rcv_intr, Rcv_again, Rcv (drop 5 bs) (- 1)]"

lemma w_pieces_ok:
  assumes "5 < length bs"
  shows "in_good (w_pieces bs)" "in_ready (w_pieces bs)" "in_stream (w_pieces bs) = bs"
    "in_fd (w_pieces bs) = - 1"
  using assms by (auto simp: w_pieces_def)

theorem daemon_message_received_witness:
  "\<exists>s' a. get_next_msg ref_env (- 1) (w_lib (w_pieces (writev_iov ref_env (w_status 3 9 7) 0)) []) = Some (True, - 1, s') \<and>
     msgbuf_hdr s' = ub_hdr (w_status 3 9 7) \<and> msgbuf_data s' = Some a \<and>
     blobs s' a = Some (Raw ([0, 0, 0, 12, 1, 0, 0, 8] @ be32_bytes 7))"
proof -
  let ?bs = "writev_iov ref_env (w_status 3 9 7) 0"
  have len: "5 < length ?bs"
    by (simp add: writev_iov_def HDR_SIZE_def)
  note p = w_pieces_ok [OF len]
  have "in_stream (sk_in (w_lib (w_pieces ?bs) [])) = ?bs @ []"
    by (simp add: w_lib_def p)
  from daemon_message_received [OF ref_env_ok w_lib_wf _ _ _ this _ w_status_framed, of "- 1"] p show ?thesis
    by (auto simp: w_lib_def w_status_def w_status_image)
qed

section \<open>From a client to the daemon\<close>

lemma daemon_rx_frame:
  assumes "lib_ok E"
    and c: "clients n cl = Some c" "\<not> cl_eof c" "cl_pending_msg c = None" "cl_pending_msg_offset c = 0"
      "length (cl_hdrbuf c) = HDRBUF_SIZE"
    and "calloc_ok E (n_calloc n)" and fr: "framed E im"
  shows "\<exists>n1 n2 b. rx_header E (Some (take HDRBUF_SIZE (hdr_bytes h @ im), [])) cl n = (Go, n1) \<and>
    rx_body E (Some (drop HDRBUF_SIZE (hdr_bytes h @ im))) cl (next_addr n) n1 = (Go, n2) \<and>
    bufs n2 (next_addr n) = Some b \<and> ub_refcount b = 1 \<and> ub_hdr b = h \<and> blob_image E (ub_data b) = im"
proof -
  let ?d = "take 4 im" and ?len = "length im" and ?ub = "next_addr n"
  have len: "4 \<le> ?len" "length ?d = 4" "blob_hdr_raw_len E ?d = ?len" "blob_hdr_pad_len E ?d \<le> UBUS_MAX_MSGLEN"
    using fr by (auto simp: framed_def ATTR_SIZE_def)
  have tk: "take HDRBUF_SIZE (hdr_bytes h @ im) = hdr_bytes h @ ?d"
    "drop HDRBUF_SIZE (hdr_bytes h @ im) = drop 4 im"
    by (simp_all add: HDRBUF_SIZE_def HDR_SIZE_def)
  have hl: "length (hdr_bytes h @ ?d) = HDRBUF_SIZE"
    using len by (simp add: HDRBUF_SIZE_def HDR_SIZE_def)
  define c1 where "c1 = c\<lparr>cl_hdrbuf := hdr_bytes h @ ?d, cl_pending_msg_offset := HDRBUF_SIZE,
    cl_pending_msg := Some ?ub\<rparr>"
  define b1 where "b1 = \<lparr>ub_refcount = 1, ub_hdr = h, ub_data = Raw (?d @ replicate (?len - 4) 0), ub_fd = - 1,
    ub_len = ?len\<rparr>"
  define n1 where "n1 = n\<lparr>clients := (clients n)(cl \<mapsto> c1), n_calloc := Suc (n_calloc n),
    bufs := (bufs n)(?ub \<mapsto> b1), next_addr := Suc ?ub\<rparr>"
  define b2 where "b2 = b1\<lparr>ub_data := Raw im\<rparr>"
  have hd: "rx_header E (Some (hdr_bytes h @ ?d, [])) cl n = (Go, n1)"
    using c assms(7) len hl
    by (simp add: rx_header_def splice_def rx_start_def ubus_msg_new_def calloc_def buf_store_def upd_buf_def
        upd_client_def n1_def c1_def b1_def Let_def blob_image_def HDRBUF_SIZE_def HDR_SIZE_def)
  have n1: "clients n1 cl = Some c1" "bufs n1 ?ub = Some b1"
    by (simp_all add: n1_def)
  have b1: "take 4 (blob_image E (ub_data b1)) = ?d" "blob_image E (ub_data b1) = ?d @ replicate (?len - 4) 0"
    using len by (simp_all add: b1_def blob_image_def)
  have bd: "\<exists>n2 b. rx_body E (Some (drop 4 im)) cl ?ub n1 = (Go, n2) \<and> bufs n2 ?ub = Some b \<and>
      ub_refcount b = 1 \<and> ub_hdr b = h \<and> blob_image E (ub_data b) = im"
  proof (cases "?len = 4")
    case True
    with n1 b1 len show ?thesis
      by (auto simp: rx_body_def c1_def HDRBUF_SIZE_def HDR_SIZE_def b1_def blob_image_def)
  next
    case False
    have "splice 4 (drop 4 im) (?d @ replicate (?len - 4) 0) = im"
      using len by (simp add: splice_def)
    with False n1 b1 len show ?thesis
      by (auto simp: rx_body_def c1_def HDRBUF_SIZE_def HDR_SIZE_def buf_store_def upd_buf_def blob_image_def
          Let_def b1_def)
  qed
  from hd bd show ?thesis
    unfolding tk by blast
qed

text \<open>C22. A message that a client sends is received by the daemon as it was sent: reading the bytes that
  \<open>ubus_send_msg\<close> has written, the daemon accepts the header, and when the body is read the buffer holds
  the type, sequence number, peer and blob that the client gave.\<close>

theorem client_message_received:
  assumes "lib_ok E" and sent: "ubus_send_msg E seq msg cmd peer fd s = Some (ret, s')" and "0 \<le> ret"
    and bytes: "out s' = out s @ bs"
    and fr: "framed E (blob_image E (case msg of None \<Rightarrow> Built [] | Some d \<Rightarrow> d))"
    and c: "clients n cl = Some c" "\<not> cl_eof c" "cl_pending_msg c = None" "cl_pending_msg_offset c = 0"
      "length (cl_hdrbuf c) = HDRBUF_SIZE"
    and "calloc_ok E (n_calloc n)"
  shows "\<exists>n1 n2 b. rx_header E (Some (take HDRBUF_SIZE bs, [])) cl n = (Go, n1) \<and>
    rx_body E (Some (drop HDRBUF_SIZE bs)) cl (next_addr n) n1 = (Go, n2) \<and>
    bufs n2 (next_addr n) = Some b \<and> ub_refcount b = 1 \<and>
    ub_hdr b = \<lparr>hdr_version = 0, hdr_type = ubus_msg_code cmd, hdr_seq = ucast seq, hdr_peer = peer\<rparr> \<and>
    blob_image E (ub_data b) = blob_image E (case msg of None \<Rightarrow> Built [] | Some d \<Rightarrow> d)"
proof -
  define h where "h = \<lparr>hdr_version = 0, hdr_type = ubus_msg_code cmd, hdr_seq = ucast seq :: u16, hdr_peer = peer\<rparr>"
  define im where "im = blob_image E (case msg of None \<Rightarrow> Built [] | Some d \<Rightarrow> d)"
  have bs: "bs = hdr_bytes h @ im"
    using lib_send_bytes [OF sent \<open>0 \<le> ret\<close>] bytes by (simp add: msg_frame_def h_def im_def)
  show ?thesis
    using daemon_rx_frame [OF assms(1) c assms(11), of im h] fr unfolding bs h_def [symmetric] im_def [symmetric]
    by blast
qed

lemma w_rx_client_ready:
  "\<exists>c. clients (net w_daemon) 7000 = Some c \<and> \<not> cl_eof c \<and> cl_pending_msg c = None \<and>
     cl_pending_msg_offset c = 0 \<and> length (cl_hdrbuf c) = HDRBUF_SIZE"
  by (simp add: w_daemon_def w_peer_def start_exec msg_exec client_exec Let_def HDRBUF_SIZE_def)

theorem client_message_received_witness:
  "\<exists>n1 n2 b s'. ubus_send_msg ref_env 5 None UBUS_MSG_PING 9 (- 1) (w_lib [] [Snd 7, Snd 20]) = Some (12, s') \<and>
     rx_header ref_env (Some (take HDRBUF_SIZE (out s'), [])) 7000 (net w_daemon) = (Go, n1) \<and>
     rx_body ref_env (Some (drop HDRBUF_SIZE (out s'))) 7000 (next_addr (net w_daemon)) n1 = (Go, n2) \<and>
     bufs n2 (next_addr (net w_daemon)) = Some b \<and> hdr_type (ub_hdr b) = ubus_msg_code UBUS_MSG_PING \<and>
     hdr_seq (ub_hdr b) = 5 \<and> hdr_peer (ub_hdr b) = 9"
proof -
  let ?s = "w_lib [] [Snd 7, Snd 20]"
  have "\<exists>s'. ubus_send_msg ref_env 5 None UBUS_MSG_PING 9 (- 1) ?s = Some (12, s')"
    by (simp add: ubus_send_msg_def writev_retry_def w_lib_def hdr_bytes_def be16_bytes_def be32_bytes_def
        blob_image_def blob_pad_len_def ref_encode_def be32_of_def Let_def sendmsg_out_def UBUS_MAX_MSGLEN_def)
  then obtain s' where s': "ubus_send_msg ref_env 5 None UBUS_MSG_PING 9 (- 1) ?s = Some (12, s')" by blast
  obtain c where c: "clients (net w_daemon) 7000 = Some c" "\<not> cl_eof c" "cl_pending_msg c = None"
    "cl_pending_msg_offset c = 0" "length (cl_hdrbuf c) = HDRBUF_SIZE"
    using w_rx_client_ready by blast
  have "out s' = out ?s @ out s'"
    by (simp add: w_lib_def)
  moreover have "framed ref_env (blob_image ref_env (case None of None \<Rightarrow> Built [] | Some d \<Rightarrow> d))"
    by (simp add: framed_def blob_image_def ref_encode_def be32_bytes_def be32_of_def ATTR_SIZE_def UBUS_MAX_MSGLEN_def)
  ultimately show ?thesis
    using client_message_received [OF ref_env_ok s' _ _ _ c] s' by fastforce
qed

section \<open>Receiving whatever arrives\<close>

lemma recv_loop_none:
  assumes "recv_loop n wait wfd rs = Some (0, bs, fdo, rs')" and "0 < n"
  shows "in_stream rs' = in_stream rs"
  using assms
proof (induction rs arbitrary: wait wfd bs fdo)
  case (Cons x rs)
  show ?case
  proof (cases x)
    case (Rcv cs fd)
    with Cons.prems recv_loop_cases [of "n - length cs" True False rs] show ?thesis
      by (cases cs; cases "length cs < n") (auto simp: Let_def bind_eq_Some_conv split: if_splits)
  next
    case Rcv_again
    with Cons.prems Cons.IH [of True False] show ?thesis
      by (auto simp: bind_eq_Some_conv split: if_splits)
  qed (use Cons in auto)
qed simp

lemma get_next_msg_idle:
  assumes "get_next_msg E fd s = Some (False, fd', s')" and "\<not> sock_eof s'"
  shows "in_stream (sk_in s') = in_stream (sk_in s)"
proof -
  obtain r bs fdo rs where rx: "recv_loop (HDR_SIZE + ATTR_SIZE) False True (sk_in s) = Some (r, bs, fdo, rs)"
    using assms(1) by (auto simp: get_next_msg_def bind_eq_Some_conv)
  have body: "sock_eof t'" if "get_body E h d t = Some (False, t')" for h d t t'
    using that by (auto simp: get_body_def Let_def set_eof_def bind_eq_Some_conv
        split: if_splits prod.splits bool.splits)
  show ?thesis
  proof (cases "r = 0")
    case True
    with assms rx recv_loop_none [OF rx [unfolded True]] show ?thesis
      by (auto simp: get_next_msg_def Let_def)
  next
    case False
    with assms rx body show ?thesis
      by (cases "hdr_of_bytes (take HDR_SIZE bs)")
        (auto simp: get_next_msg_def Let_def set_eof_def split: if_splits)
  qed
qed

text \<open>C25. Whatever arrives on the socket, receiving never writes outside the receive buffer, and the
  buffer stays within one megabyte. A message that is handed on has version 0 and exactly the length
  its header announces. When there is no message and the connection is not lost, no byte of the
  input has been used up.\<close>

theorem lib_receive_safe:
  assumes "lib_ok E" and "msgbuf_wf s" and "get_next_msg E fd s = Some (ok, fd', s')"
  shows "msgbuf_wf s' \<and> msgbuf_data_len s' \<le> UBUS_MAX_MSGLEN \<and> lib_fault s' = lib_fault s \<and>
    (ok \<longrightarrow> (\<exists>a bs. msgbuf_data s' = Some a \<and> blobs s' a = Some (Raw bs) \<and>
       hdr_version (msgbuf_hdr s') = 0 \<and> ATTR_SIZE \<le> length bs \<and>
       length bs = blob_hdr_raw_len E (take ATTR_SIZE bs))) \<and>
    (\<not> ok \<and> \<not> sock_eof s' \<longrightarrow> in_stream (sk_in s') = in_stream (sk_in s))"
proof -
  note safe = get_next_msg_safe [OF assms]
  from safe have "lib_fault (lib_rx_frame s') = lib_fault (lib_rx_frame s)"
    by simp
  then have "lib_fault s' = lib_fault s"
    by (simp add: lib_rx_frame_def)
  moreover have "\<exists>a bs. msgbuf_data s' = Some a \<and> blobs s' a = Some (Raw bs) \<and>
       hdr_version (msgbuf_hdr s') = 0 \<and> ATTR_SIZE \<le> length bs \<and>
       length bs = blob_hdr_raw_len E (take ATTR_SIZE bs)" if "ok"
    using safe that by (fastforce simp: holds_msg_def framed_def)
  moreover have "msgbuf_data_len s' \<le> UBUS_MAX_MSGLEN"
    using safe by (simp add: msgbuf_wf_def)
  ultimately show ?thesis
    using safe get_next_msg_idle [of E fd s fd' s'] assms(3) by auto
qed

theorem lib_receive_safe_witness:
  "\<exists>s'. get_next_msg ref_env (- 1) (w_lib [Rcv_intr, Rcv_again, Rcv [1] (- 1)] []) = Some (False, - 1, s') \<and>
     msgbuf_wf s' \<and> in_stream (sk_in s') = [1]"
proof -
  let ?s = "w_lib [Rcv_intr, Rcv_again, Rcv [1] (- 1)] []"
  have "\<exists>s'. get_next_msg ref_env (- 1) ?s = Some (False, - 1, s') \<and> \<not> sock_eof s'"
    by (simp add: get_next_msg_def w_lib_def HDR_SIZE_def ATTR_SIZE_def Let_def)
  then obtain s' where s': "get_next_msg ref_env (- 1) ?s = Some (False, - 1, s')" "\<not> sock_eof s'" by blast
  from lib_receive_safe [OF ref_env_ok w_lib_wf s'(1)] s' show ?thesis
    by (simp add: w_lib_def)
qed

end
