(* ===== verification/Ubusd_Exec_Root.thy ===== *)
theory Ubusd_Exec_Root
  imports Ubusd_Exec
begin

text \<open>
  Concrete states with a client of the user root, which no access control rule restricts: the client
  has published an object \<open>network\<close> with one method; then the object listens to events whose name
  starts with \<open>if\<close>, or the client publishes a second object \<open>wlan\<close> of the same type.
\<close>

definition w_root :: daemon where
  "w_root = server_cb ref_env [Accepted 5 \<lparr>peer_ids = Some (0, 0), peer_groups = Some []\<rparr>]
     (ubusd_start ref_env [Some 7000, Some 8000, Some 9000, Some 9100] None)"

definition w_asking :: daemon where
  "w_asking = on_net (\<lambda>n. upd_buf 2
     (\<lambda>b. b\<lparr>ub_hdr := \<lparr>hdr_version = 0, hdr_type = 4, hdr_seq = 3, hdr_peer = 0\<rparr>\<rparr>)
     (snd (ubus_msg_new ref_env (Built []) (blob_raw_len ref_env (Built [])) False n))) w_root"

definition w_publish :: attr_table where
  "w_publish = [UBUS_ATTR_OBJPATH \<mapsto> Blob_string ''network'',
     UBUS_ATTR_SIGNATURE \<mapsto> Blobmsg_table [(''status'', Blobmsg_table [])]]"

definition w_pub :: daemon where
  "w_pub = snd (ubusd_handle_add_object ref_env 7000 2 w_publish w_asking)"

definition w_listen :: daemon where
  "w_listen = snd (ubusd_alloc_event_pattern ref_env 7000
     (Some (Blobmsg_table [(''pattern'', Blob_string ''if*''), (''object'', Blob_int32 9000)])) w_pub)"

definition w_publish2 :: attr_table where
  "w_publish2 = [UBUS_ATTR_OBJPATH \<mapsto> Blob_string ''wlan'', UBUS_ATTR_OBJTYPE \<mapsto> Blob_int32 8000]"

definition w_two :: daemon where
  "w_two = snd (ubusd_handle_add_object ref_env 7000 2 w_publish2 w_pub)"

lemma w_root_inv: "daemon_inv ref_env w_root"
  unfolding w_root_def
  by (rule reach_inv [OF ubusd_reach.step [OF ubusd_reach.start ubusd_step.server] ref_env_ok])

lemma w_root_eval:
  "next_addr (net w_root) = 2" "map_option cl_uid (clients (net w_root) 7000) = Some 0"
  by (simp_all add: w_root_def start_exec msg_exec client_exec Let_def)

lemma w_asking_wf: "daemon_wf held2 w_asking"
proof -
  obtain n where n: "ubus_msg_new ref_env (Built []) (blob_raw_len ref_env (Built [])) False (net w_root) = (Some 2, n)"
    by (simp add: ubus_msg_new_def calloc_def w_root_eval)
  note w = net_wf_msg_new [OF daemon_wfD(1) [OF invD(1) [OF w_root_inv]] n]
  obtain b where b: "bufs n 2 = Some b" using ubus_msg_new_Some [OF n] by simp
  have "net_wf held2 (net w_asking)"
    using net_wf_upd_buf [OF w(1) b, of "\<lambda>b. b\<lparr>ub_hdr := \<lparr>hdr_version = 0, hdr_type = 4, hdr_seq = 3, hdr_peer = 0\<rparr>\<rparr>"] n
    by (simp add: held2_def w_asking_def)
  moreover have "reg w_asking = reg w_root"
    unfolding w_asking_def by (rule reg_on_net) (use core_msg_new [OF n] n in simp)
  ultimately show ?thesis
    using daemon_wf_net [OF _ _ invD(1) [OF w_root_inv], of held2 w_asking] by simp
qed

lemma w_asking_parts: "\<exists>c. clients (net w_asking) 7000 = Some c" "owns1 (net w_asking) 2"
  using w_root_eval by (auto simp: w_asking_def ubus_msg_new_def calloc_def upd_buf_def owns1_def)

lemma w_pub_wf: "daemon_wf held2 w_pub"
proof -
  obtain c where c: "clients (net w_asking) 7000 = Some c" using w_asking_parts(1) by blast
  obtain ret d where r: "ubusd_handle_add_object ref_env 7000 2 w_publish w_asking = (ret, d)" by fastforce
  have "ret \<noteq> Queued" using r by (auto simp: ubusd_handle_add_object_def Let_def split: prod.splits option.splits)
  with add_object.contract [OF ref_env_ok w_asking_wf c w_asking_parts(2) _ r] show ?thesis
    by (simp add: held2_def handled_def step_ok_def w_pub_def r)
qed

lemma w_asking_eval:
  "obj_types w_asking = Map.empty" "path w_asking = []" "patterns w_asking = []" "rnd (net w_asking) = [Some 8000, Some 9000, Some 9100]"
  "objects w_asking 9000 = None" "obj_event_seq w_asking = 1" "monitors (net w_asking) = []" "next_addr (net w_asking) = 3"
  "\<exists>c. clients (net w_asking) 7000 = Some c \<and> cl_uid c = 0 \<and> cl_tx_queue c = [] \<and> cl_cmd_queue c = [] \<and> \<not> cl_eof c"
  "\<exists>b. bufs (net w_asking) 2 = Some b \<and> hdr_seq (ub_hdr b) = 3 \<and> hdr_peer (ub_hdr b) = 0 \<and> ub_fd b = - 1 \<and> ub_refcount b = 1"
  by (simp_all add: w_asking_def w_root_def start_exec msg_exec client_exec Let_def)

lemma w_asking_new: "objects w_asking 9100 = None"
  by (simp add: w_asking_def w_root_def start_exec msg_exec client_exec Let_def)

lemma w_asking_seen: "objects w_asking oid = Some ob \<Longrightarrow> obj_event_seen ob = 0"
  by (auto simp: w_asking_def w_root_def start_exec msg_exec client_exec Let_def split: if_splits)

text \<open>The object is created.\<close>

lemma w_created:
  obtains d c where "ubusd_create_object ref_env 7000 w_publish w_asking = (Some 9000, d)"
    "path d = [(''network'', 9000)]" "patterns d = []" "obj_event_seq d = 2"
    "obj_types d 8000 = Some \<lparr>ty_refcount = 1, ty_methods = [(''status'', Blobmsg_table [])]\<rparr>"
    "objects d = (objects w_asking)(9000 \<mapsto> (new_object (Some 8000))\<lparr>obj_path := Some ''network'', obj_client := Some 7000\<rparr>)"
    "clients (net d) 7000 = Some c" "cl_uid c = 0" "cl_tx_queue c = []" "cl_cmd_queue c = []" "\<not> cl_eof c"
    "bufs (net d) = bufs (net w_asking)" "monitors (net d) = []" "next_addr (net d) = 3" "rnd (net d) = [Some 9100]"
proof -
  obtain c where c: "clients (net w_asking) 7000 = Some c" "cl_uid c = 0" "cl_tx_queue c = []" "cl_cmd_queue c = []" "\<not> cl_eof c"
    using w_asking_eval by blast
  have k: "blobmsg_check_attr ref_env x" for x by (simp add: ref_env_def)
  define c' where "c' = c\<lparr>cl_objects := 9000 # cl_objects c\<rparr>"
  define d where "d = w_asking\<lparr>obj_types := [8000 \<mapsto> \<lparr>ty_refcount = 1, ty_methods = [(''status'', Blobmsg_table [])]\<rparr>],
    net := (net w_asking)\<lparr>rnd := [Some 9100], n_calloc := Suc (Suc (Suc (Suc (n_calloc (net w_asking))))),
      clients := (clients (net w_asking))(7000 \<mapsto> c')\<rparr>,
    path := [(''network'', 9000)], obj_event_seq := 2, objects := (objects w_asking)(9000 \<mapsto>
      (new_object (Some 8000))\<lparr>obj_path := Some ''network'', obj_client := Some 7000\<rparr>)\<rparr>"
  have "ubusd_create_object ref_env 7000 w_publish w_asking = (Some 9000, d)"
    using c k by (simp add: ubusd_create_object_def w_publish_def obj_type_of_attrs_def ubus_create_obj_type_def
      ubus_alloc_id_def w_asking_eval calloc_def sys_ids table_fields_def ubus_create_obj_method_def upd_type_def
      ubusd_create_object_internal_def ubus_unref_object_type_def obj_publish_def ubusd_acl_check_def client_of_def
      upd_obj_def avl_link_def ubusd_send_obj_event_def ubusd_send_event_def upd_client_def new_object_def Let_def
      on_net_def d_def c'_def)
  then show ?thesis
    by (rule that [of d c']) (use c in \<open>simp_all add: d_def c'_def w_asking_eval\<close>)
qed

lemma w_pub_parts:
  obtains c b where "daemon_wf held2 w_pub" "path w_pub = [(''network'', 9000)]" "patterns w_pub = []" "obj_event_seq w_pub = 2"
    "obj_types w_pub 8000 = Some \<lparr>ty_refcount = 1, ty_methods = [(''status'', Blobmsg_table [])]\<rparr>"
    "objects w_pub = (objects w_asking)(9000 \<mapsto> (new_object (Some 8000))\<lparr>obj_path := Some ''network'', obj_client := Some 7000\<rparr>)"
    "clients (net w_pub) 7000 = Some c" "cl_uid c = 0" "cl_tx_queue c = []" "cl_cmd_queue c = []" "\<not> cl_eof c"
    "bufs (net w_pub) 2 = Some b" "hdr_seq (ub_hdr b) = 3" "hdr_peer (ub_hdr b) = 0" "ub_fd b = - 1" "ub_refcount b = 1"
    "monitors (net w_pub) = []" "rnd (net w_pub) = [Some 9100]"
proof -
  obtain d c where d: "ubusd_create_object ref_env 7000 w_publish w_asking = (Some 9000, d)"
    "path d = [(''network'', 9000)]" "patterns d = []" "obj_event_seq d = 2"
    "obj_types d 8000 = Some \<lparr>ty_refcount = 1, ty_methods = [(''status'', Blobmsg_table [])]\<rparr>"
    "objects d = (objects w_asking)(9000 \<mapsto> (new_object (Some 8000))\<lparr>obj_path := Some ''network'', obj_client := Some 7000\<rparr>)"
    "clients (net d) 7000 = Some c" "cl_uid c = 0" "cl_tx_queue c = []" "cl_cmd_queue c = []" "\<not> cl_eof c"
    "bufs (net d) = bufs (net w_asking)" "monitors (net d) = []" "next_addr (net d) = 3" "rnd (net d) = [Some 9100]"
    by (rule w_created)
  obtain b where b: "bufs (net w_asking) 2 = Some b" "hdr_seq (ub_hdr b) = 3" "hdr_peer (ub_hdr b) = 0" "ub_fd b = - 1"
      "ub_refcount b = 1"
    using w_asking_eval by blast
  show ?thesis
    by (rule that [OF w_pub_wf]) (use d b in \<open>simp_all add: w_pub_def ubusd_handle_add_object_def w_publish_def
      ubus_proto_send_msg_from_blob_def ubus_reply_from_blob_def msg_exec USES_EXTERNAL_BUFFER_def Let_def\<close>)
qed

lemma w_two_wf: "daemon_wf held2 w_two"
proof -
  obtain c b where c: "clients (net w_pub) 7000 = Some c" "bufs (net w_pub) 2 = Some b" "ub_refcount b = 1"
    by (rule w_pub_parts)
  then have o: "owns1 (net w_pub) 2" by (simp add: owns1_def)
  obtain ret d where r: "ubusd_handle_add_object ref_env 7000 2 w_publish2 w_pub = (ret, d)" by fastforce
  have "ret \<noteq> Queued" using r by (auto simp: ubusd_handle_add_object_def Let_def split: prod.splits option.splits)
  with add_object.contract [OF ref_env_ok w_pub_wf c(1) o _ r] show ?thesis
    by (simp add: held2_def handled_def step_ok_def w_two_def r)
qed

lemma w_two_parts:
  obtains c b where "daemon_wf held2 w_two" "path w_two = [(''network'', 9000), (''wlan'', 9100)]"
    "obj_types w_two 8000 = Some \<lparr>ty_refcount = 2, ty_methods = [(''status'', Blobmsg_table [])]\<rparr>"
    "obj_field None obj_type w_two 9000 = Some 8000" "obj_field None obj_path w_two 9000 = Some ''network''"
    "obj_field None obj_type w_two 9100 = Some 8000" "obj_field None obj_path w_two 9100 = Some ''wlan''"
    "clients (net w_two) 7000 = Some c" "cl_uid c = 0" "cl_tx_queue c = []" "cl_cmd_queue c = []" "\<not> cl_eof c"
    "bufs (net w_two) 2 = Some b" "hdr_seq (ub_hdr b) = 3" "hdr_peer (ub_hdr b) = 0" "ub_fd b = - 1"
    "monitors (net w_two) = []"
proof -
  obtain c b where d: "path w_pub = [(''network'', 9000)]" "patterns w_pub = []" "obj_event_seq w_pub = 2"
    "obj_types w_pub 8000 = Some \<lparr>ty_refcount = 1, ty_methods = [(''status'', Blobmsg_table [])]\<rparr>"
    "objects w_pub = (objects w_asking)(9000 \<mapsto> (new_object (Some 8000))\<lparr>obj_path := Some ''network'', obj_client := Some 7000\<rparr>)"
    "clients (net w_pub) 7000 = Some c" "cl_uid c = 0" "cl_tx_queue c = []" "cl_cmd_queue c = []" "\<not> cl_eof c"
    "bufs (net w_pub) 2 = Some b" "hdr_seq (ub_hdr b) = 3" "hdr_peer (ub_hdr b) = 0" "ub_fd b = - 1" "ub_refcount b = 1"
    "monitors (net w_pub) = []" "rnd (net w_pub) = [Some 9100]"
    by (rule w_pub_parts)
  define c' where "c' = c\<lparr>cl_objects := 9100 # cl_objects c\<rparr>"
  define d2 where "d2 = w_pub\<lparr>obj_types := (obj_types w_pub)(8000 \<mapsto> \<lparr>ty_refcount = 2, ty_methods = [(''status'', Blobmsg_table [])]\<rparr>),
    net := (net w_pub)\<lparr>rnd := [], n_calloc := Suc (Suc (n_calloc (net w_pub))),
      clients := (clients (net w_pub))(7000 \<mapsto> c')\<rparr>,
    path := [(''network'', 9000), (''wlan'', 9100)], obj_event_seq := 3, objects := (objects w_pub)(9100 \<mapsto>
      (new_object (Some 8000))\<lparr>obj_path := Some ''wlan'', obj_client := Some 7000\<rparr>)\<rparr>"
  have e: "ubusd_create_object ref_env 7000 w_publish2 w_pub = (Some 9100, d2)"
    using d w_asking_new by (simp add: ubusd_create_object_def w_publish2_def obj_type_of_attrs_def ubus_get_obj_type_def
      ubus_find_id_def ubus_alloc_id_def calloc_def sys_ids upd_type_def
      ubusd_create_object_internal_def ubus_unref_object_type_def obj_publish_def ubusd_acl_check_def client_of_def
      upd_obj_def avl_link_def ubusd_send_obj_event_def ubusd_send_event_def upd_client_def new_object_def Let_def
      on_net_def d2_def c'_def)
  have "next_addr (net w_pub) \<noteq> 2" using net_wf_next_addr(1) [OF daemon_wfD(1) [OF w_pub_wf], of 2] d by auto
  then show ?thesis
    by (intro that [of c' b, OF w_two_wf]) (use d e in \<open>simp_all add: w_two_def ubusd_handle_add_object_def w_publish2_def
      ubus_proto_send_msg_from_blob_def ubus_reply_from_blob_def msg_exec USES_EXTERNAL_BUFFER_def Let_def d2_def c'_def obj_field_def new_object_def\<close>)
qed

lemma w_listen_parts:
  obtains ev where "daemon_wf held2 w_listen" "patterns w_listen = [(''if'', ev)]" "ev_obj ev = 9000" "ev_partial ev"
    "owner w_listen 9000 = Some 7000" "obj_event_seq w_listen = 2"
    "\<forall>oid ob. objects w_listen oid = Some ob \<longrightarrow> obj_event_seen ob = 0"
proof -
  obtain c where d: "daemon_wf held2 w_pub" "patterns w_pub = []" "obj_event_seq w_pub = 2"
    "objects w_pub = (objects w_asking)(9000 \<mapsto> (new_object (Some 8000))\<lparr>obj_path := Some ''network'', obj_client := Some 7000\<rparr>)"
    "clients (net w_pub) 7000 = Some c" "cl_uid c = 0"
    by (rule w_pub_parts)
  let ?msg = "Some (Blobmsg_table [(''pattern'', Blob_string ''if*''), (''object'', Blob_int32 9000)])"
  define a where "a = next_node w_pub"
  have eq: "ubusd_alloc_event_pattern ref_env 7000 ?msg w_pub = (UBUS_STATUS_OK, w_listen)" "patterns w_listen =
      [(''if'', \<lparr>ev_addr = a, ev_obj = 9000, ev_partial = True\<rparr>)]" "obj_event_seq w_listen = 2"
    "objects w_listen = (objects w_pub)(9000 \<mapsto>
       (new_object (Some 8000))\<lparr>obj_path := Some ''network'', obj_client := Some 7000, obj_events := [a]\<rparr>)"
    using d by (simp_all add: w_listen_def ubusd_alloc_event_pattern_def evr_policy_def ubusd_find_object_def ubus_find_id_def
        sys_ids ubusd_acl_check_def client_of_def calloc_node_def calloc_def upd_obj_def new_object_def avl_link_def Let_def a_def)
  have "daemon_wf held2 w_listen"
    using step_event_recv [OF d(1), of ref_env 7000 2 "''register''" ?msg UBUS_STATUS_OK w_listen] eq(1) ref_env_ok
    by (simp add: ubusd_event_recv_def step_ok_def lib_ok_def)
  moreover have "objects w_listen oid = Some ob \<Longrightarrow> obj_event_seen ob = 0" for oid ob
    using w_asking_seen by (auto simp: eq(4) d(4) new_object_def split: if_splits)
  ultimately show ?thesis
    using eq by (intro that) (auto simp: owner_def obj_field_def)
qed

text \<open>The client of \<open>w_obj\<close> belongs to another user, and no rule grants it anything.\<close>

lemma w_obj_unprivileged:
  "map_option cl_uid (clients (net w_obj) 7000) = Some 1000" "ubusd_acls w_obj = []" "obj_event_seq w_obj = 1"
  "\<forall>oid ob. objects w_obj oid = Some ob \<longrightarrow> obj_event_seen ob = 0"
  by (auto simp: w_obj_def w_request_def w_daemon_def w_peer_def start_exec msg_exec client_exec Let_def
      ubusd_handle_add_object_def ubusd_create_object_def obj_type_of_attrs_def obj_field_def objtype_attr_def
      ubus_proto_send_msg_from_blob_def ubus_reply_from_blob_def split: if_splits)

end
