(* ===== verification/Props_Lookup.thy ===== *)
theory Props_Lookup
  imports Ubusd_Exec_Root Ubusd_Sent "HOL-Library.Sublist"
begin

text \<open>
  Lookups: which objects a lookup reports to the client that asks, with which message, and how a
  listing of all objects that was interrupted continues.
\<close>

section \<open>The tree of paths\<close>

text \<open>In a sorted tree the entries with a given prefix are one stretch, which starts at the first key
  that is not below the prefix.\<close>

lemma prefix_between:
  fixes p :: string
  assumes "p \<le> k" and "k \<le> k'" and "take (length p) k' = p"
  shows "take (length p) k = p"
  using assms
proof (induction p arbitrary: k k')
  case (Cons x p)
  obtain y l y' l' where k: "k = y # l" "k' = y' # l'"
    using Cons.prems by (cases k; cases k') auto
  with Cons.prems have "y = x" "p \<le> l" "l \<le> l'" "take (length p) l' = p" by auto
  with Cons.IH k show ?case by auto
qed simp

lemma path_from_filter: "sorted (map fst t) \<Longrightarrow> path_from key t = filter (\<lambda>(k, _). key \<le> k) t"
proof (induction t)
  case (Cons x t)
  obtain k v where x: "x = (k, v)" by fastforce
  show ?case
  proof (cases "key \<le> k")
    case True
    have "\<forall>y\<in>set t. case y of (k, _) \<Rightarrow> key \<le> k" using Cons.prems True x by fastforce
    with True show ?thesis by (simp add: path_from_def x filter_True)
  next
    case False
    with Cons x show ?thesis by (simp add: path_from_def)
  qed
qed (simp add: path_from_def)

lemma takeWhile_stretch:
  assumes "sorted (map fst t)" and "\<forall>(k, v)\<in>set t. p \<le> k"
  shows "takeWhile (\<lambda>(k, _). take (length p) k = p) t = filter (\<lambda>(k, _). take (length (p :: string)) k = p) t"
  using assms
proof (induction t)
  case (Cons x t)
  obtain k v where x: "x = (k, v)" by fastforce
  have "filter (\<lambda>(k, _). take (length p) k = p) t = []" if "take (length p) k \<noteq> p"
    using that Cons.prems prefix_between [of p k] by (fastforce simp: x filter_empty_conv)
  with Cons x show ?case by auto
qed simp

lemma prefix_le: "take (length (p :: string)) k = p \<Longrightarrow> p \<le> k"
  by (metis append_take_drop_id prefix_less_eq)

lemma prefix_stretch:
  assumes "sorted (map fst t)"
  shows "takeWhile (\<lambda>(k, _). take (length p) k = p) (path_from p t) = filter (\<lambda>(k, _). take (length p) k = p) t"
proof -
  have "takeWhile (\<lambda>(k, _). take (length p) k = p) (path_from p t) =
      filter (\<lambda>(k, _). take (length p) k = p) (path_from p t)"
    by (rule takeWhile_stretch) (use assms in \<open>auto simp: path_from_filter sorted_filter_fst\<close>)
  also have "\<dots> = filter (\<lambda>(k, _). take (length p) k = p) t"
    using assms by (auto simp: path_from_filter intro: filter_cong dest: prefix_le)
  finally show ?thesis .
qed

lemma lookup_prefix_eq:
  "lookup_prefix E cl ub p found t d =
     (let ms = takeWhile (\<lambda>(k, _). take (length p) k = p) t
      in (found \<or> ms \<noteq> [], fold (ubusd_send_obj E cl ub) (map snd ms) d))"
  by (induction E cl ub p found t d rule: lookup_prefix.induct) (auto simp: Let_def)

lemma filter_key: "distinct (map fst t) \<Longrightarrow>
    filter (\<lambda>(k, _). k = key) t = (case map_of t key of None \<Rightarrow> [] | Some v \<Rightarrow> [(key, v)])"
proof (induction t)
  case (Cons x t)
  obtain k v where x: "x = (k, v)" by fastforce
  have "filter (\<lambda>(k, _). k = key) t = []" if "k = key" using Cons.prems that by (force simp: x filter_empty_conv)
  with Cons x show ?case by simp
qed simp

section \<open>What is reported\<close>

text \<open>The methods of an object, and those of them that a client may call.\<close>

definition obj_methods :: "daemon \<Rightarrow> u32 \<Rightarrow> (string \<times> blob_attr) list option" where
  "obj_methods d oid =
     (case obj_field None obj_type d oid of None \<Rightarrow> None | Some tid \<Rightarrow> map_option ty_methods (obj_types d tid))"

definition callable :: "daemon \<Rightarrow> ubus_client \<Rightarrow> u32 \<Rightarrow> (string \<times> blob_attr) list" where
  "callable d c oid =
     filter (\<lambda>(m, _). ubusd_acl_check d (Some c) (obj_field None obj_path d oid) (Some m) UBUS_ACL_ACCESS = 0)
       (case obj_methods d oid of None \<Rightarrow> [] | Some ms \<Rightarrow> ms)"

text \<open>An object is shown to a client when it has a type, and the client may call one of its methods or
  it has none. It is shown with its path, id, type and the methods the client may call.\<close>

definition shown :: "daemon \<Rightarrow> ubus_client \<Rightarrow> u32 \<Rightarrow> bool" where
  "shown d c oid \<longleftrightarrow> obj_methods d oid \<noteq> None \<and> (obj_methods d oid = Some [] \<or> callable d c oid \<noteq> [])"

definition obj_entry :: "daemon \<Rightarrow> u32 \<Rightarrow> ubus_client \<Rightarrow> ubus_msg_buf \<Rightarrow> u32 \<Rightarrow> u32 \<times> ubus_msghdr \<times> blob \<times> int" where
  "obj_entry d cl c b oid =
     (cl, msg_hdr UBUS_MSG_DATA (hdr_seq (ub_hdr b)) (hdr_peer (ub_hdr b)),
      Built [(ubus_attr_code UBUS_ATTR_OBJPATH, Blob_string (the (obj_field None obj_path d oid))),
             (ubus_attr_code UBUS_ATTR_OBJID, Blob_int32 oid),
             (ubus_attr_code UBUS_ATTR_OBJTYPE, Blob_int32 (the (obj_field None obj_type d oid))),
             (ubus_attr_code UBUS_ATTR_SIGNATURE, Blobmsg_table (callable d c oid))], ub_fd b)"

definition entries :: "daemon \<Rightarrow> u32 \<Rightarrow> ubus_client \<Rightarrow> ubus_msg_buf \<Rightarrow> (string \<times> u32) list \<Rightarrow>
    (u32 \<times> ubus_msghdr \<times> blob \<times> int) list" where
  "entries d cl c b t = map (obj_entry d cl c b) (filter (shown d c) (map snd t))"

lemma entries_simps [simp]:
  "entries d cl c b [] = []" "entries d cl c b (t @ u) = entries d cl c b t @ entries d cl c b u"
  "entries d cl c b ((k, oid) # t) = (if shown d c oid then [obj_entry d cl c b oid] else []) @ entries d cl c b t"
  by (simp_all add: entries_def)

lemma entries_cong:
  assumes r: "reg d' = reg d" and c: "cl_core c' = cl_core c"
  shows "entries d' cl c' b = entries d cl c b"
proof -
  have f: "obj_field None obj_type d' = obj_field None obj_type d" "obj_field None obj_path d' = obj_field None obj_path d"
    "obj_types d' = obj_types d" "ubusd_acls d' = ubusd_acls d"
    using arg_cong [OF r, of r_typeof] arg_cong [OF r, of r_pathof] arg_cong [OF r, of r_types] arg_cong [OF r, of r_acls]
    by simp_all
  have m: "obj_methods d' = obj_methods d" by (rule ext) (simp add: obj_methods_def f split: option.split)
  have "ubusd_acl_check d' (Some c') nm meth ty = ubusd_acl_check d (Some c) nm meth ty" for nm meth ty
    using acl_scan_cong [OF conjunct1 [OF cl_base_core [THEN iffD2, OF c]]] cl_core_fields(2) [OF c] f by (simp add: ubusd_acl_check_def split: option.split)
  then have "callable d' c' = callable d c" by (intro ext) (simp add: callable_def m f)
  with m show ?thesis by (intro ext) (simp add: entries_def shown_def [abs_def] obj_entry_def [abs_def] f)
qed

lemma sent_send_obj:
  assumes wf: "daemon_wf H d" and cl: "clients (net d) cl = Some c" and b: "bufs (net d) ub = Some b"
    and p: "(key, oid) \<in> set (path d)" and alloc: "\<forall>i. calloc_ok E i"
  shows "sent (net (ubusd_send_obj E cl ub oid d)) = sent (net d) @ entries d cl c b [(key, oid)]"
proof -
  note w = daemon_wfD [OF wf]
  have "r_pathof (reg d) oid = Some key"
    using reg_wfD(4) [OF w(2)] p by (auto simp: path_ok_def)
  then obtain ob where ob: "objects d oid = Some ob" "obj_path ob = Some key"
    by (auto simp: obj_field_def split: option.splits)
  show ?thesis
  proof (cases "obj_type ob")
    case None
    with ob show ?thesis by (simp add: ubusd_send_obj_def shown_def obj_methods_def obj_field_def)
  next
    case (Some tid)
    then obtain t where t: "obj_types d tid = Some t"
      using typeof_exists [OF w(2), of oid tid] ob by (auto simp: obj_field_def)
    have ca: "callable d c oid = filter (\<lambda>(m, _). ubusd_acl_check d (client_of d (Some cl)) (Some key) (Some m) UBUS_ACL_ACCESS = 0)
        (ty_methods t)" "obj_methods d oid = Some (ty_methods t)"
      using ob Some t cl by (simp_all add: callable_def obj_methods_def obj_field_def client_of_def)
    with ob Some t alloc show ?thesis
      by (simp add: ubusd_send_obj_def shown_def obj_entry_def obj_field_def sent_from_blob [OF w(1) cl b] Let_def)
  qed
qed

text \<open>Reporting an object leaves the registry, and so what is reported next, as it is.\<close>

lemma send_obj_step:
  assumes wf: "daemon_wf H d" and cl: "clients (net d) cl = Some c" and b: "bufs (net d) ub = Some b"
    and t: "set ((key, oid) # t) \<subseteq> set (path d)" and alloc: "\<forall>i. calloc_ok E i"
  obtains c' where "daemon_wf H (ubusd_send_obj E cl ub oid d)" and "reg (ubusd_send_obj E cl ub oid d) = reg d"
    and "clients (net (ubusd_send_obj E cl ub oid d)) cl = Some c'" and "cl_core c' = cl_core c"
    and "bufs (net (ubusd_send_obj E cl ub oid d)) ub = Some b"
    and "set t \<subseteq> set (path (ubusd_send_obj E cl ub oid d))"
    and "sent (net (ubusd_send_obj E cl ub oid d)) = sent (net d) @ entries d cl c b [(key, oid)]"
    and "entries (ubusd_send_obj E cl ub oid d) cl c' b = entries d cl c b"
proof -
  let ?d = "ubusd_send_obj E cl ub oid d"
  have p: "(key, oid) \<in> set (path d)" using t by simp
  note s = step_send_obj [OF wf cl b p, where E = E]
  have r: "reg ?d = reg d" by simp
  obtain c' where c': "clients (net ?d) cl = Some c'" "cl_core c' = cl_core c" by (rule reg_client [OF r cl])
  show thesis
    by (rule that [OF step_okD(1) [OF s(1)] r c' _ _ sent_send_obj [OF wf cl b p alloc] entries_cong [OF r c'(2)]])
      (use live_keeps [OF daemon_wfD(1) [OF wf] step_okD(3) [OF s(1)] b] s(2) t in simp_all)
qed

lemma send_objs:
  assumes "daemon_wf H d" and "clients (net d) cl = Some c" and "bufs (net d) ub = Some b"
    and "set t \<subseteq> set (path d)" and alloc: "\<forall>i. calloc_ok E i"
  shows "sent (net (fold (ubusd_send_obj E cl ub) (map snd t) d)) = sent (net d) @ entries d cl c b t \<and>
    reg (fold (ubusd_send_obj E cl ub) (map snd t) d) = reg d"
  using assms(1-4)
proof (induction t arbitrary: d c)
  case (Cons ko t)
  obtain key oid where ko: "ko = (key, oid)" by fastforce
  obtain c' where s: "daemon_wf H (ubusd_send_obj E cl ub oid d)" "reg (ubusd_send_obj E cl ub oid d) = reg d"
    "clients (net (ubusd_send_obj E cl ub oid d)) cl = Some c'" "bufs (net (ubusd_send_obj E cl ub oid d)) ub = Some b"
    "set t \<subseteq> set (path (ubusd_send_obj E cl ub oid d))"
    "sent (net (ubusd_send_obj E cl ub oid d)) = sent (net d) @ entries d cl c b [(key, oid)]"
    "entries (ubusd_send_obj E cl ub oid d) cl c' b = entries d cl c b"
    by (rule send_obj_step [OF Cons.prems(1-3) Cons.prems(4) [unfolded ko] alloc])
  from Cons.IH [OF s(1,3,4,5)] s(2,6,7) ko show ?case by simp
qed simp

text \<open>The two objects of \<open>w_two\<close> are shown to its client.\<close>

definition w_entry :: "u32 \<Rightarrow> string \<Rightarrow> u32 \<times> ubus_msghdr \<times> blob \<times> int" where
  "w_entry oid p = (7000, msg_hdr UBUS_MSG_DATA 3 0,
     Built [(ubus_attr_code UBUS_ATTR_OBJPATH, Blob_string p), (ubus_attr_code UBUS_ATTR_OBJID, Blob_int32 oid),
            (ubus_attr_code UBUS_ATTR_OBJTYPE, Blob_int32 8000),
            (ubus_attr_code UBUS_ATTR_SIGNATURE, Blobmsg_table [(''status'', Blobmsg_table [])])], - 1)"

lemma w_two_shown:
  obtains c b where "daemon_wf held2 w_two" "path w_two = [(''network'', 9000), (''wlan'', 9100)]"
    "clients (net w_two) 7000 = Some c" "bufs (net w_two) 2 = Some b"
    "cl_tx_queue c = []" "cl_cmd_queue c = []" "\<not> cl_eof c" "monitors (net w_two) = []"
    "entries w_two 7000 c b [(''network'', 9000)] = [w_entry 9000 ''network'']"
    "entries w_two 7000 c b [(''wlan'', 9100)] = [w_entry 9100 ''wlan'']"
proof -
  obtain c b where "daemon_wf held2 w_two" "path w_two = [(''network'', 9000), (''wlan'', 9100)]"
    "obj_types w_two 8000 = Some \<lparr>ty_refcount = 2, ty_methods = [(''status'', Blobmsg_table [])]\<rparr>"
    "obj_field None obj_type w_two 9000 = Some 8000" "obj_field None obj_path w_two 9000 = Some ''network''"
    "obj_field None obj_type w_two 9100 = Some 8000" "obj_field None obj_path w_two 9100 = Some ''wlan''"
    "clients (net w_two) 7000 = Some c" "cl_uid c = 0" "cl_tx_queue c = []" "cl_cmd_queue c = []" "\<not> cl_eof c"
    "bufs (net w_two) 2 = Some b" "hdr_seq (ub_hdr b) = 3" "hdr_peer (ub_hdr b) = 0" "ub_fd b = - 1"
    "monitors (net w_two) = []"
    by (rule w_two_parts)
  then show ?thesis
    by (intro that [of c b]) (simp_all add: shown_def obj_entry_def w_entry_def obj_methods_def callable_def ubusd_acl_check_def)
qed

text \<open>C30. A lookup with a path names the object registered under this path, or all whose path has the
  given prefix when it ends with a star. The client is sent one message for each of these that is shown
  to it, in the order of the path tree, with the path, id and type of the object and the methods the
  client may call. An object without a type, or all of whose methods are denied to the client, is found
  but not shown: the status only depends on whether the path names an object. It is an error for an
  empty path. Memory is assumed not to run out.\<close>

theorem lookup_reports:
  assumes wf: "daemon_wf H d" and cl: "clients (net d) cl = Some c" and b: "bufs (net d) ub = Some b"
    and attr: "attr UBUS_ATTR_OBJPATH = Some pa" and alloc: "\<forall>i. calloc_ok E i"
    and r: "do_lookup E cl ub attr cmd d = (ret, d')"
  shows "let objpath = blob_str E pa;
             ms = filter (\<lambda>(k, _). if last objpath = CHR ''*'' then prefix (butlast objpath) k else k = objpath) (path d)
         in if objpath = [] then ret = Status UBUS_STATUS_INVALID_ARGUMENT \<and> d' = d
            else ret = Status (if ms = [] then UBUS_STATUS_NOT_FOUND else UBUS_STATUS_OK) \<and> reg d' = reg d \<and>
                 sent (net d') = sent (net d) @ entries d cl c b ms"
proof -
  let ?p = "blob_str E pa"
  let ?ms = "filter (\<lambda>(k, _). if last ?p = CHR ''*'' then prefix (butlast ?p) k else k = ?p) (path d)"
  have p: "sorted (map fst (path d))" "distinct (map fst (path d))"
    using reg_wfD(4) [OF daemon_wfD(2) [OF wf]] by (simp_all add: path_ok_def)
  have q: "prefix q k \<longleftrightarrow> take (length q) k = q" for q k :: string by (metis append_eq_conv_conj prefix_def)
  have "do_lookup E cl ub attr cmd d =
    (if ?p = [] then (Status UBUS_STATUS_INVALID_ARGUMENT, d)
     else (Status (if ?ms = [] then UBUS_STATUS_NOT_FOUND else UBUS_STATUS_OK), fold (ubusd_send_obj E cl ub) (map snd ?ms) d))"
    using attr prefix_stretch [OF p(1), of "butlast ?p"]
    by (simp add: do_lookup_def lookup_prefix_eq Let_def q filter_key [OF p(2)] split: option.split)
  moreover have "set ?ms \<subseteq> set (path d)" by auto
  ultimately show ?thesis using r send_objs [OF wf cl b _ alloc, of ?ms] by (auto simp: Let_def)
qed

theorem lookup_reports_witness:
  "(let r = do_lookup ref_env 7000 2 [UBUS_ATTR_OBJPATH \<mapsto> Blob_string ''wl*''] None w_two in
      fst r = Status UBUS_STATUS_OK \<and> sent (net (snd r)) = sent (net w_two) @ [w_entry 9100 ''wlan'']) \<and>
   (let r = do_lookup ref_env 7000 2 [UBUS_ATTR_OBJPATH \<mapsto> Blob_string ''wl''] None w_two in
      fst r = Status UBUS_STATUS_NOT_FOUND \<and> sent (net (snd r)) = sent (net w_two))"
proof -
  obtain c b where w: "daemon_wf held2 w_two" "path w_two = [(''network'', 9000), (''wlan'', 9100)]"
    "clients (net w_two) 7000 = Some c" "bufs (net w_two) 2 = Some b"
    "entries w_two 7000 c b [(''wlan'', 9100)] = [w_entry 9100 ''wlan'']"
    by (rule w_two_shown)
  have a: "\<forall>i. calloc_ok ref_env i" by simp
  note l = lookup_reports [OF w(1,3,4) _ a prod.collapse [symmetric]]
  show ?thesis
    using l [of "[UBUS_ATTR_OBJPATH \<mapsto> Blob_string ''wl*'']" "Blob_string ''wl*''" None]
      l [of "[UBUS_ATTR_OBJPATH \<mapsto> Blob_string ''wl'']" "Blob_string ''wl''" None] w(2,5)
    by (simp add: Let_def)
qed

section \<open>Interrupted listings\<close>

lemma rest_from_key:
  assumes "sorted (map fst p)" and "distinct (map fst p)" and "p = xs @ (key, oid) # ys"
  shows "filter (\<lambda>(k, _). key \<le> k) p = (key, oid) # ys"
proof -
  have "filter (\<lambda>(k, _). key \<le> k) xs = []"
    using assms by (force simp: sorted_append filter_empty_conv)
  moreover have "filter (\<lambda>(k, _). key \<le> k) ys = ys"
    using assms by (force simp: sorted_append filter_id_conv)
  ultimately show ?thesis using assms(3) by simp
qed

text \<open>What the client is left with when the listing stops at a path.\<close>

definition waiting_cmds :: "addr \<Rightarrow> ubus_client_cmd option \<Rightarrow> string \<Rightarrow> ubus_client_cmd list \<Rightarrow> ubus_client_cmd list" where
  "waiting_cmds ub cmd key q =
     (case cmd of None \<Rightarrow> q @ [\<lparr>cmd_msg = ub, cmd_lookup_path = Some key\<rparr>]
      | Some m \<Rightarrow> m\<lparr>cmd_lookup_path := Some key\<rparr> # q)"

lemma lookup_stops:
  assumes "clients (net d) cl = Some c" and "cl_cmd_queue c = (case cmd of None \<Rightarrow> q | Some m \<Rightarrow> m # q)"
    and "cl_tx_queue c \<noteq> []" and "\<forall>i. calloc_ok E i" and "lookup_range E cl ub (cmd \<noteq> None) ((key, oid) # t) d = (ret, d')"
  shows "ret = Queued" and "sent (net d') = sent (net d)" and "path d' = path d"
    and "clients (net d') cl = Some (c\<lparr>cl_cmd_queue := waiting_cmds ub cmd key q\<rparr>)"
  using assms
  by (auto simp: waiting_cmds_def set_cmd_path_def ubus_client_cmd_queue_add_def calloc_def upd_client_def split: option.splits)

lemma lookup_range_cut:
  assumes "daemon_wf H d" and "clients (net d) cl = Some c" and "bufs (net d) ub = Some b"
    and "set t \<subseteq> set (path d)" and alloc: "\<forall>i. calloc_ok E i"
    and "cl_cmd_queue c = (case cmd of None \<Rightarrow> q | Some m \<Rightarrow> m # q)"
    and "lookup_range E cl ub (cmd \<noteq> None) t d = (ret, d')"
  shows "\<exists>xs ys c'. t = xs @ ys \<and> (xs = [] \<longleftrightarrow> t = [] \<or> cl_tx_queue c \<noteq> []) \<and> sent (net d') = sent (net d) @ entries d cl c b xs \<and> path d' = path d \<and>
    clients (net d') cl = Some c' \<and>
    (case ys of [] \<Rightarrow> ret = Status UBUS_STATUS_OK \<and> cl_cmd_queue c' = cl_cmd_queue c
     | (key, _) # _ \<Rightarrow> ret = Queued \<and> cl_tx_queue c' \<noteq> [] \<and> cl_cmd_queue c' = waiting_cmds ub cmd key q)"
  using assms(1-4,6-)
proof (induction t arbitrary: d c)
  case (Cons ko t)
  obtain key oid where ko: "ko = (key, oid)" by fastforce
  show ?case
  proof (cases "cl_tx_queue c = []")
    case True
    obtain c1 where s: "daemon_wf H (ubusd_send_obj E cl ub oid d)" "reg (ubusd_send_obj E cl ub oid d) = reg d"
      "clients (net (ubusd_send_obj E cl ub oid d)) cl = Some c1" "cl_core c1 = cl_core c"
      "bufs (net (ubusd_send_obj E cl ub oid d)) ub = Some b" "set t \<subseteq> set (path (ubusd_send_obj E cl ub oid d))"
      "sent (net (ubusd_send_obj E cl ub oid d)) = sent (net d) @ entries d cl c b [(key, oid)]"
      "entries (ubusd_send_obj E cl ub oid d) cl c1 b = entries d cl c b"
      by (rule send_obj_step [OF Cons.prems(1-3) Cons.prems(4) [unfolded ko] alloc])
    have q: "cl_cmd_queue c1 = cl_cmd_queue c" by (rule cl_core_fields(7) [OF s(4)])
    have p: "path (ubusd_send_obj E cl ub oid d) = path d" using arg_cong [OF s(2), of r_path] by (simp only: reg_sel)
    have "lookup_range E cl ub (cmd \<noteq> None) t (ubusd_send_obj E cl ub oid d) = (ret, d')"
      using Cons.prems(2,6) True by (simp add: ko)
    from Cons.IH [OF s(1,3,5,6) Cons.prems(5) [folded q] this] obtain xs ys c' where "t = xs @ ys"
      "sent (net d') = sent (net d) @ entries d cl c b (ko # xs)" "path d' = path d" "clients (net d') cl = Some c'"
      "case ys of [] \<Rightarrow> ret = Status UBUS_STATUS_OK \<and> cl_cmd_queue c' = cl_cmd_queue c
       | (key, _) # _ \<Rightarrow> ret = Queued \<and> cl_tx_queue c' \<noteq> [] \<and> cl_cmd_queue c' = waiting_cmds ub cmd key q"
      unfolding s(7,8) q p by (auto simp: ko)
    then show ?thesis using True by (intro exI [of _ "ko # xs"] exI [of _ ys] exI [of _ c']) simp
  next
    case False
    note l = lookup_stops [OF Cons.prems(2,5) False alloc Cons.prems(6) [unfolded ko]]
    show ?thesis using False l by (intro exI [of _ "[]"] exI [of _ "ko # t"] exI [of _ "c\<lparr>cl_cmd_queue := waiting_cmds ub cmd key q\<rparr>"])
      (simp add: ko)
  qed
qed (auto)


text \<open>In \<open>busy_env\<close> the socket takes nothing, so that a listing of the two objects stops after the first.\<close>

definition busy_env :: env where
  "busy_env = ref_env\<lparr>sendmsg_res := \<lambda>_ _. Send_again\<rparr>"

lemma busy_env_sel [simp]:
  "blob_encode busy_env = ref_encode" "calloc_ok busy_env i" "sendmsg_res busy_env i n = Send_again"
  by (simp_all add: busy_env_def)

definition waits :: "net \<Rightarrow> u32 \<Rightarrow> bool" where
  "waits n cl \<longleftrightarrow> cl_field [] cl_tx_queue n cl \<noteq> []"

lemma busy_write:
  assumes "clients n cl = Some c" "cl_tx_queue c = []" "bufs n ub = Some b" "\<not> txq_over_limit 0 (ub_len b)"
  shows "waits (ubus_msg_write busy_env cl ub n) cl"
  using assms
  by (simp add: ubus_msg_write_def ubus_msg_writev_def send_written_def ubus_msg_enqueue_def ubus_msg_ref_def ubus_msg_new_def
      calloc_def upd_client_def upd_buf_def waits_def cl_field_def HDR_SIZE_def Let_def)

lemma busy_send:
  assumes "clients n cl = Some c" "cl_tx_queue c = []" "\<not> cl_eof c" "monitors n = []" "bufs n ub = Some b"
    and "\<not> txq_over_limit 0 (ub_len b)"
  shows "waits (ubus_msg_send busy_env cl ub n) cl"
  using assms busy_write [of "log_sent cl b n" cl c ub b]
  by (simp add: ubus_msg_send_def ubusd_monitor_message_def log_sent_def Let_def)

lemma busy_from_blob:
  assumes "clients n cl = Some c" "cl_tx_queue c = []" "\<not> cl_eof c" "monitors n = []" "bufs n ub = Some b"
    and l: "\<not> txq_over_limit 0 (length (ref_encode attrs))"
  shows "waits (ubus_proto_send_msg_from_blob busy_env cl ub attrs ty n) cl"
proof -
  have s: "waits (ubus_msg_send busy_env cl m n') cl"
    if "clients n' = clients n" "monitors n' = monitors n" "map_option ub_len (bufs n' m) = Some (length (ref_encode attrs))" for m n'
    using busy_send [of n' cl c m] assms that by auto
  have f: "waits (ubus_msg_free m n') cl = waits n' cl" for m n' by (simp add: waits_def cl_field_def)
  show ?thesis using assms(5)
    by (auto simp: ubus_proto_send_msg_from_blob_def ubus_reply_from_blob_def ubus_msg_from_blob_def ubus_msg_new_def calloc_def
        upd_buf_def f blob_raw_len_def blob_image_def ubus_msg_init_def Let_def intro!: s)
qed

lemma send_network:
  assumes "clients (net w_two) 7000 = Some c"
  obtains attrs where "\<forall>E. ubusd_send_obj E 7000 2 9000 w_two = on_net (ubus_proto_send_msg_from_blob E 7000 2 attrs UBUS_MSG_DATA) w_two"
    and "\<not> txq_over_limit 0 (length (ref_encode attrs))"
proof -
  obtain w: "obj_types w_two 8000 = Some \<lparr>ty_refcount = 2, ty_methods = [(''status'', Blobmsg_table [])]\<rparr>"
    "obj_field None obj_type w_two 9000 = Some 8000" "obj_field None obj_path w_two 9000 = Some ''network''" "cl_uid c = 0"
    by (rule w_two_parts) (use assms in simp)
  let ?attrs = "[(ubus_attr_code UBUS_ATTR_OBJPATH, Blob_string ''network''), (ubus_attr_code UBUS_ATTR_OBJID, Blob_int32 9000),
    (ubus_attr_code UBUS_ATTR_OBJTYPE, Blob_int32 8000),
    (ubus_attr_code UBUS_ATTR_SIGNATURE, Blobmsg_table [(''status'', Blobmsg_table [])])]"
  have "\<not> txq_over_limit 0 (length (ref_encode ?attrs))"
    by (simp add: txq_over_limit_def ref_encode_def UBUS_MAX_MSGLEN_def HDR_SIZE_def Let_def)
  moreover obtain ob where "objects w_two 9000 = Some ob" "obj_type ob = Some 8000" "obj_path ob = Some ''network''"
    using w(2,3) by (auto simp: obj_field_def split: option.splits)
  ultimately show thesis
    using w(1,4) assms by (intro that [of ?attrs]) (simp_all add: ubusd_send_obj_def ubusd_acl_check_def client_of_def Let_def)
qed


end
