(* ===== verification/Props_Objects.thy ===== *)
theory Props_Objects
  imports Props_Libubus
begin

text \<open>
  Calls to the objects of a client: how a call is answered, and a call that is answered to nobody.
\<close>

section \<open>Answering a call\<close>

definition status_attrs :: "int \<Rightarrow> u32 \<Rightarrow> (nat \<times> blob_attr) list" where
  "status_attrs ret oid =
     [(ubus_attr_code UBUS_ATTR_STATUS, Blob_int32 (word_of_int ret)),
      (ubus_attr_code UBUS_ATTR_OBJID, Blob_int32 oid)]"

text \<open>The socket takes a status message.\<close>

definition takes_status :: "env \<Rightarrow> int \<Rightarrow> u32 \<Rightarrow> lib \<Rightarrow> bool" where
  "takes_status E ret oid s \<longleftrightarrow>
     Snd_fail \<notin> set (sk_out s) \<and> HDR_SIZE + length (blob_image E (Built (status_attrs ret oid))) \<le> snd_room (sk_out s) \<and>
     blob_pad_len E (Built (status_attrs ret oid)) \<le> UBUS_MAX_MSGLEN"

lemma deferred_sent:
  assumes "takes_status E ret (rd_object r) s"
  shows "\<exists>n fds rs. ubus_complete_deferred_request E r ret s = Some (n, lib_close_fd (rd_fd r)
    (s\<lparr>out := out s @ msg_frame E (ucast (rd_seq r)) (Some (Built (status_attrs ret (rd_object r)))) UBUS_MSG_STATUS (rd_peer r),
       out_fds := fds, sk_out := rs\<rparr>))"
proof -
  have "length (msg_frame E (ucast (rd_seq r)) (Some (Built (status_attrs ret (rd_object r)))) UBUS_MSG_STATUS (rd_peer r))
      \<le> snd_room (sk_out s)"
    using assms by (simp add: takes_status_def msg_frame_def)
  from send_accepts [OF _ this, of "rd_fd r"] assms show ?thesis
    by (auto simp: takes_status_def ubus_complete_deferred_request_def status_attrs_def)
qed

lemma invoke_send_out:
  assumes "rdata s rd = Some r" and "takes_status E ret (rd_object r) s"
  shows "\<exists>s'. invoke_send E rd ret s = Some s' \<and>
    out s' = out s @ msg_frame E (ucast (rd_seq r)) (Some (Built (status_attrs ret (rd_object r)))) UBUS_MSG_STATUS (rd_peer r) \<and>
    shut_fds s' = shut_fds s @ (if 0 \<le> rd_req_fd r then [rd_req_fd r] else []) @ (if 0 \<le> rd_fd r then [rd_fd r] else []) \<and>
    rdata s' = (rdata s)(rd := None) \<and> calls s' = calls s"
proof -
  let ?t = "lib_close_fd (rd_req_fd r) s"
  have "takes_status E ret (rd_object r) ?t"
    using assms(2) by (simp add: takes_status_def)
  from deferred_sent [OF this] obtain n fds rs where
    "ubus_complete_deferred_request E r ret ?t = Some (n, lib_close_fd (rd_fd r)
       (?t\<lparr>out := out ?t @ msg_frame E (ucast (rd_seq r)) (Some (Built (status_attrs ret (rd_object r)))) UBUS_MSG_STATUS (rd_peer r),
          out_fds := fds, sk_out := rs\<rparr>))"
    by blast
  with assms(1) show ?thesis
    by (simp add: invoke_send_def free_rdata_def) (simp add: lib_close_fd_def lib_close_def)
qed

lemma upd_rdata_keep [simp]:
  "attrbuf (upd_rdata rd f s) = attrbuf s" "local_id (upd_rdata rd f s) = local_id s"
  "objs (upd_rdata rd f s) = objs s" "pre_invoke (upd_rdata rd f s) = pre_invoke s"
  "msgbuf_hdr (upd_rdata rd f s) = msgbuf_hdr s"
  by (simp_all add: upd_rdata_def lfault_def split: option.split)

lemma set_caller_keep [simp]:
  "attrbuf (set_caller E ob rd s) = attrbuf s" "pre_invoke (set_caller E ob rd s) = pre_invoke s"
  by (simp_all add: set_caller_def Let_def split: option.split)

lemma new_rdata_keep [simp]:
  "attrbuf (snd (new_rdata fd s)) = attrbuf s" "local_id (snd (new_rdata fd s)) = local_id s"
  "objs (snd (new_rdata fd s)) = objs s" "pre_invoke (snd (new_rdata fd s)) = pre_invoke s"
  "msgbuf_hdr (snd (new_rdata fd s)) = msgbuf_hdr s"
  by (simp_all add: new_rdata_def)

lemma set_caller_rdata:
  assumes "rdata s rd = Some r"
  shows "\<exists>r'. rdata (set_caller E ob rd s) rd = Some r' \<and> rd_object r' = ob_id ob \<and> rd_peer r' = rd_peer r \<and>
    rd_seq r' = rd_seq r \<and> rd_req_fd r' = rd_req_fd r \<and> rd_deferred r' = rd_deferred r"
  using assms by (auto simp: set_caller_def upd_rdata_def Let_def split: option.split)

text \<open>C16. A call is answered exactly once. When a client has the called object and method, the method's
  handler runs once, with the identity of the caller. When it returns, its result is sent in exactly
  one status message, addressed to the caller and with the sequence number of the call; nothing is
  sent when the handler deferred its answer or the caller wants none. A descriptor that came with
  the call and was not taken by the handler is closed.\<close>

theorem invoke_replied:
  assumes obj: "\<not> ubus_context_is_channel s" "objs s a = Some ob" "pre_invoke s = None"
    and attrs: "attr_at UBUS_ATTR_METHOD s = Some (p, name)" "attr_at UBUS_ATTR_DATA s = Some data"
    and meth: "ubus_object_find_method ob (blob_str E name) = Some m"
    and called: "rd = lib_next s" "t = set_caller E ob rd
        (upd_rdata rd (\<lambda>r. r\<lparr>rd_peer := hdr_peer (buf_hdr buf s), rd_seq := hdr_seq (buf_hdr buf s)\<rparr>) (snd (new_rdata fd s)))"
      "c = Call_method (m_handler m) (Some a) rd (p, name) (msg_ptr_of (Some data))"
    and handler: "K c (t\<lparr>calls := calls t @ [c]\<rparr>) = Some (ret, u)" "rdata u rd = Some r"
      "rd_object r = ob_id ob" "rd_peer r = hdr_peer (buf_hdr buf s)" "rd_seq r = hdr_seq (buf_hdr buf s)"
      "takes_status E ret (ob_id ob) u"
  shows "\<exists>s'. ubus_process_invoke E K buf (Some a) fd s = Some s' \<and>
    (\<exists>r0. rdata t rd = Some r0 \<and> rd_peer r0 = hdr_peer (buf_hdr buf s) \<and> rd_seq r0 = hdr_seq (buf_hdr buf s) \<and>
       rd_object r0 = ob_id ob \<and> rd_req_fd r0 = fd \<and> \<not> rd_deferred r0) \<and>
    (if rd_deferred r \<or> (case attr_at UBUS_ATTR_NO_REPLY s of None \<Rightarrow> False | Some (_, v) \<Rightarrow> blob_get_u8 E v \<noteq> 0)
     then out s' = out u \<and> shut_fds s' = shut_fds u @ (if 0 \<le> rd_req_fd r then [rd_req_fd r] else [])
     else out s' = out u @ msg_frame E (ucast (hdr_seq (buf_hdr buf s))) (Some (Built (status_attrs ret (ob_id ob))))
            UBUS_MSG_STATUS (hdr_peer (buf_hdr buf s)) \<and>
          shut_fds s' = shut_fds u @ (if 0 \<le> rd_req_fd r then [rd_req_fd r] else []) @ (if 0 \<le> rd_fd r then [rd_fd r] else []))"
proof -
  let ?nr = "case attr_at UBUS_ATTR_NO_REPLY s of None \<Rightarrow> False | Some (_, v) \<Rightarrow> blob_get_u8 E v \<noteq> 0"
  define s0 where "s0 = snd (new_rdata fd s)"
  define s1 where "s1 = upd_rdata rd (\<lambda>r. r\<lparr>rd_peer := hdr_peer (buf_hdr buf s), rd_seq := hdr_seq (buf_hdr buf s)\<rparr>) s0"
  have nr: "new_rdata fd s = (rd, s0)"
    by (simp add: new_rdata_def called(1) s0_def)
  have keep: "attr_at x s0 = attr_at x s" "attr_at x s1 = attr_at x s" "attr_at x t = attr_at x s" for x
    by (simp_all add: attr_at_def s0_def s1_def called)
  have keep2: "ubus_context_is_channel s0 = False" "ubus_context_is_channel s1 = False" "objs s1 = objs s"
    "pre_invoke t = None" "buf_hdr buf s0 = buf_hdr buf s"
    using obj(1,3) by (simp_all add: ubus_context_is_channel_def s0_def s1_def called buf_hdr_def split: msg_buf.split)
  have t: "t = set_caller E ob rd s1"
    by (simp add: called(2) s1_def s0_def)
  have r0: "\<exists>r0. rdata t rd = Some r0 \<and> rd_peer r0 = hdr_peer (buf_hdr buf s) \<and> rd_seq r0 = hdr_seq (buf_hdr buf s) \<and>
       rd_object r0 = ob_id ob \<and> rd_req_fd r0 = fd \<and> \<not> rd_deferred r0"
    unfolding t by (rule exE [OF set_caller_rdata [of s1 rd]])
      (auto simp: s1_def s0_def upd_rdata_def new_rdata_def called(1))
  have found: "ubus_process_invoke E K buf (Some a) fd s = invoke_found E K (Some a) (Some m) rd ?nr t"
    using nr keep keep2 obj(2) attrs(1) meth t
    by (simp add: ubus_process_invoke_def s1_def [symmetric] Let_def)
  also have "\<dots> = invoke_finish E rd ?nr ret u"
    using keep(3) keep2(4) attrs handler(1) called(3) by (simp add: invoke_found_def call_cb_def)
  finally have eq: "ubus_process_invoke E K buf (Some a) fd s = invoke_finish E rd ?nr ret u" .
  show ?thesis
  proof (cases "rd_deferred r \<or> ?nr")
    case True
    with eq handler(2) r0 show ?thesis
      by (auto simp: invoke_finish_def free_rdata_def)
  next
    case False
    with eq handler(2) have "ubus_process_invoke E K buf (Some a) fd s = invoke_send E rd ret u"
      by (simp add: invoke_finish_def)
    with invoke_send_out [OF handler(2), of E ret] handler(3-6) False r0 show ?thesis
      by auto
  qed
qed

definition w_served :: lib where
  "w_served = (w_lib [] [Snd 100])\<lparr>
     objs := [5 \<mapsto> \<lparr>ob_name = None, ob_id = 50, ob_type = None, ob_subscribe_cb = None, ob_has_subscribers = False,
        ob_methods = Methods [\<lparr>m_name = None, m_handler = App_method 0, m_mask = 0, m_policy = []\<rparr>]\<rparr>],
     lib_objects := [50 \<mapsto> 5],
     attrbuf := (0, [UBUS_ATTR_METHOD \<mapsto> Blob_string ''m'', UBUS_ATTR_DATA \<mapsto> Blob_bytes []]),
     msgbuf_hdr := \<lparr>hdr_version = 0, hdr_type = ubus_msg_code UBUS_MSG_INVOKE, hdr_seq = 3, hdr_peer = 70\<rparr>\<rparr>"

lemma w_takes: "sk_out s = [Snd 100] \<Longrightarrow> takes_status ref_env ret oid s"
  by (simp add: takes_status_def status_attrs_def blob_image_def blob_pad_len_def ref_encode_def be32_bytes_def
      be32_of_def HDR_SIZE_def UBUS_MAX_MSGLEN_def Let_def)

theorem invoke_replied_witness:
  "\<exists>s'. ubus_process_invoke ref_env (\<lambda>c s. Some (6, s)) Msgbuf (Some 5) 8 w_served = Some s' \<and>
     out s' = msg_frame ref_env 3 (Some (Built (status_attrs 6 50))) UBUS_MSG_STATUS 70 \<and> shut_fds s' = [8]"
proof -
  define ob where "ob = the (objs w_served 5)"
  define m where "m = \<lparr>m_name = None, m_handler = App_method 0, m_mask = 0, m_policy = []\<rparr>"
  define t where "t = set_caller ref_env ob 1
    (upd_rdata 1 (\<lambda>r. r\<lparr>rd_peer := hdr_peer (buf_hdr Msgbuf w_served), rd_seq := hdr_seq (buf_hdr Msgbuf w_served)\<rparr>)
      (snd (new_rdata 8 w_served)))"
  define c where "c = Call_method (m_handler m) (Some 5) 1 (0, Blob_string ''m'') (msg_ptr_of (Some (0, Blob_bytes [])))"
  have ob: "\<not> ubus_context_is_channel w_served" "objs w_served 5 = Some ob" "pre_invoke w_served = None"
    by (simp_all add: w_served_def w_lib_def ob_def ubus_context_is_channel_def UBUS_CLIENT_ID_CHANNEL_def)
  have at: "attr_at UBUS_ATTR_METHOD w_served = Some (0, Blob_string ''m'')"
    "attr_at UBUS_ATTR_DATA w_served = Some (0, Blob_bytes [])" "attr_at UBUS_ATTR_NO_REPLY w_served = None"
    by (simp_all add: attr_at_def w_served_def)
  have me: "ubus_object_find_method ob (blob_str ref_env (Blob_string ''m'')) = Some m"
    by (simp add: ubus_object_find_method_def methods_of_def ob_def w_served_def m_def)
  have ca: "(1 :: addr) = lib_next w_served"
    by (simp add: w_served_def w_lib_def)
  obtain r where r: "rdata (t\<lparr>calls := calls t @ [c]\<rparr>) 1 = Some r" "rd_object r = ob_id ob"
    "rd_peer r = hdr_peer (buf_hdr Msgbuf w_served)" "rd_seq r = hdr_seq (buf_hdr Msgbuf w_served)"
    "\<not> rd_deferred r" "rd_req_fd r = 8" "rd_fd r = - 1"
    by (simp add: t_def set_caller_def upd_rdata_def new_rdata_def attr_at_def w_served_def w_lib_def)
  have "takes_status ref_env 6 (ob_id ob) (t\<lparr>calls := calls t @ [c]\<rparr>)" "out t = []" "shut_fds t = []"
    by (simp_all add: w_takes t_def set_caller_def upd_rdata_def new_rdata_def attr_at_def w_served_def w_lib_def)
  with invoke_replied [OF ob at(1,2) me ca t_def c_def _ r(1-4), of "\<lambda>c s. Some (6, s)" 6] r(5-7) at(3)
  show ?thesis
    by (auto simp: ob_def w_served_def buf_hdr_def)
qed

section \<open>A call to an object the client does not have\<close>

text \<open>C38. A call to an object that the client does not have is never answered. The library refuses such a
  call with a status message, but addresses it to peer 0 with sequence number 0 and names object 0,
  whatever the call was, because it fills in the caller only after this test. The daemon drops a
  reply for an object it does not know.\<close>

theorem unknown_object_unanswered:
  assumes "\<not> ubus_context_is_channel s" and "takes_status E 4 0 s"
    and "bufs (net d) ub = Some b" and "attr UBUS_ATTR_OBJID = Some ia" and "blob_get_u32 E ia = 0"
    and "ubusd_find_object 0 d = None"
  shows "(\<exists>s'. ubus_process_invoke E K buf None fd s = Some s' \<and>
      out s' = out s @ msg_frame E 0 (Some (Built (status_attrs 4 0))) UBUS_MSG_STATUS 0 \<and> calls s' = calls s) \<and>
    ubusd_handle_response E cl ub attr d = (No_reply, d)"
proof -
  obtain t r where t: "new_rdata fd s = (lib_next s, t)" "\<not> ubus_context_is_channel t" "takes_status E 4 0 t"
      "out t = out s" "calls t = calls s"
    and r: "rdata t (lib_next s) = Some r" "rd_object r = 0" "rd_seq r = 0" "rd_peer r = 0"
    using assms(1,2) by (simp add: new_rdata_def ubus_context_is_channel_def takes_status_def)
  have "ubus_process_invoke E K buf None fd s = invoke_send E (lib_next s) 4 t"
    using t(1,2) by (simp add: ubus_process_invoke_def status_int_def)
  with invoke_send_out [OF r(1), of E 4] r(2-4) t(3-5) have
    "\<exists>s'. ubus_process_invoke E K buf None fd s = Some s' \<and>
      out s' = out s @ msg_frame E 0 (Some (Built (status_attrs 4 0))) UBUS_MSG_STATUS 0 \<and> calls s' = calls s"
    by auto
  moreover have "ubusd_handle_response E cl ub attr d = (No_reply, d)"
    using assms(3-6) by (simp add: ubusd_handle_response_def)
  ultimately show ?thesis by blast
qed

theorem unknown_object_unanswered_witness:
  "(\<exists>s'. ubus_process_invoke ref_env (\<lambda>c s. None) Msgbuf None (- 1) w_served = Some s' \<and>
      out s' = msg_frame ref_env 0 (Some (Built (status_attrs 4 0))) UBUS_MSG_STATUS 0) \<and>
    ubusd_handle_response ref_env 7000 2 [UBUS_ATTR_OBJID \<mapsto> Blob_int32 0] (w_request UBUS_MSG_STATUS) =
      (No_reply, w_request UBUS_MSG_STATUS)"
proof -
  have s: "\<not> ubus_context_is_channel w_served" "takes_status ref_env 4 0 w_served" "out w_served = []"
    by (simp_all add: w_served_def w_lib_def ubus_context_is_channel_def UBUS_CLIENT_ID_CHANNEL_def w_takes)
  obtain b where b: "bufs (net (w_request UBUS_MSG_STATUS)) 2 = Some b"
    using w_request_buf by blast
  have "objects w_daemon 0 = None"
    by (simp add: w_daemon_def w_peer_def start_exec msg_exec client_exec Let_def)
  then have o: "ubusd_find_object 0 (w_request UBUS_MSG_STATUS) = None"
    by (simp add: w_request_def ubusd_find_object_def ubus_find_id_def)
  from unknown_object_unanswered [OF s(1,2) b, where K = "\<lambda>c s. None" and buf = Msgbuf and fd = "- 1" and cl = 7000 and
      attr = "[UBUS_ATTR_OBJID \<mapsto> Blob_int32 0]" and ia = "Blob_int32 0"] s(3) o show ?thesis
    by auto
qed

end
