(* ===== verification/Props_Proto.thy ===== *)
theory Props_Proto
  imports Ubusd_Exec_Root Ubusd_Sent
begin

text \<open>
  Who gets which message: calls, notifications, replies, events, the greeting and errors. \<open>sent\<close>
  records the messages handed to \<open>ubus_msg_send\<close> with their receivers, so these properties say what
  the daemon decides to send; that a message is then transmitted as a whole or not at all is in
  theory \<open>Props_Transport\<close>.

  A handler runs while the daemon holds the request in the buffer \<open>ub\<close>.
\<close>

section \<open>Calls\<close>

text \<open>The attributes of a call as it reaches the client that owns the object.\<close>

definition invoke_attrs ::
  "(nat \<times> blob_attr) list \<Rightarrow> ubus_client \<Rightarrow> u32 \<Rightarrow> string \<Rightarrow> blob_attr option \<Rightarrow> (nat \<times> blob_attr) list" where
  "invoke_attrs pre c oid meth data = pre @
     [(ubus_attr_code UBUS_ATTR_OBJID, Blob_int32 oid), (ubus_attr_code UBUS_ATTR_METHOD, Blob_string meth)] @
     (case cl_user c of None \<Rightarrow> [] | Some u \<Rightarrow> [(ubus_attr_code UBUS_ATTR_USER, Blob_string u)]) @
     (case cl_group c of None \<Rightarrow> [] | Some g \<Rightarrow> [(ubus_attr_code UBUS_ATTR_GROUP, Blob_string g)]) @
     (case data of None \<Rightarrow> [] | Some a \<Rightarrow> [(ubus_attr_code UBUS_ATTR_DATA, a)])"

lemma forward_invoke_sent:
  assumes "net_wf H (net d)" and "clients (net d) cl = Some c" and "objects d oid = Some ob"
    and "obj_client ob = Some oc" and "clients (net d) oc = Some cc" and "bufs (net d) ub = Some b"
  shows "sent (net (ubusd_forward_invoke E pre cl oid meth ub data d)) = sent (net d) @
    (if calloc_ok E (n_calloc (net d))
     then [(oc, msg_hdr UBUS_MSG_INVOKE (hdr_seq (ub_hdr b)) (hdr_peer (ub_hdr b)),
            Built (invoke_attrs pre c oid meth data), ub_fd b)] else [])"
    and "bufs (net (ubusd_forward_invoke E pre cl oid meth ub data d)) ub = Some b"
  using assms sent_from_blob [OF assms(1,5,6)] bufs_from_blob [OF assms(1,5,6)]
  by (simp_all add: ubusd_forward_invoke_def invoke_attrs_def Let_def)

text \<open>C14. A call of a method of a client's object is refused when the access control rules do not allow
  it, and then nothing happens. Otherwise it is forwarded to exactly the client that owns the
  object, under the sequence number of the caller and with the id of the caller as peer, with
  the user and group of the caller as the daemon knows them and not as the caller claims; the
  caller's descriptor goes with it. Only an allocation failure can prevent that.\<close>

theorem invoke_forwards:
  assumes wf: "daemon_wf H d" and c: "clients (net d) cl = Some c" and b: "bufs (net d) ub = Some b"
    and attr: "attr UBUS_ATTR_METHOD = Some ma" "attr UBUS_ATTR_OBJID = Some ia"
    and ob: "objects d (blob_get_u32 E ia) = Some ob" "obj_client ob = Some oc"
    and r: "ubusd_handle_invoke E cl ub attr d = (ret, d')"
  shows "if ubusd_acl_check d (Some c) (obj_path ob) (Some (blob_str E ma)) UBUS_ACL_ACCESS \<noteq> 0
    then ret = Status UBUS_STATUS_PERMISSION_DENIED \<and> d' = d
    else ret = No_reply \<and> map_option ub_fd (bufs (net d') ub) = Some (- 1) \<and>
      sent (net d') = sent (net d) @
        (if calloc_ok E (n_calloc (net d))
         then [(oc, msg_hdr UBUS_MSG_INVOKE (hdr_seq (ub_hdr b)) cl,
                Built (invoke_attrs [] c (blob_get_u32 E ia) (blob_str E ma) (attr UBUS_ATTR_DATA)), ub_fd b)]
         else [])"
proof -
  let ?d1 = "on_net (set_peer ub cl) d"
  let ?d2 = "ubusd_forward_invoke E [] cl (blob_get_u32 E ia) (blob_str E ma) ub (attr UBUS_ATTR_DATA) ?d1"
  note w = daemon_wfD [OF wf]
  have w1: "net_wf H (net ?d1)"
    unfolding on_net_simps set_peer_def by (rule net_wf_upd_buf [OF w(1) b]) simp
  obtain cc where cc: "clients (net d) oc = Some cc"
    using owners_okD(7) [OF reg_wfD(1) [OF w(2)], of "blob_get_u32 E ia" oc] ob by (auto simp: obj_field_def)
  have b1: "bufs (net ?d1) ub = Some (b\<lparr>ub_hdr := (ub_hdr b)\<lparr>hdr_peer := cl\<rparr>\<rparr>)"
    using b by (simp add: set_peer_def upd_buf_def)
  have cl1: "clients (net ?d1) i = clients (net d) i" for i using b by (simp add: set_peer_def upd_buf_def)
  have n1: "n_calloc (net ?d1) = n_calloc (net d)" "sent (net ?d1) = sent (net d)" using b by (simp_all add: set_peer_def upd_buf_def)
  note f = forward_invoke_sent [OF w1, of cl c "blob_get_u32 E ia" ob oc cc ub _ E "[]" "blob_str E ma" "attr UBUS_ATTR_DATA",
    OF _ _ _ _ b1]
  have "map_option ub_fd (bufs (upd_buf ub (\<lambda>b. b\<lparr>ub_fd := - 1\<rparr>) (net ?d2)) ub) = Some (- 1)"
    using f(2) c cc ob cl1 by (simp add: upd_buf_def)
  with f c cc ob attr r cl1 n1 show ?thesis
    by (auto simp: ubusd_handle_invoke_def client_of_def ubus_find_id_def Let_def)
qed

lemma w_obj_parts:
  obtains ob c b where "objects w_obj 8000 = Some ob" "obj_client ob = Some 7000" "clients (net w_obj) 7000 = Some c"
    "bufs (net w_obj) 2 = Some b" "ub_refcount b = 1"
  using w_obj_eval by auto

theorem invoke_forwards_witness:
  "\<exists>hdr data fd. let d' = snd (ubusd_handle_invoke ref_env 7000 2
       [UBUS_ATTR_METHOD \<mapsto> Blob_string ''m'', UBUS_ATTR_OBJID \<mapsto> Blob_int32 8000] w_obj) in
     sent (net d') = sent (net w_obj) @ [(7000, hdr, data, fd)]"
proof -
  let ?attr = "[UBUS_ATTR_METHOD \<mapsto> Blob_string ''m'', UBUS_ATTR_OBJID \<mapsto> Blob_int32 8000]"
  obtain ob c b where o: "objects w_obj 8000 = Some ob" "obj_client ob = Some 7000" "clients (net w_obj) 7000 = Some c"
    "bufs (net w_obj) 2 = Some b" by (rule w_obj_parts)
  have "map_option obj_path (objects w_obj 8000) = Some None"
    by (simp add: w_obj_def w_request_def w_daemon_def w_peer_def start_exec msg_exec client_exec Let_def
        ubusd_handle_add_object_def ubusd_create_object_def obj_type_of_attrs_def obj_field_def objtype_attr_def
        ubus_proto_send_msg_from_blob_def ubus_reply_from_blob_def)
  then have "ubusd_acl_check w_obj (Some c) (obj_path ob) m ty = 0" for m ty using o by (simp add: ubusd_acl_check_def)
  moreover obtain ret d' where r: "ubusd_handle_invoke ref_env 7000 2 ?attr w_obj = (ret, d')" by fastforce
  ultimately show ?thesis using invoke_forwards [OF w_obj_wf o(3,4), of ?attr "Blob_string ''m''" "Blob_int32 8000" ref_env ob 7000 ret d'] o
    by simp
qed

text \<open>C15. A reply to a call is passed on only when it carries what its type requires, names an object of
  the replying client, and is addressed to a connected client: then exactly that client gets it,
  with the object's id as peer and sequence number, data and descriptor unchanged. Any other reply is
  dropped without an answer.\<close>

theorem response_routed:
  assumes wf: "daemon_wf H d" and b: "bufs (net d) ub = Some b" and r: "ubusd_handle_response E cl ub attr d = (ret, d')"
  shows "ret = No_reply \<and>
    (case attr UBUS_ATTR_OBJID of
       None \<Rightarrow> d' = d
     | Some ia \<Rightarrow>
         if \<not> (hdr_type (ub_hdr b) = ubus_msg_code UBUS_MSG_STATUS \<and> attr UBUS_ATTR_STATUS = None) \<and>
            \<not> (hdr_type (ub_hdr b) = ubus_msg_code UBUS_MSG_DATA \<and> attr UBUS_ATTR_DATA = None) \<and>
            owner d (blob_get_u32 E ia) = Some cl \<and> hdr_peer (ub_hdr b) \<in> dom (clients (net d))
         then sent (net d') = sent (net d) @
           [(hdr_peer (ub_hdr b), (ub_hdr b)\<lparr>hdr_peer := blob_get_u32 E ia\<rparr>, ub_data b, ub_fd b)]
         else d' = d)"
proof -
  have tree: "client_tree d = dom (clients (net d))"
    using reg_wfD(7) [OF daemon_wfD(2) [OF wf]] by (simp add: clients_ok_def dom_def)
  have sp: "sent (ubus_msg_send E i ub (set_peer ub p (net d))) =
      sent (net d) @ [(i, (ub_hdr b)\<lparr>hdr_peer := p\<rparr>, ub_data b, ub_fd b)]"
    if "clients (net d) i = Some c" for i p c
    using sent_send [of "set_peer ub p (net d)" i c ub] that b by (simp add: set_peer_def upd_buf_def)
  have own: "owner d i = Some cl \<longleftrightarrow> (\<exists>ob. objects d i = Some ob \<and> obj_client ob = Some cl)" for i
    by (simp add: owner_def obj_field_def split: option.splits)
  show ?thesis
    using r b sp
    by (auto simp: ubusd_handle_response_def ubusd_get_client_by_id_def ubusd_find_object_def ubus_find_id_def
        tree own Let_def split: option.splits if_splits)
qed

theorem response_routed_witness:
  "fst (ubusd_handle_response ref_env 7000 2 [UBUS_ATTR_OBJID \<mapsto> Blob_int32 8000] w_obj) = No_reply"
proof -
  obtain b where b: "bufs (net w_obj) 2 = Some b" by (rule w_obj_parts)
  obtain ret d' where r: "ubusd_handle_response ref_env 7000 2 [UBUS_ATTR_OBJID \<mapsto> Blob_int32 8000] w_obj = (ret, d')" by fastforce
  from response_routed [OF w_obj_wf b r] r show ?thesis by simp
qed

section \<open>Notifications\<close>

definition notify_msg ::
  "(nat \<times> blob_attr) list \<Rightarrow> ubus_client \<Rightarrow> string \<Rightarrow> blob_attr option \<Rightarrow> ubus_msg_buf \<Rightarrow> daemon \<Rightarrow> addr \<Rightarrow>
   u32 \<times> ubus_msghdr \<times> blob \<times> int" where
  "notify_msg pre c meth data b d a =
     (let oid = sub_subscriber (the (subs d a)) in
      (the (owner d oid), msg_hdr UBUS_MSG_INVOKE (hdr_seq (ub_hdr b)) (hdr_peer (ub_hdr b)),
       Built (invoke_attrs pre c oid meth data), ub_fd b))"

lemma notify_msg_cong: "reg d' = reg d \<Longrightarrow> cl_core c' = cl_core c \<Longrightarrow> notify_msg pre c' meth data b d' = notify_msg pre c meth data b d"
proof -
  assume r: "reg d' = reg d" and c: "cl_core c' = cl_core c"
  have "subs d' = subs d" using arg_cong [OF r, of r_subs] by simp
  moreover have "cl_user c' = cl_user c" "cl_group c' = cl_group c"
    using arg_cong [OF c, of cl_user] arg_cong [OF c, of cl_group] by (simp_all add: cl_core_def)
  ultimately show ?thesis by (rule_tac ext) (simp add: notify_msg_def invoke_attrs_def reg_owner [OF r] Let_def)
qed

lemma notify_loop_sent:
  assumes "daemon_wf H d" and "clients (net d) cl = Some c" and "bufs (net d) ub = Some b"
    and "\<forall>a\<in>set as. subs d a \<noteq> None" and alloc: "\<forall>i. calloc_ok E i"
  shows "sent (net (notify_loop E pre cl meth ub data as d)) = sent (net d) @ map (notify_msg pre c meth data b d) as"
  using assms(1-4)
proof (induction as arbitrary: d c)
  case (Cons a as)
  obtain s where s: "subs d a = Some s" using Cons.prems(4) by auto
  let ?d = "ubusd_forward_invoke E pre cl (sub_subscriber s) meth ub data d"
  have lo: "live_owner d (sub_subscriber s)" by (rule live_objects(2) [OF daemon_wfD(2) [OF Cons.prems(1)] s])
  then obtain ob oc cc where ob: "objects d (sub_subscriber s) = Some ob" "obj_client ob = Some oc" "clients (net d) oc = Some cc"
    by (auto simp: live_owner_def)
  then have own: "owner d (sub_subscriber s) = Some oc" by (simp add: owner_def obj_field_def)
  note fs = forward_invoke_sent [OF daemon_wfD(1) [OF Cons.prems(1)] Cons.prems(2) ob Cons.prems(3), where E = E and pre = pre and meth = meth and data = data]
  note f = forward_invoke_step [OF Cons.prems(1,2,3), of "sub_subscriber s" "{}" E pre meth data]
  have rg: "reg ?d = reg d" by simp
  obtain c' where c': "clients (net ?d) cl = Some c'" "cl_core c' = cl_core c" by (rule reg_client [OF rg Cons.prems(2)])
  have sb: "subs ?d = subs d" by (metis rg reg_sel(15))
  have "sent (net (notify_loop E pre cl meth ub data as ?d)) = sent (net ?d) @ map (notify_msg pre c' meth data b ?d) as"
    by (rule Cons.IH) (use f own c' fs(2) sb Cons.prems(4) in \<open>simp_all add: step_ok_def\<close>)
  then show ?case
    using s fs(1) alloc own by (simp add: notify_msg_cong [OF rg c'(2)] notify_msg_def)
qed simp

text \<open>C13. A notification of an object by its owner reaches every subscriber of the object exactly once,
  in the order of the subscriber list, as a call under the sequence number of the request with
  the notifier as peer; before that the notifier gets the list of subscribers, unless it asked for
  no reply. Allocation failures aside, nothing else is sent. A notification by anybody else
  is refused.\<close>

theorem notify_reaches_subscribers:
  assumes wf: "daemon_wf H d" and c: "clients (net d) cl = Some c" and ub: "owns1 (net d) ub"
    and b: "bufs (net d) ub = Some b"
    and attr: "attr UBUS_ATTR_METHOD = Some ma" "attr UBUS_ATTR_OBJID = Some ia"
    and ob: "objects d (blob_get_u32 E ia) = Some ob" and alloc: "\<forall>i. calloc_ok E i"
    and r: "ubusd_handle_notify E cl ub attr d = (ret, d')"
  shows "if obj_client ob \<noteq> Some cl then ret = Status UBUS_STATUS_PERMISSION_DENIED \<and> d' = d
    else ret = No_reply \<and>
      (let no_reply = (case attr UBUS_ATTR_NO_REPLY of None \<Rightarrow> False | Some a \<Rightarrow> blob_get_u8 E a \<noteq> 0) in
       sent (net d') = sent (net d) @
         (if no_reply then []
          else [(cl, msg_hdr UBUS_MSG_STATUS (hdr_seq (ub_hdr b)) (hdr_peer (ub_hdr b)),
                 Built [(ubus_attr_code UBUS_ATTR_OBJID, Blob_int32 (blob_get_u32 E ia)),
                        (ubus_attr_code UBUS_ATTR_SUBSCRIBERS,
                         Blob_nest (map (\<lambda>i. (0, Blob_int32 i)) (sub_ids d (obj_subscribers ob)))),
                        (ubus_attr_code UBUS_ATTR_STATUS, Blob_int32 0)], ub_fd b)]) @
         map (notify_msg (if no_reply then [(ubus_attr_code UBUS_ATTR_NO_REPLY, Blob_int8 1)] else [])
                c (blob_str E ma) (attr UBUS_ATTR_DATA) (b\<lparr>ub_hdr := (ub_hdr b)\<lparr>hdr_peer := cl\<rparr>\<rparr>) d)
           (obj_subscribers ob))"
proof (cases "obj_client ob = Some cl")
  case False
  with r attr ob show ?thesis by (simp add: ubusd_handle_notify_def ubus_find_id_def Let_def)
next
  case True
  define no_reply where "no_reply = (case attr UBUS_ATTR_NO_REPLY of None \<Rightarrow> False | Some a \<Rightarrow> blob_get_u8 E a \<noteq> 0)"
  define st where "st = [(ubus_attr_code UBUS_ATTR_OBJID, Blob_int32 (blob_get_u32 E ia)),
    (ubus_attr_code UBUS_ATTR_SUBSCRIBERS, Blob_nest (map (\<lambda>i. (0, Blob_int32 i)) (sub_ids d (obj_subscribers ob)))),
    (ubus_attr_code UBUS_ATTR_STATUS, Blob_int32 0)]"
  define d1 where "d1 = (if no_reply then d else on_net (ubus_proto_send_msg_from_blob E cl ub st UBUS_MSG_STATUS) d)"
  define d2 where "d2 = on_net (set_peer ub cl) d1"
  have s1: "step_ok H {} d d1" using step_send_msg_from_blob [OF wf c b] step_ok_refl [OF wf] by (auto simp: d1_def)
  have w1: "daemon_wf H d1" using s1 by (simp add: step_ok_def)
  have b1: "bufs (net d1) ub = Some b" using bufs_from_blob [OF daemon_wfD(1) [OF wf] c b] b by (simp add: d1_def)
  have o1: "owns1 (net d1) ub" using ub b b1 by (simp add: owns1_def)
  have w2: "daemon_wf H d2" using set_peer_step(1) [OF w1 o1] by (simp add: d2_def step_ok_def)
  have rg1: "reg d1 = reg d" by (simp add: d1_def)
  have "core (set_peer ub cl (net d1)) = core (net d1)" by (simp add: set_peer_def)
  then have rg: "reg d2 = reg d" using rg1 by (simp add: d2_def)
  obtain c2 where c2: "clients (net d2) cl = Some c2" "cl_core c2 = cl_core c" by (rule reg_client [OF rg c])
  have b2: "bufs (net d2) ub = Some (b\<lparr>ub_hdr := (ub_hdr b)\<lparr>hdr_peer := cl\<rparr>\<rparr>)"
    using b1 by (simp add: d2_def set_peer_def upd_buf_def)
  have sb: "subs d2 = subs d" using arg_cong [OF rg, of r_subs] by simp
  have se: "sent (net d2) = sent (net d) @ (if no_reply then [] else
      [(cl, msg_hdr UBUS_MSG_STATUS (hdr_seq (ub_hdr b)) (hdr_peer (ub_hdr b)), Built st, ub_fd b)])"
    using sent_from_blob [OF daemon_wfD(1) [OF wf] c b] alloc by (simp add: d1_def d2_def set_peer_def)
  define pre where "pre = (if no_reply then [(ubus_attr_code UBUS_ATTR_NO_REPLY, Blob_int8 1)] else [])"
  have "ubusd_handle_notify E cl ub attr d = (No_reply,
      notify_loop E pre cl (blob_str E ma) ub (attr UBUS_ATTR_DATA) (obj_subscribers ob) d2)"
    using attr ob True
    by (simp add: ubusd_handle_notify_def ubus_find_id_def Let_def no_reply_def [symmetric] pre_def st_def d1_def d2_def)
  with r have d': "ret = No_reply"
    "d' = notify_loop E pre cl (blob_str E ma) ub (attr UBUS_ATTR_DATA) (obj_subscribers ob) d2" by simp_all
  have "sent (net d') = sent (net d2) @
      map (notify_msg pre c (blob_str E ma) (attr UBUS_ATTR_DATA) (b\<lparr>ub_hdr := (ub_hdr b)\<lparr>hdr_peer := cl\<rparr>\<rparr>) d) (obj_subscribers ob)"
    unfolding d'(2) notify_msg_cong [OF rg c2(2), symmetric]
    by (rule notify_loop_sent [OF w2 c2(1) b2 _ alloc]) (use subscribers_live [OF wf ob] sb in simp)
  with se d'(1) True show ?thesis
    by (simp only: Let_def no_reply_def [symmetric] st_def [symmetric] pre_def [symmetric] append_assoc simp_thms if_False)
qed

theorem notify_reaches_subscribers_witness:
  "fst (ubusd_handle_notify ref_env 7000 2
     [UBUS_ATTR_METHOD \<mapsto> Blob_string ''m'', UBUS_ATTR_OBJID \<mapsto> Blob_int32 8000] w_obj) = No_reply"
proof -
  let ?attr = "[UBUS_ATTR_METHOD \<mapsto> Blob_string ''m'', UBUS_ATTR_OBJID \<mapsto> Blob_int32 8000]"
  obtain ob c b where o: "objects w_obj 8000 = Some ob" "obj_client ob = Some 7000" "clients (net w_obj) 7000 = Some c"
    "bufs (net w_obj) 2 = Some b" "ub_refcount b = 1" by (rule w_obj_parts)
  obtain ret d' where r: "ubusd_handle_notify ref_env 7000 2 ?attr w_obj = (ret, d')" by fastforce
  from notify_reaches_subscribers [OF w_obj_wf o(3) _ o(4) _ _ _ _ r, of "Blob_string ''m''" "Blob_int32 8000" ob] o r
  show ?thesis by (simp add: owns1_def)
qed

section \<open>Events\<close>

text \<open>The status with which sending ends: memory is needed once, for the first object that is reached.\<close>

lemma send_event_msg_status:
  assumes "live_owner d oid" and "owner d oid \<noteq> cl" and "oid \<notin> event_marked d"
    and "ubusd_send_event_msg E cl attrs oid (ub, d) = (ret, ub', d')"
  shows "if ub \<noteq> None \<or> calloc_ok E (n_calloc (net d)) then ret = UBUS_STATUS_OK \<and> ub' \<noteq> None
    else ret = UBUS_STATUS_UNKNOWN_ERROR"
proof -
  obtain ob c where ob: "objects d oid = Some ob" "obj_client ob = Some c"
    using assms(1) by (auto simp: live_owner_def)
  with assms(2,3) have "obj_client ob \<noteq> cl" "obj_event_seen ob \<noteq> obj_event_seq d"
    by (auto simp: owner_def obj_field_def event_marked_def)
  with assms(4) ob show ?thesis
    by (auto simp: ubusd_send_event_msg_def event_fill_def ubus_msg_new_def calloc_def Let_def split: option.splits if_splits)
qed

lemma event_run_status:
  assumes "\<forall>ev\<in>set evs. live_owner d (ev_obj ev)"
    and "run_until (event_step E cl attrs) evs (UBUS_STATUS_OK, ub, d) = (ret, ub', d')"
  shows "ret = (if ub \<noteq> None \<or> calloc_ok E (n_calloc (net d)) \<or>
      keep_new (event_marked d) (filter (\<lambda>oid. owner d oid \<noteq> cl) (map ev_obj evs)) = []
    then UBUS_STATUS_OK else UBUS_STATUS_UNKNOWN_ERROR)"
  using assms
proof (induction evs arbitrary: ub d)
  case (Cons ev evs)
  let ?oid = "ev_obj ev"
  have live: "live_owner d ?oid" using Cons.prems(1) by simp
  show ?case
  proof (cases "owner d ?oid = cl \<or> ?oid \<in> event_marked d")
    case True
    have "run_until (event_step E cl attrs) evs (UBUS_STATUS_OK, ub, d) = (ret, ub', d')"
      using Cons.prems(2) by (simp add: event_step_Cons send_event_msg_skip [OF live True] del: run_until.simps)
    from Cons.IH [OF _ this] Cons.prems(1) True show ?thesis by auto
  next
    case False
    obtain r1 ub1 d1 where r1: "ubusd_send_event_msg E cl attrs ?oid (ub, d) = (r1, ub1, d1)"
      by (cases "ubusd_send_event_msg E cl attrs ?oid (ub, d)")
    note st = send_event_msg_status [OF live _ _ r1]
    have live1: "\<forall>ev\<in>set evs. live_owner d1 (ev_obj ev)"
      using Cons.prems(1) reg_live_owner [OF reg_send_event_msg [OF r1]] by simp
    have run: "(ret, ub', d') = (if r1 \<noteq> UBUS_STATUS_OK then (r1, ub1, d1)
        else run_until (event_step E cl attrs) evs (UBUS_STATUS_OK, ub1, d1))"
      using Cons.prems(2) r1 by (auto simp: event_step_Cons simp del: run_until.simps)
    show ?thesis
    proof (cases "ub \<noteq> None \<or> calloc_ok E (n_calloc (net d))")
      case True
      with st False have "r1 = UBUS_STATUS_OK" "ub1 \<noteq> None" by auto
      with run Cons.IH [OF live1, of ub1] True show ?thesis by auto
    next
      case no: False
      with st False run show ?thesis by auto
    qed
  qed
qed simp

text \<open>C12. An event reaches every object that registered a matching pattern, except those of the sender,
  exactly once, however many of its patterns match, in the order of the pattern tree, with
  consecutive sequence numbers. This happens exactly when the access control rules let the sender
  send it; otherwise the sender is told that it may not, and nothing changes at all. The only other
  failure is that there is no memory for the message when somebody is to get it. This needs that no
  object still carries the mark that the event is about to use, which only a wrap-around of the
  32-bit mark can violate.\<close>

theorem event_reaches_listeners:
  assumes wf: "daemon_wf H d" and r: "ubusd_send_event E cl ident attrs d = (ret, d')"
    and fresh: "\<forall>oid ob. objects d oid = Some ob \<longrightarrow> obj_event_seen ob \<noteq> next_event_seq d"
  shows "\<not> fault (net d') \<and> reg d' = reg d \<and> distinct (event_targets cl ident d) \<and>
    set (event_targets cl ident d) =
      {oid. owner d oid \<noteq> cl \<and>
         (\<exists>(k, ev)\<in>set (patterns d). ev_obj ev = oid \<and> (ident = k \<or> ev_partial ev \<and> (\<exists>rest. ident = k @ rest)))} \<and>
    (if ubusd_acl_check d (client_of d cl) (Some ident) None UBUS_ACL_SEND \<noteq> 0
     then ret = UBUS_STATUS_PERMISSION_DENIED \<and> d' = d
     else if event_targets cl ident d = [] \<or> calloc_ok E (n_calloc (net d))
     then ret = UBUS_STATUS_OK \<and>
       sent (net d') = sent (net d) @ event_msgs (owner d) attrs (event_seq d) (event_targets cl ident d)
     else ret = UBUS_STATUS_UNKNOWN_ERROR \<and> sent (net d') = sent (net d))"
proof -
  note w = daemon_wfD [OF wf]
  note e = send_event_ok [OF w(1,2) r]
  let ?d0 = "d\<lparr>obj_event_seq := next_event_seq d\<rparr>"
  have "reg d' = reg d" using reg_send_event [of E cl ident attrs d] r by simp
  moreover have "distinct (event_targets cl ident d)" by (simp add: event_targets_def keep_new_distinct)
  moreover have "set (event_targets cl ident d) = {oid. owner d oid \<noteq> cl \<and>
      (\<exists>(k, ev)\<in>set (patterns d). ev_obj ev = oid \<and> (ident = k \<or> ev_partial ev \<and> (\<exists>rest. ident = k @ rest)))}"
    unfolding set_eq_iff event_targets_def keep_new_set key_matches_def case_prod_unfold by auto
  moreover have "ret = (if event_targets cl ident d = [] \<or> calloc_ok E (n_calloc (net d)) then UBUS_STATUS_OK
      else UBUS_STATUS_UNKNOWN_ERROR)" if acl: "ubusd_acl_check d (client_of d cl) (Some ident) None UBUS_ACL_SEND = 0"
  proof -
    obtain ret1 ub d1 where run: "run_until (event_step E cl attrs) (event.hits ident (patterns d))
        (UBUS_STATUS_OK, None, ?d0) = (ret1, ub, d1)" by (rule prod_cases3)
    have "ret = ret1" using r send_event_eq [OF w(2) acl] run by (auto split: option.splits)
    moreover have "event_marked ?d0 = {}" using fresh by (auto simp: event_marked_def)
    moreover have "\<forall>ev\<in>set (event.hits ident (patterns d)). live_owner ?d0 (ev_obj ev)"
      using hits_live [OF w(2)] reg_live_owner [of ?d0 d] by simp
    note event_run_status [OF this run]
    ultimately show ?thesis
      using reg_owner [of ?d0 d] by (simp add: event_targets_def event.hits_def comp_def disj_commute)
  qed
  moreover have "ret = UBUS_STATUS_PERMISSION_DENIED \<and> d' = d"
    if "ubusd_acl_check d (client_of d cl) (Some ident) None UBUS_ACL_SEND \<noteq> 0"
    using r that by (simp add: ubusd_send_event_def)
  ultimately show ?thesis using e(2) [OF fresh] net_wfD(1) [OF e(1)] by (auto split: if_splits)
qed

theorem event_reaches_listeners_witness:
  "(let r = ubusd_send_event ref_env None ''ifup'' [] w_listen in
      fst r = UBUS_STATUS_OK \<and>
      sent (net (snd r)) = sent (net w_listen) @
        [(7000, \<lparr>hdr_version = 0, hdr_type = ubus_msg_code UBUS_MSG_INVOKE, hdr_seq = event_seq w_listen + 1, hdr_peer = 0\<rparr>,
          blob_patch32 9000 (Built []), - 1)]) \<and>
   ubusd_send_event ref_env (Some 7000) ''ifup'' [] w_obj = (UBUS_STATUS_PERMISSION_DENIED, w_obj)"
proof
  obtain ev where w: "daemon_wf held2 w_listen" "patterns w_listen = [(''if'', ev)]" "ev_obj ev = 9000" "ev_partial ev"
    "owner w_listen 9000 = Some 7000" "obj_event_seq w_listen = 2" "\<forall>oid ob. objects w_listen oid = Some ob \<longrightarrow> obj_event_seen ob = 0"
    by (rule w_listen_parts)
  obtain ret d' where r: "ubusd_send_event ref_env None ''ifup'' [] w_listen = (ret, d')" by fastforce
  have "event_targets None ''ifup'' w_listen = [9000]"
    using w by (simp add: event_targets_def key_matches_def)
  with event_reaches_listeners [OF w(1) r] w r show "let r = ubusd_send_event ref_env None ''ifup'' [] w_listen in
      fst r = UBUS_STATUS_OK \<and>
      sent (net (snd r)) = sent (net w_listen) @
        [(7000, \<lparr>hdr_version = 0, hdr_type = ubus_msg_code UBUS_MSG_INVOKE, hdr_seq = event_seq w_listen + 1, hdr_peer = 0\<rparr>,
          blob_patch32 9000 (Built []), - 1)]"
    by (auto simp: ubusd_acl_check_def client_of_def next_event_seq_def Let_def)
next
  obtain c where c: "clients (net w_obj) 7000 = Some c" by (rule w_obj_parts)
  obtain ret d' where r: "ubusd_send_event ref_env (Some 7000) ''ifup'' [] w_obj = (ret, d')" by fastforce
  have "cl_uid c \<noteq> 0" "ubusd_acls w_obj = []" "\<forall>oid ob. objects w_obj oid = Some ob \<longrightarrow> obj_event_seen ob \<noteq> next_event_seq w_obj"
    using w_obj_unprivileged c by (auto simp: next_event_seq_def)
  with event_reaches_listeners [OF w_obj_wf r] c r
  show "ubusd_send_event ref_env (Some 7000) ''ifup'' [] w_obj = (UBUS_STATUS_PERMISSION_DENIED, w_obj)"
    by (auto simp: ubusd_acl_check_def client_of_def)
qed

text \<open>C32. A client can send an event only when it names it, the name does not start with the prefix
  reserved for the daemon, and the access control rules let the client send it: otherwise the
  call is answered with an error and no message leaves the daemon.\<close>

theorem event_send_guarded:
  assumes r: "ubusd_event_recv E cl ub ''send'' msg d = (ret, d')"
    and "ret = UBUS_STATUS_OK \<or> sent (net d') \<noteq> sent (net d)"
  shows "\<exists>m ia data. msg = Some m \<and> blobmsg_parse E ev_policy m = [Some ia, Some data] \<and>
    take (length UBUS_EVENT_RESERVED_PREFIX) (blob_str E ia) \<noteq> UBUS_EVENT_RESERVED_PREFIX \<and>
    ubusd_acl_check d (clients (net d) cl) (Some (blob_str E ia)) None UBUS_ACL_SEND = 0"
  using assms
  by (auto simp: ubusd_event_recv_def ubusd_forward_event_def ubusd_send_event_def client_of_def Let_def
      split: option.splits list.splits if_splits)

definition w_event :: blob_attr where
  "w_event = Blobmsg_table [(''id'', Blob_string ''ifup''), (''data'', Blobmsg_table [])]"

theorem event_send_guarded_witness:
  "\<exists>m ia data. Some w_event = Some m \<and> blobmsg_parse ref_env ev_policy m = [Some ia, Some data] \<and>
     take (length UBUS_EVENT_RESERVED_PREFIX) (blob_str ref_env ia) \<noteq> UBUS_EVENT_RESERVED_PREFIX"
proof -
  let ?d = "ubusd_start ref_env [] None"
  obtain ret d' where r: "ubusd_event_recv ref_env 7000 2 ''send'' (Some w_event) ?d = (ret, d')" by fastforce
  have "fst (ubusd_event_recv ref_env 7000 2 ''send'' (Some w_event) ?d) = UBUS_STATUS_OK"
    by (simp add: ubusd_event_recv_def ubusd_forward_event_def w_event_def ev_policy_def UBUS_EVENT_RESERVED_PREFIX_def
        ubusd_send_event_def ubusd_acl_check_def client_of_def start_exec Let_def)
  with r event_send_guarded [OF r] show ?thesis by fastforce
qed

section \<open>Errors and the greeting\<close>

text \<open>A message of a type without a handler is answered with the status for an invalid command: the
  status message of the client goes out with the sequence number and peer of the request, the
  buffer of the request is released, and the registry is as before.\<close>

theorem unknown_type_refused:
  assumes wf: "daemon_wf H d" and c: "clients (net d) cl = Some c" and ub: "owns1 (net d) ub"
    and b: "bufs (net d) ub = Some b" and rb: "bufs (net d) (cl_retmsg c) = Some rb"
    and ty: "handler_of (hdr_type (ub_hdr b)) = None" and d': "d' = ubusd_proto_receive_message E cl ub d"
  shows "reg d' = reg d \<and> bufs (net d') ub = None \<and>
    sent (net d') = sent (net d) @
      [(cl, (ub_hdr rb)\<lparr>hdr_seq := hdr_seq (ub_hdr b), hdr_peer := hdr_peer (ub_hdr b)\<rparr>,
        blob_patch32 (ubus_status_code UBUS_STATUS_INVALID_COMMAND) (ub_data rb), ub_fd rb)]"
proof -
  let ?ret = "cl_retmsg c"
  have rc: "ub_refcount b = 1" using ub b by (auto simp: owns1_def)
  have ne: "ub \<noteq> ?ret"
    using retmsg_external [OF daemon_wfD(1) [OF wf] c] b rc not_external by (metis option.inject)
  define n1 where "n1 = ubus_msg_close_fd ub (retmsg_hdr ?ret b (net d))"
  define n2 where "n2 = upd_buf ?ret
    (\<lambda>r. r\<lparr>ub_data := blob_patch32 (ubus_status_code UBUS_STATUS_INVALID_COMMAND) (ub_data r)\<rparr>) (ubus_msg_free ub n1)"
  have t: "hdr_type (ub_hdr b) \<noteq> ubus_msg_code UBUS_MSG_STATUS" "hdr_type (ub_hdr b) \<noteq> ubus_msg_code UBUS_MSG_INVOKE"
    using ty by (auto simp: handler_of_def handlers_def simp del: ubus_msg_code.simps)
  have eq: "d' = d\<lparr>net := ubus_msg_send E cl ?ret n2\<rparr>"
    using c b ty t by (simp add: d' ubusd_proto_receive_message_def retmsg_send_def n1_def n2_def on_net_def Let_def)
  define rb' where "rb' = rb\<lparr>ub_hdr := (ub_hdr rb)\<lparr>hdr_seq := hdr_seq (ub_hdr b), hdr_peer := hdr_peer (ub_hdr b)\<rparr>,
    ub_data := blob_patch32 (ubus_status_code UBUS_STATUS_INVALID_COMMAND) (ub_data rb)\<rparr>"
  have n2: "bufs n2 ?ret = Some rb'" "bufs n2 ub = None" "clients n2 = clients (net d)" "sent n2 = sent (net d)"
    "core n2 = core (net d)" "next_addr n2 = next_addr (net d)"
    using b rb ne rc
    by (simp_all add: n2_def n1_def rb'_def retmsg_hdr_def ubus_msg_close_fd_def ubus_msg_free_def upd_buf_def close_fd_def Let_def core_def)
  have "reg d' = reg d" unfolding eq by (rule reg_set_net) (simp add: n2)
  moreover have "bufs (ubus_msg_send E cl ?ret n2) ub = None"
    using keepsD [OF keeps_send, of ub n2 ?ret E cl] n2 ne net_wf_ub_less [OF daemon_wfD(1) [OF wf] b] by simp
  ultimately show ?thesis
    using sent_send [of n2 cl c ?ret rb' E] n2 c by (simp add: eq rb'_def)
qed

theorem unknown_type_refused_witness:
  "bufs (net (ubusd_proto_receive_message ref_env 7000 2 (w_request UBUS_MSG_HELLO))) 2 = None"
proof -
  obtain c where c: "clients (net (w_request UBUS_MSG_HELLO)) 7000 = Some c" using w_request_client by blast
  obtain b where b: "bufs (net (w_request UBUS_MSG_HELLO)) 2 = Some b" "ub_refcount b = 1" "hdr_type (ub_hdr b) = ubus_msg_code UBUS_MSG_HELLO"
    using w_request_buf by blast
  obtain rb where rb: "bufs (net (w_request UBUS_MSG_HELLO)) (cl_retmsg c) = Some rb"
    using retmsg_external [OF daemon_wfD(1) [OF w_request_wf] c] by blast
  have "handler_of (hdr_type (ub_hdr b)) = None" by (simp add: b handler_of_def handlers_def del: ubus_msg_code.simps)
  from unknown_type_refused [OF w_request_wf c _ b(1) rb this refl] b show ?thesis by (simp add: owns1_def)
qed

text \<open>C33. A connection that is accepted becomes a client with a fresh id outside the reserved range, and
  the first and only message it has been sent is the greeting, which tells it this id. A connection
  that is not accepted leaves clients and registry as they were.\<close>

theorem connect_greets:
  assumes i: "ubusd_reach E d" and lib: "lib_ok E" and r: "ubusd_proto_new_client E fd peer d = (x, d')"
  shows "\<not> fault (net d') \<and>
    (case x of
       None \<Rightarrow> dom (clients (net d')) = dom (clients (net d)) \<and> client_tree d' = client_tree d
     | Some cl \<Rightarrow> cl \<notin> dom (clients (net d)) \<and> UBUS_SYSTEM_OBJECT_MAX \<le> cl \<and>
         dom (clients (net d')) = insert cl (dom (clients (net d))) \<and> client_tree d' = insert cl (client_tree d) \<and>
         sent (net d') = sent (net d) @ [(cl, msg_hdr UBUS_MSG_HELLO 0 cl, Built [], - 1)])"
proof -
  note inv = reach_inv [OF i lib] and w' = invD(1) [OF new_client_ok [OF reach_inv [OF i lib] r]]
  have ids: "client_tree d = dom (clients (net d))" "client_tree d' = dom (clients (net d'))"
    using client_ids [OF invD(1) [OF inv]] client_ids [OF w'] by simp_all
  have "case x of None \<Rightarrow> client_tree d' = client_tree d
     | Some cl \<Rightarrow> cl \<notin> client_tree d \<and> UBUS_SYSTEM_OBJECT_MAX \<le> cl \<and> client_tree d' = insert cl (client_tree d) \<and>
         sent (net d') = sent (net d) @ [(cl, msg_hdr UBUS_MSG_HELLO 0 cl, Built [], - 1)]"
    using r
    by (auto simp: ubusd_proto_new_client_def ubusd_send_hello_def Let_def id_tree_def
        dest!: sent_calloc sent_acl_init sent_init_retmsg sent_alloc_id sent_send_new
        split: option.splits prod.splits bool.splits if_splits)
  with ids net_wfD(1) [OF daemon_wfD(1) [OF w']] show ?thesis by (simp split: option.splits)
qed

theorem connect_greets_witness:
  "\<not> fault (net (snd (ubusd_proto_new_client ref_env 5 w_peer w_daemon)))"
proof -
  obtain x d' where r: "ubusd_proto_new_client ref_env 5 w_peer w_daemon = (x, d')" by fastforce
  from connect_greets [OF w_daemon_reach ref_env_ok r] r show ?thesis by simp
qed

end
