(* ===== verification/Props_Reentry.thy ===== *)
theory Props_Reentry
  imports Props_Libubus
begin

text \<open>
  What happens when messages arrive while a callback runs, or a callback enters the library again:
  data of a request that is being delivered, and the query of a client for its access control data.
\<close>

section \<open>Data that arrives during a callback\<close>

text \<open>Messages for a request that arrive one after the other, and the nodes they are stored in.\<close>

fun arrive :: "env \<Rightarrow> callbacks \<Rightarrow> addr \<Rightarrow> ubus_pending_msg list \<Rightarrow> lib \<Rightarrow> lib option" where
  "arrive E K req [] s = Some s"
| "arrive E K req (p # ps) s = Option.bind (ubus_process_req_data E K req (msg_buf.Queued p) s) (arrive E K req ps)"

fun stored :: "addr \<Rightarrow> ubus_pending_msg list \<Rightarrow> (addr \<times> u8) list" where
  "stored a [] = []"
| "stored a (p # ps) = (a, hdr_type (pm_hdr p)) # stored (Suc a) ps"

lemma stored_bounds: "(d, ty) \<in> set (stored a ps) \<Longrightarrow> a \<le> d \<and> d < a + length ps"
  by (induction a ps rule: stored.induct) fastforce+

lemma stored_distinct: "distinct (map fst (stored a ps))"
proof (induction a ps rule: stored.induct)
  case (2 a p ps)
  then show ?case
    using stored_bounds by fastforce
qed simp

lemma arrive_stores:
  assumes "reqs s req = Some r" "rq_blocked r" "\<And>n. calloc_ok E n"
    and "\<forall>p\<in>set ps. pm_data p < lib_next s \<and> blobs s (pm_data p) \<noteq> None"
  shows "\<exists>t. arrive E K req ps s = Some t \<and> calls t = calls s \<and> lib_fault t = lib_fault s \<and>
    reqs t req = Some (r\<lparr>rq_pending := rev (stored (lib_next s) ps) @ rq_pending r\<rparr>) \<and>
    (\<forall>a < lib_next s. blobs t a = blobs s a) \<and> (\<forall>i < length ps. blobs t (lib_next s + i) = blobs s (pm_data (ps ! i)))"
  using assms
proof (induction ps arbitrary: s r)
  case Nil
  then show ?case by simp
next
  case (Cons p ps)
  obtain d where d: "blobs s (pm_data p) = Some d" "pm_data p < lib_next s"
    using Cons.prems(4) by auto
  define r1 where "r1 = r\<lparr>rq_pending := (lib_next s, hdr_type (pm_hdr p)) # rq_pending r\<rparr>"
  define s1 where "s1 = s\<lparr>lib_calloc := Suc (lib_calloc s), blobs := (blobs s)(lib_next s \<mapsto> d),
    lib_next := Suc (lib_next s), reqs := (reqs s)(req \<mapsto> r1)\<rparr>"
  have step: "ubus_process_req_data E K req (msg_buf.Queued p) s = Some s1"
    using Cons.prems(1-3) d by (simp add: ubus_process_req_data_def req_get_def lib_alloc_def read_blob_def buf_data_def
        buf_hdr_def new_blob_def upd_req_def s1_def r1_def)
  have s1: "reqs s1 req = Some r1" "rq_blocked r1" "lib_next s1 = Suc (lib_next s)" "calls s1 = calls s"
      "lib_fault s1 = lib_fault s" "blobs s1 = (blobs s)(lib_next s \<mapsto> d)"
    using Cons.prems(2) by (simp_all add: s1_def r1_def)
  have ps: "\<forall>p\<in>set ps. pm_data p < lib_next s1 \<and> blobs s1 (pm_data p) \<noteq> None"
    using Cons.prems(4) s1(3,6) by (auto simp: less_SucI)
  have same: "blobs s1 (pm_data (ps ! i)) = blobs s (pm_data (ps ! i))" if "i < length ps" for i
  proof -
    have "pm_data (ps ! i) < lib_next s"
      using Cons.prems(4) nth_mem [OF that] by (metis list.set_intros(2))
    then show ?thesis
      using s1(6) by simp
  qed
  from Cons.IH [OF s1(1,2) Cons.prems(3) ps] obtain t where
    t: "arrive E K req ps s1 = Some t" "calls t = calls s" "lib_fault t = lib_fault s"
      "reqs t req = Some (r1\<lparr>rq_pending := rev (stored (lib_next s1) ps) @ rq_pending r1\<rparr>)"
      "\<forall>a < lib_next s1. blobs t a = blobs s1 a" "\<forall>i < length ps. blobs t (lib_next s1 + i) = blobs s1 (pm_data (ps ! i))"
    using s1(4,5) by auto
  have "blobs t (lib_next s + i) = blobs s (pm_data ((p # ps) ! i))" if "i < length (p # ps)" for i
    using that t(5,6) s1(3,6) d(1) same by (cases i) auto
  moreover have "\<forall>a < lib_next s. blobs t a = blobs s a"
    using t(5) s1(3,6) by simp
  ultimately show ?case
    using step t(1-4) s1(3) by (auto simp: r1_def)
qed

text \<open>Delivering to callbacks that only return.\<close>

lemma deliver_in_order:
  assumes "reqs s req = Some r" "rq_raw_data_cb r = Some cb" "rq_data_cb r = None" "\<not> rq_cancelled r"
    and "rq_pending r = ds" "distinct (map fst ds)" "\<forall>(d, ty)\<in>set ds. blobs s d \<noteq> None"
  shows "\<exists>s'. process_data_loop E (\<lambda>c s. Some (0, s)) req ds s = Some s' \<and> lib_fault s' = lib_fault s \<and>
    calls s' = calls s @ map (\<lambda>(d, ty). Call_data cb req ty (Whole d)) ds"
  using assms
proof (induction ds arbitrary: s r)
  case (Cons x ds)
  obtain d ty where x: "x = (d, ty)" by force
  define s1 where "s1 = s\<lparr>reqs := (reqs s)(req \<mapsto> r\<lparr>rq_pending := ds\<rparr>),
    calls := calls s @ [Call_data cb req ty (Whole d)], blobs := (blobs s)(d := None), caps := (caps s)(d := None)\<rparr>"
  have "process_data_loop E (\<lambda>c s. Some (0, s)) req (x # ds) s = process_data_loop E (\<lambda>c s. Some (0, s)) req ds s1"
    using Cons.prems x by (auto simp: upd_req_def req_data_cb_def call_void_def call_cb_def free_blob_def Let_def s1_def)
  moreover have "\<forall>(e, ty)\<in>set ds. blobs s1 e \<noteq> None"
    using Cons.prems(6,7) x by (force simp: s1_def)
  moreover have "reqs s1 req = Some (r\<lparr>rq_pending := ds\<rparr>)" "lib_fault s1 = lib_fault s"
      "calls s1 = calls s @ [Call_data cb req ty (Whole d)]"
    by (simp_all add: s1_def)
  ultimately show ?case
    using Cons.IH [of s1 "r\<lparr>rq_pending := ds\<rparr>"] Cons.prems x by auto
qed simp

text \<open>C39. Data that arrives while a data callback of its request runs is delivered in reverse order. Each
  such message is copied when it arrives, and when the callback has returned the copies are given
  to it one by one, the one that arrived last first.\<close>

theorem pending_data_reversed:
  assumes req: "reqs s req = Some r" "rq_blocked r" "rq_pending r = []" "rq_raw_data_cb r = Some cb" "rq_data_cb r = None"
      "\<not> rq_cancelled r"
    and mem: "\<And>n. calloc_ok E n" "\<forall>p\<in>set ps. pm_data p < lib_next s \<and> blobs s (pm_data p) \<noteq> None"
    and K: "K = (\<lambda>c s. Some (0, s))"
  shows "\<exists>t s'. arrive E K req ps s = Some t \<and> do_process_req_data E K req t = Some s' \<and>
    (\<forall>i < length ps. blobs t (lib_next s + i) = blobs s (pm_data (ps ! i))) \<and>
    calls s' = calls s @ map (\<lambda>(d, ty). Call_data cb req ty (Whole d)) (rev (stored (lib_next s) ps)) \<and>
    lib_fault s' = lib_fault s"
proof -
  obtain t where t: "arrive E K req ps s = Some t" "calls t = calls s" "lib_fault t = lib_fault s"
      "reqs t req = Some (r\<lparr>rq_pending := rev (stored (lib_next s) ps)\<rparr>)"
      "\<forall>i < length ps. blobs t (lib_next s + i) = blobs s (pm_data (ps ! i))"
    using arrive_stores [OF req(1,2) mem, of K] req(3) by auto
  have "blobs t d \<noteq> None" if "(d, ty) \<in> set (stored (lib_next s) ps)" for d ty
  proof -
    have i: "lib_next s + (d - lib_next s) = d" "d - lib_next s < length ps"
      using stored_bounds [OF that] by auto
    with t(5) mem(2) nth_mem [OF i(2)] show ?thesis
      by metis
  qed
  then have live: "\<forall>(d, ty)\<in>set (rev (stored (lib_next s) ps)). blobs t d \<noteq> None"
    by auto
  have "distinct (map fst (rev (stored (lib_next s) ps)))"
    by (simp add: rev_map [symmetric] stored_distinct)
  from deliver_in_order [OF t(4) _ _ _ _ this live, of cb E] req t K show ?thesis
    by (auto simp: do_process_req_data_def)
qed

theorem pending_data_reversed_witness:
  "\<exists>t s'. arrive ref_env (\<lambda>c s. Some (0, s)) 3
       [\<lparr>pm_hdr = \<lparr>hdr_version = 0, hdr_type = 2, hdr_seq = 1, hdr_peer = 9\<rparr>, pm_data = 0\<rparr>,
        \<lparr>pm_hdr = \<lparr>hdr_version = 0, hdr_type = 2, hdr_seq = 1, hdr_peer = 9\<rparr>, pm_data = 1\<rparr>]
       ((w_lib [] [])\<lparr>reqs := [3 \<mapsto> zero_request\<lparr>rq_blocked := True, rq_raw_data_cb := Some (App_data 0)\<rparr>],
          blobs := [0 \<mapsto> Raw [1], 1 \<mapsto> Raw [2]], lib_next := 4\<rparr>) = Some t \<and>
     do_process_req_data ref_env (\<lambda>c s. Some (0, s)) 3 t = Some s' \<and> blobs t 4 = Some (Raw [1]) \<and> blobs t 5 = Some (Raw [2]) \<and>
     calls s' = [Call_data (App_data 0) 3 2 (Whole 5), Call_data (App_data 0) 3 2 (Whole 4)]"
proof -
  let ?s = "(w_lib [] [])\<lparr>reqs := [3 \<mapsto> zero_request\<lparr>rq_blocked := True, rq_raw_data_cb := Some (App_data 0)\<rparr>],
          blobs := [0 \<mapsto> Raw [1], 1 \<mapsto> Raw [2]], lib_next := 4\<rparr>"
  let ?h = "\<lparr>hdr_version = 0, hdr_type = 2, hdr_seq = 1, hdr_peer = 9\<rparr>"
  have "reqs ?s 3 = Some (zero_request\<lparr>rq_blocked := True, rq_raw_data_cb := Some (App_data 0)\<rparr>)" "calls ?s = []"
    by (simp_all add: w_lib_def)
  from pending_data_reversed [OF this(1), of "App_data 0" ref_env
      "[\<lparr>pm_hdr = ?h, pm_data = 0\<rparr>, \<lparr>pm_hdr = ?h, pm_data = 1\<rparr>]", OF _ _ _ _ _ _ _ refl] this(2)
  show ?thesis
    by (auto simp: zero_request_def less_Suc_eq)
qed

section \<open>The query for access control data\<close>

text \<open>The request of the query is a static variable; it is linked exactly while a query is under way, and
  another query is deferred only then.\<close>

definition acl_linked :: "lib \<Rightarrow> bool" where
  "acl_linked s \<longleftrightarrow> distinct (requests s) \<and> (acl_query_active s \<longleftrightarrow> acl_req s \<in> set (requests s)) \<and>
     (acl_query_deferred s \<longrightarrow> acl_query_active s) \<and>
     (acl_query_active s \<longrightarrow> (\<exists>r. reqs s (acl_req s) = Some r \<and> rq_list r = Linked \<and> \<not> rq_blocked r \<and>
        rq_complete_cb r = Some Acl_query_complete_cb))"

definition acl_query_attrs :: "env \<Rightarrow> (nat \<times> blob_attr) list" where
  "acl_query_attrs E = lib_invoke_attrs E UBUS_SYSTEM_OBJECT_ACL ''query'' No_msg"

definition acl_query_frame :: "env \<Rightarrow> lib \<Rightarrow> u8 list" where
  "acl_query_frame E s =
     msg_frame E (ucast (request_seq s + 1)) (Some (Built (acl_query_attrs E))) UBUS_MSG_INVOKE UBUS_SYSTEM_OBJECT_ACL"

text \<open>The socket takes a query.\<close>

definition takes_query :: "env \<Rightarrow> lib \<Rightarrow> bool" where
  "takes_query E s \<longleftrightarrow> Snd_fail \<notin> set (sk_out s) \<and> length (acl_query_frame E s) \<le> snd_room (sk_out s) \<and>
     blob_pad_len E (Built (acl_query_attrs E)) \<le> UBUS_MAX_MSGLEN"

lemma acl_query_starts:
  assumes "\<not> acl_query_active s" "acl_req s \<notin> set (requests s)" "distinct (requests s)" "takes_query E s"
  shows "\<exists>s'. acl_query E s = Some s' \<and> acl_query_active s' \<and> acl_query_deferred s' = acl_query_deferred s \<and>
    acl_linked s' \<and> lib_fault s' = lib_fault s \<and> out s' = out s @ acl_query_frame E s"
proof -
  let ?seq = "request_seq s + 1" and ?req = "acl_req s"
  define r where "r = zero_request\<lparr>rq_fd := - 1, rq_list := Empty_node, rq_pending := [],
    rq_peer := UBUS_SYSTEM_OBJECT_ACL, rq_seq := ?seq\<rparr>"
  define s1 where "s1 = s\<lparr>acl_query_active := True, request_seq := ?seq, reqs := (reqs s)(?req \<mapsto> r)\<rparr>"
  have fr: "acl_query_frame E s = msg_frame E (ucast ?seq) (Some (Built (acl_query_attrs E))) UBUS_MSG_INVOKE UBUS_SYSTEM_OBJECT_ACL"
    by (simp add: acl_query_frame_def)
  obtain ret fds rs where send: "0 \<le> ret" "ubus_send_msg E (ucast ?seq) (Some (Built (acl_query_attrs E))) UBUS_MSG_INVOKE
      UBUS_SYSTEM_OBJECT_ACL (- 1) s1 = Some (ret, s1\<lparr>out := out s @ acl_query_frame E s, out_fds := fds, sk_out := rs\<rparr>)"
    using send_accepts [of s1 E "ucast ?seq" "Built (acl_query_attrs E)" UBUS_MSG_INVOKE UBUS_SYSTEM_OBJECT_ACL "- 1"] assms(4)
    by (auto simp: takes_query_def fr s1_def lib_close_fd_def)
  define s2 where "s2 = s1\<lparr>out := out s @ acl_query_frame E s, out_fds := fds, sk_out := rs\<rparr>"
  have start: "ubus_invoke_async E UBUS_SYSTEM_OBJECT_ACL ''query'' No_msg ?req (s\<lparr>acl_query_active := True\<rparr>) = Some (0, s2)"
    using send assms(2,4)
    by (simp add: ubus_invoke_async_def ubus_invoke_async_fd_def do_start_request_def set_req_def takes_query_def
        acl_query_attrs_def [symmetric] r_def [symmetric] s1_def [symmetric] s2_def [symmetric] Let_def)
  have s2: "reqs s2 = (reqs s)(?req \<mapsto> r)" "requests s2 = requests s" "acl_req s2 = ?req" "acl_query_active s2"
    "acl_query_deferred s2 = acl_query_deferred s" "lib_fault s2 = lib_fault s" "out s2 = out s @ acl_query_frame E s"
    by (simp_all add: s2_def s1_def)
  define s3 where "s3 = s2\<lparr>reqs := (reqs s)(?req \<mapsto> r\<lparr>rq_data_cb := Some Acl_recv_cb,
    rq_complete_cb := Some Acl_query_complete_cb, rq_list := Linked\<rparr>), requests := ?req # requests s\<rparr>"
  have "acl_query E s = Some s3"
    using start assms(1) s2 by (simp add: acl_query_def ubus_complete_request_async_def req_unlinked_def req_get_def
        upd_req_def s3_def r_def)
  with s2 assms(2,3) show ?thesis
    by (simp add: s3_def acl_linked_def r_def zero_request_def)
qed

text \<open>Completing the query unlinks its request and runs the callback, which starts a deferred query.\<close>

lemma acl_complete_runs:
  assumes "acl_linked s" "acl_query_active s"
  shows "\<exists>t. ubus_set_req_status (lib_callbacks E A (Suc d)) (acl_req s) st s = acl_query_complete_cb E t \<and>
    acl_query_active t \<and> acl_query_deferred t = acl_query_deferred s \<and> acl_req t = acl_req s \<and>
    requests t = remove1 (acl_req s) (requests s) \<and> lib_fault t = lib_fault s \<and> out t = out s \<and>
    request_seq t = request_seq s \<and> sk_out t = sk_out s"
proof -
  obtain r where r: "reqs s (acl_req s) = Some r" "rq_list r = Linked" "\<not> rq_blocked r"
      "rq_complete_cb r = Some Acl_query_complete_cb"
    using assms by (auto simp: acl_linked_def)
  have run: "lib_callbacks E A (Suc d) (Call_complete Acl_query_complete_cb a st) t =
      map_option (Pair 0) (acl_query_complete_cb E t)" for a t
    by (simp add: run_call_def complete_call_def ret_void_def)
  from r assms(2) show ?thesis
    by (simp add: ubus_set_req_status_def req_unlinked_def req_unlink_def req_get_def upd_req_def Let_def
        ubus_req_complete_cb_def call_void_def call_cb_def run option.map_comp comp_def option.map_ident del: lib_callbacks.simps)
      (rule exI, rule conjI, rule refl, simp)
qed

text \<open>C29. A client has at most one query for access control data under way. The request of the query is a
  static variable that stays linked until the answer has come. A refresh that is asked for meanwhile
  sends nothing and is only noted down, so the linked request is never overwritten; when the
  answer comes, exactly one new query is sent if a refresh was noted down, and none otherwise.\<close>

theorem acl_query_serialised:
  assumes "acl_linked s" and "takes_query E s"
  shows "(\<exists>s'. acl_query E s = Some s' \<and> acl_linked s' \<and> lib_fault s' = lib_fault s \<and> acl_query_active s' \<and>
      acl_query_deferred s' = acl_query_active s \<and> out s' = out s @ (if acl_query_active s then [] else acl_query_frame E s)) \<and>
    (acl_query_active s \<longrightarrow>
      (\<exists>s'. ubus_set_req_status (lib_callbacks E A (Suc d)) (acl_req s) st s = Some s' \<and> acl_linked s' \<and>
         lib_fault s' = lib_fault s \<and> acl_query_active s' = acl_query_deferred s \<and> \<not> acl_query_deferred s' \<and>
         out s' = out s @ (if acl_query_deferred s then acl_query_frame E s else [])))"
proof (intro conjI impI)
  show "\<exists>s'. acl_query E s = Some s' \<and> acl_linked s' \<and> lib_fault s' = lib_fault s \<and> acl_query_active s' \<and>
      acl_query_deferred s' = acl_query_active s \<and> out s' = out s @ (if acl_query_active s then [] else acl_query_frame E s)"
  proof (cases "acl_query_active s")
    case True
    with assms(1) show ?thesis
      by (auto simp: acl_query_def acl_linked_def)
  next
    case False
    with acl_query_starts [OF False] assms show ?thesis
      by (auto simp: acl_linked_def)
  qed
next
  assume act: "acl_query_active s"
  from acl_complete_runs [OF assms(1) act] obtain t where
    t: "ubus_set_req_status (lib_callbacks E A (Suc d)) (acl_req s) st s = acl_query_complete_cb E t"
      "acl_query_deferred t = acl_query_deferred s" "acl_req t = acl_req s" "requests t = remove1 (acl_req s) (requests s)"
      "lib_fault t = lib_fault s" "out t = out s" "request_seq t = request_seq s" "sk_out t = sk_out s"
    by blast
  define u where "u = t\<lparr>acl_query_active := False, acl_query_deferred := False\<rparr>"
  have off: "acl_req s \<notin> set (remove1 (acl_req s) (requests s))" "distinct (remove1 (acl_req s) (requests s))"
    using assms(1) by (simp_all add: acl_linked_def distinct_remove1)
  have u: "\<not> acl_query_active u" "acl_req u \<notin> set (requests u)" "distinct (requests u)" "takes_query E u" "lib_fault u = lib_fault s"
      "\<not> acl_query_deferred u" "out u = out s" "acl_query_frame E u = acl_query_frame E s"
    using t off assms(2) by (simp_all add: u_def takes_query_def acl_query_frame_def)
  show "\<exists>s'. ubus_set_req_status (lib_callbacks E A (Suc d)) (acl_req s) st s = Some s' \<and> acl_linked s' \<and>
         lib_fault s' = lib_fault s \<and> acl_query_active s' = acl_query_deferred s \<and> \<not> acl_query_deferred s' \<and>
         out s' = out s @ (if acl_query_deferred s then acl_query_frame E s else [])"
  proof (cases "acl_query_deferred s")
    case True
    with acl_query_starts [OF u(1-4)] u t(1,2) show ?thesis
      by (auto simp: acl_query_complete_cb_def u_def)
  next
    case False
    have "acl_query_complete_cb E t = Some (t\<lparr>acl_query_active := False\<rparr>)"
      using False t(2) by (simp add: acl_query_complete_cb_def)
    moreover have "acl_linked (t\<lparr>acl_query_active := False\<rparr>)"
      using t False off by (simp add: acl_linked_def)
    ultimately show ?thesis
      using False t by auto
  qed
qed

definition w_query :: lib where
  "w_query = (w_lib [] [Snd 100])\<lparr>acl_req := 3, acl_query_active := True, acl_query_deferred := True, requests := [3],
     reqs := [3 \<mapsto> zero_request\<lparr>rq_list := Linked, rq_complete_cb := Some Acl_query_complete_cb\<rparr>]\<rparr>"

theorem acl_query_serialised_witness:
  "(\<exists>s'. acl_query ref_env w_query = Some s' \<and> requests s' = [3] \<and> out s' = []) \<and>
    (\<exists>s'. ubus_set_req_status (lib_callbacks ref_env (\<lambda>_ _ _. None) 1) 3 0 w_query = Some s' \<and> acl_query_active s' \<and>
       \<not> acl_query_deferred s' \<and> \<not> lib_fault s' \<and> out s' = acl_query_frame ref_env w_query)"
proof -
  have s: "acl_linked w_query" "acl_req w_query = 3" "acl_query_active w_query" "acl_query_deferred w_query" "\<not> lib_fault w_query"
      "out w_query = []" "requests w_query = [3]"
    by (simp_all add: w_query_def w_lib_def acl_linked_def zero_request_def)
  have "takes_query ref_env w_query"
    by (simp add: takes_query_def w_query_def w_lib_def acl_query_frame_def acl_query_attrs_def lib_invoke_attrs_def
        ubus_put_data_def msg_frame_def blob_image_def blob_pad_len_def ref_encode_def be32_bytes_def be32_of_def
        HDR_SIZE_def UBUS_MAX_MSGLEN_def UBUS_SYSTEM_OBJECT_ACL_def Let_def)
  from acl_query_serialised [OF s(1) this, of "\<lambda>_ _ _. None" 0 0] s show ?thesis
    by (auto simp: acl_query_def simp del: lib_callbacks.simps)
qed

section \<open>A hook that makes a call\<close>

text \<open>C40. A hook that runs before a method must not use the bus. When the hook \<open>pre_invoke\<close> makes a call
  that is answered by a status message, the parsed attributes of the incoming call, which are in a
  static array, have been replaced by those of the answer. The library then takes the name of the
  method from a null pointer, although the call itself was complete.\<close>

theorem hook_call_clobbers:
  assumes "lib_ok E" and "\<And>i. calloc_ok E i"
    and call: "attr_at UBUS_ATTR_METHOD s = Some name" "attr_at UBUS_ATTR_DATA s = Some data" "\<not> lib_fault s"
    and hook: "pre_invoke s = Some h" "c = Call_pre_invoke h a (m_name m) rd (msg_ptr_of (Some data))"
      "t = s\<lparr>calls := calls s @ [c]\<rparr>"
      "A (lib_callbacks E A (Suc n)) c t = ubus_invoke_fd E (lib_callbacks E A (Suc n)) obj meth msg None 0 0 (- 1) t"
    and out: "Snd_fail \<notin> set (sk_out s)" "length frame \<le> snd_room (sk_out s)"
      "blob_pad_len E (Built (lib_invoke_attrs E obj meth msg)) \<le> UBUS_MAX_MSGLEN"
    and frame: "frame = msg_frame E (ucast (request_seq s + 1)) (Some (Built (lib_invoke_attrs E obj meth msg))) UBUS_MSG_INVOKE obj"
    and ins: "msgbuf_wf s" "in_good (sk_in s)" "in_ready (sk_in s)" "in_stream (sk_in s) =
        hdr_bytes \<lparr>hdr_version = 0, hdr_type = ubus_msg_code UBUS_MSG_STATUS, hdr_seq = request_seq s + 1,
                   hdr_peer = obj\<rparr> @ bs @ rest" "framed E bs"
    and answer: "blob_parse E lib_policy (Raw bs) UBUS_ATTR_STATUS = Some v" "blob_get_u32 E v = 0"
      "blob_parse E lib_policy (Raw bs) UBUS_ATTR_METHOD = None"
    and idle: "0 \<le> stack_depth s" "lib_pending s = []" "\<not> sock_eof s" "lib_next s \<notin> set (requests s)"
  shows "\<exists>s'. invoke_found E (lib_callbacks E A (Suc (Suc n))) (Some a) (Some m) rd no_reply s = Some s' \<and>
    lib_fault s' \<and> out s' = out s @ frame"
proof -
  have t: "msgbuf_wf t" "Snd_fail \<notin> set (sk_out t)" "length frame \<le> snd_room (sk_out t)" "in_good (sk_in t)" "in_ready (sk_in t)"
      "in_stream (sk_in t) = hdr_bytes \<lparr>hdr_version = 0, hdr_type = ubus_msg_code UBUS_MSG_STATUS,
         hdr_seq = request_seq t + 1, hdr_peer = obj\<rparr> @ bs @ rest"
      "frame = msg_frame E (ucast (request_seq t + 1)) (Some (Built (lib_invoke_attrs E obj meth msg))) UBUS_MSG_INVOKE obj"
      "0 \<le> stack_depth t" "lib_pending t = []" "\<not> sock_eof t" "lib_next t \<notin> set (requests t)" "out t = out s"
    using out ins idle frame by (simp_all add: hook(3) msgbuf_wf_def)
  from invoke_answered_lemma [OF assms(1,2) t(1-3) out(3) t(7,4-6) ins(5) answer(1) t(8-11), of A n None 0 "- 1"]
  obtain u where u: "ubus_invoke_fd E (lib_callbacks E A (Suc n)) obj meth msg None 0 0 (- 1) t = Some (0, u)"
      "out u = out s @ frame" "snd (attrbuf u) = blob_parse E lib_policy (Raw bs)"
    using answer(2) t(12) by auto
  have "lib_callbacks E A (Suc (Suc n)) c t = Some (0, u)"
    using hook(2,4) u(1) by (simp add: lib_callbacks.simps(2) [of E A "Suc n"] run_call_def del: lib_callbacks.simps)
  moreover have "attr_at UBUS_ATTR_METHOD u = None"
    using u(3) answer(3) by (simp add: attr_at_def)
  ultimately have "invoke_found E (lib_callbacks E A (Suc (Suc n))) (Some a) (Some m) rd no_reply s = Some (lfault u)"
    using call(2) hook(1-3) by (simp add: invoke_found_def call_cb_def del: lib_callbacks.simps)
  with u(2) show ?thesis
    by (simp add: lfault_def)
qed

definition w_hooked :: lib where
  "w_hooked = (w_lib (w_pieces (writev_iov wire_env (w_status 1 9 0) 0)) [Snd 100])\<lparr>stack_depth := 1, msgbuf_data := None,
     pre_invoke := Some 0, attrbuf := (0, [UBUS_ATTR_METHOD \<mapsto> Blob_string ''m'', UBUS_ATTR_DATA \<mapsto> Blob_bytes []])\<rparr>"

text \<open>The application: its hook calls the method \<open>m\<close> of object 9.\<close>

definition w_hook :: app where
  "w_hook K c s = ubus_invoke_fd wire_env K 9 ''m'' No_msg None 0 0 (- 1) s"

theorem hook_call_clobbers_witness:
  "\<exists>s'. invoke_found wire_env (lib_callbacks wire_env w_hook 2) (Some 5)
     (Some \<lparr>m_name = None, m_handler = App_method 0, m_mask = 0, m_policy = []\<rparr>) 7 False w_hooked = Some s' \<and> lib_fault s'"
proof -
  let ?b = "w_status 1 9 0" and ?at = "lib_invoke_attrs wire_env 9 ''m'' No_msg"
  let ?frame = "msg_frame wire_env (ucast (request_seq w_hooked + 1)) (Some (Built ?at)) UBUS_MSG_INVOKE 9"
  define bs where "bs = blob_image wire_env (ub_data ?b)"
  have im: "bs = [0, 0, 0, 12, 1, 0, 0, 8] @ be32_bytes 0"
    using w_status_image [of 0] by (simp add: bs_def w_status_def blob_image_def)
  have fr: "framed wire_env bs"
    unfolding im by (simp add: framed_def ATTR_SIZE_def UBUS_MAX_MSGLEN_def be32_of_def)
  have v: "blob_parse wire_env lib_policy (Raw bs) UBUS_ATTR_STATUS = Some (Blob_int32 0)" "blob_get_u32 wire_env (Blob_int32 0) = 0"
      "blob_parse wire_env lib_policy (Raw bs) UBUS_ATTR_METHOD = None"
    unfolding im by (simp_all add: wire_parse_def wire_value_def be32_bytes_def be32_of_def)
  have at: "blob_image wire_env (Built ?at) = [0, 0, 0, 22, 3, 0, 0, 8, 0, 0, 0, 9, 4, 0, 0, 6, 109, 0, 7, 0, 0, 4]"
    by (simp add: blob_image_def lib_invoke_attrs_def ubus_put_data_def ref_encode_def be32_bytes_def Let_def)
  have out: "Snd_fail \<notin> set (sk_out w_hooked)" "length ?frame \<le> snd_room (sk_out w_hooked)"
    "blob_pad_len wire_env (Built ?at) \<le> UBUS_MAX_MSGLEN"
    by (simp_all add: w_hooked_def w_lib_def msg_frame_def blob_pad_len_def at HDR_SIZE_def be32_of_def UBUS_MAX_MSGLEN_def)
  have idle: "0 \<le> stack_depth w_hooked" "lib_pending w_hooked = []" "\<not> sock_eof w_hooked" "lib_next w_hooked \<notin> set (requests w_hooked)"
    "request_seq w_hooked + 1 = 1" "msgbuf_wf w_hooked" "\<not> lib_fault w_hooked" "pre_invoke w_hooked = Some 0"
    "attr_at UBUS_ATTR_METHOD w_hooked = Some (0, Blob_string ''m'')" "attr_at UBUS_ATTR_DATA w_hooked = Some (0, Blob_bytes [])"
    by (simp_all add: w_hooked_def w_lib_def msgbuf_wf_def attr_at_def UBUS_MSG_CHUNK_SIZE_def UBUS_MAX_MSGLEN_def)
  have len: "5 < length (writev_iov wire_env ?b 0)"
    by (simp add: writev_iov_def HDR_SIZE_def)
  have "ub_len ?b = blob_raw_len wire_env (ub_data ?b)"
    unfolding blob_raw_len_def bs_def [symmetric] im by (simp add: be32_of_def w_status_def)
  then have iov: "writev_iov wire_env ?b 0 = hdr_bytes \<lparr>hdr_version = 0, hdr_type = ubus_msg_code UBUS_MSG_STATUS,
      hdr_seq = request_seq w_hooked + 1, hdr_peer = 9\<rparr> @ bs @ []"
    unfolding idle(5) by (simp add: writev_iov_def bs_def blob_raw_len_def w_status_def)
  have sk: "sk_in w_hooked = w_pieces (writev_iov wire_env ?b 0)"
    by (simp add: w_hooked_def w_lib_def)
  note ins = w_pieces_ok(1-3) [OF len, folded sk, unfolded iov]
  have "\<And>i. calloc_ok wire_env i" by simp
  from hook_call_clobbers [where A = w_hook and n = 0 and a = 5 and rd = 7 and no_reply = False and meth = "''m''"
      and m = "\<lparr>m_name = None, m_handler = App_method 0, m_mask = 0, m_policy = []\<rparr>",
      OF wire_env_ok this idle(9,10,7,8) refl refl w_hook_def out refl idle(6) ins fr v idle(1-4)]
  show ?thesis
    by (auto simp: numeral_2_eq_2 simp del: lib_callbacks.simps)
qed

end
