(* ===== verification/Props_Registry.thy ===== *)
theory Props_Registry
  imports Ubusd_Exec
begin

text \<open>
  Objects and subscriptions: what creating and removing an object and subscribing to one does to
  the registry, as refinements of the operations on it.
\<close>

lemma reach_st_wf: "ubusd_reach E d \<Longrightarrow> lib_ok E \<Longrightarrow> st_wf (\<lambda>_. 0) (\<lambda>_. 0) d"
  using daemon_wfD [OF invD(1) [OF reach_inv]] by (simp add: st_wf_def)

lemma lib_ok_avl: "lib_ok E \<Longrightarrow> avl_law E"
  by (simp add: lib_ok_def)

section \<open>Objects\<close>

text \<open>C19. Adding an object either fails and leaves the registry as it was, or registers one new object
  under a fresh id outside the reserved range: it is owned by the client, listed first among its
  objects, of the requested type, and linked in the path tree when a path was given, which then was
  free and which the client may publish. Nothing else changes but the table of object types.\<close>

theorem create_object_registers:
  assumes "ubusd_reach E d" and "lib_ok E" and "clients (net d) cl = Some c"
    and "ubusd_create_object E cl attr d = (x, d')"
  shows "\<not> fault (net d') \<and>
    (case x of None \<Rightarrow> reg d' = reg d
      | Some oid \<Rightarrow> oid \<notin> dom (objects d) \<and> UBUS_SYSTEM_OBJECT_MAX \<le> oid \<and>
          (\<exists>ty T. reg d' = r_attach cl oid
             ((case attr UBUS_ATTR_OBJPATH of None \<Rightarrow> (\<lambda>r. r)
               | Some pa \<Rightarrow> r_publish E oid (blob_str E pa)) (r_fresh oid ty ((reg d)\<lparr>r_types := T\<rparr>)))) \<and>
          (\<forall>pa. attr UBUS_ATTR_OBJPATH = Some pa \<longrightarrow>
             ubusd_acl_check d (client_of d (Some cl)) (Some (blob_str E pa)) None UBUS_ACL_PUBLISH = 0 \<and>
             blob_str E pa \<notin> fst ` set (path d)))"
  using create_object_ok [OF reach_st_wf lib_ok_avl, OF assms(1,2,2,3,4)]
  by (auto dest: net_wfD(1) st_wfD(1) split: option.splits)

theorem create_object_registers_witness:
  "\<exists>d'. ubusd_create_object ref_env 7000 Map.empty w_daemon = (Some 8000, d') \<and>
     8000 \<notin> dom (objects w_daemon) \<and> \<not> fault (net d')"
proof -
  obtain c where c: "clients (net w_daemon) 7000 = Some c" using w_daemon_client by auto
  obtain x d' where r: "ubusd_create_object ref_env 7000 Map.empty w_daemon = (x, d')" by fastforce
  have "fst (ubusd_create_object ref_env 7000 Map.empty w_daemon) = Some 8000"
    by (simp add: w_daemon_def w_peer_def start_exec msg_exec client_exec ubusd_create_object_def
        obj_type_of_attrs_def Let_def)
  with r create_object_registers [OF w_daemon_reach ref_env_ok c r] show ?thesis by simp
qed

text \<open>C20. Removing an object takes exactly that object out of the registry, with its subscriptions in
  both directions, its event patterns, its path, its entry in the list of its client and one
  reference to its type, which goes when it was the last.\<close>

theorem free_object_removes:
  assumes "ubusd_reach E d" and "lib_ok E" and "oid \<in> dom (objects d)"
  shows "\<not> fault (net (ubusd_free_object E oid d)) \<and>
    reg (ubusd_free_object E oid d) =
      r_delete oid (r_clear_patterns oid
        (r_drop_subs {a. \<exists>s. subs d a = Some s \<and> (sub_subscriber s = oid \<or> sub_target s = oid)} (reg d)))"
proof -
  note st = reach_st_wf [OF assms(1,2)]
  note e = subs_okD [OF reg_wfD(5) [OF st_wfD(2) [OF st]]] and f = free_object_ok [OF st, of oid E]
  have "set (r_targets (reg d) oid) \<union> set (r_subscribers (reg d) oid) =
      {a. \<exists>s. r_subs (reg d) a = Some s \<and> (sub_subscriber s = oid \<or> sub_target s = oid)}"
    using e(3,4,7,8) by blast
  with f assms(3) show ?thesis by (auto simp: r_remove_def dest: net_wfD(1) st_wfD(1))
qed

theorem free_object_removes_witness: "\<not> fault (net (ubusd_free_object ref_env 1 w_daemon))"
  using free_object_removes [OF w_daemon_reach ref_env_ok, of 1] w_daemon_object by auto

section \<open>Subscriptions\<close>

text \<open>C21. A client subscribes an object to another one only when it owns the first, the second belongs
  to a different client, and the access control rules allow it, which for an object without a path
  means that both clients run as the same user or group. Then exactly one subscription between the
  two is added. In every other case the reply is an error and the registry is unchanged.\<close>

theorem add_watch_guarded:
  assumes "ubusd_reach E d" and "lib_ok E" and c: "clients (net d) cl = Some c"
    and r: "ubusd_handle_add_watch E cl ub attr d = (ret, d')"
  shows "\<not> fault (net d') \<and>
    (if ret = Status UBUS_STATUS_OK then
       \<exists>ia ta tob tc tcl. attr UBUS_ATTR_OBJID = Some ia \<and> attr UBUS_ATTR_TARGET = Some ta \<and>
         (let oid = blob_get_u32 E ia; target = blob_get_u32 E ta in
          owner d oid = Some cl \<and> objects d target = Some tob \<and> obj_client tob = Some tc \<and> tc \<noteq> cl \<and>
          clients (net d) tc = Some tcl \<and>
          (case obj_path tob of
             None \<Rightarrow> same_name (cl_user tcl) (cl_user c) \<or> same_name (cl_group tcl) (cl_group c)
           | Some p \<Rightarrow> ubusd_acl_check d (Some c) (Some p) None UBUS_ACL_SUBSCRIBE = 0) \<and>
          reg d' = r_subscribe oid target (reg d))
     else reg d' = reg d)"
proof -
  note st = reach_st_wf [OF assms(1,2)]
  have nf: "\<not> fault (net d)" by (rule net_wfD(1) [OF st_wfD(1) [OF st]])
  note o = owners_okD [OF reg_wfD(1) [OF st_wfD(2) [OF st]]]
  consider "d' = d" and "ret \<noteq> Status UBUS_STATUS_OK"
    | ia ta ob tob tc tcl st' where "attr UBUS_ATTR_OBJID = Some ia" "attr UBUS_ATTR_TARGET = Some ta"
      "objects d (blob_get_u32 E ia) = Some ob" "obj_client ob = Some cl"
      "objects d (blob_get_u32 E ta) = Some tob" "obj_client tob = Some tc" "tc \<noteq> cl" "clients (net d) tc = Some tcl"
      "case obj_path tob of
             None \<Rightarrow> same_name (cl_user tcl) (cl_user c) \<or> same_name (cl_group tcl) (cl_group c)
           | Some p \<Rightarrow> ubusd_acl_check d (Some c) (Some p) None UBUS_ACL_SUBSCRIBE = 0"
      "ret = Status st'" "ubus_subscribe E (blob_get_u32 E ia) (blob_get_u32 E ta) d = (st', d')"
  proof -
    have "clients (net d) tc \<noteq> None" if "objects d i = Some ob" "obj_client ob = Some tc" for i ob tc
      using o(7) [of i tc] that by (auto simp: obj_field_def)
    then show ?thesis
      using r c that
      by (force simp: ubusd_handle_add_watch_def ubusd_find_object_def ubus_find_id_def Let_def
          split: option.splits if_splits prod.splits)
  qed
  then show ?thesis
  proof cases
    case 1
    with nf show ?thesis by simp
  next
    case (2 ia ta ob tob tc tcl st')
    have own: "owner d (blob_get_u32 E ia) = Some cl" "owner d (blob_get_u32 E ta) = Some tc"
      using 2 by (simp_all add: owner_def obj_field_def)
    then have ne: "blob_get_u32 E ia \<noteq> blob_get_u32 E ta" using 2(7) by auto
    note s = subscribe_ok [OF st _ _ ne 2(11)]
    have "\<not> fault (net d')" using s(1) own net_wfD(1) st_wfD(1) by blast
    then show ?thesis using s(2) own 2 by (auto simp: Let_def)
  qed
qed

theorem add_watch_guarded_witness:
  "reg (snd (ubusd_handle_add_watch ref_env 7000 0
     [UBUS_ATTR_OBJID \<mapsto> Blob_int32 1, UBUS_ATTR_TARGET \<mapsto> Blob_int32 2] w_daemon)) = reg w_daemon"
proof -
  let ?attr = "[UBUS_ATTR_OBJID \<mapsto> Blob_int32 1, UBUS_ATTR_TARGET \<mapsto> Blob_int32 2]"
  obtain c where c: "clients (net w_daemon) 7000 = Some c" using w_daemon_client by auto
  obtain ret d' where r: "ubusd_handle_add_watch ref_env 7000 0 ?attr w_daemon = (ret, d')" by fastforce
  have "owner w_daemon 1 = None"
    by (simp add: owner_def obj_field_def w_daemon_def w_peer_def start_exec msg_exec client_exec Let_def)
  with add_watch_guarded [OF w_daemon_reach ref_env_ok c r] r show ?thesis by (auto simp: Let_def split: if_splits)
qed

end
