(* ===== verification/Props_Requests.thy ===== *)
theory Props_Requests
  imports Props_Libubus
begin

text \<open>
  Requests of a client: which answers complete them, that a lost connection completes them all, and
  that a call gets the answer the daemon sends. \<open>K\<close> is what callbacks do.
\<close>

section \<open>Notifications\<close>

text \<open>The subscribers a message announces.\<close>

definition announced :: "env \<Rightarrow> blob \<Rightarrow> u32 list" where
  "announced E d =
     (case blob_parse E lib_policy d UBUS_ATTR_SUBSCRIBERS of
        None \<Rightarrow> [] | Some a \<Rightarrow> notify_ids E (blob_nested a))"

lemma nreqs_attrbuf_swap: "s\<lparr>nreqs := x, attrbuf := y\<rparr> = s\<lparr>attrbuf := y, nreqs := x\<rparr>"
  by (rule lib.equality) simp_all

lemma nreq_wf_clear:
  "nreq_wf n \<Longrightarrow> nreq_wf (n\<lparr>nq_pending := nq_pending n AND NOT (push_bit i 1)\<rparr>)"
  using waits_clear [of n i] by (auto simp: nreq_wf_def)

lemma notify_peers_first:
  assumes "nreq_wf n"
  shows "nreq_wf (notify_peers_loop E as 1 n)"
    "waits (notify_peers_loop E as 1 n) = waits n \<union> {1..min UBUS_MAX_NOTIFY_PEERS (length (notify_ids E as))}"
    "j < min UBUS_MAX_NOTIFY_PEERS (length (notify_ids E as)) \<Longrightarrow>
       nq_id (notify_peers_loop E as 1 n) ! Suc j = notify_ids E as ! j"
proof -
  let ?k = "min (length (notify_ids E as)) UBUS_MAX_NOTIFY_PEERS"
  have one: "1 \<le> UBUS_MAX_NOTIFY_PEERS"
    by (simp add: UBUS_MAX_NOTIFY_PEERS_def)
  have spec: "nreq_wf (notify_peers_loop E as 1 n)"
    "waits (notify_peers_loop E as 1 n) = waits n \<union> {1..<1 + ?k}"
    "nq_id (notify_peers_loop E as 1 n) = take 1 (nq_id n) @ take ?k (notify_ids E as) @ drop (1 + ?k) (nq_id n)"
    using notify_peers_loop_spec [OF assms order_refl one, of E as] by (simp_all add: Let_def)
  show "nreq_wf (notify_peers_loop E as 1 n)"
    by (rule spec)
  show "waits (notify_peers_loop E as 1 n) = waits n \<union> {1..min UBUS_MAX_NOTIFY_PEERS (length (notify_ids E as))}"
    unfolding spec(2) by (auto simp: min.commute)
  assume "j < min UBUS_MAX_NOTIFY_PEERS (length (notify_ids E as))"
  moreover obtain x xs where "nq_id n = x # xs"
    using assms by (cases "nq_id n") (auto simp: nreq_wf_def)
  ultimately show "nq_id (notify_peers_loop E as 1 n) ! Suc j = notify_ids E as ! j"
    unfolding spec(3) by (simp add: nth_append)
qed

text \<open>C17. A notification waits for exactly the right answers. The first status message comes from the
  daemon and names the subscribers; from then on the request waits for the first sixteen of them.
  A status message of one of them takes away that one. The array of ids is never left, and the
  request is completed exactly when nobody is waited for any more.\<close>

theorem notify_tracks_peers:
  assumes n: "nreqs s req = Some n" "nreq_wf n" "nq_status_cb n = None"
    and found: "ubus_find_notify_id n peer = (int i, bad)"
    and d: "blobs s (buf_data buf s) = Some d"
  shows "\<exists>s' n'. ubus_process_notify_status E K req i buf s =
      (if waits n' = {} then ubus_set_req_status K req 0 s' else Some s') \<and>
    \<not> bad \<and> i \<in> waits n \<and> nq_id n ! i = peer \<and>
    nreqs s' = (nreqs s)(req \<mapsto> n') \<and> nreq_wf n' \<and>
    waits n' = waits n - {i} \<union> (if i = 0 then {1..min UBUS_MAX_NOTIFY_PEERS (length (announced E d))} else {}) \<and>
    (i = 0 \<longrightarrow> (\<forall>j<min UBUS_MAX_NOTIFY_PEERS (length (announced E d)). nq_id n' ! Suc j = announced E d ! j)) \<and>
    reqs s' = reqs s \<and> requests s' = requests s \<and> lib_fault s' = lib_fault s"
proof -
  define n1 where "n1 = n\<lparr>nq_pending := nq_pending n AND NOT (push_bit i 1)\<rparr>"
  define s1 where "s1 = s\<lparr>nreqs := (nreqs s)(req \<mapsto> n1)\<rparr>"
  have n1: "nreq_wf n1" "waits n1 = waits n - {i}" "nq_status_cb n1 = None"
    using nreq_wf_clear [OF n(2), of i] waits_clear [of n i] n(3) by (simp_all add: n1_def)
  have s1: "upd_nreq req (\<lambda>n. n\<lparr>nq_pending := nq_pending n AND NOT (push_bit i 1)\<rparr>) s = s1"
    "buf_data buf s1 = buf_data buf s" "blobs s1 = blobs s"
    using n(1) by (simp_all add: upd_nreq_def s1_def n1_def buf_data_def split: msg_buf.split option.split)
  define s2 where "s2 = s1\<lparr>attrbuf := (buf_data buf s, blob_parse E lib_policy d)\<rparr>"
  have parse: "lib_parse_msg E (buf_data buf s1) s1 = (blob_parse E lib_policy d, s2)"
    using d s1 by (simp add: lib_parse_msg_def read_blob_def s2_def Let_def)
  have at: "\<not> bad" "i \<in> waits n" "nq_id n ! i = peer"
    using find_notify_id [OF n(2), of peer] found by auto
  show ?thesis
  proof (cases "i = 0")
    case True
    define n' where "n' = (case blob_parse E lib_policy d UBUS_ATTR_SUBSCRIBERS of
      None \<Rightarrow> n1 | Some a \<Rightarrow> notify_peers_loop E (blob_nested a) 1 n1)"
    define s' where "s' = s2\<lparr>nreqs := (nreqs s)(req \<mapsto> n')\<rparr>"
    have n': "nreq_wf n'"
      "waits n' = waits n - {i} \<union> {1..min UBUS_MAX_NOTIFY_PEERS (length (announced E d))}"
      "\<forall>j<min UBUS_MAX_NOTIFY_PEERS (length (announced E d)). nq_id n' ! Suc j = announced E d ! j"
      using n1 notify_peers_first [OF n1(1)]
      by (auto simp: n'_def announced_def split: option.split)
    have "ubus_process_notify_status E K req i buf s =
        (if waits n' = {} then ubus_set_req_status K req 0 s' else Some s')"
      using True parse unfolding ubus_process_notify_status_def s1(1) Let_def
      by (auto simp: s'_def n'_def s2_def s1_def upd_nreq_def waits_empty nreqs_attrbuf_swap split: option.split)
    moreover have "nreqs s' = (nreqs s)(req \<mapsto> n')" "reqs s' = reqs s" "requests s' = requests s"
      "lib_fault s' = lib_fault s"
      by (simp_all add: s'_def s2_def s1_def)
    ultimately show ?thesis
      using True at n' by (intro exI [of _ s'] exI [of _ n']) simp
  next
    case False
    have "ubus_process_notify_status E K req i buf s =
        (if waits n1 = {} then ubus_set_req_status K req 0 s2 else Some s2)"
      using False parse n1(3) unfolding ubus_process_notify_status_def s1(1) Let_def ubus_get_status_def
      by (simp add: s2_def s1_def waits_empty)
    moreover have "nreqs s2 = (nreqs s)(req \<mapsto> n1)" "reqs s2 = reqs s" "requests s2 = requests s"
      "lib_fault s2 = lib_fault s"
      by (simp_all add: s2_def s1_def)
    ultimately show ?thesis
      using False at n1 by (intro exI [of _ s2] exI [of _ n1]) simp
  qed
qed

definition w_announce :: lib where
  "w_announce = (w_lib [] [])\<lparr>
     blobs := [0 \<mapsto> Built [(ubus_attr_code UBUS_ATTR_SUBSCRIBERS, Blob_nest [(0, Blob_int32 40), (0, Blob_int32 41)])]],
     nreqs := [5 \<mapsto> zero_nreq\<lparr>nq_pending := 1, nq_id := 9 # replicate 16 0\<rparr>]\<rparr>"

theorem notify_tracks_peers_witness:
  "\<exists>s' n'. ubus_process_notify_status ref_env (\<lambda>c s. None) 5 0 Msgbuf w_announce = Some s' \<and>
     nreqs s' = (nreqs w_announce)(5 \<mapsto> n') \<and> waits n' = {1, 2} \<and> nq_id n' ! 1 = 40 \<and> nq_id n' ! 2 = 41"
proof -
  let ?n = "zero_nreq\<lparr>nq_pending := 1, nq_id := 9 # replicate 16 0\<rparr>"
  let ?d = "Built [(ubus_attr_code UBUS_ATTR_SUBSCRIBERS, Blob_nest [(0, Blob_int32 40), (0, Blob_int32 41)])]"
  have w: "waits ?n = {0}"
    by (auto simp: waits_def bit_1_iff)
  have n: "nreqs w_announce 5 = Some ?n" "nreq_wf ?n" "nq_status_cb ?n = None"
    using w by (simp_all add: w_announce_def nreq_wf_def zero_nreq_def UBUS_MAX_NOTIFY_PEERS_def)
  have f: "ubus_find_notify_id ?n 9 = (int 0, False)"
    by (simp add: ubus_find_notify_id_def find_notify_loop.simps)
  have d: "blobs w_announce (buf_data Msgbuf w_announce) = Some ?d"
    by (simp add: w_announce_def w_lib_def buf_data_def)
  have a: "announced ref_env ?d = [40, 41]"
    by (simp add: announced_def ref_lookup_def blob_nested_def notify_ids_def blob_check_int32_def)
  have m: "min UBUS_MAX_NOTIFY_PEERS (length [40, 41 :: u32]) = 2"
    by (simp add: UBUS_MAX_NOTIFY_PEERS_def)
  from notify_tracks_peers [OF n f d, of ref_env "\<lambda>c s. None"] obtain s' n' where
    r: "ubus_process_notify_status ref_env (\<lambda>c s. None) 5 0 Msgbuf w_announce =
      (if waits n' = {} then ubus_set_req_status (\<lambda>c s. None) 5 0 s' else Some s')"
    and x: "nreqs s' = (nreqs w_announce)(5 \<mapsto> n')" "waits n' = {0} - {0} \<union> (if (0 :: nat) = 0 then {1..2} else {})"
      "(0 :: nat) = 0 \<longrightarrow> (\<forall>j<2. nq_id n' ! Suc j = [40, 41] ! j)"
    unfolding a m w by blast
  have wn: "waits n' = {1, 2}"
    unfolding x(2) by auto
  with r x(1) spec [OF mp [OF x(3) refl], of 0] spec [OF mp [OF x(3) refl], of 1] show ?thesis
    by (intro exI [of _ s'] exI [of _ n']) (simp add: numeral_2_eq_2)
qed

section \<open>Lost connections\<close>



section \<open>Calls\<close>

text \<open>C8. A call returns the answer of the daemon. When the socket takes the request and the status
  message that the daemon wrote for it is next in the input, in whatever pieces it arrives,
  \<open>ubus_invoke\<close> returns, its result is the status in that message, exactly the bytes of the request
  have been sent, and nothing is left of the request: it is off the list, and neither the nesting
  depth nor the rest of the input has changed.\<close>

theorem invoke_answered:
  assumes "lib_ok E" and "\<forall>i. calloc_ok E i" and "msgbuf_wf s"
    and out: "Snd_fail \<notin> set (sk_out s)" "length frame \<le> snd_room (sk_out s)"
      "blob_pad_len E (Built (lib_invoke_attrs E obj meth msg)) \<le> UBUS_MAX_MSGLEN"
    and frame: "frame = msg_frame E (ucast (request_seq s + 1)) (Some (Built (lib_invoke_attrs E obj meth msg))) UBUS_MSG_INVOKE obj"
    and ins: "in_good (sk_in s)" "in_ready (sk_in s)" "in_stream (sk_in s) = writev_iov E b 0 @ rest"
    and b: "ub_hdr b = \<lparr>hdr_version = 0, hdr_type = ubus_msg_code UBUS_MSG_STATUS, hdr_seq = request_seq s + 1, hdr_peer = obj\<rparr>"
      "framed E (blob_image E (ub_data b))" "ub_len b = blob_raw_len E (ub_data b)"
      "blob_parse E lib_policy (Raw (blob_image E (ub_data b))) UBUS_ATTR_STATUS = Some v"
    and idle: "0 \<le> stack_depth s" "lib_pending s = []" "\<not> sock_eof s" "lib_next s \<notin> set (requests s)"
  shows "\<exists>s'. ubus_invoke_fd E (lib_callbacks E A (Suc n)) obj meth msg cb priv 0 fd s =
      Some (sint (blob_get_u32 E v), s') \<and> out s' = out s @ frame \<and> requests s' = requests s \<and>
    reqs s' (lib_next s) = None \<and> stack_depth s' = stack_depth s \<and> lib_fault s' = lib_fault s \<and>
    in_stream (sk_in s') = rest"
proof -
  have "in_stream (sk_in s) = hdr_bytes \<lparr>hdr_version = 0, hdr_type = ubus_msg_code UBUS_MSG_STATUS,
      hdr_seq = request_seq s + 1, hdr_peer = obj\<rparr> @ blob_image E (ub_data b) @ rest"
    using ins(3) b(1,3) by (simp add: writev_iov_def blob_raw_len_def)
  from invoke_answered_lemma [OF assms(1) _ assms(3) out frame ins(1,2) this b(2,4) idle, of A n cb priv fd] assms(2)
  show ?thesis by blast
qed

definition w_call :: lib where
  "w_call = w_lib (w_pieces (writev_iov wire_env (w_status 1 9 4) 0)) [Snd 10, Snd_again, Snd 100]"

theorem invoke_answered_witness:
  "\<exists>s'. ubus_invoke_fd wire_env (lib_callbacks wire_env (\<lambda>_ _ _. None) 1) 9 ''m'' No_msg None 0 0 (- 1) w_call = Some (4, s') \<and>
     requests s' = [] \<and> reqs s' 1 = None \<and> in_stream (sk_in s') = []"
proof -
  let ?b = "w_status 1 9 4" and ?at = "lib_invoke_attrs wire_env 9 ''m'' No_msg"
  let ?frame = "msg_frame wire_env (ucast (request_seq w_call + 1)) (Some (Built ?at)) UBUS_MSG_INVOKE 9"
  have im: "blob_image wire_env (ub_data ?b) = [0, 0, 0, 12, 1, 0, 0, 8] @ be32_bytes 4"
    using w_status_image [of 4] by (simp add: w_status_def blob_image_def)
  have fr: "framed wire_env (blob_image wire_env (ub_data ?b))" "ub_len ?b = blob_raw_len wire_env (ub_data ?b)"
    unfolding blob_raw_len_def im by (simp_all add: framed_def ATTR_SIZE_def UBUS_MAX_MSGLEN_def be32_of_def w_status_def)
  have v: "blob_parse wire_env lib_policy (Raw (blob_image wire_env (ub_data ?b))) UBUS_ATTR_STATUS = Some (Blob_int32 4)"
    unfolding im by (simp add: wire_parse_def wire_value_def be32_bytes_def be32_of_def)
  have at: "blob_image wire_env (Built ?at) = [0, 0, 0, 22, 3, 0, 0, 8, 0, 0, 0, 9, 4, 0, 0, 6, 109, 0, 7, 0, 0, 4]"
    by (simp add: blob_image_def lib_invoke_attrs_def ubus_put_data_def ref_encode_def be32_bytes_def Let_def)
  have out: "Snd_fail \<notin> set (sk_out w_call)" "length ?frame \<le> snd_room (sk_out w_call)"
    "blob_pad_len wire_env (Built ?at) \<le> UBUS_MAX_MSGLEN"
    by (simp_all add: w_call_def w_lib_def msg_frame_def blob_pad_len_def at HDR_SIZE_def be32_of_def UBUS_MAX_MSGLEN_def)
  have len: "5 < length (writev_iov wire_env ?b 0)"
    by (simp add: writev_iov_def HDR_SIZE_def)
  have ins: "in_good (sk_in w_call)" "in_ready (sk_in w_call)" "in_stream (sk_in w_call) = writev_iov wire_env ?b 0 @ []"
    using w_pieces_ok [OF len] by (simp_all add: w_call_def w_lib_def)
  have idle: "0 \<le> stack_depth w_call" "lib_pending w_call = []" "\<not> sock_eof w_call" "lib_next w_call \<notin> set (requests w_call)"
    "request_seq w_call + 1 = 1" "lib_next w_call = 1" "requests w_call = []" "msgbuf_wf w_call"
    using w_lib_wf by (simp_all add: w_call_def w_lib_def)
  have hdr: "ub_hdr ?b = \<lparr>hdr_version = 0, hdr_type = ubus_msg_code UBUS_MSG_STATUS, hdr_seq = request_seq w_call + 1, hdr_peer = 9\<rparr>"
    by (simp add: w_status_def idle(5))
  have "\<forall>i. calloc_ok wire_env i" by simp
  from invoke_answered [OF wire_env_ok this idle(8) out refl ins hdr fr v idle(1-4), of "\<lambda>_ _ _. None" 0 None 0 "- 1"]
  show ?thesis
    by (auto simp: idle simp del: lib_callbacks.simps)
qed

end
