(* ===== verification/Props_Transport.thy ===== *)
theory Props_Transport
  imports Ubusd_Exec
begin

text \<open>
  Messages on a socket: what is written to a client is the concatenation of whole messages in the
  order they were sent, whatever \<open>sendmsg\<close> makes of each write, and what is read does not depend
  on how the kernel cuts it up. Encoding of headers and allocation of ids.
\<close>

section \<open>Headers\<close>

lemma u8_bit_high: "8 \<le> k \<Longrightarrow> \<not> bit (w :: u8) k"
  by (auto dest: bit_imp_le_length)

lemma be16_bytes_of: "be16_bytes (be16_of a b) = [a, b]"
  unfolding be16_bytes_def be16_of_def
  by (auto simp: bit_simps u8_bit_high intro!: bit_eqI)

lemma be32_bytes_of: "be32_bytes (be32_of a b c d) = [a, b, c, d]"
  unfolding be32_bytes_def be32_of_def
  by (auto simp: bit_simps u8_bit_high intro!: bit_eqI)

lemma hdr_decodes:
  assumes "length bs = HDR_SIZE"
  obtains h where "hdr_of_bytes bs = Some h" and "hdr_bytes h = bs"
proof -
  obtain a b c d e f g i where "bs = [a, b, c, d, e, f, g, i]"
    using assms by (auto simp: HDR_SIZE_def numeral_eq_Suc length_Suc_conv)
  then show ?thesis
    using that [of "\<lparr>hdr_version = a, hdr_type = b, hdr_seq = be16_of c d, hdr_peer = be32_of e f g i\<rparr>"]
    by (simp add: hdr_bytes_def be16_bytes_of be32_bytes_of)
qed

text \<open>Decoding the eight bytes of a message header is the inverse of encoding it: a byte sequence
  decodes to a header exactly when it is that header's encoding.\<close>

theorem header_roundtrip: "hdr_of_bytes bs = Some h \<longleftrightarrow> bs = hdr_bytes h"
proof (cases "length bs = HDR_SIZE")
  case True
  then show ?thesis by (metis hdr_decodes hdr_roundtrip option.inject)
next
  case False
  then have "hdr_of_bytes bs = None"
    by (cases bs rule: hdr_of_bytes.cases) (simp_all add: HDR_SIZE_def)
  with False show ?thesis by auto
qed

section \<open>Transmitting\<close>

lemma w_client_ready: "tx_ready ref_env 7000 (net w_daemon)"
  by (simp add: tx_ready_def w_daemon_def w_peer_def start_exec msg_exec client_exec Let_def)

lemma w_daemon_net: "net_wf (\<lambda>_. 0) (net w_daemon)"
  by (rule daemon_wfD(1) [OF invD(1) [OF w_daemon_inv]])

text \<open>C5. The transmit loop of a client never loses, repeats or reorders a byte: what has been written
  to the socket, followed by what the queue still holds, is the same before and after, however
  many partial writes there are; and it touches no other client.\<close>

theorem tx_flush_stream:
  assumes "tx_flush E cl n = Some (keep, n')" and "sendmsg_law E" and "net_wf H n" and "tx_ready E cl n"
  shows "stream E cl n' = stream E cl n \<and> tx_ready E cl n' \<and>
    (\<forall>i. i \<noteq> cl \<longrightarrow> wire n' i = wire n i \<and> clients n' i = clients n i)"
  using tx_flush_flushed [OF assms] by (simp add: flushed_def)

theorem tx_flush_stream_witness:
  "tx_flush ref_env 7000 (net w_daemon) = Some (True, net w_daemon) \<and>
   stream ref_env 7000 (net w_daemon) \<noteq> []"
proof -
  obtain c where c: "clients (net w_daemon) 7000 = Some c" "cl_tx_queue c = []"
    by (auto simp: w_daemon_def w_peer_def start_exec msg_exec client_exec Let_def)
  then have f: "tx_flush ref_env 7000 (net w_daemon) = Some (True, net w_daemon)"
    by (subst tx_flush.simps) simp
  have "wire (net w_daemon) 7000 \<noteq> []"
    by (simp add: w_daemon_def w_peer_def start_exec msg_exec client_exec Let_def hdr_bytes_def HDR_SIZE_def be16_bytes_def be32_bytes_def)
  then have "stream ref_env 7000 (net w_daemon) \<noteq> []" by (simp add: stream_def)
  with f tx_flush_stream [OF f _ w_daemon_net w_client_ready] show ?thesis
    using ref_env_ok by (simp add: lib_ok_def)
qed

text \<open>C27. The transmit loop ends: as long as \<open>sendmsg\<close> writes at least one byte when it reports
  success, the loop returns, with the queue empty, the socket full, or the client to be
  disconnected.\<close>

theorem tx_flush_terminates:
  assumes "sendmsg_law E" and "sendmsg_progress E" and "net_wf H n" and "tx_ready E cl n"
  shows "\<exists>keep n'. tx_flush E cl n = Some (keep, n')"
  using tx_flush_returns [OF assms] by auto

theorem tx_flush_terminates_witness: "\<exists>keep n'. tx_flush ref_env 7000 (net w_daemon) = Some (keep, n')"
  by (rule tx_flush_terminates [OF _ _ w_daemon_net w_client_ready])
    (use ref_env_ok in \<open>simp_all add: lib_ok_def sendmsg_progress_def\<close>)

text \<open>C6. Sending a message to a client that is not a monitor appends the encoded message to its stream
  as a whole, or drops it as a whole, or marks the client to be disconnected: a partially written
  message is never followed by another one.\<close>

theorem msg_send_whole:
  assumes "net_wf H n" and "tx_ready E cl n" and "bufs n ub = Some b" and "len_ok E b"
    and "cl \<notin> mon_cl ` set (monitors n)" and "n' = ubus_msg_send E cl ub n"
  shows "tx_ready E cl n' \<and>
      (stream E cl n' = stream E cl n @ msg_image E b \<or> stream E cl n' = stream E cl n) \<or>
    (case clients n' cl of None \<Rightarrow> False | Some c \<Rightarrow> cl_eof c)"
  using send_stream [OF assms] by (simp add: sent_whole_def)

lemma w_status: "\<exists>b. bufs (net w_daemon) 0 = Some b \<and> len_ok ref_env b \<and> monitors (net w_daemon) = []"
  by (simp add: w_daemon_def w_peer_def start_exec msg_exec client_exec Let_def len_ok_def)

theorem msg_send_whole_witness:
  "\<exists>b. bufs (net w_daemon) 0 = Some b \<and>
     (let n' = ubus_msg_send ref_env 7000 0 (net w_daemon) in
      (stream ref_env 7000 n' = stream ref_env 7000 (net w_daemon) @ msg_image ref_env b \<or>
       stream ref_env 7000 n' = stream ref_env 7000 (net w_daemon)) \<or>
      (case clients n' 7000 of None \<Rightarrow> False | Some c \<Rightarrow> cl_eof c))"
proof -
  from w_status obtain b where b: "bufs (net w_daemon) 0 = Some b" "len_ok ref_env b" "monitors (net w_daemon) = []"
    by blast
  with msg_send_whole [OF w_daemon_net w_client_ready b(1,2) _ refl] show ?thesis by (auto simp: Let_def)
qed

section \<open>Receiving\<close>

lemma splice_twice:
  assumes "ofs + length xs \<le> length old"
  shows "splice (ofs + length xs) ys (splice ofs xs old) = splice ofs (xs @ ys) old"
proof -
  have "drop (ofs + length xs + length ys) (splice ofs xs old) = drop (ofs + length (xs @ ys)) old"
    using assms by (simp add: splice_def add.commute [of "length ys"] add.assoc)
  moreover have "take (ofs + length xs) (splice ofs xs old) = take ofs old @ xs"
    using assms by (simp add: splice_def min_absorb2)
  ultimately show ?thesis by (simp only: splice_def append_assoc)
qed

lemma rx_header_pieces:
  assumes c: "clients n cl = Some c" "\<not> cl_eof c" "length (cl_hdrbuf c) = HDRBUF_SIZE"
    and len: "cl_pending_msg_offset c + length xs < HDRBUF_SIZE"
  shows "\<exists>n'. rx_header E (Some (xs, cms)) cl n = (Out, n') \<and>
    rx_header E (Some (ys, [])) cl n' = rx_header E (Some (xs @ ys, cms)) cl n"
proof -
  define ofs zs where "ofs = cl_pending_msg_offset c" and "zs = take (HDRBUF_SIZE - (ofs + length xs)) ys"
  have o: "cl_pending_msg_offset c = ofs" "ofs + length xs < HDRBUF_SIZE" "ofs < HDRBUF_SIZE" using len by (simp_all add: ofs_def)
  have t: "take (HDRBUF_SIZE - ofs) xs = xs" "take (HDRBUF_SIZE - ofs) (xs @ ys) = xs @ zs"
    using o(2) by (simp_all add: zs_def)
  have s: "splice (ofs + length xs) zs (splice ofs xs (cl_hdrbuf c)) = splice ofs (xs @ zs) (cl_hdrbuf c)"
    by (rule splice_twice) (use c(3) o in simp)
  define fd where "fd = (if cl_pending_msg_fd c < 0 \<and> 0 \<le> ubusd_recv_fd cms then ubusd_recv_fd cms else cl_pending_msg_fd c)"
  define n' where "n' = n\<lparr>clients := (clients n)(cl \<mapsto>
    c\<lparr>cl_hdrbuf := splice ofs xs (cl_hdrbuf c), cl_pending_msg_fd := fd, cl_pending_msg_offset := ofs + length xs\<rparr>)\<rparr>"
  have "rx_header E (Some (xs, cms)) cl n = (Out, n')"
    using c o t by (simp add: rx_header_def upd_client_def n'_def fd_def)
  moreover have "rx_header E (Some (ys, [])) cl n' = rx_header E (Some (xs @ ys, cms)) cl n"
    using c o t s by (simp add: rx_header_def upd_client_def n'_def fd_def [symmetric] zs_def [symmetric] Let_def add.assoc)
  ultimately show ?thesis by blast
qed

lemma rx_body_pieces:
  assumes c: "clients n cl = Some c" and b: "bufs n ub = Some b" and p: "pending_ok E (bufs n) (cl_pending_msg_offset c) ub"
    and len: "cl_pending_msg_offset c - HDR_SIZE + length xs < ub_len b" and ne: "xs \<noteq> []"
  shows "\<exists>n'. rx_body E (Some xs) cl ub n = (Out, n') \<and>
    (let (s1, n1) = rx_body E (Some ys) cl ub n'; (s2, n2) = rx_body E (Some (xs @ ys)) cl ub n;
         reset = upd_client cl (\<lambda>c. c\<lparr>cl_pending_msg_offset := 0\<rparr>)
     in s1 = s2 \<and> reset n1 = reset n2)"
proof -
  obtain bs where b': "ub_data b = Raw bs" "length bs = ub_len b" "blob_hdr_raw_len E (take 4 bs) = ub_len b"
    and hd: "HDRBUF_SIZE \<le> cl_pending_msg_offset c"
    using p b by (auto simp: pending_ok_def)
  define ofs where "ofs = cl_pending_msg_offset c - HDR_SIZE"
  have o: "cl_pending_msg_offset c = ofs + HDR_SIZE" "4 \<le> ofs" "ofs + length xs < ub_len b"
    using hd len by (simp_all add: ofs_def HDRBUF_SIZE_def HDR_SIZE_def)
  define zs where "zs = take (ub_len b - (ofs + length xs)) ys"
  have t: "take (ub_len b - ofs) xs = xs" "take (ub_len b - ofs) (xs @ ys) = xs @ zs" using o(3) by (simp_all add: zs_def)
  define b1 where "b1 = b\<lparr>ub_data := Raw (splice ofs xs bs)\<rparr>"
  define n' where "n' = n\<lparr>bufs := (bufs n)(ub \<mapsto> b1),
    clients := (clients n)(cl \<mapsto> c\<lparr>cl_pending_msg_offset := ofs + length xs + HDR_SIZE\<rparr>)\<rparr>"
  have r1: "rx_body E (Some xs) cl ub n = (Out, n')"
    using c b b' o t ne by (simp add: rx_body_def buf_store_def blob_image_def upd_buf_def upd_client_def n'_def b1_def Let_def less_diff_conv ac_simps)
  have s: "splice (ofs + length xs) zs (splice ofs xs bs) = splice ofs (xs @ zs) bs"
    by (rule splice_twice) (use b' o in simp)
  have t4: "take 4 (splice ofs xs bs) = take 4 bs" by (rule splice_take) (use o b' in simp_all)
  have zl: "length zs \<le> ub_len b - (ofs + length xs)" by (simp add: zs_def)
  show ?thesis
    using r1 c b b' o t s t4 ne zl
    by (auto simp: rx_body_def buf_store_def blob_image_def upd_buf_def upd_client_def n'_def b1_def zs_def [symmetric]
        Let_def add.assoc fun_upd_twist)
qed

text \<open>C23. The first header bytes of a message may arrive in two pieces: when the first piece does not
  complete the header, receiving it and then the second has the same effect as receiving both at
  once. The same holds for the body, up to the receive offset, which is cleared when the message
  is complete.\<close>

theorem rx_reassembly:
  assumes c: "clients n cl = Some c" and "\<not> cl_eof c" and rx: "rx_ok E (bufs n) c"
    and len: "case cl_pending_msg c of None \<Rightarrow> cl_pending_msg_offset c + length xs < HDRBUF_SIZE
      | Some ub \<Rightarrow> xs \<noteq> [] \<and> cl_pending_msg_offset c - HDR_SIZE + length xs < (case bufs n ub of None \<Rightarrow> 0 | Some b \<Rightarrow> ub_len b)"
  shows "case cl_pending_msg c of
      None \<Rightarrow> \<exists>n'. rx_header E (Some (xs, cms)) cl n = (Out, n') \<and>
        rx_header E (Some (ys, [])) cl n' = rx_header E (Some (xs @ ys, cms)) cl n
    | Some ub \<Rightarrow> \<exists>n'. rx_body E (Some xs) cl ub n = (Out, n') \<and>
        (let (s1, n1) = rx_body E (Some ys) cl ub n'; (s2, n2) = rx_body E (Some (xs @ ys)) cl ub n;
             reset = upd_client cl (\<lambda>c. c\<lparr>cl_pending_msg_offset := 0\<rparr>)
         in s1 = s2 \<and> reset n1 = reset n2)"
proof (cases "cl_pending_msg c")
  case None
  with rx_header_pieces [OF assms(1,2)] rx len show ?thesis by (simp add: rx_ok_def)
next
  case (Some ub)
  then obtain b where "bufs n ub = Some b" using len by (auto split: option.splits)
  with rx_body_pieces [OF c this] rx len Some show ?thesis by (simp add: rx_ok_def)
qed

lemma w_client_idle: "\<exists>c. clients (net w_daemon) 7000 = Some c \<and> \<not> cl_eof c \<and> cl_pending_msg c = None \<and> cl_pending_msg_offset c = 0"
  by (simp add: w_daemon_def w_peer_def start_exec msg_exec client_exec Let_def)

theorem rx_reassembly_witness:
  "\<exists>n'. rx_header ref_env (Some ([0, 5, 0], [])) 7000 (net w_daemon) = (Out, n') \<and>
     rx_header ref_env (Some ([1, 2], [])) 7000 n' = rx_header ref_env (Some ([0, 5, 0, 1, 2], [])) 7000 (net w_daemon)"
proof -
  obtain c where c: "clients (net w_daemon) 7000 = Some c" "\<not> cl_eof c" "cl_pending_msg c = None" "cl_pending_msg_offset c = 0"
    using w_client_idle by blast
  have "rx_ok ref_env (bufs (net w_daemon)) c" by (rule rx_invD [OF invD(3) [OF w_daemon_inv] c(1)])
  from rx_reassembly [OF c(1,2) this, of "[0, 5, 0]" "[]" "[1, 2]"] c(3,4) show ?thesis by (simp add: HDRBUF_SIZE_def)
qed

text \<open>C26. A complete header is accepted exactly when the length it announces is at least the four bytes
  of a blob header and at most 1 MiB after padding, and the buffer can be allocated; a header that
  is not accepted makes the daemon disconnect the client. The buffer of an accepted message has the
  announced length, which is thus bounded, and one reference.\<close>

theorem rx_start_checks:
  assumes "blob_law E" and hdr: "length hdrbuf = HDRBUF_SIZE" and cl: "clients n cl = Some c"
    and r: "rx_start E cl hdrbuf n = (s, n')"
  shows "(s = Go \<longleftrightarrow> 4 \<le> blob_hdr_raw_len E (drop HDR_SIZE hdrbuf) \<and>
        blob_hdr_pad_len E (drop HDR_SIZE hdrbuf) \<le> UBUS_MAX_MSGLEN \<and> calloc_ok E (n_calloc n)) \<and>
    (s \<noteq> Go \<longrightarrow> s = Disconnect) \<and>
    (s = Go \<longrightarrow> (\<exists>b. bufs n' (next_addr n) = Some b \<and> ub_refcount b = 1 \<and>
       hdr_bytes (ub_hdr b) = take HDR_SIZE hdrbuf \<and>
       ub_len b = blob_hdr_raw_len E (drop HDR_SIZE hdrbuf) \<and> ub_len b \<le> UBUS_MAX_MSGLEN \<and>
       (case clients n' cl of None \<Rightarrow> False | Some c' \<Rightarrow> cl_pending_msg c' = Some (next_addr n))))"
proof -
  obtain h where h: "hdr_of_bytes (take HDR_SIZE hdrbuf) = Some h" "hdr_bytes h = take HDR_SIZE hdrbuf"
    using hdr_decodes [of "take HDR_SIZE hdrbuf"] hdr by (auto simp: HDRBUF_SIZE_def HDR_SIZE_def)
  have "blob_hdr_raw_len E (drop HDR_SIZE hdrbuf) \<le> blob_hdr_pad_len E (drop HDR_SIZE hdrbuf)"
    using assms(1) by (simp add: blob_law_def)
  with r h cl hdr show ?thesis
    by (auto simp: rx_start_def Let_def ubus_msg_new_def calloc_def buf_store_def upd_buf_def upd_client_def
        HDRBUF_SIZE_def HDR_SIZE_def split: if_splits option.splits)
qed

theorem rx_start_checks_witness:
  "\<exists>n'. rx_start ref_env 7000 [0, 5, 0, 1, 0, 0, 0, 0, 0, 0, 0, 4] (net w_daemon) = (Go, n') \<and>
     (\<exists>b. bufs n' (next_addr (net w_daemon)) = Some b \<and> ub_len b = 4)"
proof -
  let ?h = "[0, 5, 0, 1, 0, 0, 0, 0, 0, 0, 0, 4] :: u8 list"
  obtain c where c: "clients (net w_daemon) 7000 = Some c" using w_client_idle by blast
  obtain s n' where r: "rx_start ref_env 7000 ?h (net w_daemon) = (s, n')" by fastforce
  have len: "blob_hdr_raw_len ref_env [0, 0, 0, 4] = 4" "blob_hdr_pad_len ref_env [0, 0, 0, 4] = 4"
    by (simp_all add: ref_env_def be32_of_def)
  from rx_start_checks [OF _ _ c r] ref_env_ok len r show ?thesis
    by (auto simp: lib_ok_def HDRBUF_SIZE_def HDR_SIZE_def UBUS_MAX_MSGLEN_def)
qed

section \<open>Ids\<close>

text \<open>C35. Allocating an id never returns one that is in use. A requested id is returned exactly when it
  is free. Otherwise the result is the first random number that is neither in use nor in the range
  reserved for the daemon's own objects, provided no read of the random source fails before.\<close>

theorem alloc_id_fresh:
  assumes "rnd n = xs @ Some i # r"
    and "\<forall>x\<in>set xs. \<exists>j. x = Some j \<and> (j < UBUS_SYSTEM_OBJECT_MAX \<or> tree j \<noteq> None)"
    and "UBUS_SYSTEM_OBJECT_MAX \<le> i" and "tree i = None"
  shows "ubus_alloc_id tree val n =
      (if val = 0 then (Some i, n\<lparr>rnd := r\<rparr>) else if tree val = None then (Some val, n) else (None, n)) \<and>
    (\<forall>j n'. ubus_alloc_id tree val n = (Some j, n') \<longrightarrow> tree j = None \<and> (val = 0 \<longrightarrow> UBUS_SYSTEM_OBJECT_MAX \<le> j))"
  using alloc_random_first [OF assms(2-4), of r] assms(1,3,4) by (simp add: ubus_alloc_id_def)

theorem alloc_id_fresh_witness:
  "fst (ubus_alloc_id [5000 \<mapsto> ()] 0 (net0 [Some 3, Some 5000, Some 6000])) = Some 6000"
  using alloc_id_fresh [of "net0 [Some 3, Some 5000, Some 6000]" "[Some 3, Some 5000]" 6000 "[]" "[5000 \<mapsto> ()]" 0]
  by (simp add: net0_def UBUS_SYSTEM_OBJECT_MAX_def)

end
