(* ===== verification/Spec2Isabelle.thy ===== *)
theory Spec2Isabelle
  imports Props_Acl Props_Daemon Props_Findings Props_Libubus Props_Lookup Props_Objects Props_Proto
    Props_Reentry Props_Registry Props_Requests Props_Transport
begin

text \<open>
  A verification of ubus, the message bus of OpenWrt: the daemon \<open>ubusd\<close> and the client library
  \<open>libubus\<close>.

  \<^bold>\<open>The program.\<close> Clients connect to \<open>ubusd\<close> over a Unix socket and exchange messages with it: an
  eight-byte header followed by a blob (the type-length-value format of libubox). A client publishes
  objects under paths, calls methods of other clients' objects, subscribes to objects and gets their
  notifications, and registers patterns for events. The daemon keeps the registry of clients,
  objects, object types, subscriptions and patterns, checks every request against access control
  files, forwards calls and replies, and copies all traffic to monitors. A client is a program linked
  with \<open>libubus\<close>, which keeps the requests it waits for and its objects, and calls the program back.

  \<^bold>\<open>The theories and the sources they model.\<close>

  \<^item> \<open>Ubus_Prelude\<close>: integer types, theorem collections, generic lemmas.
  \<^item> \<open>Ubus_Msg\<close>: src/ubusmsg.h and src/ubus_common.h, that is message types, attributes, status codes, the
    header and its big-endian encoding.
  \<^item> \<open>Ubus_Env\<close>: the functions of libubox and of the operating system that the sources call, as the
    record \<open>env\<close>, an argument \<open>E\<close> of every definition that reaches them; \<open>lib_ok\<close> is what is assumed of
    them, \<open>ref_env\<close> an environment in which it holds.
  \<^item> \<open>Ubusd_Msg\<close>: src/ubusd.c and src/ubusd.h (message buffers with reference counts, the transmit queue,
    \<open>ubus_msg_send\<close>), and \<open>ubusd_monitor_message\<close>.
  \<^item> \<open>Ubusd_Id\<close>: src/ubusd_id.c. \<open>Ubusd_State\<close>: the structs and global variables of the daemon.
    \<open>Ubus_Scan\<close> is the scan over a sorted tree that access control and events share.
  \<^item> \<open>Ubusd_Acl\<close> and \<open>Ubusd_Acl_Query\<close>: src/ubusd_acl.c. \<open>Ubusd_Event\<close>: src/ubusd_event.c. \<open>Ubusd_Obj\<close>:
    src/ubusd_obj.c. \<open>Ubusd_Monitor\<close>: src/ubusd_monitor.c.
  \<^item> \<open>Ubusd_Reply\<close> and \<open>Ubusd_Proto\<close>: src/ubusd_proto.c, one definition per handler, the handler table, and
    \<open>ubusd_proto_receive_message\<close>.
  \<^item> \<open>Ubusd_Main\<close>: the callbacks of src/ubusd_main.c and the step relation \<open>ubusd_step\<close>, one step for each
    event the loop of libubox can deliver.
  \<^item> \<open>Libubus_State\<close>: the structs of src/libubus.h. \<open>Libubus_Io\<close>: sending and receiving in src/libubus-io.c.
    \<open>Libubus_Req\<close>: src/libubus-req.c. \<open>Libubus_Obj\<close>: src/libubus-obj.c. \<open>Libubus_Core\<close>: the receive loop, the queue
    of messages and waiting for a request, which call each other across these files and src/libubus.c.
  \<^item> \<open>Libubus_Api\<close>: lookups, events and subscribers (src/libubus.c and src/libubus-sub.c). \<open>Libubus_Acl\<close>:
    src/libubus-acl.c. \<open>Libubus_Conn\<close>: connections, reconnection, channels and shutdown (src/libubus.c,
    src/libubus-io.c). \<open>Libubus_Callbacks\<close>: the functions of the library that it calls through pointers.

  \<^bold>\<open>How the state corresponds to the code.\<close> \<open>net\<close> is the transport state: clients, the heap of message
  buffers, monitors; \<open>daemon\<close> adds the registry and the access control files. Ids are 32-bit words,
  sequence numbers 16-bit words, reference counts keep the width and the special value they have in
  the code. Message buffers, subscriptions, event sources and access control entries live at explicit
  addresses, because the code shares them; following a pointer to something that is not there sets the
  flag \<open>fault\<close>. A list of C nodes is the list of addresses in list order, a string tree the
  association list in traversal order, an id tree a finite map. What goes out is recorded: bytes per
  socket (\<open>wire\<close>), messages handed to \<open>ubus_msg_send\<close> (\<open>sent\<close>), closed descriptors (\<open>closed_fds\<close>). The results
  of \<open>calloc\<close> and \<open>sendmsg\<close> are arbitrary functions of the number of the call, the results of \<open>recvmsg\<close> and
  of the random device arguments of the steps, so that the theorems hold for every failing allocation,
  every partial write and every way the input is cut into pieces.

  \<open>lib\<close> is one context of the library with the static variables of its files and the heap the library
  and the program share; again a dangling pointer sets a flag, \<open>lib_fault\<close>. Every received message has an
  address of its own, so a pointer into a message that was overwritten or freed dangles. A function
  pointer is a constructor that names the function, and a call through it is a value of \<open>lib_call\<close>. What a
  call does is the argument \<open>K\<close> of every operation, which may call the library again; \<open>lib_callbacks E A d\<close> runs
  the functions of the library, the functions of the program by \<open>A\<close>, and calls nested at most \<open>d\<close> deep. The
  results of \<open>recvmsg\<close>, \<open>sendmsg\<close> and the clock are lists in the state; an operation whose list runs out
  blocks, and its result is \<open>None\<close>.

  \<^bold>\<open>What the lemmas show.\<close>

  \<^item> \<open>Ubusd_Msg_Inv\<close>, \<open>Ubusd_Frame\<close>, \<open>Ubusd_Tx\<close>, \<open>Ubusd_Rx\<close>: reference counts equal the number of holders, no
    operation of the transport layer follows a dangling pointer, the receive slot stays in bounds.
  \<^item> \<open>Ubusd_Registry\<close>, \<open>Ubusd_Reg_Ops\<close>, \<open>Ubusd_Obj_Create\<close>, \<open>Ubusd_Close\<close>: an abstract registry, the effect of
    each operation on it, and that the operations of the code have that effect.
  \<^item> \<open>Ubusd_Acl_Load\<close>: what loading the configuration directory leaves in force.
  \<^item> \<open>Ubusd_Step\<close>, \<open>Ubusd_Handlers\<close>, \<open>Ubusd_Run\<close>, \<open>Ubusd_Reach\<close>: the contract of a handler (a locale, interpreted
    for each handler of the table), and the invariant of all reachable states.
  \<^item> \<open>Ubusd_Stream\<close>: the bytes on a socket followed by what is queued for it are a sequence of whole messages.
  \<^item> \<open>Ubusd_Sent\<close>: which messages the helpers of the handlers send, and what they close.
  \<^item> \<open>Ubusd_Exec\<close>, \<open>Ubusd_Exec_Root\<close>: concrete daemons on which the properties are exercised.
  \<^item> \<open>Libubus_Io\<close> also shows that sending writes a message whole and that receiving stays in the buffer.
    \<open>Libubus_Notify\<close>: the set of peers that the bits and the array of a notification stand for.
    \<open>Libubus_Complete\<close>: the contract of a completion callback (a locale, interpreted for the callback of
    synchronous requests), under which flushing completes every request. \<open>Libubus_Wait\<close>: a request whose
    answer comes next is completed by waiting for it.
  \<^item> \<open>Ubus_Wire\<close>: an environment in which blobs are encoded on the wire and decoded again.
  \<^item> \<open>Props_Daemon\<close>, \<open>Props_Transport\<close>, \<open>Props_Acl\<close>, \<open>Props_Registry\<close>, \<open>Props_Lookup\<close>, \<open>Props_Proto\<close>,
    \<open>Props_Findings\<close>: the properties of the daemon. \<open>Props_Libubus\<close>: sending and receiving, and what the daemon and a client receive of each
    other. \<open>Props_Requests\<close>, \<open>Props_Objects\<close>: requests, notifications and calls to the objects of a client.
    \<open>Props_Reentry\<close>: data, queries and calls that come while a callback of the library runs.

  \<^bold>\<open>Loops.\<close> Loops over lists are structural recursion. \<open>tx_flush\<close> is partial, since a \<open>sendmsg\<close> that keeps
  writing nothing makes it run forever; it is shown to return when each call makes progress. The
  receive loop recurses on the list of \<open>recvmsg\<close> results. The loops of the library that make callbacks are
  partial as well, since a callback may keep them busy; the properties show that they return. The
  depth \<open>d\<close> is arbitrary in the properties, only bounded from below by the calls they need.

  \<^bold>\<open>Not modelled.\<close> The command line tool (src/cli.c), the Lua binding (src/lua), and the example programs: output
  formatting, calls into the Lua interpreter and sample code on top of the library. The poll loop of
  libubox and its tree, list and blob functions are not part of the sources. Option parsing, daemon
  start-up and signal setup in \<open>main\<close> of src/ubusd_main.c are system calls without state of their own.
\<close>

end
